(* ===== verification/Prelude.thy ===== *)
theory Prelude
  imports Main "HOL-Library.Word" "HOL-Library.Monad_Syntax" "HOL-Library.AList"
begin

text \<open>
  Shared vocabulary of the development: machine integers, byte strings, the fault
  discipline, and the containers of the C++ standard library that the sources use.

  Faults. An execution whose C++ meaning is undefined (a vector read out of range, a
  read through a null or uninitialised pointer, \<open>front\<close> of an empty queue, a signed
  overflow) has no result: a definition that can meet one has an \<open>option\<close> result and
  is \<open>None\<close> there. \<open>Some\<close> is a completed call.
\<close>

named_theorems container_simps \<open>equations of the container model\<close>
named_theorems fault_simps \<open>equations of the fault discipline\<close>

subsection \<open>Machine integers and byte strings\<close>

type_synonym u64 = "64 word"
type_synonym u32 = "32 word"
type_synonym i32 = "32 word"
type_synonym byte = "8 word"
type_synonym bytes = "8 word list"

text \<open>
  \<open>size_t\<close> is 64 bits wide. \<open>sz xs\<close> is what \<open>size()\<close> returns.
\<close>

definition sz :: "'a list \<Rightarrow> u64" where
  "sz xs = of_nat (length xs)"

text \<open>Conversions of a 32-bit signed value to 64 bits (sign extension) and back.\<close>

definition i32_of_u64 :: "u64 \<Rightarrow> i32" where
  "i32_of_u64 w = ucast w"

definition u64_of_i32 :: "i32 \<Rightarrow> u64" where
  "u64_of_i32 w = scast w"

definition u64_of_u32 :: "u32 \<Rightarrow> u64" where
  "u64_of_u32 w = ucast w"

lemma unat_sz: "length xs < 2 ^ 64 \<Longrightarrow> unat (sz xs) = length xs"
  by (simp add: sz_def unat_of_nat take_bit_nat_eq_self)

lemma sz_Nil [simp]: "sz [] = 0"
  by (simp add: sz_def)

lemma sz_append [container_simps]: "sz (xs @ ys) = sz xs + sz ys"
  by (simp add: sz_def)

lemma less_plus_one_unat: "(n::u64) + 1 \<noteq> 0 \<Longrightarrow> unat (n + 1) = Suc (unat n)"
  by (metis add.commute unatSuc)

lemma word_less_plus_one: "(n::u64) + 1 \<noteq> 0 \<Longrightarrow> n < n + 1"
  by (simp add: word_less_nat_alt less_plus_one_unat)

text \<open>Which 64-bit values survive a pass through a signed 32-bit integer.\<close>

lemma uint_widen: "uint (u64_of_i32 (i32_of_u64 n)) = (signed_take_bit 31 (uint n)) mod 2 ^ 64"
  unfolding u64_of_i32_def i32_of_u64_def
  by transfer (simp add: signed_take_bit_take_bit, simp add: take_bit_eq_mod)

lemma i32_roundtrip [simp]: "i32_of_u64 (u64_of_i32 w) = w"
  unfolding u64_of_i32_def i32_of_u64_def
  by transfer (simp add: take_bit_signed_take_bit)

lemma widen_narrow:
  "u64_of_i32 (i32_of_u64 n) = n \<longleftrightarrow> unat n < 2 ^ 31 \<or> 2 ^ 64 - 2 ^ 31 \<le> unat n"
proof -
  define k where "k = uint n"
  have "uint n < 2 ^ LENGTH(64)" by (rule unsigned_less)
  then have n0: "0 \<le> k" "k < 18446744073709551616" by (simp_all add: k_def)
  define q where "q = (k + 2 ^ 31) div 2 ^ 32"
  define s where "s = (k + 2 ^ 31) mod 2 ^ 32 - 2 ^ 31"
  have "2 ^ 32 * q + (s + 2 ^ 31) = k + 2 ^ 31"
    by (simp only: q_def s_def diff_add_cancel mult_div_mod_eq)
  then have ks: "k = 4294967296 * q + s" by simp
  have s: "- 2147483648 \<le> s" "s < 2147483648" by (simp_all add: s_def)
  have st: "signed_take_bit 31 k = s"
    by (simp add: signed_take_bit_eq_take_bit_shift s_def take_bit_eq_mod)
  have key: "s mod 2 ^ 64 = k \<longleftrightarrow> k < 2147483648 \<or> 18446744071562067968 \<le> k"
  proof (cases "0 \<le> s")
    case True
    then have m: "s mod 2 ^ 64 = s" using s by (simp add: mod_pos_pos_trivial)
    have b: "0 \<le> q" "q \<le> 4294967295" using ks n0 s True by linarith+
    then consider "q = 0" | "1 \<le> q" "q \<le> 4294967295" by force
    then show ?thesis
    proof cases
      case 2
      then have "s \<noteq> k" "\<not> k < 2147483648" "\<not> 18446744071562067968 \<le> k" using ks s True by auto
      then show ?thesis using m by metis
    qed (use m ks s in simp)
  next
    case False
    have "s mod 2 ^ 64 = (s + 2 ^ 64) mod 2 ^ 64" by simp
    also have "\<dots> = s + 2 ^ 64" using s False by (intro mod_pos_pos_trivial) auto
    finally have m: "s mod 2 ^ 64 = s + 2 ^ 64" .
    have b: "1 \<le> q" "q \<le> 4294967296" using ks n0 s False by linarith+
    then consider "q = 4294967296" | "1 \<le> q" "q \<le> 4294967295" by force
    then show ?thesis
    proof cases
      case 2
      then have "s + 2 ^ 64 \<noteq> k" "\<not> k < 2147483648" "\<not> 18446744071562067968 \<le> k" using ks s False by auto
      then show ?thesis using m by metis
    qed (use m ks s in simp)
  qed
  have "k < 2147483648 \<longleftrightarrow> unat n < 2147483648"
    and "18446744071562067968 \<le> k \<longleftrightarrow> 18446744071562067968 \<le> unat n"
    unfolding k_def uint_nat by linarith+
  then show ?thesis unfolding word_uint_eq_iff uint_widen k_def [symmetric] st key by simp
qed
subsection \<open>Pointers\<close>

text \<open>
  A raw pointer member is null, points to an object, or was never initialised. Reading
  an uninitialised pointer, even to compare it with \<open>nullptr\<close>, is undefined.
\<close>

datatype 'a ptr = Null | Pointing 'a | Wild

fun ptr_read :: "'a ptr \<Rightarrow> 'a option option" where
  "ptr_read Null = Some None"
| "ptr_read (Pointing x) = Some (Some x)"
| "ptr_read Wild = None"

lemma ptr_read_Some [fault_simps]:
  "ptr_read p = Some x \<longleftrightarrow> (p = Null \<and> x = None) \<or> (\<exists>y. p = Pointing y \<and> x = Some y)"
  by (cases p) auto

lemma ptr_read_None [fault_simps]: "ptr_read p = None \<longleftrightarrow> p = Wild"
  by (cases p) auto

subsection \<open>std::vector\<close>

definition vec_at :: "'a list \<Rightarrow> u64 \<Rightarrow> 'a option" where
  "vec_at xs i = (if unat i < length xs then Some (xs ! unat i) else None)"

definition vec_range :: "'a list \<Rightarrow> int \<Rightarrow> int \<Rightarrow> 'a list option" where
  "vec_range xs a b =
     (if 0 \<le> a \<and> a \<le> b \<and> b \<le> int (length xs)
      then Some (take (nat b - nat a) (drop (nat a) xs)) else None)"

lemma vec_at_Some [container_simps]:
  "vec_at xs i = Some x \<longleftrightarrow> unat i < length xs \<and> xs ! unat i = x"
  by (simp add: vec_at_def)

lemma vec_at_None [container_simps]: "vec_at xs i = None \<longleftrightarrow> length xs \<le> unat i"
  by (simp add: vec_at_def not_less)

lemma vec_range_full: "vec_range xs 0 (int (length xs)) = Some xs"
  by (simp add: vec_range_def)

subsection \<open>std::unordered_map\<close>

text \<open>
  An unordered map is the association list of its entries in iteration order. The
  standard leaves that order open; the model appends a new key at the end, and no
  property of the development depends on the order. \<open>umap_touch\<close> is what \<open>m[k]\<close>
  does to the map (a missing key is inserted with a value-initialised element),
  \<open>umap_get\<close> the element it then refers to, \<open>umap_set\<close> an assignment through it.
\<close>

type_synonym ('k, 'v) umap = "('k \<times> 'v) list"

definition umap_has :: "'k \<Rightarrow> ('k, 'v) umap \<Rightarrow> bool" where
  "umap_has k m = (map_of m k \<noteq> None)"

definition umap_get :: "'v \<Rightarrow> 'k \<Rightarrow> ('k, 'v) umap \<Rightarrow> 'v" where
  "umap_get d k m = (case map_of m k of Some v \<Rightarrow> v | None \<Rightarrow> d)"

definition umap_set :: "'k \<Rightarrow> 'v \<Rightarrow> ('k, 'v) umap \<Rightarrow> ('k, 'v) umap" where
  "umap_set k v m = AList.update k v m"

definition umap_touch :: "'v \<Rightarrow> 'k \<Rightarrow> ('k, 'v) umap \<Rightarrow> ('k, 'v) umap" where
  "umap_touch d k m = (if umap_has k m then m else umap_set k d m)"

definition umap_erase :: "'k \<Rightarrow> ('k, 'v) umap \<Rightarrow> ('k, 'v) umap" where
  "umap_erase k m = AList.delete k m"

definition umap_ok :: "('k, 'v) umap \<Rightarrow> bool" where
  "umap_ok m = distinct (map fst m)"

lemma umap_has_iff: "umap_has k m \<longleftrightarrow> k \<in> fst ` set m"
  by (simp add: umap_has_def map_of_eq_None_iff)

lemma map_of_umap_set [container_simps]: "map_of (umap_set k v m) = (map_of m)(k \<mapsto> v)"
  by (simp add: umap_set_def update_conv')

lemma umap_get_set [container_simps]:
  "umap_get d k (umap_set k' v m) = (if k = k' then v else umap_get d k m)"
  by (simp add: umap_get_def map_of_umap_set)

lemma umap_has_set [container_simps]: "umap_has k (umap_set k' v m) \<longleftrightarrow> k = k' \<or> umap_has k m"
  by (simp add: umap_has_def map_of_umap_set)

lemma umap_ok_set [intro, container_simps]: "umap_ok m \<Longrightarrow> umap_ok (umap_set k v m)"
  by (simp add: umap_ok_def umap_set_def distinct_update)

lemma umap_has_touch [container_simps]: "umap_has k (umap_touch d k' m) \<longleftrightarrow> k = k' \<or> umap_has k m"
  by (auto simp: umap_touch_def umap_has_set)

lemma umap_get_touch [container_simps]: "umap_get d k (umap_touch d k' m) = umap_get d k m"
  by (simp add: umap_touch_def umap_get_def umap_has_def map_of_umap_set)

lemma umap_touch_id [simp]: "umap_has k m \<Longrightarrow> umap_touch d k m = m"
  by (simp add: umap_touch_def)

lemma umap_ok_touch [intro, container_simps]: "umap_ok m \<Longrightarrow> umap_ok (umap_touch d k m)"
  by (simp add: umap_touch_def umap_ok_set)

lemma umap_ok_erase [intro, container_simps]: "umap_ok m \<Longrightarrow> umap_ok (umap_erase k m)"
  by (simp add: umap_ok_def umap_erase_def distinct_delete)

lemma umap_has_erase [container_simps]: "umap_has k (umap_erase k' m) \<longleftrightarrow> k \<noteq> k' \<and> umap_has k m"
  by (auto simp: umap_has_def umap_erase_def delete_conv')

lemma umap_set_in:
  "(k, v) \<in> set (umap_set k' v' m) \<Longrightarrow> umap_ok m \<Longrightarrow> (k = k' \<and> v = v') \<or> (k \<noteq> k' \<and> (k, v) \<in> set m)"
  by (metis container_simps(1) distinct_update fun_upd_other fun_upd_same map_of_SomeD
      map_of_is_SomeI option.inject umap_ok_def umap_set_def map_of_umap_set)

lemma umap_get_in: "umap_has k m \<Longrightarrow> (k, umap_get d k m) \<in> set m"
  by (auto simp: umap_has_def umap_get_def dest: map_of_SomeD)

lemma umap_get_eq: "(k, v) \<in> set m \<Longrightarrow> umap_ok m \<Longrightarrow> umap_get d k m = v"
  by (simp add: umap_get_def umap_ok_def)

subsection \<open>Sequencing over a container\<close>

text \<open>
  \<open>foreach f xs s\<close> runs \<open>f\<close> on the elements of \<open>xs\<close> in order, threading the state;
  the first fault ends it.
\<close>

fun foreach :: "('a \<Rightarrow> 's \<Rightarrow> 's option) \<Rightarrow> 'a list \<Rightarrow> 's \<Rightarrow> 's option" where
  "foreach f [] s = Some s"
| "foreach f (x # xs) s = do { t \<leftarrow> f x s; foreach f xs t }"

lemma foreach_inv:
  assumes "foreach f xs s = Some t" and "P s"
    and "\<And>x u v. x \<in> set xs \<Longrightarrow> P u \<Longrightarrow> f x u = Some v \<Longrightarrow> P v"
  shows "P t"
  using assms
proof (induction xs arbitrary: s)
  case Nil
  then show ?case by simp
next
  case (Cons x xs)
  from Cons.prems(1) obtain u where u: "f x s = Some u" "foreach f xs u = Some t"
    by (auto simp: bind_eq_Some_conv)
  have "P u" using Cons.prems(2,3) u(1) by auto
  then show ?case using Cons.IH [OF u(2)] Cons.prems(3) by auto
qed

lemma foreach_rel:
  assumes "foreach f xs s = Some t" and "\<And>u. R u u"
    and "\<And>u v w. R u v \<Longrightarrow> R v w \<Longrightarrow> R u w"
    and "\<And>x u v. x \<in> set xs \<Longrightarrow> f x u = Some v \<Longrightarrow> R u v"
  shows "R s t"
  by (rule foreach_inv [where P = "R s", OF assms(1)]) (use assms in blast)+

lemma foreach_no_fault:
  assumes "P s" and "\<And>x u. x \<in> set xs \<Longrightarrow> P u \<Longrightarrow> \<exists>v. f x u = Some v \<and> P v"
  shows "\<exists>t. foreach f xs s = Some t \<and> P t"
  using assms
proof (induction xs arbitrary: s)
  case Nil
  then show ?case by simp
next
  case (Cons x xs)
  obtain u where u: "f x s = Some u" "P u" using Cons.prems by (meson list.set_intros(1))
  then obtain t where "foreach f xs u = Some t" "P t"
    using Cons.IH [of u] Cons.prems(2) by (meson list.set_intros(2))
  with u show ?case by auto
qed

end
