(* ===== verification/Raftpb.thy ===== *)
theory Raftpb
  imports Prelude
begin

text \<open>
  The messages of \<^verbatim>\<open>sapphiredb/raft/raftpb/raftpb.proto\<close> as the generated classes of
  \<^verbatim>\<open>raftpb.pb.h\<close> hold them. A scalar field is its value (zero when never set), a
  \<open>bytes\<close> field a byte string, a repeated field a list, a sub-message field the
  pointer of the class: \<open>None\<close> is the null pointer, for which the getter returns the
  default instance. \<open>unknown\<close> is what \<open>_internal_metadata_\<close> keeps: the wire bytes of
  fields the schema does not name. The getters and setters of a class are the
  selectors and updates of its record, \<open>new_X\<close> is the default constructor.
\<close>

subsection \<open>Enumerations\<close>

text \<open>
  Proto3 enums are open: a value read from the wire that no enumerator has is kept as
  the integer it is, which the last constructor stands for.
\<close>

datatype EntryType = EntryTrival | EntryNormal | EntryConfChange | EntryTypeOther i32

datatype MessageType =
    MsgTrival | MsgHeartbeat | MsgHeartbeatResp | MsgVote | MsgVoteResp | MsgApp
  | MsgAppResp | MsgHup | MsgCheckQuorum | MsgTransferLeader | MsgSnap | MsgNode
  | MsgNodeResp | MsgBeat | MsgProp | MessageTypeOther i32

fun EntryType_value :: "EntryType \<Rightarrow> i32" where
  "EntryType_value EntryTrival = 0"
| "EntryType_value EntryNormal = 1"
| "EntryType_value EntryConfChange = 2"
| "EntryType_value (EntryTypeOther n) = n"

definition EntryType_IsValid :: "i32 \<Rightarrow> bool" where
  "EntryType_IsValid v = (v = 0 \<or> v = 1 \<or> v = 2)"

definition EntryType_cast :: "i32 \<Rightarrow> EntryType" where
  "EntryType_cast v =
     (if v = 0 then EntryTrival else if v = 1 then EntryNormal
      else if v = 2 then EntryConfChange else EntryTypeOther v)"

fun MessageType_value :: "MessageType \<Rightarrow> i32" where
  "MessageType_value MsgTrival = 0"
| "MessageType_value MsgHeartbeat = 1"
| "MessageType_value MsgHeartbeatResp = 2"
| "MessageType_value MsgVote = 3"
| "MessageType_value MsgVoteResp = 4"
| "MessageType_value MsgApp = 5"
| "MessageType_value MsgAppResp = 6"
| "MessageType_value MsgHup = 7"
| "MessageType_value MsgCheckQuorum = 8"
| "MessageType_value MsgTransferLeader = 9"
| "MessageType_value MsgSnap = 10"
| "MessageType_value MsgNode = 11"
| "MessageType_value MsgNodeResp = 12"
| "MessageType_value MsgBeat = 13"
| "MessageType_value MsgProp = 14"
| "MessageType_value (MessageTypeOther n) = n"

definition MessageType_enumerators :: "MessageType list" where
  "MessageType_enumerators =
     [MsgTrival, MsgHeartbeat, MsgHeartbeatResp, MsgVote, MsgVoteResp, MsgApp, MsgAppResp,
      MsgHup, MsgCheckQuorum, MsgTransferLeader, MsgSnap, MsgNode, MsgNodeResp, MsgBeat,
      MsgProp]"

definition MessageType_IsValid :: "i32 \<Rightarrow> bool" where
  "MessageType_IsValid v = (v \<in> set (map MessageType_value MessageType_enumerators))"

definition MessageType_cast :: "i32 \<Rightarrow> MessageType" where
  "MessageType_cast v =
     (case find (\<lambda>t. MessageType_value t = v) MessageType_enumerators of
        Some t \<Rightarrow> t | None \<Rightarrow> MessageTypeOther v)"

text \<open>A value of the enum type is canonical when it is the one the cast produces.\<close>

definition EntryType_ok :: "EntryType \<Rightarrow> bool" where
  "EntryType_ok t = (case t of EntryTypeOther v \<Rightarrow> \<not> EntryType_IsValid v | _ \<Rightarrow> True)"

definition MessageType_ok :: "MessageType \<Rightarrow> bool" where
  "MessageType_ok t = (case t of MessageTypeOther v \<Rightarrow> \<not> MessageType_IsValid v | _ \<Rightarrow> True)"

lemma EntryType_cast_value: "EntryType_ok t \<Longrightarrow> EntryType_cast (EntryType_value t) = t"
  by (cases t) (auto simp: EntryType_ok_def EntryType_cast_def EntryType_IsValid_def)

lemma EntryType_value_cast: "EntryType_value (EntryType_cast v) = v"
  by (simp add: EntryType_cast_def)

lemma EntryType_cast_ok: "EntryType_ok (EntryType_cast v)"
  by (simp add: EntryType_ok_def EntryType_cast_def EntryType_IsValid_def)

lemma MessageType_cast_value: "MessageType_ok t \<Longrightarrow> MessageType_cast (MessageType_value t) = t"
  by (cases t) (auto simp: MessageType_ok_def MessageType_cast_def MessageType_IsValid_def
      MessageType_enumerators_def find_None_iff)

lemma MessageType_value_cast: "MessageType_value (MessageType_cast v) = v"
  by (auto simp: MessageType_cast_def find_Some_iff split: option.splits)

lemma MessageType_cast_ok: "MessageType_ok (MessageType_cast v)"
  by (simp add: MessageType_ok_def MessageType_cast_def MessageType_IsValid_def
      MessageType_enumerators_def)

text \<open>The values of the enum are ordered by their numbers.\<close>

instantiation MessageType :: preorder
begin

definition less_eq_MessageType :: "MessageType \<Rightarrow> MessageType \<Rightarrow> bool" where
  "s \<le> t \<longleftrightarrow> MessageType_value s \<le> MessageType_value t"

definition less_MessageType :: "MessageType \<Rightarrow> MessageType \<Rightarrow> bool" where
  "s < t \<longleftrightarrow> MessageType_value s < MessageType_value t"

instance
  by standard (auto simp: less_eq_MessageType_def less_MessageType_def)

end

subsection \<open>Messages\<close>

record ConfState =
  cs_nodes :: "u64 list"
  cs_learners :: "u64 list"
  cs_unknown :: bytes

record Entry =
  e_type :: EntryType
  e_term :: u64
  e_index :: u64
  e_data :: bytes
  e_unknown :: bytes

record SnapshotMetadata =
  sm_conf_state :: "ConfState option"
  sm_index :: u64
  sm_term :: u64
  sm_unknown :: bytes

record Snapshot =
  sn_data :: bytes
  sn_metadata :: "SnapshotMetadata option"
  sn_unknown :: bytes

record HardState =
  hs_term :: u64
  hs_vote :: u64
  hs_commit :: u64
  hs_unknown :: bytes

record StoragePB =
  st_offset :: u64
  st_snap :: "Snapshot option"
  st_entries :: "Entry list"
  st_hardstate :: "HardState option"
  st_unknown :: bytes

record Message =
  m_type :: MessageType
  m_to :: u64
  m_from :: u64
  m_term :: u64
  m_logterm :: u64
  m_index :: u64
  m_entries :: "Entry list"
  m_commit :: u64
  m_snapshot :: "Snapshot option"
  m_reject :: bool
  m_rejecthint :: u64
  m_context :: bytes
  m_unknown :: bytes

subsection \<open>Default instances and the getters of sub-messages\<close>

definition new_ConfState :: ConfState where
  "new_ConfState = \<lparr>cs_nodes = [], cs_learners = [], cs_unknown = []\<rparr>"

definition new_Entry :: Entry where
  "new_Entry = \<lparr>e_type = EntryTrival, e_term = 0, e_index = 0, e_data = [], e_unknown = []\<rparr>"

definition new_SnapshotMetadata :: SnapshotMetadata where
  "new_SnapshotMetadata = \<lparr>sm_conf_state = None, sm_index = 0, sm_term = 0, sm_unknown = []\<rparr>"

definition new_Snapshot :: Snapshot where
  "new_Snapshot = \<lparr>sn_data = [], sn_metadata = None, sn_unknown = []\<rparr>"

definition new_HardState :: HardState where
  "new_HardState = \<lparr>hs_term = 0, hs_vote = 0, hs_commit = 0, hs_unknown = []\<rparr>"

definition new_StoragePB :: StoragePB where
  "new_StoragePB = \<lparr>st_offset = 0, st_snap = None, st_entries = [], st_hardstate = None,
     st_unknown = []\<rparr>"

definition new_Message :: Message where
  "new_Message = \<lparr>m_type = MsgTrival, m_to = 0, m_from = 0, m_term = 0, m_logterm = 0,
     m_index = 0, m_entries = [], m_commit = 0, m_snapshot = None, m_reject = False,
     m_rejecthint = 0, m_context = [], m_unknown = []\<rparr>"

definition SnapshotMetadata_conf_state :: "SnapshotMetadata \<Rightarrow> ConfState" where
  "SnapshotMetadata_conf_state m =
     (case sm_conf_state m of Some c \<Rightarrow> c | None \<Rightarrow> new_ConfState)"

definition Snapshot_metadata :: "Snapshot \<Rightarrow> SnapshotMetadata" where
  "Snapshot_metadata s = (case sn_metadata s of Some m \<Rightarrow> m | None \<Rightarrow> new_SnapshotMetadata)"

definition StoragePB_snap :: "StoragePB \<Rightarrow> Snapshot" where
  "StoragePB_snap s = (case st_snap s of Some x \<Rightarrow> x | None \<Rightarrow> new_Snapshot)"

definition StoragePB_hardstate :: "StoragePB \<Rightarrow> HardState" where
  "StoragePB_hardstate s = (case st_hardstate s of Some x \<Rightarrow> x | None \<Rightarrow> new_HardState)"

lemma new_Message_sel [simp]:
  "m_type new_Message = MsgTrival" "m_to new_Message = 0" "m_from new_Message = 0"
  "m_term new_Message = 0" "m_logterm new_Message = 0" "m_index new_Message = 0"
  "m_entries new_Message = []" "m_commit new_Message = 0" "m_snapshot new_Message = None"
  "m_reject new_Message = False" "m_rejecthint new_Message = 0" "m_context new_Message = []"
  "m_unknown new_Message = []"
  by (simp_all add: new_Message_def)

lemma new_Entry_sel [simp]:
  "e_type new_Entry = EntryTrival" "e_term new_Entry = 0" "e_index new_Entry = 0"
  "e_data new_Entry = []" "e_unknown new_Entry = []"
  by (simp_all add: new_Entry_def)

end
