(* ===== verification/Interfaces.thy ===== *)
theory Interfaces
  imports Prelude
begin

text \<open>
  Contracts that several components meet. \<open>fifo_queue\<close>: a state with a queue in it, read
  through \<open>contents\<close>; \<open>invariant_system\<close> and \<open>monotone_system\<close>: a step relation with a
  property every step keeps, or a value no step lowers; \<open>byte_codec\<close>: a serialiser and
  the parser that undoes it. Each component interprets them on its own operations.
\<close>

subsection \<open>FIFO queues\<close>

locale fifo_queue =
  fixes enq :: "'a \<Rightarrow> 's \<Rightarrow> 's"
    and deq :: "'s \<Rightarrow> ('a \<times> 's) option"
    and contents :: "'s \<Rightarrow> 'a list"
  assumes contents_enq: "contents (enq x s) = contents s @ [x]"
    and deq_None: "deq s = None \<longleftrightarrow> contents s = []"
    and deq_Some: "deq s = Some (x, t) \<Longrightarrow> contents s = x # contents t"
begin

text \<open>A script of operations: \<open>Some x\<close> puts \<open>x\<close>, \<open>None\<close> takes; a take from an empty queue is skipped.\<close>

fun run :: "'a option list \<Rightarrow> 's \<Rightarrow> 'a list \<times> 's" where
  "run [] s = ([], s)"
| "run (Some x # ops) s = run ops (enq x s)"
| "run (None # ops) s =
     (case deq s of
        None \<Rightarrow> run ops s
      | Some (x, t) \<Rightarrow> let (out, u) = run ops t in (x # out, u))"

lemma fifo:
  "run ops s = (out, t) \<Longrightarrow> contents s @ List.map_filter (\<lambda>x. x) ops = out @ contents t"
proof (induction ops s arbitrary: out t rule: run.induct)
  case (1 s)
  then show ?case by (simp add: List.map_filter_def)
next
  case (2 x ops s)
  then show ?case by (auto simp: List.map_filter_simps contents_enq)
next
  case (3 ops s)
  then show ?case
    by (auto simp: List.map_filter_simps deq_None dest: deq_Some split: option.splits prod.splits)
qed

lemma deq_enq_empty: "contents s = [] \<Longrightarrow> \<exists>t. deq (enq x s) = Some (x, t) \<and> contents t = []"
  by (metis contents_enq append_Nil deq_None deq_Some list.inject not_Cons_self2 option.exhaust
      surj_pair)

end

subsection \<open>Step relations\<close>

locale invariant_system =
  fixes step :: "'s \<Rightarrow> 's \<Rightarrow> bool" and inv :: "'s \<Rightarrow> bool"
  assumes keeps: "step s t \<Longrightarrow> inv s \<Longrightarrow> inv t"
begin

lemma keeps_star: "step\<^sup>*\<^sup>* s t \<Longrightarrow> inv s \<Longrightarrow> inv t"
  by (induction rule: rtranclp_induct) (auto intro: keeps)

end

locale monotone_system =
  fixes step :: "'s \<Rightarrow> 's \<Rightarrow> bool" and val :: "'s \<Rightarrow> 'v::preorder"
  assumes grows: "step s t \<Longrightarrow> val s \<le> val t"
begin

lemma grows_star: "step\<^sup>*\<^sup>* s t \<Longrightarrow> val s \<le> val t"
  by (induction rule: rtranclp_induct) (auto intro: order_trans dest: grows)

end

subsection \<open>Serialisation\<close>

locale byte_codec =
  fixes ser :: "'a \<Rightarrow> bytes" and parse :: "bytes \<Rightarrow> 'a" and valid :: "'a \<Rightarrow> bool"
  assumes parse_ser: "valid x \<Longrightarrow> parse (ser x) = x"
begin

lemma ser_inj: "valid x \<Longrightarrow> valid y \<Longrightarrow> ser x = ser y \<Longrightarrow> x = y"
  by (metis parse_ser)

end

end
