(* ===== verification/Wire_Format.thy ===== *)
theory Wire_Format
  imports Raftpb Interfaces
begin

unbundle bit_operations_syntax

text \<open>
  What the generated classes of \<^verbatim>\<open>raftpb.pb.cc\<close> call in the protobuf runtime, which is
  not part of the repository: the fields of the record \<open>wire\<close>. A reader takes the
  remaining input and the old value of the variable it fills, and returns whether it
  succeeded, the value the variable then has, and the input that is left. \<open>wire_laws\<close>
  states what the classes rely on: a reader undoes its writer, the size functions tell
  the length of what is written, reading consumes input. \<open>parse_loop\<close> is the loop all
  the generated parsers share.
\<close>

record wire =
  W_tag :: "bytes \<Rightarrow> u32 \<times> bool \<times> bytes" \<comment> \<open>\<open>ReadTagWithCutoffNoLastTag(127u)\<close>\<close>
  W_uint64 :: "bytes \<Rightarrow> u64 \<Rightarrow> bool \<times> u64 \<times> bytes"
  W_enum :: "bytes \<Rightarrow> i32 \<Rightarrow> bool \<times> i32 \<times> bytes"
  W_bool :: "bytes \<Rightarrow> bool \<Rightarrow> bool \<times> bool \<times> bytes"
  W_bytes :: "bytes \<Rightarrow> bytes \<Rightarrow> bool \<times> bytes \<times> bytes"
  W_packed :: "bytes \<Rightarrow> u64 list \<Rightarrow> bool \<times> u64 list \<times> bytes"
  W_repeated :: "u32 \<Rightarrow> bytes \<Rightarrow> u64 list \<Rightarrow> bool \<times> u64 list \<times> bytes"
  W_limit :: "bytes \<Rightarrow> (bytes \<times> bool \<times> bytes) option"
    \<comment> \<open>the length prefix of \<open>ReadMessage\<close>: the bytes under the limit, whether all were there\<close>
  W_skip :: "u32 \<Rightarrow> bytes \<Rightarrow> bool \<times> bytes \<times> bytes" \<comment> \<open>\<open>SkipField\<close>, with the bytes it keeps\<close>
  W_preserve :: bool \<comment> \<open>\<open>GetProto3PreserveUnknownsDefault\<close>\<close>
  W_put_uint64 :: "nat \<Rightarrow> u64 \<Rightarrow> bytes"
  W_put_enum :: "nat \<Rightarrow> i32 \<Rightarrow> bytes"
  W_put_bool :: "nat \<Rightarrow> bool \<Rightarrow> bytes"
  W_put_bytes :: "nat \<Rightarrow> bytes \<Rightarrow> bytes"
  W_put_message :: "nat \<Rightarrow> i32 \<Rightarrow> bytes \<Rightarrow> bytes" \<comment> \<open>with the cached size and the body\<close>
  W_put_tag :: "nat \<Rightarrow> nat \<Rightarrow> bytes"
  W_put_varint32 :: "u32 \<Rightarrow> bytes"
  W_put_uint64_notag :: "u64 \<Rightarrow> bytes"
  W_size_uint64 :: "u64 \<Rightarrow> u64"
  W_size_uint64s :: "u64 list \<Rightarrow> u64"
  W_size_int32 :: "i32 \<Rightarrow> u64"
  W_size_enum :: "i32 \<Rightarrow> u64"
  W_size_bytes :: "bytes \<Rightarrow> u64"
  W_size_message :: "u64 \<Rightarrow> u64" \<comment> \<open>\<open>MessageSize\<close>, of the sub-message's \<open>ByteSizeLong\<close>\<close>
  W_size_unknown :: "bytes \<Rightarrow> u64"
  W_arr_uint64 :: "nat \<Rightarrow> u64 \<Rightarrow> bytes \<Rightarrow> bytes" \<comment> \<open>the \<open>ToArray\<close> writers, after what the array holds\<close>
  W_arr_enum :: "nat \<Rightarrow> i32 \<Rightarrow> bytes \<Rightarrow> bytes"
  W_arr_bool :: "nat \<Rightarrow> bool \<Rightarrow> bytes \<Rightarrow> bytes"
  W_arr_bytes :: "nat \<Rightarrow> bytes \<Rightarrow> bytes \<Rightarrow> bytes"
  W_arr_message :: "nat \<Rightarrow> i32 \<Rightarrow> (bytes \<Rightarrow> bytes) \<Rightarrow> bytes \<Rightarrow> bytes"
  W_arr_tag :: "nat \<Rightarrow> nat \<Rightarrow> bytes \<Rightarrow> bytes"
  W_arr_varint32 :: "u32 \<Rightarrow> bytes \<Rightarrow> bytes"
  W_arr_uint64s :: "u64 list \<Rightarrow> bytes \<Rightarrow> bytes"
  W_arr_unknown :: "bytes \<Rightarrow> bytes \<Rightarrow> bytes"

subsection \<open>The parsing loop\<close>

text \<open>What the \<open>switch\<close> over the field number does with one tag.\<close>

datatype 'm parsed = Parsed 'm bytes | Failed 'm | Unusual | Endless

definition tag_is :: "u32 \<Rightarrow> u32 \<Rightarrow> byte \<Rightarrow> bool" where
  "tag_is tag field low = (drop_bit 3 tag = field \<and> (ucast tag :: byte) = low)"

definition read_into :: "bool \<times> 'a \<times> bytes \<Rightarrow> ('a \<Rightarrow> 'm) \<Rightarrow> 'm parsed" where
  "read_into x f = (case x of (ok, v, rest) \<Rightarrow> if ok then Parsed (f v) rest else Failed (f v))"

text \<open>An enum is read into a local variable and stored when the read succeeded.\<close>

definition read_enum :: "wire \<Rightarrow> bytes \<Rightarrow> (i32 \<Rightarrow> 'm) \<Rightarrow> 'm \<Rightarrow> 'm parsed" where
  "read_enum W inp f m =
     (case W_enum W inp 0 of (ok, v, rest) \<Rightarrow> if ok then Parsed (f v) rest else Failed m)"

text \<open>
  The \<open>for(;;)\<close> of \<open>MergePartialFromCodedStream\<close>. Every turn reads a tag; the bound \<open>n\<close> on
  the turns is enough when it exceeds the length of the input, since a tag takes a byte.
  \<open>None\<close> is the loop cut off by the bound. A tag 0 ends the loop with success; both callers,
  \<open>ReadMessage\<close> and \<open>ParseFromString\<close>, then ask \<open>ConsumedEntireMessage\<close>, which holds at the
  end of the input and not at a tag that reads as 0, so the answer says both at once.
\<close>

fun parse_loop :: "wire \<Rightarrow> (u32 \<Rightarrow> bytes \<Rightarrow> 'm \<Rightarrow> 'm parsed) \<Rightarrow> (bytes \<Rightarrow> 'm \<Rightarrow> 'm) \<Rightarrow>
    nat \<Rightarrow> bytes \<Rightarrow> 'm \<Rightarrow> (bool \<times> 'm) option" where
  "parse_loop W field keep 0 inp m = None"
| "parse_loop W field keep (Suc n) inp m =
     (let (tag, ok, rest) = W_tag W inp
      in case (if ok then field tag rest m else Unusual) of
           Parsed m' rest' \<Rightarrow> parse_loop W field keep n rest' m'
         | Failed m' \<Rightarrow> Some (False, m')
         | Endless \<Rightarrow> None
         | Unusual \<Rightarrow>
             (if tag = 0 then Some (inp = [], m)
              else case W_skip W tag rest of
                     (ok, raw, rest') \<Rightarrow>
                       if ok then parse_loop W field keep n rest' (keep raw m)
                       else Some (False, keep raw m)))"

definition parse_all :: "wire \<Rightarrow> (u32 \<Rightarrow> bytes \<Rightarrow> 'm \<Rightarrow> 'm parsed) \<Rightarrow> (bytes \<Rightarrow> 'm \<Rightarrow> 'm) \<Rightarrow>
    bytes \<Rightarrow> 'm \<Rightarrow> (bool \<times> 'm) option" where
  "parse_all W field keep inp m = parse_loop W field keep (Suc (length inp)) inp m"

text \<open>
  \<open>ReadMessage(input, sub)\<close>: the sub-message is merged from the bytes under the limit; the
  read succeeds when the merge does and all the announced bytes were there.
\<close>

definition read_message :: "wire \<Rightarrow> (bytes \<Rightarrow> 's \<Rightarrow> (bool \<times> 's) option) \<Rightarrow> bytes \<Rightarrow> 's \<Rightarrow>
    ('s \<Rightarrow> 'm) \<Rightarrow> 'm parsed" where
  "read_message W merge inp s f =
     (case W_limit W inp of
        None \<Rightarrow> Failed (f s)
      | Some (payload, complete, rest) \<Rightarrow>
          (case merge payload s of
             None \<Rightarrow> Endless
           | Some (ok, s') \<Rightarrow> if ok \<and> complete then Parsed (f s') rest else Failed (f s')))"

text \<open>
  Helpers of the writers. A sub-message is written with the size its last \<open>ByteSizeLong\<close>
  cached, which is an \<open>int\<close>; so is the size of a packed field. Unknown fields are written
  back when the runtime preserves them.
\<close>

definition put_sub :: "wire \<Rightarrow> nat \<Rightarrow> u64 \<Rightarrow> bytes \<Rightarrow> bytes" where
  "put_sub W n len body = W_put_message W n (i32_of_u64 len) body"

definition arr_sub :: "wire \<Rightarrow> nat \<Rightarrow> u64 \<Rightarrow> (bytes \<Rightarrow> bytes) \<Rightarrow> bytes \<Rightarrow> bytes" where
  "arr_sub W n len body target = W_arr_message W n (i32_of_u64 len) body target"

definition packed_cached :: "wire \<Rightarrow> u64 list \<Rightarrow> u32" where
  "packed_cached W vs = i32_of_u64 (W_size_uint64s W vs)"

definition size_packed :: "wire \<Rightarrow> u64 list \<Rightarrow> u64" where
  "size_packed W vs =
     (let data_size = W_size_uint64s W vs
      in (if data_size > 0 then 1 + W_size_int32 W (i32_of_u64 data_size) else 0) + data_size)"

definition size_unknown :: "wire \<Rightarrow> bytes \<Rightarrow> u64" where
  "size_unknown W raw = (if raw \<noteq> [] \<and> W_preserve W then W_size_unknown W raw else 0)"

definition arr_unknown :: "wire \<Rightarrow> bytes \<Rightarrow> bytes \<Rightarrow> bytes" where
  "arr_unknown W raw target =
     (if raw \<noteq> [] \<and> W_preserve W then W_arr_unknown W raw target else target)"

definition put_unknown :: "wire \<Rightarrow> bytes \<Rightarrow> bytes" where
  "put_unknown W raw = (if raw \<noteq> [] \<and> W_preserve W then raw else [])"

subsection \<open>What the runtime promises\<close>

locale wire_laws =
  fixes W :: wire
  assumes tag_end: "W_tag W [] = (0, False, [])"
    and uint64_field: "1 \<le> n \<Longrightarrow> n \<le> 15 \<Longrightarrow>
      \<exists>s. W_tag W (W_put_uint64 W n v @ r) = (of_nat (8 * n), True, s) \<and> W_uint64 W s u = (True, v, r)"
    and enum_field: "1 \<le> n \<Longrightarrow> n \<le> 15 \<Longrightarrow>
      \<exists>s. W_tag W (W_put_enum W n e @ r) = (of_nat (8 * n), True, s) \<and> W_enum W s d = (True, e, r)"
    and bool_field: "1 \<le> n \<Longrightarrow> n \<le> 15 \<Longrightarrow>
      \<exists>s. W_tag W (W_put_bool W n b @ r) = (of_nat (8 * n), True, s) \<and> W_bool W s c = (True, b, r)"
    and bytes_field: "1 \<le> n \<Longrightarrow> n \<le> 15 \<Longrightarrow> length x < 2 ^ 31 \<Longrightarrow>
      \<exists>s. W_tag W (W_put_bytes W n x @ r) = (of_nat (8 * n + 2), True, s) \<and> W_bytes W s y = (True, x, r)"
    and message_field: "1 \<le> n \<Longrightarrow> n \<le> 15 \<Longrightarrow> length x < 2 ^ 31 \<Longrightarrow>
      \<exists>s. W_tag W (W_put_message W n (of_nat (length x)) x @ r) = (of_nat (8 * n + 2), True, s) \<and>
        W_limit W s = Some (x, True, r)"
    and packed_field: "1 \<le> n \<Longrightarrow> n \<le> 15 \<Longrightarrow> length (concat (map (W_put_uint64_notag W) vs)) < 2 ^ 31 \<Longrightarrow>
      \<exists>s. W_tag W (W_put_tag W n 2 @
            W_put_varint32 W (of_nat (length (concat (map (W_put_uint64_notag W) vs)))) @
            concat (map (W_put_uint64_notag W) vs) @ r) = (of_nat (8 * n + 2), True, s) \<and>
        W_packed W s us = (True, us @ vs, r)"
    and uint64_size: "1 \<le> n \<Longrightarrow> n \<le> 15 \<Longrightarrow> 1 + W_size_uint64 W v = sz (W_put_uint64 W n v)"
    and enum_size: "1 \<le> n \<Longrightarrow> n \<le> 15 \<Longrightarrow> 1 + W_size_enum W e = sz (W_put_enum W n e)"
    and bool_size: "1 \<le> n \<Longrightarrow> n \<le> 15 \<Longrightarrow> 1 + 1 = sz (W_put_bool W n b)"
    and bytes_size: "1 \<le> n \<Longrightarrow> n \<le> 15 \<Longrightarrow> length x < 2 ^ 31 \<Longrightarrow>
      1 + W_size_bytes W x = sz (W_put_bytes W n x)"
    and message_size: "1 \<le> n \<Longrightarrow> n \<le> 15 \<Longrightarrow> length x < 2 ^ 31 \<Longrightarrow>
      1 + W_size_message W (sz x) = sz (W_put_message W n (of_nat (length x)) x)"
    and uint64s_size: "W_size_uint64s W vs = sz (concat (map (W_put_uint64_notag W) vs))"
    and packed_size: "1 \<le> n \<Longrightarrow> n \<le> 15 \<Longrightarrow> k < 2 ^ 31 \<Longrightarrow>
      1 + W_size_int32 W (of_nat k) = sz (W_put_tag W n 2 @ W_put_varint32 W (of_nat k))"
    and notag_nonempty: "W_put_uint64_notag W v \<noteq> []"
    and bytes_longer: "length x \<le> length (W_put_bytes W n x)"
    and message_longer: "length x \<le> length (W_put_message W n j x)"
begin

text \<open>
  \<open>eats field keep k x m m'\<close>: the loop consumes the bytes \<open>x\<close> in \<open>k\<close> turns and brings the
  message from \<open>m\<close> to \<open>m'\<close>, whatever follows.
\<close>

definition eats :: "(u32 \<Rightarrow> bytes \<Rightarrow> 'm \<Rightarrow> 'm parsed) \<Rightarrow> (bytes \<Rightarrow> 'm \<Rightarrow> 'm) \<Rightarrow> bytes \<Rightarrow> 'm \<Rightarrow> 'm \<Rightarrow> bool" where
  "eats field keep x m m' = (\<exists>k. k \<le> length x \<and>
     (\<forall>n r. parse_loop W field keep (k + n) (x @ r) m = parse_loop W field keep n r m'))"

lemma eats_Nil [simp]: "eats field keep [] m m"
  by (auto simp: eats_def)

lemma eats_append [trans]:
  assumes "eats field keep x m m1" and "eats field keep y m1 m2"
  shows "eats field keep (x @ y) m m2"
proof -
  obtain k where k: "k \<le> length x" "\<And>n r. parse_loop W field keep (k + n) (x @ r) m = parse_loop W field keep n r m1"
    using assms(1) by (auto simp: eats_def)
  obtain l where l: "l \<le> length y" "\<And>n r. parse_loop W field keep (l + n) (y @ r) m1 = parse_loop W field keep n r m2"
    using assms(2) by (auto simp: eats_def)
  have "parse_loop W field keep ((k + l) + n) ((x @ y) @ r) m = parse_loop W field keep n r m2" for n r
    using k(2) [of "l + n" "y @ r"] l(2) by (simp add: add.assoc)
  with k(1) l(1) show ?thesis unfolding eats_def by (intro exI [of _ "k + l"]) simp
qed

lemma eats_one:
  assumes "\<And>r. \<exists>s. W_tag W (x @ r) = (t, True, s) \<and> field t s m = Parsed m' r"
  shows "eats field keep x m m'"
proof -
  have "x \<noteq> []"
  proof
    assume "x = []"
    then have "\<exists>s. W_tag W [] = (t, True, s)" using assms [of "[]"] by auto
    then show False by (simp add: tag_end)
  qed
  moreover have "parse_loop W field keep (1 + n) (x @ r) m = parse_loop W field keep n r m'" for n r
  proof -
    obtain s where "W_tag W (x @ r) = (t, True, s)" "field t s m = Parsed m' r"
      using assms by blast
    then show ?thesis by simp
  qed
  ultimately show ?thesis unfolding eats_def by (intro exI [of _ 1]) (auto simp: Suc_le_eq)
qed

lemma eats_if:
  assumes "b \<Longrightarrow> eats field keep x m m'" and "\<not> b \<Longrightarrow> m' = m"
  shows "eats field keep (if b then x else []) m m'"
  using assms by simp

lemma eats_concat:
  assumes "\<And>ys y. y \<in> set xs \<Longrightarrow> eats field keep (f y) (g ys) (g (ys @ [y]))"
  shows "eats field keep (concat (map f xs)) (g ys) (g (ys @ xs))"
  using assms
proof (induction xs arbitrary: ys)
  case (Cons x xs)
  have "eats field keep (f x) (g ys) (g (ys @ [x]))" using Cons.prems by simp
  moreover have "eats field keep (concat (map f xs)) (g (ys @ [x])) (g ((ys @ [x]) @ xs))"
    by (rule Cons.IH) (use Cons.prems in auto)
  ultimately show ?case using eats_append by fastforce
qed simp

lemma eats_parse_all:
  assumes "eats field keep x m m'"
  shows "parse_all W field keep x m = Some (True, m')"
proof -
  obtain k where k: "k \<le> length x" "\<And>n r. parse_loop W field keep (k + n) (x @ r) m = parse_loop W field keep n r m'"
    using assms by (auto simp: eats_def)
  have "parse_loop W field keep (k + Suc (length x - k)) (x @ []) m = Some (True, m')"
    unfolding k(2) by (simp add: tag_end)
  with k(1) show ?thesis by (simp add: parse_all_def)
qed

text \<open>One field, per kind.\<close>

lemma eats_uint64:
  assumes "1 \<le> n" "n \<le> 15" and "\<And>s. field (of_nat (8 * n)) s m = read_into (W_uint64 W s u) g"
    and "v = 0 \<Longrightarrow> g v = m"
  shows "eats field keep (if v \<noteq> 0 then W_put_uint64 W n v else []) m (g v)"
proof (rule eats_if)
  show "eats field keep (W_put_uint64 W n v) m (g v)"
  proof (rule eats_one [where t = "of_nat (8 * n)"])
    fix r
    show "\<exists>s. W_tag W (W_put_uint64 W n v @ r) = (of_nat (8 * n), True, s) \<and>
        field (of_nat (8 * n)) s m = Parsed (g v) r"
    proof -
      obtain s where "W_tag W (W_put_uint64 W n v @ r) = (of_nat (8 * n), True, s)"
          "W_uint64 W s u = (True, v, r)" using uint64_field [OF assms(1,2)] by blast
      then show ?thesis using assms(3) by (simp add: read_into_def)
    qed
  qed
qed (use assms(4) in simp)

lemma eats_enum:
  assumes "1 \<le> n" "n \<le> 15" and "\<And>s. field (of_nat (8 * n)) s m = read_enum W s g m"
    and "v = 0 \<Longrightarrow> g v = m"
  shows "eats field keep (if v \<noteq> 0 then W_put_enum W n v else []) m (g v)"
proof (rule eats_if)
  show "eats field keep (W_put_enum W n v) m (g v)"
  proof (rule eats_one [where t = "of_nat (8 * n)"])
    fix r
    obtain s where "W_tag W (W_put_enum W n v @ r) = (of_nat (8 * n), True, s)"
        "W_enum W s 0 = (True, v, r)" using enum_field [OF assms(1,2)] by blast
    then show "\<exists>s. W_tag W (W_put_enum W n v @ r) = (of_nat (8 * n), True, s) \<and>
        field (of_nat (8 * n)) s m = Parsed (g v) r"
      using assms(3) by (simp add: read_enum_def)
  qed
qed (use assms(4) in simp)

lemma eats_bool:
  assumes "1 \<le> n" "n \<le> 15" and "\<And>s. field (of_nat (8 * n)) s m = read_into (W_bool W s u) g"
    and "\<not> v \<Longrightarrow> g v = m"
  shows "eats field keep (if v then W_put_bool W n v else []) m (g v)"
proof (rule eats_if)
  show "eats field keep (W_put_bool W n v) m (g v)"
  proof (rule eats_one [where t = "of_nat (8 * n)"])
    fix r
    show "\<exists>s. W_tag W (W_put_bool W n v @ r) = (of_nat (8 * n), True, s) \<and>
        field (of_nat (8 * n)) s m = Parsed (g v) r"
    proof -
      obtain s where "W_tag W (W_put_bool W n v @ r) = (of_nat (8 * n), True, s)"
          "W_bool W s u = (True, v, r)" using bool_field [OF assms(1,2)] by blast
      then show ?thesis using assms(3) by (simp add: read_into_def)
    qed
  qed
qed (use assms(4) in simp)

lemma eats_bytes:
  assumes "1 \<le> n" "n \<le> 15" and "\<And>s. field (of_nat (8 * n + 2)) s m = read_into (W_bytes W s u) g"
    and "v = [] \<Longrightarrow> g v = m" and "length v < 2 ^ 31"
  shows "eats field keep (if v \<noteq> [] then W_put_bytes W n v else []) m (g v)"
proof (rule eats_if)
  show "eats field keep (W_put_bytes W n v) m (g v)"
  proof (rule eats_one [where t = "of_nat (8 * n + 2)"])
    fix r
    obtain s where "W_tag W (W_put_bytes W n v @ r) = (of_nat (8 * n + 2), True, s)"
        "W_bytes W s u = (True, v, r)" using bytes_field [OF assms(1,2,5)] by blast
    then show "\<exists>s. W_tag W (W_put_bytes W n v @ r) = (of_nat (8 * n + 2), True, s) \<and>
        field (of_nat (8 * n + 2)) s m = Parsed (g v) r"
      using assms(3) by (simp add: read_into_def)
  qed
qed (use assms(4) in simp)

lemma i32_of_sz: "i32_of_u64 (sz x) = of_nat (length x)"
  unfolding i32_of_u64_def sz_def by transfer simp

lemma eats_sub:
  assumes "1 \<le> n" "n \<le> 15"
    and "\<And>s. field (of_nat (8 * n + 2)) s m = read_message W merge s s0 g"
    and "merge body s0 = Some (True, x)" and "length body < 2 ^ 31" and "k = sz body"
  shows "eats field keep (put_sub W n k body) m (g x)"
  unfolding put_sub_def assms(6) i32_of_sz
proof (rule eats_one [where t = "of_nat (8 * n + 2)"])
  fix r
  obtain s where "W_tag W (W_put_message W n (of_nat (length body)) body @ r) = (of_nat (8 * n + 2), True, s)"
      "W_limit W s = Some (body, True, r)" using message_field [OF assms(1,2,5)] by blast
  then show "\<exists>s. W_tag W (W_put_message W n (of_nat (length body)) body @ r) =
      (of_nat (8 * n + 2), True, s) \<and> field (of_nat (8 * n + 2)) s m = Parsed (g x) r"
    using assms(3,4) by (simp add: read_message_def)
qed

lemma eats_packed:
  assumes "1 \<le> n" "n \<le> 15" and "\<And>s. field (of_nat (8 * n + 2)) s m = read_into (W_packed W s []) g"
    and "g [] = m" and "length (concat (map (W_put_uint64_notag W) vs)) < 2 ^ 31"
  shows "eats field keep
    ((if vs \<noteq> [] then W_put_tag W n 2 @ W_put_varint32 W (packed_cached W vs) else []) @
      concat (map (W_put_uint64_notag W) vs)) m (g vs)"
proof (cases "vs = []")
  case False
  let ?b = "concat (map (W_put_uint64_notag W) vs)"
  have c: "packed_cached W vs = of_nat (length ?b)"
    by (simp add: packed_cached_def uint64s_size i32_of_sz)
  have "eats field keep (W_put_tag W n 2 @ W_put_varint32 W (of_nat (length ?b)) @ ?b) m (g vs)"
  proof (rule eats_one)
    fix r
    obtain s where "W_tag W (W_put_tag W n 2 @ W_put_varint32 W (of_nat (length ?b)) @ ?b @ r) =
        (of_nat (8 * n + 2), True, s)" "W_packed W s [] = (True, [] @ vs, r)"
      using packed_field [OF assms(1,2,5)] by blast
    then show "\<exists>s. W_tag W ((W_put_tag W n 2 @ W_put_varint32 W (of_nat (length ?b)) @ ?b) @ r) =
        (of_nat (8 * n + 2), True, s) \<and> field (of_nat (8 * n + 2)) s m = Parsed (g vs) r"
      using assms(3) by (auto simp: read_into_def)
  qed
  with False c show ?thesis by simp
qed (use assms(4) in simp)

lemma size_packed_eq:
  assumes "1 \<le> n" "n \<le> 15" and l: "length (concat (map (W_put_uint64_notag W) vs)) < 2 ^ 31"
  shows "size_packed W vs = sz ((if vs \<noteq> [] then W_put_tag W n 2 @ W_put_varint32 W (packed_cached W vs) else []) @
      concat (map (W_put_uint64_notag W) vs))"
proof (cases vs)
  case Nil
  then show ?thesis by (simp add: size_packed_def uint64s_size)
next
  case (Cons v us)
  let ?b = "concat (map (W_put_uint64_notag W) vs)"
  have "?b \<noteq> []" using Cons notag_nonempty by auto
  then have "unat (sz ?b) \<noteq> 0" using l unat_sz [of ?b] by simp
  then have "sz ?b > 0" by (metis unat_0 word_neq_0_conv)
  then show ?thesis
    using Cons packed_size [OF assms] unfolding size_packed_def uint64s_size packed_cached_def
      i32_of_sz Let_def by (simp add: sz_append add.assoc del: concat.simps list.map)
qed

lemma put_sub_size:
  assumes "1 \<le> n" "n \<le> 15" "length body < 2 ^ 31" "k = sz body"
  shows "1 + W_size_message W k = sz (put_sub W n k body)"
  using message_size [OF assms(1-3)] by (simp add: put_sub_def assms(4) i32_of_sz)

lemma put_sub_longer: "length body \<le> length (put_sub W n k body)"
  by (simp add: put_sub_def message_longer)

lemma rep_size:
  assumes "1 \<le> n" "n \<le> 15" and "\<And>x. x \<in> set xs \<Longrightarrow> length (f x) < 2 ^ 31 \<and> k x = sz (f x)"
  shows "sz xs + sum_list (map (\<lambda>x. W_size_message W (k x)) xs) =
    sz (concat (map (\<lambda>x. put_sub W n (k x) (f x)) xs))"
  using assms(3)
proof (induction xs)
  case (Cons x xs)
  have "1 + W_size_message W (k x) = sz (put_sub W n (k x) (f x))"
    by (rule put_sub_size) (use assms Cons.prems in auto)
  moreover have "sz xs + sum_list (map (\<lambda>x. W_size_message W (k x)) xs) =
      sz (concat (map (\<lambda>x. put_sub W n (k x) (f x)) xs))"
    by (rule Cons.IH) (use Cons.prems in auto)
  ultimately show ?case by (simp add: sz_append) (simp add: sz_def algebra_simps)
qed simp

end

text \<open>The writers into an array append what the writers into a stream write.\<close>

locale wire_arrays =
  fixes W :: wire
  assumes arr_uint64: "W_arr_uint64 W n v t = t @ W_put_uint64 W n v"
    and arr_enum: "W_arr_enum W n e t = t @ W_put_enum W n e"
    and arr_bool: "W_arr_bool W n b t = t @ W_put_bool W n b"
    and arr_bytes: "W_arr_bytes W n x t = t @ W_put_bytes W n x"
    and arr_message: "(\<And>u. f u = u @ body) \<Longrightarrow> W_arr_message W n k f t = t @ W_put_message W n k body"
    and arr_tag: "W_arr_tag W n w t = t @ W_put_tag W n w"
    and arr_varint32: "W_arr_varint32 W k t = t @ W_put_varint32 W k"
    and arr_uint64s: "W_arr_uint64s W vs t = t @ concat (map (W_put_uint64_notag W) vs)"
    and arr_unknown_raw: "W_arr_unknown W raw t = t @ raw"
begin

lemma arr_unknown_put: "arr_unknown W raw t = t @ put_unknown W raw"
  by (simp add: arr_unknown_def put_unknown_def arr_unknown_raw)

lemma arr_sub_put: "(\<And>u. f u = u @ body) \<Longrightarrow> arr_sub W n k f t = t @ put_sub W n k body"
  by (simp add: arr_sub_def put_sub_def arr_message)

lemma arr_fold: "(\<And>x t. f x t = t @ g x) \<Longrightarrow> fold f xs t = t @ concat (map g xs)"
  by (induction xs arbitrary: t) auto

end

text \<open>Reading never gives input back, and a tag that is not the end takes at least a byte.\<close>

locale wire_consumes =
  fixes W :: wire
  assumes tag_less: "W_tag W inp = (t, ok, r) \<Longrightarrow> ok \<or> t \<noteq> 0 \<Longrightarrow> length r < length inp"
    and uint64_le: "W_uint64 W inp u = (True, v, r) \<Longrightarrow> length r \<le> length inp"
    and enum_le: "W_enum W inp d = (True, e, r) \<Longrightarrow> length r \<le> length inp"
    and bool_le: "W_bool W inp c = (True, b, r) \<Longrightarrow> length r \<le> length inp"
    and bytes_le: "W_bytes W inp y = (True, x, r) \<Longrightarrow> length r \<le> length inp"
    and packed_le: "W_packed W inp us = (True, vs, r) \<Longrightarrow> length r \<le> length inp"
    and repeated_le: "W_repeated W t inp us = (True, vs, r) \<Longrightarrow> length r \<le> length inp"
    and limit_le: "W_limit W inp = Some (p, c, r) \<Longrightarrow> length r \<le> length inp"
    and skip_le: "W_skip W t inp = (True, raw, r) \<Longrightarrow> length r \<le> length inp"
begin

text \<open>A field case that ends and gives no input back.\<close>

definition ends :: "(u32 \<Rightarrow> bytes \<Rightarrow> 'm \<Rightarrow> 'm parsed) \<Rightarrow> bool" where
  "ends field = (\<forall>t inp m. field t inp m \<noteq> Endless \<and>
     (\<forall>m' r. field t inp m = Parsed m' r \<longrightarrow> length r \<le> length inp))"

lemma loop_ends:
  assumes "ends field" and "length inp < n"
  shows "parse_loop W field keep n inp m \<noteq> None"
  using assms(2)
proof (induction n arbitrary: inp m)
  case (Suc n)
  obtain t ok r where t: "W_tag W inp = (t, ok, r)" by (cases "W_tag W inp") auto
  have shorter: "length r < length inp" if "ok \<or> t \<noteq> 0" using tag_less [OF t that] .
  have step: "parse_loop W field keep (Suc n) inp m =
      (case (if ok then field t r m else Unusual) of
         Parsed m' rest' \<Rightarrow> parse_loop W field keep n rest' m'
       | Failed m' \<Rightarrow> Some (False, m')
       | Endless \<Rightarrow> None
       | Unusual \<Rightarrow>
           (if t = 0 then Some (inp = [], m)
            else case W_skip W t r of
                   (ok, raw, rest') \<Rightarrow>
                     if ok then parse_loop W field keep n rest' (keep raw m)
                     else Some (False, keep raw m)))"
    by (simp only: parse_loop.simps t Let_def prod.case)
  show ?case
  proof (cases "if ok then field t r m else Unusual")
    case (Parsed m' r')
    then have "ok" and f: "field t r m = Parsed m' r'" by (simp_all split: if_splits)
    then have "length r' \<le> length r" using assms(1) unfolding ends_def by blast
    then have "length r' < n" using shorter \<open>ok\<close> Suc.prems by simp
    then show ?thesis unfolding step Parsed using Suc.IH by simp
  next
    case (Failed m')
    show ?thesis unfolding step Failed by simp
  next
    case Endless
    then have "field t r m = Endless" by (simp split: if_splits)
    then show ?thesis using assms(1) unfolding ends_def by blast
  next
    case Unusual
    obtain ok' raw r' where s: "W_skip W t r = (ok', raw, r')" by (cases "W_skip W t r") auto
    have "parse_loop W field keep n r' (keep raw m) \<noteq> None" if "ok'" "t \<noteq> 0"
      by (rule Suc.IH) (use skip_le s shorter that Suc.prems in fastforce)
    then show ?thesis unfolding step Unusual by (cases "t = 0"; cases "ok'") (simp_all add: s)
  qed
qed simp

lemma parse_all_ends: "ends field \<Longrightarrow> parse_all W field keep inp m \<noteq> None"
  unfolding parse_all_def by (rule loop_ends) simp_all

lemma read_message_le:
  assumes "read_message W merge inp s f = Parsed m' r"
  shows "length r \<le> length inp"
  using assms limit_le by (auto simp: read_message_def split: option.splits if_splits)

lemma read_message_ends:
  assumes "\<And>p s. merge p s \<noteq> None"
  shows "read_message W merge inp s f \<noteq> Endless"
proof (cases "W_limit W inp")
  case (Some x)
  obtain p c r where x: "x = (p, c, r)" by (cases x) auto
  obtain ok s' where "merge p s = Some (ok, s')" using assms [of p s] by auto
  then show ?thesis by (simp add: read_message_def Some x)
qed (simp add: read_message_def)

end

end
