(* ===== verification/Raftpb_Codec.thy ===== *)
theory Raftpb_Codec
  imports Wire_Format
begin

text \<open>
  The operations that \<^verbatim>\<open>raftpb.pb.cc\<close> defines for each of its seven classes over the
  runtime of \<open>Wire_Format\<close>: \<open>X_Clear\<close>, \<open>X_MergePartial\<close>
  (\<open>MergePartialFromCodedStream\<close>, with the \<open>switch\<close> as \<open>X_field\<close>), \<open>X_ByteSizeLong\<close>,
  \<open>X_Serialize\<close> (\<open>SerializeWithCachedSizes\<close>), \<open>X_SerializeToArray\<close>
  (\<open>InternalSerializeWithCachedSizesToArray\<close>), \<open>X_MergeFrom\<close>, \<open>X_CopyFrom\<close> and \<open>X_Swap\<close>,
  whose first argument tells whether both objects are the same. The class \<open>Storage\<close> is
  \<open>StoragePB\<close>.
\<close>

subsection \<open>ConfState\<close>

definition ConfState_Clear :: "ConfState \<Rightarrow> ConfState" where
  "ConfState_Clear m = m\<lparr>cs_nodes := [], cs_learners := [], cs_unknown := []\<rparr>"

definition ConfState_keep :: "bytes \<Rightarrow> ConfState \<Rightarrow> ConfState" where
  "ConfState_keep raw m = m\<lparr>cs_unknown := cs_unknown m @ raw\<rparr>"

definition ConfState_field :: "wire \<Rightarrow> u32 \<Rightarrow> bytes \<Rightarrow> ConfState \<Rightarrow> ConfState parsed" where
  "ConfState_field W tag inp m =
     (if tag_is tag 1 10 then read_into (W_packed W inp (cs_nodes m)) (\<lambda>v. m\<lparr>cs_nodes := v\<rparr>)
      else if tag_is tag 1 8 then read_into (W_repeated W 10 inp (cs_nodes m)) (\<lambda>v. m\<lparr>cs_nodes := v\<rparr>)
      else if tag_is tag 2 18 then read_into (W_packed W inp (cs_learners m)) (\<lambda>v. m\<lparr>cs_learners := v\<rparr>)
      else if tag_is tag 2 16 then read_into (W_repeated W 18 inp (cs_learners m)) (\<lambda>v. m\<lparr>cs_learners := v\<rparr>)
      else Unusual)"

definition ConfState_MergePartial :: "wire \<Rightarrow> bytes \<Rightarrow> ConfState \<Rightarrow> (bool \<times> ConfState) option" where
  "ConfState_MergePartial W inp m = parse_all W (ConfState_field W) ConfState_keep inp m"

definition ConfState_ByteSizeLong :: "wire \<Rightarrow> ConfState \<Rightarrow> u64" where
  "ConfState_ByteSizeLong W m =
     size_unknown W (cs_unknown m) +
     size_packed W (cs_nodes m) +
     size_packed W (cs_learners m)"

definition ConfState_Serialize :: "wire \<Rightarrow> ConfState \<Rightarrow> bytes" where
  "ConfState_Serialize W m =
     (if cs_nodes m \<noteq> [] then W_put_tag W 1 2 @ W_put_varint32 W (packed_cached W (cs_nodes m)) else []) @
     concat (map (W_put_uint64_notag W) (cs_nodes m)) @
     (if cs_learners m \<noteq> [] then W_put_tag W 2 2 @ W_put_varint32 W (packed_cached W (cs_learners m)) else []) @
     concat (map (W_put_uint64_notag W) (cs_learners m)) @
     put_unknown W (cs_unknown m)"

definition ConfState_SerializeToArray :: "wire \<Rightarrow> ConfState \<Rightarrow> bytes \<Rightarrow> bytes" where
  "ConfState_SerializeToArray W m target =
     (let target = (if cs_nodes m \<noteq> []
        then W_arr_uint64s W (cs_nodes m) (W_arr_varint32 W (packed_cached W (cs_nodes m)) (W_arr_tag W 1 2 target)) else target);
          target = (if cs_learners m \<noteq> []
        then W_arr_uint64s W (cs_learners m) (W_arr_varint32 W (packed_cached W (cs_learners m)) (W_arr_tag W 2 2 target)) else target)
      in arr_unknown W (cs_unknown m) target)"

definition ConfState_MergeFrom :: "ConfState \<Rightarrow> ConfState \<Rightarrow> ConfState" where
  "ConfState_MergeFrom from m =
     (let m = m\<lparr>cs_unknown := cs_unknown m @ cs_unknown from\<rparr>;
          m = m\<lparr>cs_nodes := cs_nodes m @ cs_nodes from\<rparr>;
          m = m\<lparr>cs_learners := cs_learners m @ cs_learners from\<rparr>
      in m)"

definition ConfState_CopyFrom :: "bool \<Rightarrow> ConfState \<Rightarrow> ConfState \<Rightarrow> ConfState" where
  "ConfState_CopyFrom same from m = (if same then m else ConfState_MergeFrom from (ConfState_Clear m))"

definition ConfState_Swap :: "bool \<Rightarrow> ConfState \<Rightarrow> ConfState \<Rightarrow> ConfState \<times> ConfState" where
  "ConfState_Swap same m other =
     (if same then (m, other)
      else (m\<lparr>cs_nodes := cs_nodes other, cs_learners := cs_learners other, cs_unknown := cs_unknown other\<rparr>,
            other\<lparr>cs_nodes := cs_nodes m, cs_learners := cs_learners m, cs_unknown := cs_unknown m\<rparr>))"

subsection \<open>Entry\<close>

definition Entry_Clear :: "Entry \<Rightarrow> Entry" where
  "Entry_Clear m = m\<lparr>e_type := EntryTrival, e_term := 0, e_index := 0, e_data := [], e_unknown := []\<rparr>"

definition Entry_keep :: "bytes \<Rightarrow> Entry \<Rightarrow> Entry" where
  "Entry_keep raw m = m\<lparr>e_unknown := e_unknown m @ raw\<rparr>"

definition Entry_field :: "wire \<Rightarrow> u32 \<Rightarrow> bytes \<Rightarrow> Entry \<Rightarrow> Entry parsed" where
  "Entry_field W tag inp m =
     (if tag_is tag 1 8 then read_enum W inp (\<lambda>v. m\<lparr>e_type := EntryType_cast v\<rparr>) m
      else if tag_is tag 2 16 then read_into (W_uint64 W inp (e_term m)) (\<lambda>v. m\<lparr>e_term := v\<rparr>)
      else if tag_is tag 3 24 then read_into (W_uint64 W inp (e_index m)) (\<lambda>v. m\<lparr>e_index := v\<rparr>)
      else if tag_is tag 4 34 then read_into (W_bytes W inp (e_data m)) (\<lambda>v. m\<lparr>e_data := v\<rparr>)
      else Unusual)"

definition Entry_MergePartial :: "wire \<Rightarrow> bytes \<Rightarrow> Entry \<Rightarrow> (bool \<times> Entry) option" where
  "Entry_MergePartial W inp m = parse_all W (Entry_field W) Entry_keep inp m"

definition Entry_ByteSizeLong :: "wire \<Rightarrow> Entry \<Rightarrow> u64" where
  "Entry_ByteSizeLong W m =
     size_unknown W (e_unknown m) +
     (if e_data m \<noteq> [] then 1 + W_size_bytes W (e_data m) else 0) +
     (if e_term m \<noteq> 0 then 1 + W_size_uint64 W (e_term m) else 0) +
     (if e_index m \<noteq> 0 then 1 + W_size_uint64 W (e_index m) else 0) +
     (if EntryType_value (e_type m) \<noteq> 0 then 1 + W_size_enum W (EntryType_value (e_type m)) else 0)"

definition Entry_Serialize :: "wire \<Rightarrow> Entry \<Rightarrow> bytes" where
  "Entry_Serialize W m =
     (if EntryType_value (e_type m) \<noteq> 0 then W_put_enum W 1 (EntryType_value (e_type m)) else []) @
     (if e_term m \<noteq> 0 then W_put_uint64 W 2 (e_term m) else []) @
     (if e_index m \<noteq> 0 then W_put_uint64 W 3 (e_index m) else []) @
     (if e_data m \<noteq> [] then W_put_bytes W 4 (e_data m) else []) @
     put_unknown W (e_unknown m)"

definition Entry_SerializeToArray :: "wire \<Rightarrow> Entry \<Rightarrow> bytes \<Rightarrow> bytes" where
  "Entry_SerializeToArray W m target =
     (let target = (if EntryType_value (e_type m) \<noteq> 0 then W_arr_enum W 1 (EntryType_value (e_type m)) target else target);
          target = (if e_term m \<noteq> 0 then W_arr_uint64 W 2 (e_term m) target else target);
          target = (if e_index m \<noteq> 0 then W_arr_uint64 W 3 (e_index m) target else target);
          target = (if e_data m \<noteq> [] then W_arr_bytes W 4 (e_data m) target else target)
      in arr_unknown W (e_unknown m) target)"

definition Entry_MergeFrom :: "Entry \<Rightarrow> Entry \<Rightarrow> Entry" where
  "Entry_MergeFrom from m =
     (let m = m\<lparr>e_unknown := e_unknown m @ e_unknown from\<rparr>;
          m = (if e_data from \<noteq> [] then m\<lparr>e_data := e_data from\<rparr> else m);
          m = (if e_term from \<noteq> 0 then m\<lparr>e_term := e_term from\<rparr> else m);
          m = (if e_index from \<noteq> 0 then m\<lparr>e_index := e_index from\<rparr> else m);
          m = (if EntryType_value (e_type from) \<noteq> 0 then m\<lparr>e_type := e_type from\<rparr> else m)
      in m)"

definition Entry_CopyFrom :: "bool \<Rightarrow> Entry \<Rightarrow> Entry \<Rightarrow> Entry" where
  "Entry_CopyFrom same from m = (if same then m else Entry_MergeFrom from (Entry_Clear m))"

definition Entry_Swap :: "bool \<Rightarrow> Entry \<Rightarrow> Entry \<Rightarrow> Entry \<times> Entry" where
  "Entry_Swap same m other =
     (if same then (m, other)
      else (m\<lparr>e_type := e_type other, e_term := e_term other, e_index := e_index other, e_data := e_data other, e_unknown := e_unknown other\<rparr>,
            other\<lparr>e_type := e_type m, e_term := e_term m, e_index := e_index m, e_data := e_data m, e_unknown := e_unknown m\<rparr>))"

subsection \<open>SnapshotMetadata\<close>

definition SnapshotMetadata_Clear :: "SnapshotMetadata \<Rightarrow> SnapshotMetadata" where
  "SnapshotMetadata_Clear m = m\<lparr>sm_conf_state := None, sm_index := 0, sm_term := 0, sm_unknown := []\<rparr>"

definition SnapshotMetadata_keep :: "bytes \<Rightarrow> SnapshotMetadata \<Rightarrow> SnapshotMetadata" where
  "SnapshotMetadata_keep raw m = m\<lparr>sm_unknown := sm_unknown m @ raw\<rparr>"

definition SnapshotMetadata_field :: "wire \<Rightarrow> u32 \<Rightarrow> bytes \<Rightarrow> SnapshotMetadata \<Rightarrow> SnapshotMetadata parsed" where
  "SnapshotMetadata_field W tag inp m =
     (if tag_is tag 1 10
      then read_message W (ConfState_MergePartial W) inp (SnapshotMetadata_conf_state m) (\<lambda>v. m\<lparr>sm_conf_state := Some v\<rparr>)
      else if tag_is tag 2 16 then read_into (W_uint64 W inp (sm_index m)) (\<lambda>v. m\<lparr>sm_index := v\<rparr>)
      else if tag_is tag 3 24 then read_into (W_uint64 W inp (sm_term m)) (\<lambda>v. m\<lparr>sm_term := v\<rparr>)
      else Unusual)"

definition SnapshotMetadata_MergePartial :: "wire \<Rightarrow> bytes \<Rightarrow> SnapshotMetadata \<Rightarrow> (bool \<times> SnapshotMetadata) option" where
  "SnapshotMetadata_MergePartial W inp m = parse_all W (SnapshotMetadata_field W) SnapshotMetadata_keep inp m"

definition SnapshotMetadata_ByteSizeLong :: "wire \<Rightarrow> SnapshotMetadata \<Rightarrow> u64" where
  "SnapshotMetadata_ByteSizeLong W m =
     size_unknown W (sm_unknown m) +
     (case sm_conf_state m of Some x \<Rightarrow> 1 + W_size_message W (ConfState_ByteSizeLong W x) | None \<Rightarrow> 0) +
     (if sm_index m \<noteq> 0 then 1 + W_size_uint64 W (sm_index m) else 0) +
     (if sm_term m \<noteq> 0 then 1 + W_size_uint64 W (sm_term m) else 0)"

definition SnapshotMetadata_Serialize :: "wire \<Rightarrow> SnapshotMetadata \<Rightarrow> bytes" where
  "SnapshotMetadata_Serialize W m =
     (case sm_conf_state m of Some x \<Rightarrow> put_sub W 1 (ConfState_ByteSizeLong W x) (ConfState_Serialize W x) | None \<Rightarrow> []) @
     (if sm_index m \<noteq> 0 then W_put_uint64 W 2 (sm_index m) else []) @
     (if sm_term m \<noteq> 0 then W_put_uint64 W 3 (sm_term m) else []) @
     put_unknown W (sm_unknown m)"

definition SnapshotMetadata_SerializeToArray :: "wire \<Rightarrow> SnapshotMetadata \<Rightarrow> bytes \<Rightarrow> bytes" where
  "SnapshotMetadata_SerializeToArray W m target =
     (let target = (case sm_conf_state m of Some x \<Rightarrow> arr_sub W 1 (ConfState_ByteSizeLong W x) (ConfState_SerializeToArray W x) target | None \<Rightarrow> target);
          target = (if sm_index m \<noteq> 0 then W_arr_uint64 W 2 (sm_index m) target else target);
          target = (if sm_term m \<noteq> 0 then W_arr_uint64 W 3 (sm_term m) target else target)
      in arr_unknown W (sm_unknown m) target)"

definition SnapshotMetadata_MergeFrom :: "SnapshotMetadata \<Rightarrow> SnapshotMetadata \<Rightarrow> SnapshotMetadata" where
  "SnapshotMetadata_MergeFrom from m =
     (let m = m\<lparr>sm_unknown := sm_unknown m @ sm_unknown from\<rparr>;
          m = (case sm_conf_state from of
                 Some x \<Rightarrow> m\<lparr>sm_conf_state := Some (ConfState_MergeFrom x (SnapshotMetadata_conf_state m))\<rparr> | None \<Rightarrow> m);
          m = (if sm_index from \<noteq> 0 then m\<lparr>sm_index := sm_index from\<rparr> else m);
          m = (if sm_term from \<noteq> 0 then m\<lparr>sm_term := sm_term from\<rparr> else m)
      in m)"

definition SnapshotMetadata_CopyFrom :: "bool \<Rightarrow> SnapshotMetadata \<Rightarrow> SnapshotMetadata \<Rightarrow> SnapshotMetadata" where
  "SnapshotMetadata_CopyFrom same from m = (if same then m else SnapshotMetadata_MergeFrom from (SnapshotMetadata_Clear m))"

definition SnapshotMetadata_Swap :: "bool \<Rightarrow> SnapshotMetadata \<Rightarrow> SnapshotMetadata \<Rightarrow> SnapshotMetadata \<times> SnapshotMetadata" where
  "SnapshotMetadata_Swap same m other =
     (if same then (m, other)
      else (m\<lparr>sm_conf_state := sm_conf_state other, sm_index := sm_index other, sm_term := sm_term other, sm_unknown := sm_unknown other\<rparr>,
            other\<lparr>sm_conf_state := sm_conf_state m, sm_index := sm_index m, sm_term := sm_term m, sm_unknown := sm_unknown m\<rparr>))"

subsection \<open>Snapshot\<close>

definition Snapshot_Clear :: "Snapshot \<Rightarrow> Snapshot" where
  "Snapshot_Clear m = m\<lparr>sn_data := [], sn_metadata := None, sn_unknown := []\<rparr>"

definition Snapshot_keep :: "bytes \<Rightarrow> Snapshot \<Rightarrow> Snapshot" where
  "Snapshot_keep raw m = m\<lparr>sn_unknown := sn_unknown m @ raw\<rparr>"

definition Snapshot_field :: "wire \<Rightarrow> u32 \<Rightarrow> bytes \<Rightarrow> Snapshot \<Rightarrow> Snapshot parsed" where
  "Snapshot_field W tag inp m =
     (if tag_is tag 1 10 then read_into (W_bytes W inp (sn_data m)) (\<lambda>v. m\<lparr>sn_data := v\<rparr>)
      else if tag_is tag 2 18
      then read_message W (SnapshotMetadata_MergePartial W) inp (Snapshot_metadata m) (\<lambda>v. m\<lparr>sn_metadata := Some v\<rparr>)
      else Unusual)"

definition Snapshot_MergePartial :: "wire \<Rightarrow> bytes \<Rightarrow> Snapshot \<Rightarrow> (bool \<times> Snapshot) option" where
  "Snapshot_MergePartial W inp m = parse_all W (Snapshot_field W) Snapshot_keep inp m"

definition Snapshot_ByteSizeLong :: "wire \<Rightarrow> Snapshot \<Rightarrow> u64" where
  "Snapshot_ByteSizeLong W m =
     size_unknown W (sn_unknown m) +
     (if sn_data m \<noteq> [] then 1 + W_size_bytes W (sn_data m) else 0) +
     (case sn_metadata m of Some x \<Rightarrow> 1 + W_size_message W (SnapshotMetadata_ByteSizeLong W x) | None \<Rightarrow> 0)"

definition Snapshot_Serialize :: "wire \<Rightarrow> Snapshot \<Rightarrow> bytes" where
  "Snapshot_Serialize W m =
     (if sn_data m \<noteq> [] then W_put_bytes W 1 (sn_data m) else []) @
     (case sn_metadata m of Some x \<Rightarrow> put_sub W 2 (SnapshotMetadata_ByteSizeLong W x) (SnapshotMetadata_Serialize W x) | None \<Rightarrow> []) @
     put_unknown W (sn_unknown m)"

definition Snapshot_SerializeToArray :: "wire \<Rightarrow> Snapshot \<Rightarrow> bytes \<Rightarrow> bytes" where
  "Snapshot_SerializeToArray W m target =
     (let target = (if sn_data m \<noteq> [] then W_arr_bytes W 1 (sn_data m) target else target);
          target = (case sn_metadata m of Some x \<Rightarrow> arr_sub W 2 (SnapshotMetadata_ByteSizeLong W x) (SnapshotMetadata_SerializeToArray W x) target | None \<Rightarrow> target)
      in arr_unknown W (sn_unknown m) target)"

definition Snapshot_MergeFrom :: "Snapshot \<Rightarrow> Snapshot \<Rightarrow> Snapshot" where
  "Snapshot_MergeFrom from m =
     (let m = m\<lparr>sn_unknown := sn_unknown m @ sn_unknown from\<rparr>;
          m = (if sn_data from \<noteq> [] then m\<lparr>sn_data := sn_data from\<rparr> else m);
          m = (case sn_metadata from of
                 Some x \<Rightarrow> m\<lparr>sn_metadata := Some (SnapshotMetadata_MergeFrom x (Snapshot_metadata m))\<rparr> | None \<Rightarrow> m)
      in m)"

definition Snapshot_CopyFrom :: "bool \<Rightarrow> Snapshot \<Rightarrow> Snapshot \<Rightarrow> Snapshot" where
  "Snapshot_CopyFrom same from m = (if same then m else Snapshot_MergeFrom from (Snapshot_Clear m))"

definition Snapshot_Swap :: "bool \<Rightarrow> Snapshot \<Rightarrow> Snapshot \<Rightarrow> Snapshot \<times> Snapshot" where
  "Snapshot_Swap same m other =
     (if same then (m, other)
      else (m\<lparr>sn_data := sn_data other, sn_metadata := sn_metadata other, sn_unknown := sn_unknown other\<rparr>,
            other\<lparr>sn_data := sn_data m, sn_metadata := sn_metadata m, sn_unknown := sn_unknown m\<rparr>))"

subsection \<open>HardState\<close>

definition HardState_Clear :: "HardState \<Rightarrow> HardState" where
  "HardState_Clear m = m\<lparr>hs_term := 0, hs_vote := 0, hs_commit := 0, hs_unknown := []\<rparr>"

definition HardState_keep :: "bytes \<Rightarrow> HardState \<Rightarrow> HardState" where
  "HardState_keep raw m = m\<lparr>hs_unknown := hs_unknown m @ raw\<rparr>"

definition HardState_field :: "wire \<Rightarrow> u32 \<Rightarrow> bytes \<Rightarrow> HardState \<Rightarrow> HardState parsed" where
  "HardState_field W tag inp m =
     (if tag_is tag 1 8 then read_into (W_uint64 W inp (hs_term m)) (\<lambda>v. m\<lparr>hs_term := v\<rparr>)
      else if tag_is tag 2 16 then read_into (W_uint64 W inp (hs_vote m)) (\<lambda>v. m\<lparr>hs_vote := v\<rparr>)
      else if tag_is tag 3 24 then read_into (W_uint64 W inp (hs_commit m)) (\<lambda>v. m\<lparr>hs_commit := v\<rparr>)
      else Unusual)"

definition HardState_MergePartial :: "wire \<Rightarrow> bytes \<Rightarrow> HardState \<Rightarrow> (bool \<times> HardState) option" where
  "HardState_MergePartial W inp m = parse_all W (HardState_field W) HardState_keep inp m"

definition HardState_ByteSizeLong :: "wire \<Rightarrow> HardState \<Rightarrow> u64" where
  "HardState_ByteSizeLong W m =
     size_unknown W (hs_unknown m) +
     (if hs_term m \<noteq> 0 then 1 + W_size_uint64 W (hs_term m) else 0) +
     (if hs_vote m \<noteq> 0 then 1 + W_size_uint64 W (hs_vote m) else 0) +
     (if hs_commit m \<noteq> 0 then 1 + W_size_uint64 W (hs_commit m) else 0)"

definition HardState_Serialize :: "wire \<Rightarrow> HardState \<Rightarrow> bytes" where
  "HardState_Serialize W m =
     (if hs_term m \<noteq> 0 then W_put_uint64 W 1 (hs_term m) else []) @
     (if hs_vote m \<noteq> 0 then W_put_uint64 W 2 (hs_vote m) else []) @
     (if hs_commit m \<noteq> 0 then W_put_uint64 W 3 (hs_commit m) else []) @
     put_unknown W (hs_unknown m)"

definition HardState_SerializeToArray :: "wire \<Rightarrow> HardState \<Rightarrow> bytes \<Rightarrow> bytes" where
  "HardState_SerializeToArray W m target =
     (let target = (if hs_term m \<noteq> 0 then W_arr_uint64 W 1 (hs_term m) target else target);
          target = (if hs_vote m \<noteq> 0 then W_arr_uint64 W 2 (hs_vote m) target else target);
          target = (if hs_commit m \<noteq> 0 then W_arr_uint64 W 3 (hs_commit m) target else target)
      in arr_unknown W (hs_unknown m) target)"

definition HardState_MergeFrom :: "HardState \<Rightarrow> HardState \<Rightarrow> HardState" where
  "HardState_MergeFrom from m =
     (let m = m\<lparr>hs_unknown := hs_unknown m @ hs_unknown from\<rparr>;
          m = (if hs_term from \<noteq> 0 then m\<lparr>hs_term := hs_term from\<rparr> else m);
          m = (if hs_vote from \<noteq> 0 then m\<lparr>hs_vote := hs_vote from\<rparr> else m);
          m = (if hs_commit from \<noteq> 0 then m\<lparr>hs_commit := hs_commit from\<rparr> else m)
      in m)"

definition HardState_CopyFrom :: "bool \<Rightarrow> HardState \<Rightarrow> HardState \<Rightarrow> HardState" where
  "HardState_CopyFrom same from m = (if same then m else HardState_MergeFrom from (HardState_Clear m))"

definition HardState_Swap :: "bool \<Rightarrow> HardState \<Rightarrow> HardState \<Rightarrow> HardState \<times> HardState" where
  "HardState_Swap same m other =
     (if same then (m, other)
      else (m\<lparr>hs_term := hs_term other, hs_vote := hs_vote other, hs_commit := hs_commit other, hs_unknown := hs_unknown other\<rparr>,
            other\<lparr>hs_term := hs_term m, hs_vote := hs_vote m, hs_commit := hs_commit m, hs_unknown := hs_unknown m\<rparr>))"

subsection \<open>StoragePB\<close>

definition StoragePB_Clear :: "StoragePB \<Rightarrow> StoragePB" where
  "StoragePB_Clear m = m\<lparr>st_offset := 0, st_snap := None, st_entries := [], st_hardstate := None, st_unknown := []\<rparr>"

definition StoragePB_keep :: "bytes \<Rightarrow> StoragePB \<Rightarrow> StoragePB" where
  "StoragePB_keep raw m = m\<lparr>st_unknown := st_unknown m @ raw\<rparr>"

definition StoragePB_field :: "wire \<Rightarrow> u32 \<Rightarrow> bytes \<Rightarrow> StoragePB \<Rightarrow> StoragePB parsed" where
  "StoragePB_field W tag inp m =
     (if tag_is tag 1 8 then read_into (W_uint64 W inp (st_offset m)) (\<lambda>v. m\<lparr>st_offset := v\<rparr>)
      else if tag_is tag 2 18
      then read_message W (Snapshot_MergePartial W) inp (StoragePB_snap m) (\<lambda>v. m\<lparr>st_snap := Some v\<rparr>)
      else if tag_is tag 3 26
      then read_message W (Entry_MergePartial W) inp new_Entry (\<lambda>v. m\<lparr>st_entries := st_entries m @ [v]\<rparr>)
      else if tag_is tag 4 34
      then read_message W (HardState_MergePartial W) inp (StoragePB_hardstate m) (\<lambda>v. m\<lparr>st_hardstate := Some v\<rparr>)
      else Unusual)"

definition StoragePB_MergePartial :: "wire \<Rightarrow> bytes \<Rightarrow> StoragePB \<Rightarrow> (bool \<times> StoragePB) option" where
  "StoragePB_MergePartial W inp m = parse_all W (StoragePB_field W) StoragePB_keep inp m"

definition StoragePB_ByteSizeLong :: "wire \<Rightarrow> StoragePB \<Rightarrow> u64" where
  "StoragePB_ByteSizeLong W m =
     size_unknown W (st_unknown m) +
     (sz (st_entries m) + sum_list (map (\<lambda>x. W_size_message W (Entry_ByteSizeLong W x)) (st_entries m))) +
     (case st_snap m of Some x \<Rightarrow> 1 + W_size_message W (Snapshot_ByteSizeLong W x) | None \<Rightarrow> 0) +
     (case st_hardstate m of Some x \<Rightarrow> 1 + W_size_message W (HardState_ByteSizeLong W x) | None \<Rightarrow> 0) +
     (if st_offset m \<noteq> 0 then 1 + W_size_uint64 W (st_offset m) else 0)"

definition StoragePB_Serialize :: "wire \<Rightarrow> StoragePB \<Rightarrow> bytes" where
  "StoragePB_Serialize W m =
     (if st_offset m \<noteq> 0 then W_put_uint64 W 1 (st_offset m) else []) @
     (case st_snap m of Some x \<Rightarrow> put_sub W 2 (Snapshot_ByteSizeLong W x) (Snapshot_Serialize W x) | None \<Rightarrow> []) @
     concat (map (\<lambda>x. put_sub W 3 (Entry_ByteSizeLong W x) (Entry_Serialize W x)) (st_entries m)) @
     (case st_hardstate m of Some x \<Rightarrow> put_sub W 4 (HardState_ByteSizeLong W x) (HardState_Serialize W x) | None \<Rightarrow> []) @
     put_unknown W (st_unknown m)"

definition StoragePB_SerializeToArray :: "wire \<Rightarrow> StoragePB \<Rightarrow> bytes \<Rightarrow> bytes" where
  "StoragePB_SerializeToArray W m target =
     (let target = (if st_offset m \<noteq> 0 then W_arr_uint64 W 1 (st_offset m) target else target);
          target = (case st_snap m of Some x \<Rightarrow> arr_sub W 2 (Snapshot_ByteSizeLong W x) (Snapshot_SerializeToArray W x) target | None \<Rightarrow> target);
          target = fold (\<lambda>x. arr_sub W 3 (Entry_ByteSizeLong W x) (Entry_SerializeToArray W x)) (st_entries m) target;
          target = (case st_hardstate m of Some x \<Rightarrow> arr_sub W 4 (HardState_ByteSizeLong W x) (HardState_SerializeToArray W x) target | None \<Rightarrow> target)
      in arr_unknown W (st_unknown m) target)"

definition StoragePB_MergeFrom :: "StoragePB \<Rightarrow> StoragePB \<Rightarrow> StoragePB" where
  "StoragePB_MergeFrom from m =
     (let m = m\<lparr>st_unknown := st_unknown m @ st_unknown from\<rparr>;
          m = m\<lparr>st_entries := st_entries m @ st_entries from\<rparr>;
          m = (case st_snap from of
                 Some x \<Rightarrow> m\<lparr>st_snap := Some (Snapshot_MergeFrom x (StoragePB_snap m))\<rparr> | None \<Rightarrow> m);
          m = (case st_hardstate from of
                 Some x \<Rightarrow> m\<lparr>st_hardstate := Some (HardState_MergeFrom x (StoragePB_hardstate m))\<rparr> | None \<Rightarrow> m);
          m = (if st_offset from \<noteq> 0 then m\<lparr>st_offset := st_offset from\<rparr> else m)
      in m)"

definition StoragePB_CopyFrom :: "bool \<Rightarrow> StoragePB \<Rightarrow> StoragePB \<Rightarrow> StoragePB" where
  "StoragePB_CopyFrom same from m = (if same then m else StoragePB_MergeFrom from (StoragePB_Clear m))"

definition StoragePB_Swap :: "bool \<Rightarrow> StoragePB \<Rightarrow> StoragePB \<Rightarrow> StoragePB \<times> StoragePB" where
  "StoragePB_Swap same m other =
     (if same then (m, other)
      else (m\<lparr>st_offset := st_offset other, st_snap := st_snap other, st_entries := st_entries other, st_hardstate := st_hardstate other, st_unknown := st_unknown other\<rparr>,
            other\<lparr>st_offset := st_offset m, st_snap := st_snap m, st_entries := st_entries m, st_hardstate := st_hardstate m, st_unknown := st_unknown m\<rparr>))"

subsection \<open>Message\<close>

definition Message_snapshot :: "Message \<Rightarrow> Snapshot" where
  "Message_snapshot m = (case m_snapshot m of Some x \<Rightarrow> x | None \<Rightarrow> new_Snapshot)"

definition Message_Clear :: "Message \<Rightarrow> Message" where
  "Message_Clear m = m\<lparr>m_type := MsgTrival, m_to := 0, m_from := 0, m_term := 0, m_logterm := 0, m_index := 0, m_entries := [], m_commit := 0, m_snapshot := None, m_reject := False, m_rejecthint := 0, m_context := [], m_unknown := []\<rparr>"

definition Message_keep :: "bytes \<Rightarrow> Message \<Rightarrow> Message" where
  "Message_keep raw m = m\<lparr>m_unknown := m_unknown m @ raw\<rparr>"

definition Message_field :: "wire \<Rightarrow> u32 \<Rightarrow> bytes \<Rightarrow> Message \<Rightarrow> Message parsed" where
  "Message_field W tag inp m =
     (if tag_is tag 1 8 then read_enum W inp (\<lambda>v. m\<lparr>m_type := MessageType_cast v\<rparr>) m
      else if tag_is tag 2 16 then read_into (W_uint64 W inp (m_to m)) (\<lambda>v. m\<lparr>m_to := v\<rparr>)
      else if tag_is tag 3 24 then read_into (W_uint64 W inp (m_from m)) (\<lambda>v. m\<lparr>m_from := v\<rparr>)
      else if tag_is tag 4 32 then read_into (W_uint64 W inp (m_term m)) (\<lambda>v. m\<lparr>m_term := v\<rparr>)
      else if tag_is tag 5 40 then read_into (W_uint64 W inp (m_logterm m)) (\<lambda>v. m\<lparr>m_logterm := v\<rparr>)
      else if tag_is tag 6 48 then read_into (W_uint64 W inp (m_index m)) (\<lambda>v. m\<lparr>m_index := v\<rparr>)
      else if tag_is tag 7 58
      then read_message W (Entry_MergePartial W) inp new_Entry (\<lambda>v. m\<lparr>m_entries := m_entries m @ [v]\<rparr>)
      else if tag_is tag 8 64 then read_into (W_uint64 W inp (m_commit m)) (\<lambda>v. m\<lparr>m_commit := v\<rparr>)
      else if tag_is tag 9 74
      then read_message W (Snapshot_MergePartial W) inp (Message_snapshot m) (\<lambda>v. m\<lparr>m_snapshot := Some v\<rparr>)
      else if tag_is tag 10 80 then read_into (W_bool W inp (m_reject m)) (\<lambda>v. m\<lparr>m_reject := v\<rparr>)
      else if tag_is tag 11 88 then read_into (W_uint64 W inp (m_rejecthint m)) (\<lambda>v. m\<lparr>m_rejecthint := v\<rparr>)
      else if tag_is tag 12 98 then read_into (W_bytes W inp (m_context m)) (\<lambda>v. m\<lparr>m_context := v\<rparr>)
      else Unusual)"

definition Message_MergePartial :: "wire \<Rightarrow> bytes \<Rightarrow> Message \<Rightarrow> (bool \<times> Message) option" where
  "Message_MergePartial W inp m = parse_all W (Message_field W) Message_keep inp m"

definition Message_ByteSizeLong :: "wire \<Rightarrow> Message \<Rightarrow> u64" where
  "Message_ByteSizeLong W m =
     size_unknown W (m_unknown m) +
     (sz (m_entries m) + sum_list (map (\<lambda>x. W_size_message W (Entry_ByteSizeLong W x)) (m_entries m))) +
     (if m_context m \<noteq> [] then 1 + W_size_bytes W (m_context m) else 0) +
     (case m_snapshot m of Some x \<Rightarrow> 1 + W_size_message W (Snapshot_ByteSizeLong W x) | None \<Rightarrow> 0) +
     (if m_to m \<noteq> 0 then 1 + W_size_uint64 W (m_to m) else 0) +
     (if m_from m \<noteq> 0 then 1 + W_size_uint64 W (m_from m) else 0) +
     (if m_term m \<noteq> 0 then 1 + W_size_uint64 W (m_term m) else 0) +
     (if m_logterm m \<noteq> 0 then 1 + W_size_uint64 W (m_logterm m) else 0) +
     (if MessageType_value (m_type m) \<noteq> 0 then 1 + W_size_enum W (MessageType_value (m_type m)) else 0) +
     (if m_reject m then 1 + 1 else 0) +
     (if m_index m \<noteq> 0 then 1 + W_size_uint64 W (m_index m) else 0) +
     (if m_commit m \<noteq> 0 then 1 + W_size_uint64 W (m_commit m) else 0) +
     (if m_rejecthint m \<noteq> 0 then 1 + W_size_uint64 W (m_rejecthint m) else 0)"

definition Message_Serialize :: "wire \<Rightarrow> Message \<Rightarrow> bytes" where
  "Message_Serialize W m =
     (if MessageType_value (m_type m) \<noteq> 0 then W_put_enum W 1 (MessageType_value (m_type m)) else []) @
     (if m_to m \<noteq> 0 then W_put_uint64 W 2 (m_to m) else []) @
     (if m_from m \<noteq> 0 then W_put_uint64 W 3 (m_from m) else []) @
     (if m_term m \<noteq> 0 then W_put_uint64 W 4 (m_term m) else []) @
     (if m_logterm m \<noteq> 0 then W_put_uint64 W 5 (m_logterm m) else []) @
     (if m_index m \<noteq> 0 then W_put_uint64 W 6 (m_index m) else []) @
     concat (map (\<lambda>x. put_sub W 7 (Entry_ByteSizeLong W x) (Entry_Serialize W x)) (m_entries m)) @
     (if m_commit m \<noteq> 0 then W_put_uint64 W 8 (m_commit m) else []) @
     (case m_snapshot m of Some x \<Rightarrow> put_sub W 9 (Snapshot_ByteSizeLong W x) (Snapshot_Serialize W x) | None \<Rightarrow> []) @
     (if m_reject m then W_put_bool W 10 (m_reject m) else []) @
     (if m_rejecthint m \<noteq> 0 then W_put_uint64 W 11 (m_rejecthint m) else []) @
     (if m_context m \<noteq> [] then W_put_bytes W 12 (m_context m) else []) @
     put_unknown W (m_unknown m)"

definition Message_SerializeToArray :: "wire \<Rightarrow> Message \<Rightarrow> bytes \<Rightarrow> bytes" where
  "Message_SerializeToArray W m target =
     (let target = (if MessageType_value (m_type m) \<noteq> 0 then W_arr_enum W 1 (MessageType_value (m_type m)) target else target);
          target = (if m_to m \<noteq> 0 then W_arr_uint64 W 2 (m_to m) target else target);
          target = (if m_from m \<noteq> 0 then W_arr_uint64 W 3 (m_from m) target else target);
          target = (if m_term m \<noteq> 0 then W_arr_uint64 W 4 (m_term m) target else target);
          target = (if m_logterm m \<noteq> 0 then W_arr_uint64 W 5 (m_logterm m) target else target);
          target = (if m_index m \<noteq> 0 then W_arr_uint64 W 6 (m_index m) target else target);
          target = fold (\<lambda>x. arr_sub W 7 (Entry_ByteSizeLong W x) (Entry_SerializeToArray W x)) (m_entries m) target;
          target = (if m_commit m \<noteq> 0 then W_arr_uint64 W 8 (m_commit m) target else target);
          target = (case m_snapshot m of Some x \<Rightarrow> arr_sub W 9 (Snapshot_ByteSizeLong W x) (Snapshot_SerializeToArray W x) target | None \<Rightarrow> target);
          target = (if m_reject m then W_arr_bool W 10 (m_reject m) target else target);
          target = (if m_rejecthint m \<noteq> 0 then W_arr_uint64 W 11 (m_rejecthint m) target else target);
          target = (if m_context m \<noteq> [] then W_arr_bytes W 12 (m_context m) target else target)
      in arr_unknown W (m_unknown m) target)"

definition Message_MergeFrom :: "Message \<Rightarrow> Message \<Rightarrow> Message" where
  "Message_MergeFrom from m =
     (let m = m\<lparr>m_unknown := m_unknown m @ m_unknown from\<rparr>;
          m = m\<lparr>m_entries := m_entries m @ m_entries from\<rparr>;
          m = (if m_context from \<noteq> [] then m\<lparr>m_context := m_context from\<rparr> else m);
          m = (case m_snapshot from of
                 Some x \<Rightarrow> m\<lparr>m_snapshot := Some (Snapshot_MergeFrom x (Message_snapshot m))\<rparr> | None \<Rightarrow> m);
          m = (if m_to from \<noteq> 0 then m\<lparr>m_to := m_to from\<rparr> else m);
          m = (if m_from from \<noteq> 0 then m\<lparr>m_from := m_from from\<rparr> else m);
          m = (if m_term from \<noteq> 0 then m\<lparr>m_term := m_term from\<rparr> else m);
          m = (if m_logterm from \<noteq> 0 then m\<lparr>m_logterm := m_logterm from\<rparr> else m);
          m = (if MessageType_value (m_type from) \<noteq> 0 then m\<lparr>m_type := m_type from\<rparr> else m);
          m = (if m_reject from then m\<lparr>m_reject := m_reject from\<rparr> else m);
          m = (if m_index from \<noteq> 0 then m\<lparr>m_index := m_index from\<rparr> else m);
          m = (if m_commit from \<noteq> 0 then m\<lparr>m_commit := m_commit from\<rparr> else m);
          m = (if m_rejecthint from \<noteq> 0 then m\<lparr>m_rejecthint := m_rejecthint from\<rparr> else m)
      in m)"

definition Message_CopyFrom :: "bool \<Rightarrow> Message \<Rightarrow> Message \<Rightarrow> Message" where
  "Message_CopyFrom same from m = (if same then m else Message_MergeFrom from (Message_Clear m))"

definition Message_Swap :: "bool \<Rightarrow> Message \<Rightarrow> Message \<Rightarrow> Message \<times> Message" where
  "Message_Swap same m other =
     (if same then (m, other)
      else (m\<lparr>m_type := m_type other, m_to := m_to other, m_from := m_from other, m_term := m_term other, m_logterm := m_logterm other, m_index := m_index other, m_entries := m_entries other, m_commit := m_commit other, m_snapshot := m_snapshot other, m_reject := m_reject other, m_rejecthint := m_rejecthint other, m_context := m_context other, m_unknown := m_unknown other\<rparr>,
            other\<lparr>m_type := m_type m, m_to := m_to m, m_from := m_from m, m_term := m_term m, m_logterm := m_logterm m, m_index := m_index m, m_entries := m_entries m, m_commit := m_commit m, m_snapshot := m_snapshot m, m_reject := m_reject m, m_rejecthint := m_rejecthint m, m_context := m_context m, m_unknown := m_unknown m\<rparr>))"

subsection \<open>The entry points of the runtime\<close>

text \<open>
  \<open>ParseFromString\<close> clears the message, merges the input into it, and answers whether that
  succeeded; the callers in the repository use the message whatever the answer.
  \<open>SerializeToString\<close> computes the sizes and writes the array.
\<close>

definition parsed_message :: "'m \<Rightarrow> (bool \<times> 'm) option \<Rightarrow> 'm" where
  "parsed_message d x = (case x of Some (ok, m) \<Rightarrow> m | None \<Rightarrow> d)"

definition Message_ParseFromString :: "wire \<Rightarrow> bytes \<Rightarrow> Message" where
  "Message_ParseFromString W data =
     parsed_message new_Message (Message_MergePartial W data (Message_Clear new_Message))"

definition Message_SerializeToString :: "wire \<Rightarrow> Message \<Rightarrow> bytes" where
  "Message_SerializeToString W m = Message_SerializeToArray W m []"

definition StoragePB_ParseFromString :: "wire \<Rightarrow> bytes \<Rightarrow> StoragePB" where
  "StoragePB_ParseFromString W data =
     parsed_message new_StoragePB (StoragePB_MergePartial W data (StoragePB_Clear new_StoragePB))"

definition StoragePB_SerializeToString :: "wire \<Rightarrow> StoragePB \<Rightarrow> bytes" where
  "StoragePB_SerializeToString W m = StoragePB_SerializeToArray W m []"

definition HardState_ParseFromString :: "wire \<Rightarrow> bytes \<Rightarrow> HardState" where
  "HardState_ParseFromString W data =
     parsed_message new_HardState (HardState_MergePartial W data (HardState_Clear new_HardState))"

definition HardState_SerializeToString :: "wire \<Rightarrow> HardState \<Rightarrow> bytes" where
  "HardState_SerializeToString W m = HardState_SerializeToArray W m []"

end
