(* ===== verification/Raftpb_Roundtrip.thy ===== *)
theory Raftpb_Roundtrip
  imports Raftpb_Codec
begin

text \<open>
  What the laws of the runtime give for the seven classes: a parser reads back what the
  serialiser wrote, \<open>ByteSizeLong\<close> is the length of what is written, both serialisers
  write the same bytes, every parser ends, copying copies and swapping swaps.
\<close>

subsection \<open>Messages without unknown fields\<close>

fun option_all :: "('a \<Rightarrow> bool) \<Rightarrow> 'a option \<Rightarrow> bool" where
  "option_all P None = True"
| "option_all P (Some x) = P x"

definition Entry_plain :: "Entry \<Rightarrow> bool" where
  "Entry_plain m = (EntryType_ok (e_type m) \<and> e_unknown m = [])"

definition ConfState_plain :: "ConfState \<Rightarrow> bool" where
  "ConfState_plain m = (cs_unknown m = [])"

definition SnapshotMetadata_plain :: "SnapshotMetadata \<Rightarrow> bool" where
  "SnapshotMetadata_plain m =
     (option_all ConfState_plain (sm_conf_state m) \<and> sm_unknown m = [])"

definition Snapshot_plain :: "Snapshot \<Rightarrow> bool" where
  "Snapshot_plain m =
     (option_all SnapshotMetadata_plain (sn_metadata m) \<and> sn_unknown m = [])"

definition HardState_plain :: "HardState \<Rightarrow> bool" where
  "HardState_plain m = (hs_unknown m = [])"

definition StoragePB_plain :: "StoragePB \<Rightarrow> bool" where
  "StoragePB_plain m =
     (option_all Snapshot_plain (st_snap m) \<and> list_all Entry_plain (st_entries m) \<and>
      option_all HardState_plain (st_hardstate m) \<and> st_unknown m = [])"

definition Message_plain :: "Message \<Rightarrow> bool" where
  "Message_plain m =
     (MessageType_ok (m_type m) \<and> list_all Entry_plain (m_entries m) \<and>
      option_all Snapshot_plain (m_snapshot m) \<and> m_unknown m = [])"

lemma put_unknown_Nil [simp]: "put_unknown W [] = []"
  by (simp add: put_unknown_def)

lemma size_unknown_Nil [simp]: "size_unknown W [] = 0"
  by (simp add: size_unknown_def)


lemma length_concat_map_le: "x \<in> set xs \<Longrightarrow> length (f x) \<le> length (concat (map f xs))"
  by (induction xs) auto

lemmas plain_defs =
  Entry_plain_def ConfState_plain_def SnapshotMetadata_plain_def Snapshot_plain_def
  HardState_plain_def StoragePB_plain_def Message_plain_def

subsection \<open>The parsers undo the serialisers\<close>

context wire_laws
begin

lemma eats_option:
  assumes "1 \<le> n" "n \<le> 15"
    and "\<And>s. field (of_nat (8 * n + 2)) s m = read_message W merge s s0 (\<lambda>v. g (Some v))"
    and "\<And>x. x \<in> set_option o1 \<Longrightarrow>
      merge (f x) s0 = Some (True, x) \<and> length (f x) < 2 ^ 31 \<and> k x = sz (f x)"
    and "g None = m"
  shows "eats field keep (case o1 of Some x \<Rightarrow> put_sub W n (k x) (f x) | None \<Rightarrow> []) m (g o1)"
proof (cases o1)
  case (Some x)
  have "eats field keep (put_sub W n (k x) (f x)) m (g (Some x))"
    by (rule eats_sub [where g = "\<lambda>v. g (Some v)" and merge = merge and ?s0.0 = s0])
      (use assms Some in simp_all)
  then show ?thesis by (simp add: Some)
qed (use assms(5) in simp)

lemma eats_rep:
  assumes "1 \<le> n" "n \<le> 15"
    and "\<And>s ys. field (of_nat (8 * n + 2)) s (g ys) = read_message W merge s s0 (\<lambda>v. g (ys @ [v]))"
    and "\<And>x. x \<in> set xs \<Longrightarrow>
      merge (f x) s0 = Some (True, x) \<and> length (f x) < 2 ^ 31 \<and> k x = sz (f x)"
    and "g [] = m"
  shows "eats field keep (concat (map (\<lambda>x. put_sub W n (k x) (f x)) xs)) m (g xs)"
proof -
  have "eats field keep (concat (map (\<lambda>x. put_sub W n (k x) (f x)) xs)) (g []) (g ([] @ xs))"
  proof (rule eats_concat)
    fix ys y
    assume "y \<in> set xs"
    then show "eats field keep (put_sub W n (k y) (f y)) (g ys) (g (ys @ [y]))"
      by (intro eats_sub [where g = "\<lambda>v. g (ys @ [v])" and merge = merge and ?s0.0 = s0]) (use assms in auto)
  qed
  then show ?thesis by (simp add: assms(5))
qed

lemma put_sub_le_concat:
  assumes "x \<in> set xs"
  shows "length (f x) \<le> length (concat (map (\<lambda>x. put_sub W n (k x) (f x)) xs))"
  using length_concat_map_le [OF assms, of "\<lambda>x. put_sub W n (k x) (f x)"]
    put_sub_longer [of "f x" n "k x"] by (rule order_trans [rotated])

lemma put_sub_le_option:
  "x \<in> set_option o1 \<Longrightarrow> length (f x) \<le> length (case o1 of Some x \<Rightarrow> put_sub W n (k x) (f x) | None \<Rightarrow> [])"
  by (cases o1) (auto simp: put_sub_longer)

lemma put_bytes_le: "length x \<le> length (if x \<noteq> [] then W_put_bytes W n x else [])"
  by (simp add: bytes_longer)

text \<open>The length of each kind of field.\<close>

lemma sz_uint64: "1 \<le> n \<Longrightarrow> n \<le> 15 \<Longrightarrow>
    sz (if b then W_put_uint64 W n v else []) = (if b then 1 + W_size_uint64 W v else 0)"
  by (simp add: uint64_size)

lemma sz_enum: "1 \<le> n \<Longrightarrow> n \<le> 15 \<Longrightarrow>
    sz (if b then W_put_enum W n v else []) = (if b then 1 + W_size_enum W v else 0)"
  by (simp add: enum_size)

lemma sz_bool: "1 \<le> n \<Longrightarrow> n \<le> 15 \<Longrightarrow>
    sz (if b then W_put_bool W n v else []) = (if b then 1 + 1 else 0)"
  using bool_size by simp

lemma sz_bytes: "1 \<le> n \<Longrightarrow> n \<le> 15 \<Longrightarrow> length x < 2 ^ 31 \<Longrightarrow>
    sz (if b then W_put_bytes W n x else []) = (if b then 1 + W_size_bytes W x else 0)"
  by (simp add: bytes_size)

lemma sz_option:
  assumes "1 \<le> n" "n \<le> 15"
    and "\<And>x. x \<in> set_option o1 \<Longrightarrow> length (f x) < 2 ^ 31 \<and> k x = sz (f x)"
  shows "sz (case o1 of Some x \<Rightarrow> put_sub W n (k x) (f x) | None \<Rightarrow> []) =
    (case o1 of Some x \<Rightarrow> 1 + W_size_message W (k x) | None \<Rightarrow> 0)"
  using assms put_sub_size [OF assms(1,2), symmetric] by (cases o1) auto

lemma sz_packed:
  assumes "1 \<le> n" "n \<le> 15" "length (concat (map (W_put_uint64_notag W) vs)) < 2 ^ 31"
  shows "sz (if vs \<noteq> [] then W_put_tag W n 2 @ W_put_varint32 W (packed_cached W vs) else []) +
    sz (concat (map (W_put_uint64_notag W) vs)) = size_packed W vs"
  using size_packed_eq [OF assms] by (simp only: sz_append)

lemmas sz_fields = sz_append sz_uint64 sz_enum sz_bool sz_bytes

subsubsection \<open>ConfState\<close>

lemma ConfState_fit1:
  assumes plain: "ConfState_plain m" and len: "length (ConfState_Serialize W m) < 2 ^ 31"
  shows "length (concat (map (W_put_uint64_notag W) (cs_nodes m))) < 2 ^ 31"
  using len by (simp only: ConfState_Serialize_def length_append)

lemma ConfState_fit2:
  assumes plain: "ConfState_plain m" and len: "length (ConfState_Serialize W m) < 2 ^ 31"
  shows "length (concat (map (W_put_uint64_notag W) (cs_learners m))) < 2 ^ 31"
  using len by (simp only: ConfState_Serialize_def length_append)

lemma ConfState_eats:
  assumes plain: "ConfState_plain m" and len: "length (ConfState_Serialize W m) < 2 ^ 31"
  shows "eats (ConfState_field W) ConfState_keep (ConfState_Serialize W m) new_ConfState m"
proof -
  let ?F = "ConfState_field W" and ?K = ConfState_keep
  let ?m1 = "new_ConfState\<lparr>cs_nodes := cs_nodes m\<rparr>"
  let ?m2 = "?m1\<lparr>cs_learners := cs_learners m\<rparr>"
  have eq: "?m2 = m" using plain by (cases m) (simp add: ConfState_plain_def new_ConfState_def)
  have "eats ?F ?K ((if cs_nodes m \<noteq> [] then W_put_tag W 1 2 @ W_put_varint32 W (packed_cached W (cs_nodes m)) else []) @
      concat (map (W_put_uint64_notag W) (cs_nodes m))) new_ConfState ?m1"
    by (rule eats_packed [where g = "\<lambda>v. new_ConfState\<lparr>cs_nodes := v\<rparr>"]) (simp_all add: ConfState_field_def tag_is_def new_ConfState_def ConfState_fit1 [OF assms, simplified])
  also have "eats ?F ?K ((if cs_learners m \<noteq> [] then W_put_tag W 2 2 @ W_put_varint32 W (packed_cached W (cs_learners m)) else []) @
      concat (map (W_put_uint64_notag W) (cs_learners m))) ?m1 ?m2"
    by (rule eats_packed [where g = "\<lambda>v. ?m1\<lparr>cs_learners := v\<rparr>"]) (simp_all add: ConfState_field_def tag_is_def new_ConfState_def ConfState_fit2 [OF assms, simplified])
  finally show ?thesis
    using plain eq by (simp add: ConfState_Serialize_def ConfState_plain_def split del: if_split)
qed

lemma ConfState_size:
  assumes plain: "ConfState_plain m" and len: "length (ConfState_Serialize W m) < 2 ^ 31"
  shows "ConfState_ByteSizeLong W m = sz (ConfState_Serialize W m)"
proof -
  have s1: "sz (if cs_nodes m \<noteq> [] then W_put_tag W 1 2 @ W_put_varint32 W (packed_cached W (cs_nodes m)) else []) +
      (sz (concat (map (W_put_uint64_notag W) (cs_nodes m))) + c) = size_packed W (cs_nodes m) + c" for c
    using sz_packed [OF _ _ ConfState_fit1 [OF assms], of 1] by (simp add: add.assoc [symmetric])
  have s2: "sz (if cs_learners m \<noteq> [] then W_put_tag W 2 2 @ W_put_varint32 W (packed_cached W (cs_learners m)) else []) +
      (sz (concat (map (W_put_uint64_notag W) (cs_learners m))) + c) = size_packed W (cs_learners m) + c" for c
    using sz_packed [OF _ _ ConfState_fit2 [OF assms], of 2] by (simp add: add.assoc [symmetric])
  show ?thesis
    using plain by (simp add: ConfState_ByteSizeLong_def ConfState_Serialize_def ConfState_plain_def sz_append
        sz_uint64 sz_enum sz_bool s1 s2 add.assoc sz_packed [OF _ _ ConfState_fit2 [OF assms], of 2] del: One_nat_def split del: if_split)
qed

lemma ConfState_round:
  assumes plain: "ConfState_plain m" and len: "length (ConfState_Serialize W m) < 2 ^ 31"
  shows "ConfState_MergePartial W (ConfState_Serialize W m) new_ConfState = Some (True, m) \<and>
    ConfState_ByteSizeLong W m = sz (ConfState_Serialize W m)"
  using eats_parse_all [OF ConfState_eats [OF assms]] ConfState_size [OF assms] by (simp add: ConfState_MergePartial_def)

subsubsection \<open>Entry\<close>

lemma Entry_fit4:
  assumes plain: "Entry_plain m" and len: "length (Entry_Serialize W m) < 2 ^ 31"
  shows "length (e_data m) < 2 ^ 31"
  using len put_bytes_le [of "e_data m" 4] by (simp only: Entry_Serialize_def length_append)

lemma Entry_eats:
  assumes plain: "Entry_plain m" and len: "length (Entry_Serialize W m) < 2 ^ 31"
  shows "eats (Entry_field W) Entry_keep (Entry_Serialize W m) new_Entry m"
proof -
  let ?F = "Entry_field W" and ?K = Entry_keep
  let ?m1 = "new_Entry\<lparr>e_type := e_type m\<rparr>"
  let ?m2 = "?m1\<lparr>e_term := e_term m\<rparr>"
  let ?m3 = "?m2\<lparr>e_index := e_index m\<rparr>"
  let ?m4 = "?m3\<lparr>e_data := e_data m\<rparr>"
  have eq: "?m4 = m" using plain by (cases m) (simp add: Entry_plain_def new_Entry_def)
  have "eats ?F ?K (if EntryType_value (e_type m) \<noteq> 0 then W_put_enum W 1 (EntryType_value (e_type m)) else [])
      new_Entry ((\<lambda>v. new_Entry\<lparr>e_type := EntryType_cast v\<rparr>) (EntryType_value (e_type m)))"
    by (rule eats_enum) (simp_all add: Entry_field_def tag_is_def new_Entry_def EntryType_cast_def)
  then have "eats ?F ?K (if EntryType_value (e_type m) \<noteq> 0 then W_put_enum W 1 (EntryType_value (e_type m)) else []) new_Entry ?m1"
    using plain by (simp add: EntryType_cast_value Entry_plain_def)
  also have "eats ?F ?K (if e_term m \<noteq> 0 then W_put_uint64 W 2 (e_term m) else []) ?m1 ?m2"
    by (rule eats_uint64 [where g = "\<lambda>v. ?m1\<lparr>e_term := v\<rparr>"]) (simp_all add: Entry_field_def tag_is_def new_Entry_def)
  also have "eats ?F ?K (if e_index m \<noteq> 0 then W_put_uint64 W 3 (e_index m) else []) ?m2 ?m3"
    by (rule eats_uint64 [where g = "\<lambda>v. ?m2\<lparr>e_index := v\<rparr>"]) (simp_all add: Entry_field_def tag_is_def new_Entry_def)
  also have "eats ?F ?K (if e_data m \<noteq> [] then W_put_bytes W 4 (e_data m) else []) ?m3 ?m4"
    by (rule eats_bytes [where g = "\<lambda>v. ?m3\<lparr>e_data := v\<rparr>"]) (simp_all add: Entry_field_def tag_is_def new_Entry_def Entry_fit4 [OF assms, simplified])
  finally show ?thesis
    using plain eq by (simp add: Entry_Serialize_def Entry_plain_def split del: if_split)
qed

lemma Entry_size:
  assumes plain: "Entry_plain m" and len: "length (Entry_Serialize W m) < 2 ^ 31"
  shows "Entry_ByteSizeLong W m = sz (Entry_Serialize W m)"
proof -
  note s4 = sz_bytes [OF _ _ Entry_fit4 [OF assms], of 4]
  show ?thesis
    using plain by (simp add: Entry_ByteSizeLong_def Entry_Serialize_def Entry_plain_def sz_append
        sz_uint64 sz_enum sz_bool s4 ac_simps del: One_nat_def split del: if_split)
qed

lemma Entry_round:
  assumes plain: "Entry_plain m" and len: "length (Entry_Serialize W m) < 2 ^ 31"
  shows "Entry_MergePartial W (Entry_Serialize W m) new_Entry = Some (True, m) \<and>
    Entry_ByteSizeLong W m = sz (Entry_Serialize W m)"
  using eats_parse_all [OF Entry_eats [OF assms]] Entry_size [OF assms] by (simp add: Entry_MergePartial_def)

subsubsection \<open>SnapshotMetadata\<close>

lemma SnapshotMetadata_fit1:
  assumes plain: "SnapshotMetadata_plain m" and len: "length (SnapshotMetadata_Serialize W m) < 2 ^ 31" and x: "x \<in> set_option (sm_conf_state m)"
  shows "ConfState_MergePartial W (ConfState_Serialize W x) new_ConfState = Some (True, x) \<and>
      length (ConfState_Serialize W x) < 2 ^ 31 \<and> ConfState_ByteSizeLong W x = sz (ConfState_Serialize W x)"
proof -
  have p: "ConfState_plain x" using plain x by (auto simp: plain_defs list_all_iff)
  have "length (ConfState_Serialize W x) < 2 ^ 31"
    using len put_sub_le_option [OF x, of "ConfState_Serialize W" 1 "ConfState_ByteSizeLong W"]
    by (simp only: SnapshotMetadata_Serialize_def length_append)
  then show ?thesis using ConfState_round [OF p] by blast
qed

lemma SnapshotMetadata_eats:
  assumes plain: "SnapshotMetadata_plain m" and len: "length (SnapshotMetadata_Serialize W m) < 2 ^ 31"
  shows "eats (SnapshotMetadata_field W) SnapshotMetadata_keep (SnapshotMetadata_Serialize W m) new_SnapshotMetadata m"
proof -
  let ?F = "SnapshotMetadata_field W" and ?K = SnapshotMetadata_keep
  let ?m1 = "new_SnapshotMetadata\<lparr>sm_conf_state := sm_conf_state m\<rparr>"
  let ?m2 = "?m1\<lparr>sm_index := sm_index m\<rparr>"
  let ?m3 = "?m2\<lparr>sm_term := sm_term m\<rparr>"
  have eq: "?m3 = m" using plain by (cases m) (simp add: SnapshotMetadata_plain_def new_SnapshotMetadata_def)
  have "eats ?F ?K (case sm_conf_state m of Some x \<Rightarrow> put_sub W 1 (ConfState_ByteSizeLong W x) (ConfState_Serialize W x) | None \<Rightarrow> []) new_SnapshotMetadata ?m1"
    by (rule eats_option [where g = "\<lambda>v. new_SnapshotMetadata\<lparr>sm_conf_state := v\<rparr>" and merge = "ConfState_MergePartial W" and ?s0.0 = "new_ConfState"]) (simp_all add: SnapshotMetadata_field_def tag_is_def new_SnapshotMetadata_def SnapshotMetadata_conf_state_def SnapshotMetadata_fit1 [OF assms, simplified])
  also have "eats ?F ?K (if sm_index m \<noteq> 0 then W_put_uint64 W 2 (sm_index m) else []) ?m1 ?m2"
    by (rule eats_uint64 [where g = "\<lambda>v. ?m1\<lparr>sm_index := v\<rparr>"]) (simp_all add: SnapshotMetadata_field_def tag_is_def new_SnapshotMetadata_def)
  also have "eats ?F ?K (if sm_term m \<noteq> 0 then W_put_uint64 W 3 (sm_term m) else []) ?m2 ?m3"
    by (rule eats_uint64 [where g = "\<lambda>v. ?m2\<lparr>sm_term := v\<rparr>"]) (simp_all add: SnapshotMetadata_field_def tag_is_def new_SnapshotMetadata_def)
  finally show ?thesis
    using plain eq by (simp add: SnapshotMetadata_Serialize_def SnapshotMetadata_plain_def split del: if_split)
qed

lemma SnapshotMetadata_size:
  assumes plain: "SnapshotMetadata_plain m" and len: "length (SnapshotMetadata_Serialize W m) < 2 ^ 31"
  shows "SnapshotMetadata_ByteSizeLong W m = sz (SnapshotMetadata_Serialize W m)"
proof -
  have s1: "sz (case sm_conf_state m of Some x \<Rightarrow> put_sub W 1 (ConfState_ByteSizeLong W x) (ConfState_Serialize W x) | None \<Rightarrow> []) =
      (case sm_conf_state m of Some x \<Rightarrow> 1 + W_size_message W (ConfState_ByteSizeLong W x) | None \<Rightarrow> 0)"
    by (rule sz_option) (use SnapshotMetadata_fit1 [OF assms] in auto)
  show ?thesis
    using plain by (simp add: SnapshotMetadata_ByteSizeLong_def SnapshotMetadata_Serialize_def SnapshotMetadata_plain_def sz_append
        sz_uint64 sz_enum sz_bool s1 ac_simps del: One_nat_def split del: if_split)
qed

lemma SnapshotMetadata_round:
  assumes plain: "SnapshotMetadata_plain m" and len: "length (SnapshotMetadata_Serialize W m) < 2 ^ 31"
  shows "SnapshotMetadata_MergePartial W (SnapshotMetadata_Serialize W m) new_SnapshotMetadata = Some (True, m) \<and>
    SnapshotMetadata_ByteSizeLong W m = sz (SnapshotMetadata_Serialize W m)"
  using eats_parse_all [OF SnapshotMetadata_eats [OF assms]] SnapshotMetadata_size [OF assms] by (simp add: SnapshotMetadata_MergePartial_def)

subsubsection \<open>Snapshot\<close>

lemma Snapshot_fit1:
  assumes plain: "Snapshot_plain m" and len: "length (Snapshot_Serialize W m) < 2 ^ 31"
  shows "length (sn_data m) < 2 ^ 31"
  using len put_bytes_le [of "sn_data m" 1] by (simp only: Snapshot_Serialize_def length_append)

lemma Snapshot_fit2:
  assumes plain: "Snapshot_plain m" and len: "length (Snapshot_Serialize W m) < 2 ^ 31" and x: "x \<in> set_option (sn_metadata m)"
  shows "SnapshotMetadata_MergePartial W (SnapshotMetadata_Serialize W x) new_SnapshotMetadata = Some (True, x) \<and>
      length (SnapshotMetadata_Serialize W x) < 2 ^ 31 \<and> SnapshotMetadata_ByteSizeLong W x = sz (SnapshotMetadata_Serialize W x)"
proof -
  have p: "SnapshotMetadata_plain x" using plain x by (auto simp: plain_defs list_all_iff)
  have "length (SnapshotMetadata_Serialize W x) < 2 ^ 31"
    using len put_sub_le_option [OF x, of "SnapshotMetadata_Serialize W" 2 "SnapshotMetadata_ByteSizeLong W"]
    by (simp only: Snapshot_Serialize_def length_append)
  then show ?thesis using SnapshotMetadata_round [OF p] by blast
qed

lemma Snapshot_eats:
  assumes plain: "Snapshot_plain m" and len: "length (Snapshot_Serialize W m) < 2 ^ 31"
  shows "eats (Snapshot_field W) Snapshot_keep (Snapshot_Serialize W m) new_Snapshot m"
proof -
  let ?F = "Snapshot_field W" and ?K = Snapshot_keep
  let ?m1 = "new_Snapshot\<lparr>sn_data := sn_data m\<rparr>"
  let ?m2 = "?m1\<lparr>sn_metadata := sn_metadata m\<rparr>"
  have eq: "?m2 = m" using plain by (cases m) (simp add: Snapshot_plain_def new_Snapshot_def)
  have "eats ?F ?K (if sn_data m \<noteq> [] then W_put_bytes W 1 (sn_data m) else []) new_Snapshot ?m1"
    by (rule eats_bytes [where g = "\<lambda>v. new_Snapshot\<lparr>sn_data := v\<rparr>"]) (simp_all add: Snapshot_field_def tag_is_def new_Snapshot_def Snapshot_fit1 [OF assms, simplified])
  also have "eats ?F ?K (case sn_metadata m of Some x \<Rightarrow> put_sub W 2 (SnapshotMetadata_ByteSizeLong W x) (SnapshotMetadata_Serialize W x) | None \<Rightarrow> []) ?m1 ?m2"
    by (rule eats_option [where g = "\<lambda>v. ?m1\<lparr>sn_metadata := v\<rparr>" and merge = "SnapshotMetadata_MergePartial W" and ?s0.0 = "new_SnapshotMetadata"]) (simp_all add: Snapshot_field_def tag_is_def new_Snapshot_def Snapshot_metadata_def Snapshot_fit2 [OF assms, simplified])
  finally show ?thesis
    using plain eq by (simp add: Snapshot_Serialize_def Snapshot_plain_def split del: if_split)
qed

lemma Snapshot_size:
  assumes plain: "Snapshot_plain m" and len: "length (Snapshot_Serialize W m) < 2 ^ 31"
  shows "Snapshot_ByteSizeLong W m = sz (Snapshot_Serialize W m)"
proof -
  note s1 = sz_bytes [OF _ _ Snapshot_fit1 [OF assms], of 1]
  have s2: "sz (case sn_metadata m of Some x \<Rightarrow> put_sub W 2 (SnapshotMetadata_ByteSizeLong W x) (SnapshotMetadata_Serialize W x) | None \<Rightarrow> []) =
      (case sn_metadata m of Some x \<Rightarrow> 1 + W_size_message W (SnapshotMetadata_ByteSizeLong W x) | None \<Rightarrow> 0)"
    by (rule sz_option) (use Snapshot_fit2 [OF assms] in auto)
  show ?thesis
    using plain by (simp add: Snapshot_ByteSizeLong_def Snapshot_Serialize_def Snapshot_plain_def sz_append
        sz_uint64 sz_enum sz_bool s1 s2 ac_simps del: One_nat_def split del: if_split)
qed

lemma Snapshot_round:
  assumes plain: "Snapshot_plain m" and len: "length (Snapshot_Serialize W m) < 2 ^ 31"
  shows "Snapshot_MergePartial W (Snapshot_Serialize W m) new_Snapshot = Some (True, m) \<and>
    Snapshot_ByteSizeLong W m = sz (Snapshot_Serialize W m)"
  using eats_parse_all [OF Snapshot_eats [OF assms]] Snapshot_size [OF assms] by (simp add: Snapshot_MergePartial_def)

subsubsection \<open>HardState\<close>

lemma HardState_eats:
  assumes plain: "HardState_plain m" and len: "length (HardState_Serialize W m) < 2 ^ 31"
  shows "eats (HardState_field W) HardState_keep (HardState_Serialize W m) new_HardState m"
proof -
  let ?F = "HardState_field W" and ?K = HardState_keep
  let ?m1 = "new_HardState\<lparr>hs_term := hs_term m\<rparr>"
  let ?m2 = "?m1\<lparr>hs_vote := hs_vote m\<rparr>"
  let ?m3 = "?m2\<lparr>hs_commit := hs_commit m\<rparr>"
  have eq: "?m3 = m" using plain by (cases m) (simp add: HardState_plain_def new_HardState_def)
  have "eats ?F ?K (if hs_term m \<noteq> 0 then W_put_uint64 W 1 (hs_term m) else []) new_HardState ?m1"
    by (rule eats_uint64 [where g = "\<lambda>v. new_HardState\<lparr>hs_term := v\<rparr>"]) (simp_all add: HardState_field_def tag_is_def new_HardState_def)
  also have "eats ?F ?K (if hs_vote m \<noteq> 0 then W_put_uint64 W 2 (hs_vote m) else []) ?m1 ?m2"
    by (rule eats_uint64 [where g = "\<lambda>v. ?m1\<lparr>hs_vote := v\<rparr>"]) (simp_all add: HardState_field_def tag_is_def new_HardState_def)
  also have "eats ?F ?K (if hs_commit m \<noteq> 0 then W_put_uint64 W 3 (hs_commit m) else []) ?m2 ?m3"
    by (rule eats_uint64 [where g = "\<lambda>v. ?m2\<lparr>hs_commit := v\<rparr>"]) (simp_all add: HardState_field_def tag_is_def new_HardState_def)
  finally show ?thesis
    using plain eq by (simp add: HardState_Serialize_def HardState_plain_def split del: if_split)
qed

lemma HardState_size:
  assumes plain: "HardState_plain m" and len: "length (HardState_Serialize W m) < 2 ^ 31"
  shows "HardState_ByteSizeLong W m = sz (HardState_Serialize W m)"
proof -
  show ?thesis
    using plain by (simp add: HardState_ByteSizeLong_def HardState_Serialize_def HardState_plain_def sz_append
        sz_uint64 sz_enum sz_bool  ac_simps del: One_nat_def split del: if_split)
qed

lemma HardState_round:
  assumes plain: "HardState_plain m" and len: "length (HardState_Serialize W m) < 2 ^ 31"
  shows "HardState_MergePartial W (HardState_Serialize W m) new_HardState = Some (True, m) \<and>
    HardState_ByteSizeLong W m = sz (HardState_Serialize W m)"
  using eats_parse_all [OF HardState_eats [OF assms]] HardState_size [OF assms] by (simp add: HardState_MergePartial_def)

subsubsection \<open>StoragePB\<close>

lemma StoragePB_fit2:
  assumes plain: "StoragePB_plain m" and len: "length (StoragePB_Serialize W m) < 2 ^ 31" and x: "x \<in> set_option (st_snap m)"
  shows "Snapshot_MergePartial W (Snapshot_Serialize W x) new_Snapshot = Some (True, x) \<and>
      length (Snapshot_Serialize W x) < 2 ^ 31 \<and> Snapshot_ByteSizeLong W x = sz (Snapshot_Serialize W x)"
proof -
  have p: "Snapshot_plain x" using plain x by (auto simp: plain_defs list_all_iff)
  have "length (Snapshot_Serialize W x) < 2 ^ 31"
    using len put_sub_le_option [OF x, of "Snapshot_Serialize W" 2 "Snapshot_ByteSizeLong W"]
    by (simp only: StoragePB_Serialize_def length_append)
  then show ?thesis using Snapshot_round [OF p] by blast
qed

lemma StoragePB_fit3:
  assumes plain: "StoragePB_plain m" and len: "length (StoragePB_Serialize W m) < 2 ^ 31" and x: "x \<in> set (st_entries m)"
  shows "Entry_MergePartial W (Entry_Serialize W x) new_Entry = Some (True, x) \<and>
      length (Entry_Serialize W x) < 2 ^ 31 \<and> Entry_ByteSizeLong W x = sz (Entry_Serialize W x)"
proof -
  have p: "Entry_plain x" using plain x by (auto simp: plain_defs list_all_iff)
  have "length (Entry_Serialize W x) < 2 ^ 31"
    using len put_sub_le_concat [OF x, of "Entry_Serialize W" 3 "Entry_ByteSizeLong W"]
    by (simp only: StoragePB_Serialize_def length_append)
  then show ?thesis using Entry_round [OF p] by blast
qed

lemma StoragePB_fit4:
  assumes plain: "StoragePB_plain m" and len: "length (StoragePB_Serialize W m) < 2 ^ 31" and x: "x \<in> set_option (st_hardstate m)"
  shows "HardState_MergePartial W (HardState_Serialize W x) new_HardState = Some (True, x) \<and>
      length (HardState_Serialize W x) < 2 ^ 31 \<and> HardState_ByteSizeLong W x = sz (HardState_Serialize W x)"
proof -
  have p: "HardState_plain x" using plain x by (auto simp: plain_defs list_all_iff)
  have "length (HardState_Serialize W x) < 2 ^ 31"
    using len put_sub_le_option [OF x, of "HardState_Serialize W" 4 "HardState_ByteSizeLong W"]
    by (simp only: StoragePB_Serialize_def length_append)
  then show ?thesis using HardState_round [OF p] by blast
qed

lemma StoragePB_eats:
  assumes plain: "StoragePB_plain m" and len: "length (StoragePB_Serialize W m) < 2 ^ 31"
  shows "eats (StoragePB_field W) StoragePB_keep (StoragePB_Serialize W m) new_StoragePB m"
proof -
  let ?F = "StoragePB_field W" and ?K = StoragePB_keep
  let ?m1 = "new_StoragePB\<lparr>st_offset := st_offset m\<rparr>"
  let ?m2 = "?m1\<lparr>st_snap := st_snap m\<rparr>"
  let ?m3 = "?m2\<lparr>st_entries := st_entries m\<rparr>"
  let ?m4 = "?m3\<lparr>st_hardstate := st_hardstate m\<rparr>"
  have eq: "?m4 = m" using plain by (cases m) (simp add: StoragePB_plain_def new_StoragePB_def)
  have "eats ?F ?K (if st_offset m \<noteq> 0 then W_put_uint64 W 1 (st_offset m) else []) new_StoragePB ?m1"
    by (rule eats_uint64 [where g = "\<lambda>v. new_StoragePB\<lparr>st_offset := v\<rparr>"]) (simp_all add: StoragePB_field_def tag_is_def new_StoragePB_def)
  also have "eats ?F ?K (case st_snap m of Some x \<Rightarrow> put_sub W 2 (Snapshot_ByteSizeLong W x) (Snapshot_Serialize W x) | None \<Rightarrow> []) ?m1 ?m2"
    by (rule eats_option [where g = "\<lambda>v. ?m1\<lparr>st_snap := v\<rparr>" and merge = "Snapshot_MergePartial W" and ?s0.0 = "new_Snapshot"]) (simp_all add: StoragePB_field_def tag_is_def new_StoragePB_def StoragePB_snap_def StoragePB_fit2 [OF assms, simplified])
  also have "eats ?F ?K (concat (map (\<lambda>x. put_sub W 3 (Entry_ByteSizeLong W x) (Entry_Serialize W x)) (st_entries m))) ?m2 ?m3"
    by (rule eats_rep [where g = "\<lambda>v. ?m2\<lparr>st_entries := v\<rparr>" and merge = "Entry_MergePartial W" and ?s0.0 = "new_Entry"]) (simp_all add: StoragePB_field_def tag_is_def new_StoragePB_def StoragePB_fit3 [OF assms, simplified])
  also have "eats ?F ?K (case st_hardstate m of Some x \<Rightarrow> put_sub W 4 (HardState_ByteSizeLong W x) (HardState_Serialize W x) | None \<Rightarrow> []) ?m3 ?m4"
    by (rule eats_option [where g = "\<lambda>v. ?m3\<lparr>st_hardstate := v\<rparr>" and merge = "HardState_MergePartial W" and ?s0.0 = "new_HardState"]) (simp_all add: StoragePB_field_def tag_is_def new_StoragePB_def StoragePB_hardstate_def StoragePB_fit4 [OF assms, simplified])
  finally show ?thesis
    using plain eq by (simp add: StoragePB_Serialize_def StoragePB_plain_def split del: if_split)
qed

lemma StoragePB_size:
  assumes plain: "StoragePB_plain m" and len: "length (StoragePB_Serialize W m) < 2 ^ 31"
  shows "StoragePB_ByteSizeLong W m = sz (StoragePB_Serialize W m)"
proof -
  have s2: "sz (case st_snap m of Some x \<Rightarrow> put_sub W 2 (Snapshot_ByteSizeLong W x) (Snapshot_Serialize W x) | None \<Rightarrow> []) =
      (case st_snap m of Some x \<Rightarrow> 1 + W_size_message W (Snapshot_ByteSizeLong W x) | None \<Rightarrow> 0)"
    by (rule sz_option) (use StoragePB_fit2 [OF assms] in auto)
  have s3: "sz (concat (map (\<lambda>x. put_sub W 3 (Entry_ByteSizeLong W x) (Entry_Serialize W x)) (st_entries m))) =
      sz (st_entries m) + sum_list (map (\<lambda>x. W_size_message W (Entry_ByteSizeLong W x)) (st_entries m))"
    by (rule rep_size [symmetric]) (use StoragePB_fit3 [OF assms] in auto)
  have s4: "sz (case st_hardstate m of Some x \<Rightarrow> put_sub W 4 (HardState_ByteSizeLong W x) (HardState_Serialize W x) | None \<Rightarrow> []) =
      (case st_hardstate m of Some x \<Rightarrow> 1 + W_size_message W (HardState_ByteSizeLong W x) | None \<Rightarrow> 0)"
    by (rule sz_option) (use StoragePB_fit4 [OF assms] in auto)
  show ?thesis
    using plain by (simp add: StoragePB_ByteSizeLong_def StoragePB_Serialize_def StoragePB_plain_def sz_append
        sz_uint64 sz_enum sz_bool s2 s3 s4 ac_simps del: One_nat_def split del: if_split)
qed

lemma StoragePB_round:
  assumes plain: "StoragePB_plain m" and len: "length (StoragePB_Serialize W m) < 2 ^ 31"
  shows "StoragePB_MergePartial W (StoragePB_Serialize W m) new_StoragePB = Some (True, m) \<and>
    StoragePB_ByteSizeLong W m = sz (StoragePB_Serialize W m)"
  using eats_parse_all [OF StoragePB_eats [OF assms]] StoragePB_size [OF assms] by (simp add: StoragePB_MergePartial_def)

subsubsection \<open>Message\<close>

lemma Message_fit7:
  assumes plain: "Message_plain m" and len: "length (Message_Serialize W m) < 2 ^ 31" and x: "x \<in> set (m_entries m)"
  shows "Entry_MergePartial W (Entry_Serialize W x) new_Entry = Some (True, x) \<and>
      length (Entry_Serialize W x) < 2 ^ 31 \<and> Entry_ByteSizeLong W x = sz (Entry_Serialize W x)"
proof -
  have p: "Entry_plain x" using plain x by (auto simp: plain_defs list_all_iff)
  have "length (Entry_Serialize W x) < 2 ^ 31"
    using len put_sub_le_concat [OF x, of "Entry_Serialize W" 7 "Entry_ByteSizeLong W"]
    by (simp only: Message_Serialize_def length_append)
  then show ?thesis using Entry_round [OF p] by blast
qed

lemma Message_fit9:
  assumes plain: "Message_plain m" and len: "length (Message_Serialize W m) < 2 ^ 31" and x: "x \<in> set_option (m_snapshot m)"
  shows "Snapshot_MergePartial W (Snapshot_Serialize W x) new_Snapshot = Some (True, x) \<and>
      length (Snapshot_Serialize W x) < 2 ^ 31 \<and> Snapshot_ByteSizeLong W x = sz (Snapshot_Serialize W x)"
proof -
  have p: "Snapshot_plain x" using plain x by (auto simp: plain_defs list_all_iff)
  have "length (Snapshot_Serialize W x) < 2 ^ 31"
    using len put_sub_le_option [OF x, of "Snapshot_Serialize W" 9 "Snapshot_ByteSizeLong W"]
    by (simp only: Message_Serialize_def length_append)
  then show ?thesis using Snapshot_round [OF p] by blast
qed

lemma Message_fit12:
  assumes plain: "Message_plain m" and len: "length (Message_Serialize W m) < 2 ^ 31"
  shows "length (m_context m) < 2 ^ 31"
  using len put_bytes_le [of "m_context m" 12] by (simp only: Message_Serialize_def length_append)

lemma Message_eats:
  assumes plain: "Message_plain m" and len: "length (Message_Serialize W m) < 2 ^ 31"
  shows "eats (Message_field W) Message_keep (Message_Serialize W m) new_Message m"
proof -
  let ?F = "Message_field W" and ?K = Message_keep
  let ?m1 = "new_Message\<lparr>m_type := m_type m\<rparr>"
  let ?m2 = "?m1\<lparr>m_to := m_to m\<rparr>"
  let ?m3 = "?m2\<lparr>m_from := m_from m\<rparr>"
  let ?m4 = "?m3\<lparr>m_term := m_term m\<rparr>"
  let ?m5 = "?m4\<lparr>m_logterm := m_logterm m\<rparr>"
  let ?m6 = "?m5\<lparr>m_index := m_index m\<rparr>"
  let ?m7 = "?m6\<lparr>m_entries := m_entries m\<rparr>"
  let ?m8 = "?m7\<lparr>m_commit := m_commit m\<rparr>"
  let ?m9 = "?m8\<lparr>m_snapshot := m_snapshot m\<rparr>"
  let ?m10 = "?m9\<lparr>m_reject := m_reject m\<rparr>"
  let ?m11 = "?m10\<lparr>m_rejecthint := m_rejecthint m\<rparr>"
  let ?m12 = "?m11\<lparr>m_context := m_context m\<rparr>"
  have eq: "?m12 = m" using plain by (cases m) (simp add: Message_plain_def new_Message_def)
  have "eats ?F ?K (if MessageType_value (m_type m) \<noteq> 0 then W_put_enum W 1 (MessageType_value (m_type m)) else [])
      new_Message ((\<lambda>v. new_Message\<lparr>m_type := MessageType_cast v\<rparr>) (MessageType_value (m_type m)))"
    by (rule eats_enum) (simp_all add: Message_field_def tag_is_def new_Message_def MessageType_cast_def MessageType_enumerators_def)
  then have "eats ?F ?K (if MessageType_value (m_type m) \<noteq> 0 then W_put_enum W 1 (MessageType_value (m_type m)) else []) new_Message ?m1"
    using plain by (simp add: MessageType_cast_value Message_plain_def)
  also have "eats ?F ?K (if m_to m \<noteq> 0 then W_put_uint64 W 2 (m_to m) else []) ?m1 ?m2"
    by (rule eats_uint64 [where g = "\<lambda>v. ?m1\<lparr>m_to := v\<rparr>"]) (simp_all add: Message_field_def tag_is_def new_Message_def)
  also have "eats ?F ?K (if m_from m \<noteq> 0 then W_put_uint64 W 3 (m_from m) else []) ?m2 ?m3"
    by (rule eats_uint64 [where g = "\<lambda>v. ?m2\<lparr>m_from := v\<rparr>"]) (simp_all add: Message_field_def tag_is_def new_Message_def)
  also have "eats ?F ?K (if m_term m \<noteq> 0 then W_put_uint64 W 4 (m_term m) else []) ?m3 ?m4"
    by (rule eats_uint64 [where g = "\<lambda>v. ?m3\<lparr>m_term := v\<rparr>"]) (simp_all add: Message_field_def tag_is_def new_Message_def)
  also have "eats ?F ?K (if m_logterm m \<noteq> 0 then W_put_uint64 W 5 (m_logterm m) else []) ?m4 ?m5"
    by (rule eats_uint64 [where g = "\<lambda>v. ?m4\<lparr>m_logterm := v\<rparr>"]) (simp_all add: Message_field_def tag_is_def new_Message_def)
  also have "eats ?F ?K (if m_index m \<noteq> 0 then W_put_uint64 W 6 (m_index m) else []) ?m5 ?m6"
    by (rule eats_uint64 [where g = "\<lambda>v. ?m5\<lparr>m_index := v\<rparr>"]) (simp_all add: Message_field_def tag_is_def new_Message_def)
  also have "eats ?F ?K (concat (map (\<lambda>x. put_sub W 7 (Entry_ByteSizeLong W x) (Entry_Serialize W x)) (m_entries m))) ?m6 ?m7"
    by (rule eats_rep [where g = "\<lambda>v. ?m6\<lparr>m_entries := v\<rparr>" and merge = "Entry_MergePartial W" and ?s0.0 = "new_Entry"]) (simp_all add: Message_field_def tag_is_def new_Message_def Message_fit7 [OF assms, simplified])
  also have "eats ?F ?K (if m_commit m \<noteq> 0 then W_put_uint64 W 8 (m_commit m) else []) ?m7 ?m8"
    by (rule eats_uint64 [where g = "\<lambda>v. ?m7\<lparr>m_commit := v\<rparr>"]) (simp_all add: Message_field_def tag_is_def new_Message_def)
  also have "eats ?F ?K (case m_snapshot m of Some x \<Rightarrow> put_sub W 9 (Snapshot_ByteSizeLong W x) (Snapshot_Serialize W x) | None \<Rightarrow> []) ?m8 ?m9"
    by (rule eats_option [where g = "\<lambda>v. ?m8\<lparr>m_snapshot := v\<rparr>" and merge = "Snapshot_MergePartial W" and ?s0.0 = "new_Snapshot"]) (simp_all add: Message_field_def tag_is_def new_Message_def Message_snapshot_def Message_fit9 [OF assms, simplified])
  also have "eats ?F ?K (if m_reject m then W_put_bool W 10 (m_reject m) else []) ?m9 ?m10"
    by (rule eats_bool [where g = "\<lambda>v. ?m9\<lparr>m_reject := v\<rparr>"]) (simp_all add: Message_field_def tag_is_def new_Message_def)
  also have "eats ?F ?K (if m_rejecthint m \<noteq> 0 then W_put_uint64 W 11 (m_rejecthint m) else []) ?m10 ?m11"
    by (rule eats_uint64 [where g = "\<lambda>v. ?m10\<lparr>m_rejecthint := v\<rparr>"]) (simp_all add: Message_field_def tag_is_def new_Message_def)
  also have "eats ?F ?K (if m_context m \<noteq> [] then W_put_bytes W 12 (m_context m) else []) ?m11 ?m12"
    by (rule eats_bytes [where g = "\<lambda>v. ?m11\<lparr>m_context := v\<rparr>"]) (simp_all add: Message_field_def tag_is_def new_Message_def Message_fit12 [OF assms, simplified])
  finally show ?thesis
    using plain eq by (simp add: Message_Serialize_def Message_plain_def split del: if_split)
qed

lemma Message_size:
  assumes plain: "Message_plain m" and len: "length (Message_Serialize W m) < 2 ^ 31"
  shows "Message_ByteSizeLong W m = sz (Message_Serialize W m)"
proof -
  have s7: "sz (concat (map (\<lambda>x. put_sub W 7 (Entry_ByteSizeLong W x) (Entry_Serialize W x)) (m_entries m))) =
      sz (m_entries m) + sum_list (map (\<lambda>x. W_size_message W (Entry_ByteSizeLong W x)) (m_entries m))"
    by (rule rep_size [symmetric]) (use Message_fit7 [OF assms] in auto)
  have s9: "sz (case m_snapshot m of Some x \<Rightarrow> put_sub W 9 (Snapshot_ByteSizeLong W x) (Snapshot_Serialize W x) | None \<Rightarrow> []) =
      (case m_snapshot m of Some x \<Rightarrow> 1 + W_size_message W (Snapshot_ByteSizeLong W x) | None \<Rightarrow> 0)"
    by (rule sz_option) (use Message_fit9 [OF assms] in auto)
  note s12 = sz_bytes [OF _ _ Message_fit12 [OF assms], of 12]
  show ?thesis
    using plain by (simp add: Message_ByteSizeLong_def Message_Serialize_def Message_plain_def sz_append
        sz_uint64 sz_enum sz_bool s7 s9 s12 ac_simps del: One_nat_def split del: if_split)
qed

lemma Message_round:
  assumes plain: "Message_plain m" and len: "length (Message_Serialize W m) < 2 ^ 31"
  shows "Message_MergePartial W (Message_Serialize W m) new_Message = Some (True, m) \<and>
    Message_ByteSizeLong W m = sz (Message_Serialize W m)"
  using eats_parse_all [OF Message_eats [OF assms]] Message_size [OF assms] by (simp add: Message_MergePartial_def)

end

end
