(* ===== verification/Raftpb_Operations.thy ===== *)
theory Raftpb_Operations
  imports Raftpb_Roundtrip
begin

text \<open>
  The operations of the generated classes beside parsing and sizes. \<open>CopyFrom\<close> makes a
  message equal to its argument, \<open>Swap\<close> exchanges two messages, and both leave a message
  alone that is its own argument. Under the laws of the array writers, both serialisers of
  a class write the same bytes. Under the laws on what a read consumes, every parser ends:
  the turns \<open>parse_all\<close> allows are enough.
\<close>

subsection \<open>Copying\<close>

text \<open>The enum fields of a message are values the casts produce.\<close>

definition Message_canonical :: "Message \<Rightarrow> bool" where
  "Message_canonical m = MessageType_ok (m_type m)"

definition Entry_canonical :: "Entry \<Rightarrow> bool" where
  "Entry_canonical m = EntryType_ok (e_type m)"

lemma MessageType_zero: "MessageType_ok t \<Longrightarrow> MessageType_value t = 0 \<longleftrightarrow> t = MsgTrival"
  using MessageType_cast_value [of t] by (auto simp: MessageType_cast_def MessageType_enumerators_def)

lemma EntryType_zero: "EntryType_ok t \<Longrightarrow> EntryType_value t = 0 \<longleftrightarrow> t = EntryTrival"
  using EntryType_cast_value [of t] by (auto simp: EntryType_cast_def)

text \<open>One step of a merge: a field that is not copied has the value it would get.\<close>

lemma merge_if: "(\<not> b \<Longrightarrow> y = x) \<Longrightarrow> F x = w \<Longrightarrow> (let m = (if b then x else y) in F m) = w"
  by (cases b) simp_all

lemma merge_let: "F x = w \<Longrightarrow> (let m = x in F m) = w"
  by simp

lemma ConfState_Clear_new: "ConfState_Clear m = new_ConfState"
  by (cases m) (simp add: ConfState_Clear_def new_ConfState_def)

lemma ConfState_MergeFrom_new: "ConfState_MergeFrom from new_ConfState = from"
  by (cases "from") (auto simp: ConfState_MergeFrom_def new_ConfState_def Let_def  
      split: option.splits)

lemma ConfState_CopyFrom_copies: "ConfState_CopyFrom False from m = from"
  by (simp add: ConfState_CopyFrom_def ConfState_Clear_new ConfState_MergeFrom_new)

lemma ConfState_Swap_swaps: "ConfState_Swap same m other = (if same then (m, other) else (other, m))"
  by (cases m; cases other) (simp add: ConfState_Swap_def)

lemma Entry_Clear_new: "Entry_Clear m = new_Entry"
  by (cases m) (simp add: Entry_Clear_def new_Entry_def)

lemma Entry_MergeFrom_new: "Entry_canonical from \<Longrightarrow> Entry_MergeFrom from new_Entry = from"
  unfolding Entry_MergeFrom_def Entry_canonical_def
  by ((rule merge_if, simp add: new_Entry_def EntryType_zero | rule merge_let)+)
    (cases "from", simp add: new_Entry_def)+

lemma Entry_CopyFrom_copies: "Entry_canonical from \<Longrightarrow> Entry_CopyFrom False from m = from"
  by (simp add: Entry_CopyFrom_def Entry_Clear_new Entry_MergeFrom_new)

lemma Entry_Swap_swaps: "Entry_Swap same m other = (if same then (m, other) else (other, m))"
  by (cases m; cases other) (simp add: Entry_Swap_def)

lemma SnapshotMetadata_Clear_new: "SnapshotMetadata_Clear m = new_SnapshotMetadata"
  by (cases m) (simp add: SnapshotMetadata_Clear_def new_SnapshotMetadata_def)

lemma SnapshotMetadata_MergeFrom_new: "SnapshotMetadata_MergeFrom from new_SnapshotMetadata = from"
  by (cases "from") (auto simp: SnapshotMetadata_MergeFrom_def new_SnapshotMetadata_def Let_def SnapshotMetadata_conf_state_def ConfState_MergeFrom_new
      split: option.splits)

lemma SnapshotMetadata_CopyFrom_copies: "SnapshotMetadata_CopyFrom False from m = from"
  by (simp add: SnapshotMetadata_CopyFrom_def SnapshotMetadata_Clear_new SnapshotMetadata_MergeFrom_new)

lemma SnapshotMetadata_Swap_swaps: "SnapshotMetadata_Swap same m other = (if same then (m, other) else (other, m))"
  by (cases m; cases other) (simp add: SnapshotMetadata_Swap_def)

lemma Snapshot_Clear_new: "Snapshot_Clear m = new_Snapshot"
  by (cases m) (simp add: Snapshot_Clear_def new_Snapshot_def)

lemma Snapshot_MergeFrom_new: "Snapshot_MergeFrom from new_Snapshot = from"
  by (cases "from") (auto simp: Snapshot_MergeFrom_def new_Snapshot_def Let_def Snapshot_metadata_def SnapshotMetadata_MergeFrom_new
      split: option.splits)

lemma Snapshot_CopyFrom_copies: "Snapshot_CopyFrom False from m = from"
  by (simp add: Snapshot_CopyFrom_def Snapshot_Clear_new Snapshot_MergeFrom_new)

lemma Snapshot_Swap_swaps: "Snapshot_Swap same m other = (if same then (m, other) else (other, m))"
  by (cases m; cases other) (simp add: Snapshot_Swap_def)

lemma HardState_Clear_new: "HardState_Clear m = new_HardState"
  by (cases m) (simp add: HardState_Clear_def new_HardState_def)

lemma HardState_MergeFrom_new: "HardState_MergeFrom from new_HardState = from"
  by (cases "from") (auto simp: HardState_MergeFrom_def new_HardState_def Let_def  
      split: option.splits)

lemma HardState_CopyFrom_copies: "HardState_CopyFrom False from m = from"
  by (simp add: HardState_CopyFrom_def HardState_Clear_new HardState_MergeFrom_new)

lemma HardState_Swap_swaps: "HardState_Swap same m other = (if same then (m, other) else (other, m))"
  by (cases m; cases other) (simp add: HardState_Swap_def)

lemma StoragePB_Clear_new: "StoragePB_Clear m = new_StoragePB"
  by (cases m) (simp add: StoragePB_Clear_def new_StoragePB_def)

lemma StoragePB_MergeFrom_new: "StoragePB_MergeFrom from new_StoragePB = from"
  by (cases "from") (auto simp: StoragePB_MergeFrom_def new_StoragePB_def Let_def StoragePB_snap_def StoragePB_hardstate_def Snapshot_MergeFrom_new HardState_MergeFrom_new
      split: option.splits)

lemma StoragePB_CopyFrom_copies: "StoragePB_CopyFrom False from m = from"
  by (simp add: StoragePB_CopyFrom_def StoragePB_Clear_new StoragePB_MergeFrom_new)

lemma StoragePB_Swap_swaps: "StoragePB_Swap same m other = (if same then (m, other) else (other, m))"
  by (cases m; cases other) (simp add: StoragePB_Swap_def)

lemma Message_Clear_new: "Message_Clear m = new_Message"
  by (cases m) (simp add: Message_Clear_def new_Message_def)

lemma Message_MergeFrom_new: "Message_canonical from \<Longrightarrow> Message_MergeFrom from new_Message = from"
  unfolding Message_MergeFrom_def Message_canonical_def
  by (cases "m_snapshot from"; simp only: option.case; (rule merge_if, simp add: new_Message_def MessageType_zero | rule merge_let)+)
    (cases "from", simp add: new_Message_def Message_snapshot_def Snapshot_MergeFrom_new)+

lemma Message_CopyFrom_copies: "Message_canonical from \<Longrightarrow> Message_CopyFrom False from m = from"
  by (simp add: Message_CopyFrom_def Message_Clear_new Message_MergeFrom_new)

lemma Message_Swap_swaps: "Message_Swap same m other = (if same then (m, other) else (other, m))"
  by (cases m; cases other) (simp add: Message_Swap_def)

subsection \<open>Both serialisers\<close>

context wire_arrays
begin

text \<open>A writer that appends a fixed string to what the array holds.\<close>

definition appends :: "(bytes \<Rightarrow> bytes) \<Rightarrow> bytes \<Rightarrow> bool" where
  "appends g x = (\<forall>t. g t = t @ x)"

lemma appends_let:
  "appends g x \<Longrightarrow> appends F y \<Longrightarrow> appends (\<lambda>t. let t' = g t in F t') (x @ y)"
  by (simp add: appends_def)

lemma appends_uint64:
  "appends (\<lambda>t. if b then W_arr_uint64 W n v t else t) (if b then W_put_uint64 W n v else [])"
  by (simp add: appends_def arr_uint64)

lemma appends_enum:
  "appends (\<lambda>t. if b then W_arr_enum W n v t else t) (if b then W_put_enum W n v else [])"
  by (simp add: appends_def arr_enum)

lemma appends_bool:
  "appends (\<lambda>t. if b then W_arr_bool W n v t else t) (if b then W_put_bool W n v else [])"
  by (simp add: appends_def arr_bool)

lemma appends_bytes:
  "appends (\<lambda>t. if b then W_arr_bytes W n v t else t) (if b then W_put_bytes W n v else [])"
  by (simp add: appends_def arr_bytes)

lemma appends_packed:
  "appends F y \<Longrightarrow> appends (\<lambda>t. let t' = (if vs \<noteq> []
      then W_arr_uint64s W vs (W_arr_varint32 W k (W_arr_tag W n 2 t)) else t) in F t')
    ((if vs \<noteq> [] then W_put_tag W n 2 @ W_put_varint32 W k else []) @
     concat (map (W_put_uint64_notag W) vs) @ y)"
  by (simp add: appends_def arr_tag arr_varint32 arr_uint64s)

lemma appends_unknown: "appends (\<lambda>t. arr_unknown W raw t) (put_unknown W raw)"
  by (simp add: appends_def arr_unknown_put)

lemma appends_option:
  assumes "\<And>x. appends (g x) (f x)"
  shows "appends (\<lambda>t. case o1 of Some x \<Rightarrow> arr_sub W n (k x) (g x) t | None \<Rightarrow> t)
    (case o1 of Some x \<Rightarrow> put_sub W n (k x) (f x) | None \<Rightarrow> [])"
  using assms by (cases o1) (simp_all add: appends_def arr_sub_put)

lemma appends_rep:
  assumes "\<And>x. appends (g x) (f x)"
  shows "appends (\<lambda>t. fold (\<lambda>x. arr_sub W n (k x) (g x)) xs t)
    (concat (map (\<lambda>x. put_sub W n (k x) (f x)) xs))"
  unfolding appends_def
  by (intro allI arr_fold) (use assms in \<open>simp add: appends_def arr_sub_put\<close>)

lemmas appends_fields = appends_let appends_uint64 appends_enum appends_bool appends_bytes
  appends_unknown appends_option appends_rep

lemma ConfState_appends: "appends (\<lambda>t. ConfState_SerializeToArray W m t) (ConfState_Serialize W m)"
  unfolding ConfState_SerializeToArray_def ConfState_Serialize_def
  by (intro appends_packed appends_unknown)

lemma ConfState_arrays: "ConfState_SerializeToArray W m t = t @ ConfState_Serialize W m"
  using ConfState_appends by (simp add: appends_def)

lemma Entry_appends: "appends (\<lambda>t. Entry_SerializeToArray W m t) (Entry_Serialize W m)"
  unfolding Entry_SerializeToArray_def Entry_Serialize_def
  by (intro appends_fields)

lemma Entry_arrays: "Entry_SerializeToArray W m t = t @ Entry_Serialize W m"
  using Entry_appends by (simp add: appends_def)

lemma SnapshotMetadata_appends: "appends (\<lambda>t. SnapshotMetadata_SerializeToArray W m t) (SnapshotMetadata_Serialize W m)"
  unfolding SnapshotMetadata_SerializeToArray_def SnapshotMetadata_Serialize_def
  by (intro appends_fields ConfState_appends)

lemma SnapshotMetadata_arrays: "SnapshotMetadata_SerializeToArray W m t = t @ SnapshotMetadata_Serialize W m"
  using SnapshotMetadata_appends by (simp add: appends_def)

lemma Snapshot_appends: "appends (\<lambda>t. Snapshot_SerializeToArray W m t) (Snapshot_Serialize W m)"
  unfolding Snapshot_SerializeToArray_def Snapshot_Serialize_def
  by (intro appends_fields SnapshotMetadata_appends)

lemma Snapshot_arrays: "Snapshot_SerializeToArray W m t = t @ Snapshot_Serialize W m"
  using Snapshot_appends by (simp add: appends_def)

lemma HardState_appends: "appends (\<lambda>t. HardState_SerializeToArray W m t) (HardState_Serialize W m)"
  unfolding HardState_SerializeToArray_def HardState_Serialize_def
  by (intro appends_fields)

lemma HardState_arrays: "HardState_SerializeToArray W m t = t @ HardState_Serialize W m"
  using HardState_appends by (simp add: appends_def)

lemma StoragePB_appends: "appends (\<lambda>t. StoragePB_SerializeToArray W m t) (StoragePB_Serialize W m)"
  unfolding StoragePB_SerializeToArray_def StoragePB_Serialize_def
  by (intro appends_fields Snapshot_appends Entry_appends HardState_appends)

lemma StoragePB_arrays: "StoragePB_SerializeToArray W m t = t @ StoragePB_Serialize W m"
  using StoragePB_appends by (simp add: appends_def)

lemma Message_appends: "appends (\<lambda>t. Message_SerializeToArray W m t) (Message_Serialize W m)"
  unfolding Message_SerializeToArray_def Message_Serialize_def
  by (intro appends_fields Entry_appends Snapshot_appends)

lemma Message_arrays: "Message_SerializeToArray W m t = t @ Message_Serialize W m"
  using Message_appends by (simp add: appends_def)

end

subsection \<open>The parsers end\<close>

context wire_consumes
begin

definition fine :: "bytes \<Rightarrow> 'm parsed \<Rightarrow> bool" where
  "fine inp p = (p \<noteq> Endless \<and> (\<forall>m' r. p = Parsed m' r \<longrightarrow> length r \<le> length inp))"

lemma ends_fine: "ends field \<longleftrightarrow> (\<forall>t inp m. fine inp (field t inp m))"
  by (simp add: ends_def fine_def)

lemma fine_read_into:
  assumes "\<And>v r. x = (True, v, r) \<Longrightarrow> length r \<le> length inp"
  shows "fine inp (read_into x f)"
  using assms by (cases x) (auto simp: fine_def read_into_def)

lemma fine_enum: "fine inp (read_enum W inp f m)"
  by (auto simp: fine_def read_enum_def dest: enum_le split: prod.splits)

lemma fine_message:
  assumes "\<And>p s. merge p s \<noteq> None"
  shows "fine inp (read_message W merge inp s f)"
  unfolding fine_def
proof (intro conjI allI impI)
  show "read_message W merge inp s f \<noteq> Endless" by (rule read_message_ends) (rule assms)
qed (rule read_message_le)

lemma fine_Unusual: "fine inp Unusual"
  by (simp add: fine_def)

lemma fine_if: "fine inp x \<Longrightarrow> fine inp y \<Longrightarrow> fine inp (if b then x else y)"
  by simp

lemma fine_reads:
  "fine inp (read_into (W_uint64 W inp u) f)"
  "fine inp (read_into (W_bool W inp c) g)"
  "fine inp (read_into (W_bytes W inp y) h)"
  "fine inp (read_into (W_packed W inp us) k)"
  "fine inp (read_into (W_repeated W t inp us) k)"
  by (rule fine_read_into, erule uint64_le bool_le bytes_le packed_le repeated_le)+

lemmas fine_fields = fine_if fine_Unusual fine_enum fine_message fine_reads

lemma ConfState_ends: "ConfState_MergePartial W inp m \<noteq> None"
  unfolding ConfState_MergePartial_def
  by (rule parse_all_ends) (unfold ends_fine ConfState_field_def, intro allI fine_fields)

lemma Entry_ends: "Entry_MergePartial W inp m \<noteq> None"
  unfolding Entry_MergePartial_def
  by (rule parse_all_ends) (unfold ends_fine Entry_field_def, intro allI fine_fields)

lemma SnapshotMetadata_ends: "SnapshotMetadata_MergePartial W inp m \<noteq> None"
  unfolding SnapshotMetadata_MergePartial_def
  by (rule parse_all_ends) (unfold ends_fine SnapshotMetadata_field_def, intro allI fine_fields ConfState_ends)

lemma Snapshot_ends: "Snapshot_MergePartial W inp m \<noteq> None"
  unfolding Snapshot_MergePartial_def
  by (rule parse_all_ends) (unfold ends_fine Snapshot_field_def, intro allI fine_fields SnapshotMetadata_ends)

lemma HardState_ends: "HardState_MergePartial W inp m \<noteq> None"
  unfolding HardState_MergePartial_def
  by (rule parse_all_ends) (unfold ends_fine HardState_field_def, intro allI fine_fields)

lemma StoragePB_ends: "StoragePB_MergePartial W inp m \<noteq> None"
  unfolding StoragePB_MergePartial_def
  by (rule parse_all_ends) (unfold ends_fine StoragePB_field_def, intro allI fine_fields Snapshot_ends Entry_ends HardState_ends)

lemma Message_ends: "Message_MergePartial W inp m \<noteq> None"
  unfolding Message_MergePartial_def
  by (rule parse_all_ends) (unfold ends_fine Message_field_def, intro allI fine_fields Entry_ends Snapshot_ends)

end

end
