(* ===== verification/Wire_Varint.thy ===== *)
theory Wire_Varint
  imports Raftpb_Operations
begin

text \<open>
  An instance of the runtime: the wire format as the protobuf documentation describes it,
  with base-128 varints, one-byte tags and length-delimited fields. It shows that the laws
  of \<open>Wire_Format\<close> can hold, and lets the operations of \<open>Raftpb_Codec\<close> be computed.
\<close>

subsection \<open>Varints\<close>

fun put_varint :: "nat \<Rightarrow> bytes" where
  "put_varint n =
     (if n < 128 then [of_nat n] else of_nat (128 + n mod 128) # put_varint (n div 128))"

declare put_varint.simps [simp del]

fun get_varint :: "bytes \<Rightarrow> (nat \<times> bytes) option" where
  "get_varint [] = None"
| "get_varint (b # bs) =
     (if b < 128 then Some (unat b, bs)
      else case get_varint bs of
             Some (n, r) \<Rightarrow> Some (unat b - 128 + 128 * n, r)
           | None \<Rightarrow> None)"

lemma byte_less_128: "n < 256 \<Longrightarrow> (of_nat n :: byte) < 128 \<longleftrightarrow> n < 128"
  by (simp add: word_less_nat_alt unat_of_nat)

lemma get_put_varint [simp]: "get_varint (put_varint n @ r) = Some (n, r)"
proof (induction n rule: put_varint.induct)
  case (1 n)
  show ?case
  proof (cases "n < 128")
    case True
    then show ?thesis by (subst put_varint.simps) (simp add: byte_less_128 unat_of_nat)
  next
    case False
    have m: "n mod 128 < 128" by simp
    have "unat (of_nat (128 + n mod 128) :: byte) = 128 + n mod 128"
      using m by (simp only: unat_of_nat) simp
    moreover have "\<not> (of_nat (128 + n mod 128) :: byte) < 128"
      using m by (subst byte_less_128) simp_all
    ultimately show ?thesis
      using False 1 by (subst put_varint.simps) (simp del: of_nat_add)
  qed
qed

lemma get_put_varint0 [simp]: "get_varint (put_varint n) = Some (n, [])"
  using get_put_varint [of n "[]"] by simp

lemma put_varint_nonempty [simp]: "put_varint n \<noteq> []"
  by (subst put_varint.simps) simp

lemma get_varint_shorter: "get_varint inp = Some (n, r) \<Longrightarrow> length r < length inp"
  by (induction inp arbitrary: n r rule: get_varint.induct)
    (fastforce split: if_splits option.splits)+

text \<open>Only the number 0 has a zero byte.\<close>

lemma put_varint_nul: "0 < n \<Longrightarrow> 0 \<notin> set (put_varint n)"
proof (induction n rule: put_varint.induct)
  case (1 n)
  have m: "n mod 128 < 128" by simp
  have z: "(of_nat (128 + n mod 128) :: byte) \<noteq> 0"
    using m by (simp only: word_unat_eq_iff unat_of_nat) simp
  show ?case
  proof (cases "n < 128")
    case True
    then have "(of_nat n :: byte) \<noteq> 0" using 1 by (simp only: word_unat_eq_iff unat_of_nat) simp
    then show ?thesis using True by (subst put_varint.simps) simp
  next
    case False
    then have "0 \<notin> set (put_varint (n div 128))" by (intro 1) simp_all
    with z False show ?thesis by (subst put_varint.simps) simp
  qed
qed

subsection \<open>Fields\<close>

definition tag_byte :: "nat \<Rightarrow> nat \<Rightarrow> byte" where
  "tag_byte n w = of_nat (8 * n + w)"

definition get_delimited :: "bytes \<Rightarrow> (bytes \<times> bytes) option" where
  "get_delimited inp =
     (case get_varint inp of
        Some (n, r) \<Rightarrow> if n \<le> length r then Some (take n r, drop n r) else None
      | None \<Rightarrow> None)"

fun get_varints :: "nat \<Rightarrow> bytes \<Rightarrow> u64 list option" where
  "get_varints 0 inp = (if inp = [] then Some [] else None)"
| "get_varints (Suc k) inp =
     (if inp = [] then Some []
      else case get_varint inp of
             None \<Rightarrow> None
           | Some (n, r) \<Rightarrow> map_option (\<lambda>vs. of_nat n # vs) (get_varints k r))"

definition varint_wire :: wire where
  "varint_wire = \<lparr>
     W_tag = (\<lambda>inp. case get_varint inp of
                Some (n, r) \<Rightarrow> (of_nat n, 0 < n \<and> n < 128, r) | None \<Rightarrow> (0, False, inp)),
     W_uint64 = (\<lambda>inp u. case get_varint inp of
                Some (n, r) \<Rightarrow> (True, of_nat n, r) | None \<Rightarrow> (False, u, inp)),
     W_enum = (\<lambda>inp d. case get_varint inp of
                Some (n, r) \<Rightarrow> (True, i32_of_u64 (of_nat n), r) | None \<Rightarrow> (False, d, inp)),
     W_bool = (\<lambda>inp c. case get_varint inp of
                Some (n, r) \<Rightarrow> (True, n \<noteq> 0, r) | None \<Rightarrow> (False, c, inp)),
     W_bytes = (\<lambda>inp y. case get_delimited inp of
                Some (x, r) \<Rightarrow> (True, x, r) | None \<Rightarrow> (False, y, inp)),
     W_packed = (\<lambda>inp us. case get_delimited inp of
                Some (x, r) \<Rightarrow> (case get_varints (length x) x of
                    Some vs \<Rightarrow> (True, us @ vs, r) | None \<Rightarrow> (False, us, r))
              | None \<Rightarrow> (False, us, inp)),
     W_repeated = (\<lambda>tag inp us. case get_varint inp of
                Some (n, r) \<Rightarrow> (True, us @ [of_nat n], r) | None \<Rightarrow> (False, us, inp)),
     W_limit = (\<lambda>inp. case get_varint inp of
                Some (n, r) \<Rightarrow> Some (take n r, n \<le> length r, drop n r) | None \<Rightarrow> None),
     W_skip = (\<lambda>tag inp. case unat tag mod 8 of
                0 \<Rightarrow> (case get_varint inp of
                    Some (n, r) \<Rightarrow> (True, put_varint (unat tag) @ put_varint n, r)
                  | None \<Rightarrow> (False, [], inp))
              | Suc 0 \<Rightarrow> (False, [], inp)
              | Suc (Suc 0) \<Rightarrow> (case get_delimited inp of
                    Some (x, r) \<Rightarrow>
                      (True, put_varint (unat tag) @ put_varint (length x) @ x, r)
                  | None \<Rightarrow> (False, [], inp))
              | _ \<Rightarrow> (False, [], inp)),
     W_preserve = True,
     W_put_uint64 = (\<lambda>n v. tag_byte n 0 # put_varint (unat v)),
     W_put_enum = (\<lambda>n e. tag_byte n 0 # put_varint (unat (u64_of_i32 e))),
     W_put_bool = (\<lambda>n b. [tag_byte n 0, if b then 1 else 0]),
     W_put_bytes = (\<lambda>n x. tag_byte n 2 # put_varint (length x) @ x),
     W_put_message = (\<lambda>n k x. tag_byte n 2 # put_varint (unat k) @ x),
     W_put_tag = (\<lambda>n w. [tag_byte n w]),
     W_put_varint32 = (\<lambda>k. put_varint (unat k)),
     W_put_uint64_notag = (\<lambda>v. put_varint (unat v)),
     W_size_uint64 = (\<lambda>v. sz (put_varint (unat v))),
     W_size_uint64s = (\<lambda>vs. sz (concat (map (\<lambda>v. put_varint (unat v)) vs))),
     W_size_int32 = (\<lambda>i. sz (put_varint (unat (u64_of_i32 i)))),
     W_size_enum = (\<lambda>e. sz (put_varint (unat (u64_of_i32 e)))),
     W_size_bytes = (\<lambda>x. sz (put_varint (length x)) + sz x),
     W_size_message = (\<lambda>k. sz (put_varint (unat k)) + k),
     W_size_unknown = sz,
     W_arr_uint64 = (\<lambda>n v t. t @ tag_byte n 0 # put_varint (unat v)),
     W_arr_enum = (\<lambda>n e t. t @ tag_byte n 0 # put_varint (unat (u64_of_i32 e))),
     W_arr_bool = (\<lambda>n b t. t @ [tag_byte n 0, if b then 1 else 0]),
     W_arr_bytes = (\<lambda>n x t. t @ tag_byte n 2 # put_varint (length x) @ x),
     W_arr_message = (\<lambda>n k f t. f (t @ tag_byte n 2 # put_varint (unat k))),
     W_arr_tag = (\<lambda>n w t. t @ [tag_byte n w]),
     W_arr_varint32 = (\<lambda>k t. t @ put_varint (unat k)),
     W_arr_uint64s = (\<lambda>vs t. t @ concat (map (\<lambda>v. put_varint (unat v)) vs)),
     W_arr_unknown = (\<lambda>raw t. t @ raw) \<rparr>"

subsection \<open>The laws hold\<close>

lemma tag_byte_head:
  assumes "1 \<le> n" "n \<le> 15" "w < 8"
  shows "get_varint (tag_byte n w # r) = Some (8 * n + w, r)"
proof -
  have l: "8 * n + w < 128" using assms by simp
  then have "unat (of_nat (8 * n + w) :: byte) = 8 * n + w"
    by (simp only: unat_of_nat) simp
  then show ?thesis using l by (simp add: tag_byte_def byte_less_128 del: of_nat_add of_nat_mult)
qed

lemma get_varints_concat:
  "length vs \<le> k \<Longrightarrow> get_varints k (concat (map (\<lambda>v. put_varint (unat v)) vs)) = Some vs"
proof (induction vs arbitrary: k)
  case Nil
  then show ?case by (cases k) simp_all
next
  case (Cons v vs)
  then show ?case by (cases k) simp_all
qed

lemma length_varints: "length vs \<le> length (concat (map (\<lambda>v. put_varint (unat v)) vs))"
proof (induction vs)
  case (Cons v vs)
  have "1 \<le> length (put_varint (unat v))" by (simp add: Suc_le_eq)
  with Cons show ?case by simp
qed simp

lemma get_delimited_put [simp]: "get_delimited (put_varint (length x) @ x @ r) = Some (x, r)"
  by (simp add: get_delimited_def)

lemma unat_small32: "k < 2 ^ 31 \<Longrightarrow> unat (of_nat k :: u32) = k"
  by (simp add: unat_of_nat)

lemma u64_of_small: "k < 2 ^ 31 \<Longrightarrow> unat (u64_of_i32 (of_nat k)) = k"
proof -
  assume k: "k < 2 ^ 31"
  have n: "unat (of_nat k :: u64) = k" using k by (simp add: unat_of_nat)
  have "u64_of_i32 (i32_of_u64 (of_nat k)) = of_nat k" unfolding widen_narrow n using k by simp
  moreover have "i32_of_u64 (of_nat k) = of_nat k"
    unfolding i32_of_u64_def by transfer simp
  ultimately show ?thesis using n by simp
qed

lemma sz_Cons: "1 + sz xs = sz (x # xs)"
  by (simp add: sz_def)

lemma tag_byte_head0 [simp]:
  "1 \<le> n \<Longrightarrow> n \<le> 15 \<Longrightarrow> get_varint (tag_byte n 0 # r) = Some (8 * n, r)"
  using tag_byte_head [of n 0 r] by simp

lemma tag_byte_head2 [simp]:
  "1 \<le> n \<Longrightarrow> n \<le> 15 \<Longrightarrow> get_varint (tag_byte n 2 # r) = Some (8 * n + 2, r)"
  using tag_byte_head [of n 2 r] by simp

lemma get_varint_bool [simp]:
  "get_varint ((if b then 1 else 0) # r) = Some (of_bool b, r)"
  by simp

lemma unat_sz31: "length x < 2 ^ 31 \<Longrightarrow> unat (sz x) = length x"
  by (rule unat_sz) simp

lemmas varint_simps =
  varint_wire_def get_varints_concat length_varints unat_small32 u64_of_small unat_sz31
  sz_append sz_Cons [symmetric]

interpretation varint: wire_laws varint_wire
  by unfold_locales (simp_all add: varint_simps del: get_varint.simps(2) One_nat_def split del: if_split)

interpretation varint: wire_arrays varint_wire
  by unfold_locales (simp_all add: varint_simps)

lemma get_delimited_shorter: "get_delimited inp = Some (x, r) \<Longrightarrow> length r \<le> length inp"
  by (fastforce simp: get_delimited_def split: option.splits if_splits dest: get_varint_shorter)

interpretation varint: wire_consumes varint_wire
  by unfold_locales
    (auto simp: varint_wire_def split: option.splits if_splits nat.splits
      dest: get_varint_shorter get_delimited_shorter)

end
