(* ===== verification/Progress_Tracker.thy ===== *)
theory Progress_Tracker
  imports Raftpb
begin

text \<open>
  \<^verbatim>\<open>sapphiredb/raft/progress.h\<close> and \<^verbatim>\<open>progress.cc\<close>: what a leader knows of one
  follower. \<open>p_match\<close> is the highest log index the follower acknowledged, \<open>p_next\<close>
  the index of the next entry to send; the invariant \<open>progress_ok\<close> is
  \<open>p_match < p_next\<close>. The lemmas show which operations keep it, that \<open>p_match\<close>
  never goes back, and what \<open>maybeUpdate\<close> answers.
\<close>

text \<open>
  \<open>ProgressStateZero\<close> is the enum value 0, which no enumerator has: it is what a
  value-initialised \<open>Progress\<close> (from \<open>operator[]\<close> on a missing key) holds.
\<close>

datatype ProgressStateType =
    ProgressStateZero | ProgressStateProbe | ProgressStateReplicate | ProgressStateSnapshot

record Progress =
  p_next :: u64
  p_match :: u64
  p_state :: ProgressStateType
  p_pendingSnapshot :: u64
  p_recentActive :: bool
  p_isLeader :: bool

definition zero_Progress :: Progress where
  "zero_Progress = \<lparr>p_next = 0, p_match = 0, p_state = ProgressStateZero,
     p_pendingSnapshot = 0, p_recentActive = False, p_isLeader = False\<rparr>"

definition resetState :: "ProgressStateType \<Rightarrow> Progress \<Rightarrow> Progress" where
  "resetState st p = p\<lparr>p_pendingSnapshot := 0, p_state := st\<rparr>"

definition becomeProbe :: "Progress \<Rightarrow> Progress" where
  "becomeProbe p =
     (if p_state p = ProgressStateSnapshot
      then let tmpPendingSnapshot = p_pendingSnapshot p;
               p = resetState ProgressStateProbe p
           in p\<lparr>p_next := max (p_match p + 1) (tmpPendingSnapshot + 1)\<rparr>
      else let p = resetState ProgressStateProbe p in p\<lparr>p_next := p_match p + 1\<rparr>)"

definition becomeReplicate :: "Progress \<Rightarrow> Progress" where
  "becomeReplicate p =
     (let p = resetState ProgressStateReplicate p in p\<lparr>p_next := p_match p + 1\<rparr>)"

definition becomeSnapshot :: "u64 \<Rightarrow> Progress \<Rightarrow> Progress" where
  "becomeSnapshot snapshoti p =
     (let p = resetState ProgressStateSnapshot p in p\<lparr>p_pendingSnapshot := snapshoti\<rparr>)"

definition setRecentActive :: "Progress \<Rightarrow> Progress" where
  "setRecentActive p = p\<lparr>p_recentActive := True\<rparr>"

definition resetRecentActive :: "Progress \<Rightarrow> Progress" where
  "resetRecentActive p = p\<lparr>p_recentActive := False\<rparr>"

definition setMatch :: "u64 \<Rightarrow> Progress \<Rightarrow> Progress" where
  "setMatch n p = p\<lparr>p_match := n\<rparr>"

definition setNext :: "u64 \<Rightarrow> Progress \<Rightarrow> Progress" where
  "setNext n p = p\<lparr>p_next := n\<rparr>"

definition optimisticUpdate :: "u64 \<Rightarrow> Progress \<Rightarrow> Progress" where
  "optimisticUpdate n p = p\<lparr>p_next := n + 1\<rparr>"

definition maybeUpdate :: "u64 \<Rightarrow> Progress \<Rightarrow> bool \<times> Progress" where
  "maybeUpdate n p =
     (let p = (if p_next p < n + 1 then p\<lparr>p_next := n + 1\<rparr> else p)
      in if p_match p < n then (True, p\<lparr>p_match := n\<rparr>) else (False, p))"

fun Progress_name :: "ProgressStateType \<Rightarrow> string option" where
  "Progress_name ProgressStateSnapshot = Some ''ProgressStateSnapshot''"
| "Progress_name ProgressStateProbe = Some ''ProgressStateProbe''"
| "Progress_name ProgressStateReplicate = Some ''ProgressStateReplicate''"
| "Progress_name ProgressStateZero = None \<comment> \<open>flows off the end\<close>"

lemmas progress_defs =
  resetState_def becomeProbe_def becomeReplicate_def becomeSnapshot_def setRecentActive_def
  resetRecentActive_def setMatch_def setNext_def optimisticUpdate_def maybeUpdate_def Let_def

subsection \<open>The invariant of a progress record\<close>

definition progress_ok :: "Progress \<Rightarrow> bool" where
  "progress_ok p = (p_match p < p_next p)"

lemma progress_ok_becomeReplicate:
  "p_match p + 1 \<noteq> 0 \<Longrightarrow> progress_ok (becomeReplicate p)"
  by (simp add: progress_ok_def progress_defs word_less_plus_one)

lemma progress_ok_becomeProbe:
  "p_match p + 1 \<noteq> 0 \<Longrightarrow> progress_ok (becomeProbe p)"
  by (auto simp: progress_ok_def progress_defs less_max_iff_disj word_less_plus_one)

lemma progress_ok_maybeUpdate:
  assumes "progress_ok p" and "n + 1 \<noteq> 0"
  shows "progress_ok (snd (maybeUpdate n p))"
  using assms word_less_plus_one [of n]
  by (auto simp: progress_ok_def progress_defs not_less dest: less_le_trans)

lemma progress_ok_optimisticUpdate:
  "p_match p \<le> n \<Longrightarrow> n + 1 \<noteq> 0 \<Longrightarrow> progress_ok (optimisticUpdate n p)"
  by (auto simp: progress_ok_def progress_defs intro: le_less_trans word_less_plus_one)

lemma maybeUpdate_match: "p_match (snd (maybeUpdate n p)) = max (p_match p) n"
  by (auto simp: progress_defs max_def)

lemma maybeUpdate_next: "p_next (snd (maybeUpdate n p)) = max (p_next p) (n + 1)"
  by (auto simp: progress_defs max_def)

lemma maybeUpdate_fst: "fst (maybeUpdate n p) \<longleftrightarrow> p_match p < n"
  by (auto simp: progress_defs)

lemma progress_match_frame [simp]:
  "p_match (becomeReplicate p) = p_match p" "p_match (becomeProbe p) = p_match p"
  "p_match (setRecentActive p) = p_match p" "p_match (optimisticUpdate n p) = p_match p"
  by (simp_all add: progress_defs)

lemma progress_next_frame [simp]:
  "p_next (setRecentActive p) = p_next p" "p_next (optimisticUpdate n p) = n + 1"
  by (simp_all add: progress_defs)

end
