(* ===== verification/Raft_State.thy ===== *)
theory Raft_State
  imports Progress_Tracker Storage_File
begin

text \<open>
  The class \<open>Raft\<close> of \<^verbatim>\<open>sapphiredb/raft/raft.h\<close> as a record, and the operations of
  \<^verbatim>\<open>raft.cc\<close> that only move it between roles: \<open>rand\<close>, \<open>reset\<close>, \<open>stepDown\<close>,
  \<open>becomeCandidate\<close>, \<open>becomeLeader\<close>, \<open>quorum\<close>, \<open>grantMe\<close>, and the member list.

  Correspondence of the fields: \<open>r_x\<close> is \<open>_x\<close>; \<open>r_pub_prs\<close> is the public map \<open>prs\<close>,
  which is not \<open>_prs\<close>; \<open>r_storage\<close> is the file behind \<open>_storage\<close>. The function
  objects \<open>_step\<close> and \<open>_tick\<close> are tags of the functions they hold. The random library and
  the clock are \<open>r_rand\<close>; the two static objects of \<open>rand\<close> are \<open>r_static\<close>, and \<open>r_draws\<close>
  counts the values drawn. Loggers, console output, condition variables and mutexes carry no state
  that an operation reads, and are not fields.
\<close>

datatype State = STATE_LEADER | STATE_CANDIDATE | STATE_FOLLOWER | STATE_LOCKING

datatype step_fn = StepLeader | StepCandidate | StepFollower

datatype tick_fn = TickElection | TickHeartbeat

text \<open>
  What \<open>rand\<close> takes from the standard library: \<open>c_value s a b k\<close> is the value drawn as number
  \<open>k\<close> from a uniform real distribution over \<open>[a, b)\<close> by an engine with the seed \<open>s\<close>, cut to
  an integer; \<open>c_time k\<close> is what \<open>time(NULL)\<close> answers before that draw.
\<close>

record chance =
  c_value :: "u32 \<Rightarrow> u32 \<Rightarrow> u32 \<Rightarrow> nat \<Rightarrow> u32"
  c_time :: "nat \<Rightarrow> u32"

record raft =
  r_pub_prs :: "(u64, Progress) umap"
  r_currentTerm :: u64
  r_vote :: u64
  r_id :: u64
  r_isLeader :: bool
  r_prs :: "(u64, Progress) umap"
  r_votes :: "(u64, i32) umap"
  r_commitIndex :: u64
  r_lastApplied :: u64
  r_entries :: "Entry list"
  r_snap :: "Snapshot ptr"
  r_offset :: u64
  r_storage :: stfile
  r_leader :: u64
  r_state :: State
  r_heartbeatElapsed :: u32
  r_heartbeatTimeout :: u32
  r_electionElapsed :: u32
  r_electionTimeout :: u32
  r_step :: step_fn
  r_tick :: tick_fn
  r_randomizedElectionTimeout :: u32
  r_checkQuorum :: bool
  r_sendmsgs :: "Message list"
  r_recvmsgs :: "Message list"
  r_unknownid :: "u64 list"
  r_Ready :: bool
  r_rand :: chance
  r_static :: "(u32 \<times> u32 \<times> u32) option"
  r_draws :: nat

text \<open>
  What the operations take from outside \<open>src/\<close>: the protobuf entry points, and the
  contents of the stack frames that the storage readers find.
\<close>

record env =
  E_codec :: codec
  E_frame :: "nat \<Rightarrow> bytes"

named_theorems role_defs \<open>definitions of the role operations\<close>

subsection \<open>Timers and roles\<close>

text \<open>
  \<open>rand(min, max, seed)\<close>: the engine and the distribution are static, so the first call's
  arguments make them and those of later calls are not used. The process has one \<open>Raft\<close>
  object: a second constructor throws while the logger's name is taken.
\<close>

definition static_objects :: "u32 \<Rightarrow> u32 \<Rightarrow> u32 \<Rightarrow> raft \<Rightarrow> u32 \<times> u32 \<times> u32" where
  "static_objects lo hi seed r =
     (case r_static r of None \<Rightarrow> (seed, lo, hi) | Some d \<Rightarrow> d)"

definition Raft_rand :: "u32 \<Rightarrow> u32 \<Rightarrow> u32 \<Rightarrow> raft \<Rightarrow> u32 \<times> raft" where
  "Raft_rand lo hi seed r =
     (let d = static_objects lo hi seed r
      in (c_value (r_rand r) (fst d) (fst (snd d)) (snd (snd d)) (r_draws r),
          r\<lparr>r_static := Some d, r_draws := Suc (r_draws r)\<rparr>))"

text \<open>The documented range of the distribution.\<close>

definition rand_ok :: "chance \<Rightarrow> bool" where
  "rand_ok c = (\<forall>s a b k. a < b \<longrightarrow> a \<le> c_value c s a b k \<and> c_value c s a b k < b)"

definition resetRandomizedElectionTimeout :: "raft \<Rightarrow> raft" where
  "resetRandomizedElectionTimeout r =
     (let (v, r) = Raft_rand 0 (r_electionTimeout r) (c_time (r_rand r) (r_draws r)) r
      in r\<lparr>r_randomizedElectionTimeout := r_electionTimeout r + v\<rparr>)"

definition reset :: "u64 \<Rightarrow> raft \<Rightarrow> raft" where
  "reset term r =
     (let r = (if r_currentTerm r \<noteq> term then r\<lparr>r_currentTerm := term, r_vote := 0\<rparr> else r);
          r = r\<lparr>r_leader := 0\<rparr>;
          r = r\<lparr>r_electionElapsed := 0\<rparr>;
          r = r\<lparr>r_heartbeatElapsed := 0\<rparr>
      in resetRandomizedElectionTimeout r)"

definition stepDown :: "u64 \<Rightarrow> u64 \<Rightarrow> raft \<Rightarrow> raft" where
  "stepDown term leader r =
     (let r = r\<lparr>r_step := StepFollower\<rparr>;
          r = reset term r;
          r = r\<lparr>r_tick := TickElection\<rparr>;
          r = r\<lparr>r_leader := leader\<rparr>
      in r\<lparr>r_state := STATE_FOLLOWER\<rparr>)"

definition pastElectionTimeout :: "raft \<Rightarrow> bool" where
  "pastElectionTimeout r = (r_electionElapsed r \<ge> r_randomizedElectionTimeout r)"

definition becomeCandidate :: "raft \<Rightarrow> raft" where
  "becomeCandidate r =
     (if r_state r = STATE_LEADER then r
      else let r = r\<lparr>r_step := StepCandidate\<rparr>;
               r = reset (r_currentTerm r + 1) r;
               r = r\<lparr>r_tick := TickElection\<rparr>;
               r = r\<lparr>r_vote := r_id r\<rparr>
           in r\<lparr>r_state := STATE_CANDIDATE\<rparr>)"

definition becomeLeader :: "raft \<Rightarrow> raft" where
  "becomeLeader r =
     (if r_state r = STATE_FOLLOWER then r
      else let r = r\<lparr>r_step := StepLeader\<rparr>;
               r = reset (r_currentTerm r) r;
               r = r\<lparr>r_tick := TickHeartbeat\<rparr>;
               r = r\<lparr>r_leader := r_id r\<rparr>
           in r\<lparr>r_state := STATE_LEADER\<rparr>)"

text \<open>The quorum is counted on the public map \<open>prs\<close>.\<close>

definition quorum :: "raft \<Rightarrow> u32" where
  "quorum r = ucast (sz (r_pub_prs r) div 2 + 1 :: u64)"

definition checkQuorumActive :: "raft \<Rightarrow> bool" where
  "checkQuorumActive r = True"

subsection \<open>Votes\<close>

definition count_granted :: "(u64, i32) umap \<Rightarrow> i32" where
  "count_granted vs = of_nat (length (filter (\<lambda>(nid, v). 0 <s v) vs))"

definition grantMe :: "u64 \<Rightarrow> bool \<Rightarrow> raft \<Rightarrow> i32 \<times> raft" where
  "grantMe nid v r =
     (let r = (if \<not> umap_has nid (r_votes r)
               then r\<lparr>r_votes := umap_set nid (if v then 1 else 0) (r_votes r)\<rparr> else r)
      in (count_granted (r_votes r), r))"

subsection \<open>Members\<close>

definition addNode :: "u64 \<Rightarrow> raft \<Rightarrow> raft" where
  "addNode nid r =
     (if \<not> umap_has nid (r_prs r)
      then let p = zero_Progress;
               p = resetState ProgressStateProbe p;
               p = setMatch 0 p;
               p = setNext (r_lastApplied r + 1) p;
               p = setRecentActive p
           in r\<lparr>r_prs := umap_set nid p (r_prs r)\<rparr>
      else r)"

definition deleteNode :: "u64 \<Rightarrow> raft \<Rightarrow> raft" where
  "deleteNode nid r =
     (if umap_has nid (r_prs r) then r\<lparr>r_prs := umap_erase nid (r_prs r)\<rparr> else r)"

text \<open>\<open>_prs[id]\<close> read through, and assigned through.\<close>

definition prs_at :: "u64 \<Rightarrow> raft \<Rightarrow> Progress" where
  "prs_at nid r = umap_get zero_Progress nid (r_prs r)"

definition prs_upd :: "u64 \<Rightarrow> (Progress \<Rightarrow> Progress) \<Rightarrow> raft \<Rightarrow> raft" where
  "prs_upd nid f r = r\<lparr>r_prs := umap_set nid (f (prs_at nid r)) (r_prs r)\<rparr>"

definition prs_touch :: "u64 \<Rightarrow> raft \<Rightarrow> raft" where
  "prs_touch nid r = r\<lparr>r_prs := umap_touch zero_Progress nid (r_prs r)\<rparr>"

subsection \<open>Printable names\<close>

fun msg_name :: "MessageType \<Rightarrow> string" where
  "msg_name MsgTrival = ''MsgTrival''"
| "msg_name MsgHeartbeat = ''MsgHeartbeat''"
| "msg_name MsgHeartbeatResp = ''MsgHeartbeatResp''"
| "msg_name MsgVote = ''MsgVote''"
| "msg_name MsgVoteResp = ''MsgVoteResp''"
| "msg_name MsgApp = ''MsgApp''"
| "msg_name MsgAppResp = ''MsgAppResp''"
| "msg_name MsgHup = ''MsgHup''"
| "msg_name MsgCheckQuorum = ''MsgCheckQuorum''"
| "msg_name MsgTransferLeader = ''MsgTransferLeader''"
| "msg_name MsgSnap = ''MsgSnap''"
| "msg_name MsgNode = ''MsgNode''"
| "msg_name MsgNodeResp = ''MsgNodeResp''"
| "msg_name _ = ''unknownType''"

subsection \<open>Construction\<close>

text \<open>
  The constructor. \<open>_snap\<close> is in no initialiser and never assigned, so it starts
  \<open>Wild\<close>; the two frames are those of \<open>FirstIndex\<close> and \<open>LastIndex\<close>; \<open>Entries\<close> is
  read only to be printed (frame 2).
\<close>

definition raft_blank :: "u64 \<Rightarrow> u32 \<Rightarrow> u32 \<Rightarrow> chance \<Rightarrow> stfile \<Rightarrow> raft" where
  "raft_blank nid heartbeatTimeout electionTimeout rnd f =
     \<lparr>r_pub_prs = [], r_currentTerm = 0, r_vote = 0, r_id = nid, r_isLeader = False,
      r_prs = [], r_votes = [], r_commitIndex = 0, r_lastApplied = 0, r_entries = [],
      r_snap = Wild, r_offset = 1, r_storage = f, r_leader = 0, r_state = STATE_FOLLOWER,
      r_heartbeatElapsed = 0, r_heartbeatTimeout = heartbeatTimeout,
      r_electionElapsed = 0, r_electionTimeout = electionTimeout,
      r_step = StepFollower, r_tick = TickElection, r_randomizedElectionTimeout = 0,
      r_checkQuorum = False, r_sendmsgs = [], r_recvmsgs = [], r_unknownid = [],
      r_Ready = False, r_rand = rnd, r_static = None, r_draws = 0\<rparr>"

definition new_Raft :: "env \<Rightarrow> u64 \<Rightarrow> u32 \<Rightarrow> u32 \<Rightarrow> chance \<Rightarrow> stfile \<Rightarrow> raft option" where
  "new_Raft E nid heartbeatTimeout electionTimeout rnd f = do {
     let r = resetRandomizedElectionTimeout
               (raft_blank nid heartbeatTimeout electionTimeout rnd f);
     firstIndex \<leftarrow> Storage_FirstIndex (E_codec E) (E_frame E 0) f;
     lastIndex \<leftarrow> Storage_LastIndex (E_codec E) (E_frame E 1) f;
     let r = r\<lparr>r_offset := (if lastIndex > 0 then lastIndex + 1 else 1)\<rparr>;
     let r = (if firstIndex > 0 then r\<lparr>r_commitIndex := firstIndex - 1\<rparr> else r);
     let r = (if firstIndex > 0 then r\<lparr>r_lastApplied := firstIndex - 1\<rparr> else r);
     rents \<leftarrow> Storage_Entries (E_codec E) (E_frame E 2) f;
     Some r }"

text \<open>A library that draws one more than the lower bound where it can.\<close>

definition sample_chance :: chance where
  "sample_chance = \<lparr>c_value = (\<lambda>s a b k. if a + 1 < b then a + 1 else a), c_time = (\<lambda>k. 0)\<rparr>"

lemma sample_chance_ok: "rand_ok sample_chance"
proof -
  have "a \<le> a + 1" if "a + 1 < b" "a < b" for a b :: u32 using that by unat_arith
  then show ?thesis by (auto simp: rand_ok_def sample_chance_def)
qed

lemmas [role_defs] =
  Raft_rand_def resetRandomizedElectionTimeout_def reset_def stepDown_def becomeCandidate_def
  becomeLeader_def grantMe_def addNode_def deleteNode_def prs_upd_def prs_touch_def Let_def

end
