(* ===== verification/Raft_Log.thy ===== *)
theory Raft_Log
  imports Raft_State
begin

text \<open>
  The log of a node: the unstable entries \<open>r_entries\<close> with the index \<open>r_offset\<close> of the
  first of them, the snapshot pointer, and the commit and apply marks. One definition
  per member function of \<^verbatim>\<open>raft.cc\<close>. Iterator arithmetic is done on integers and the
  range it yields must lie in the vector.
\<close>

named_theorems log_defs \<open>definitions of the log operations\<close>

subsection \<open>Indices and terms\<close>

definition maybeLastIndex :: "raft \<Rightarrow> u64 option" where
  "maybeLastIndex r =
     (if r_entries r \<noteq> [] then Some (r_offset r + sz (r_entries r) - 1)
      else do {
        p \<leftarrow> ptr_read (r_snap r);
        case p of Some s \<Rightarrow> Some (sm_index (Snapshot_metadata s)) | None \<Rightarrow> Some 0 })"

text \<open>
  The third \<open>logger->error\<close> call of \<open>maybeTerm\<close> reads the entry before the bound is
  tested.
\<close>

definition maybeTerm :: "u64 \<Rightarrow> raft \<Rightarrow> u64 option" where
  "maybeTerm index r =
     (if index < r_offset r
      then do {
        p \<leftarrow> ptr_read (r_snap r);
        case p of
          None \<Rightarrow> Some 0
        | Some s \<Rightarrow>
            Some (if sm_index (Snapshot_metadata s) = index
                  then sm_term (Snapshot_metadata s) else 0) }
      else do {
        last \<leftarrow> maybeLastIndex r;
        logged \<leftarrow> vec_at (r_entries r) (index - r_offset r);
        if last = 0 \<or> index > last then Some 0
        else do { e \<leftarrow> vec_at (r_entries r) (index - r_offset r); Some (e_term e) } })"

definition maybeFirstIndex :: "raft \<Rightarrow> u64 option" where
  "maybeFirstIndex r = do {
     p \<leftarrow> ptr_read (r_snap r);
     case p of Some s \<Rightarrow> Some (sm_index (Snapshot_metadata s)) | None \<Rightarrow> Some 0 }"

definition firstIndex :: "raft \<Rightarrow> u64 option" where
  "firstIndex r = do { index \<leftarrow> maybeFirstIndex r; Some index }"

definition lastIndex :: "raft \<Rightarrow> u64 option" where
  "lastIndex r = do { index \<leftarrow> maybeLastIndex r; Some index }"

definition Raft_term :: "env \<Rightarrow> u64 \<Rightarrow> raft \<Rightarrow> u64 option" where
  "Raft_term E index r = do {
     t \<leftarrow> maybeTerm index r;
     if t > 0 then Some t
     else do {
       t \<leftarrow> Storage_Term (E_codec E) (E_frame E 0) (E_frame E 1) (r_storage r) index;
       Some t } }"

definition lastTerm :: "env \<Rightarrow> raft \<Rightarrow> u64 option" where
  "lastTerm E r = do { i \<leftarrow> lastIndex r; Raft_term E i r }"

definition Raft_snapshot :: "env \<Rightarrow> raft \<Rightarrow> Snapshot option" where
  "Raft_snapshot E r = do {
     p \<leftarrow> ptr_read (r_snap r);
     case p of
       Some s \<Rightarrow> Some s
     | None \<Rightarrow> Storage_Snapshot (E_codec E) (E_frame E 0) (r_storage r) }"

subsection \<open>Changing the unstable log\<close>

definition truncateAndAppend :: "Entry list \<Rightarrow> raft \<Rightarrow> raft option" where
  "truncateAndAppend ents r = do {
     e0 \<leftarrow> vec_at ents 0;
     if e_index e0 = r_offset r + sz (r_entries r)
     then Some (r\<lparr>r_entries := r_entries r @ ents\<rparr>)
     else if e_index e0 \<le> r_offset r
     then Some (r\<lparr>r_offset := e_index e0, r_entries := ents\<rparr>)
     else do {
       keep \<leftarrow> vec_range (r_entries r) 0 (uint (e_index e0) - uint (r_offset r));
       Some (r\<lparr>r_entries := keep @ ents\<rparr>) } }"

definition Raft_append :: "Entry list \<Rightarrow> raft \<Rightarrow> (u64 \<times> raft) option" where
  "Raft_append ents r =
     (if ents = [] then do { i \<leftarrow> lastIndex r; Some (i, r) }
      else do {
        r \<leftarrow> truncateAndAppend ents r;
        i \<leftarrow> lastIndex r;
        Some (i, r) })"

text \<open>The loop \<open>while(size() > index) pop_back()\<close>.\<close>

function pop_to :: "u64 \<Rightarrow> Entry list \<Rightarrow> Entry list" where
  "pop_to index es = (if es \<noteq> [] \<and> sz es > index then pop_to index (butlast es) else es)"
  by pat_completeness auto
termination
  by (relation "measure (\<lambda>(index, es). length es)") auto

declare pop_to.simps [simp del]

definition maybeAppend :: "u64 \<Rightarrow> u64 \<Rightarrow> u64 \<Rightarrow> Entry list \<Rightarrow> raft \<Rightarrow> u64 \<times> raft" where
  "maybeAppend index logTerm committed ents r =
     (if sz (r_entries r) \<ge> index \<and> r_currentTerm r = logTerm
      then let newIndex = index + sz ents
           in (newIndex, r\<lparr>r_entries := pop_to index (r_entries r) @ ents\<rparr>)
      else (0, r))"

definition stableTo :: "u64 \<Rightarrow> u64 \<Rightarrow> raft \<Rightarrow> raft option" where
  "stableTo index term r = do {
     gterm \<leftarrow> maybeTerm index r;
     if gterm = 0 then Some r
     else if gterm = term \<and> index = r_offset r
     then do {
       es \<leftarrow> vec_range (r_entries r) (uint index + 1 - uint (r_offset r))
                (int (length (r_entries r)));
       Some (r\<lparr>r_entries := es, r_offset := index + 1\<rparr>) }
     else Some r }"

definition stableSnapTo :: "u64 \<Rightarrow> raft \<Rightarrow> raft option" where
  "stableSnapTo index r = do {
     p \<leftarrow> ptr_read (r_snap r);
     case p of
       Some s \<Rightarrow> Some (if sm_index (Snapshot_metadata s) = index then r\<lparr>r_snap := Null\<rparr> else r)
     | None \<Rightarrow> Some r }"

definition restore :: "Snapshot \<Rightarrow> raft \<Rightarrow> raft" where
  "restore snap r =
     r\<lparr>r_offset := sm_index (Snapshot_metadata snap) + 1, r_entries := [],
       r_snap := Pointing snap\<rparr>"

subsection \<open>Committing and applying\<close>

definition commitTo :: "u64 \<Rightarrow> raft \<Rightarrow> raft option" where
  "commitTo commit r =
     (if r_commitIndex r < commit
      then do { last \<leftarrow> lastIndex r; Some (r\<lparr>r_commitIndex := commit\<rparr>) }
      else Some r)"

definition appliedTo :: "u64 \<Rightarrow> raft \<Rightarrow> raft" where
  "appliedTo index r = (if index = 0 then r else r\<lparr>r_lastApplied := index\<rparr>)"

definition maybeCommit :: "raft \<Rightarrow> (bool \<times> raft) option" where
  "maybeCommit r = do {
     let mis = sort (map (\<lambda>(id, p). p_match p) (r_prs r));
     mci \<leftarrow> vec_at mis (u64_of_u32 (quorum r - 1));
     if mci > r_commitIndex r
     then do { r \<leftarrow> commitTo mci r; Some (True, r) }
     else Some (False, r) }"

fun number_entries :: "u64 \<Rightarrow> u64 \<Rightarrow> Entry list \<Rightarrow> Entry list" where
  "number_entries term index [] = []"
| "number_entries term index (e # es) =
     e\<lparr>e_term := term, e_index := index + 1\<rparr> # number_entries term (index + 1) es"

definition appendEntry :: "Entry list \<Rightarrow> raft \<Rightarrow> raft option" where
  "appendEntry ents r = do {
     let index = r_lastApplied r;
     let ents = number_entries (r_currentTerm r) index ents;
     let r = r\<lparr>r_entries := r_entries r @ ents\<rparr>;
     (b, r) \<leftarrow> maybeCommit r;
     Some (r\<lparr>r_Ready := True\<rparr>) }"

text \<open>The position \<open>maxi\<close> of the entry that was applied last; an \<open>int\<close> counts it.\<close>

definition applied_pos :: "raft \<Rightarrow> nat" where
  "applied_pos r = length (takeWhile (\<lambda>e. r_lastApplied r \<noteq> e_index e) (r_entries r))"

definition storageLog :: "env \<Rightarrow> raft \<Rightarrow> raft option" where
  "storageLog E r =
     (let maxi = applied_pos r;
          commit = r_commitIndex r;
          applied = r_lastApplied r;
          todo = applied < commit \<and> commit - applied \<le> sz (r_entries r)
      in if int maxi > 2147483647 then None
      else do {
        r \<leftarrow> (if \<not> todo then Some r
              else if maxi = length (r_entries r)
              then do {
                ents \<leftarrow> vec_range (r_entries r) 0 (uint commit);
                Some (r\<lparr>r_storage := Storage_Append (E_codec E) ents (r_storage r)\<rparr>) }
              else do {
                ents \<leftarrow> vec_range (r_entries r) (int maxi + 1)
                          (int maxi + 1 + uint commit - uint applied);
                Some (r\<lparr>r_storage := Storage_Append (E_codec E) ents (r_storage r)\<rparr>) });
        Some (appliedTo commit r) })"

lemmas [log_defs] =
  maybeLastIndex_def maybeTerm_def maybeFirstIndex_def firstIndex_def lastIndex_def
  Raft_term_def truncateAndAppend_def Raft_append_def maybeAppend_def stableTo_def
  stableSnapTo_def restore_def commitTo_def appliedTo_def maybeCommit_def appendEntry_def
  storageLog_def Let_def

end
