(* ===== verification/Raft_Step.thy ===== *)
theory Raft_Step
  imports Raft_Log
begin

text \<open>
  Sending, the three role handlers \<open>stepLeader\<close>, \<open>stepCandidate\<close> and \<open>stepFollower\<close>,
  the entry point \<open>generalStep\<close>, the two tick functions, and the message boxes of
  \<^verbatim>\<open>raft.cc\<close>. A handler that can meet a fault has an \<open>option\<close> result. The \<open>switch\<close>
  statements are \<open>case\<close> expressions with the fall-throughs of the source written out.
\<close>

named_theorems step_defs \<open>definitions of the handlers\<close>

subsection \<open>Sending\<close>

definition send :: "Message \<Rightarrow> raft \<Rightarrow> raft" where
  "send msg r = r\<lparr>r_sendmsgs := r_sendmsgs r @ [msg]\<rparr>"

definition sendHeartbeat :: "u64 \<Rightarrow> bytes \<Rightarrow> raft \<Rightarrow> raft" where
  "sendHeartbeat to ctx r =
     (let commit = min (p_match (prs_at to r)) (r_commitIndex r);
          r = prs_touch to r
      in send (new_Message\<lparr>m_from := r_id r, m_to := to, m_term := r_currentTerm r,
                 m_type := MsgHeartbeat, m_commit := commit, m_context := ctx\<rparr>) r)"

definition bcastHeartbeat :: "raft \<Rightarrow> raft option" where
  "bcastHeartbeat r =
     (if r_prs r \<noteq> []
      then foreach (\<lambda>(nid, _) r. if nid = r_id r then Some r else Some (sendHeartbeat nid [] r))
             (r_prs r) r
      else Some r)"

definition bcastHeartbeat_fast :: "raft \<Rightarrow> raft" where
  "bcastHeartbeat_fast r =
     send (new_Message\<lparr>m_from := r_id r, m_to := 0, m_type := MsgHeartbeat, m_context := []\<rparr>) r"

text \<open>
  The loop \<open>for(int i = next-1; i < size; ++i)\<close>: the start is truncated to an \<open>int\<close>, a
  negative one is compared as a huge unsigned number, and counting past the largest
  \<open>int\<close> has no meaning.
\<close>

definition entries_from :: "u64 \<Rightarrow> Entry list \<Rightarrow> Entry list option" where
  "entries_from start es =
     (let i = sint (i32_of_u64 start)
      in if i < 0 \<or> int (length es) \<le> i then Some []
         else if int (length es) > 2147483647 then None
         else Some (drop (nat i) es))"

definition sent_entry :: "Entry \<Rightarrow> Entry" where
  "sent_entry e = new_Entry\<lparr>e_type := EntryNormal, e_term := e_term e, e_index := e_index e,
     e_data := e_data e\<rparr>"

definition sendAppend :: "env \<Rightarrow> u64 \<Rightarrow> raft \<Rightarrow> raft option" where
  "sendAppend E to r = do {
     let msg = new_Message\<lparr>m_from := r_id r, m_to := to, m_type := MsgApp\<rparr>;
     let next = p_next (prs_at to r);
     let r = prs_touch to r;
     msg \<leftarrow> (if next - 1 = 0
             then Some (msg\<lparr>m_index := 0, m_logterm := r_currentTerm r\<rparr>)
             else do {
               t \<leftarrow> Raft_term E (next - 1) r;
               Some (msg\<lparr>m_index := next - 1, m_logterm := t\<rparr>) });
     let msg = msg\<lparr>m_commit := r_commitIndex r\<rparr>;
     ents \<leftarrow> entries_from (next - 1) (r_entries r);
     let msg = msg\<lparr>m_entries := map sent_entry ents\<rparr>;
     r \<leftarrow> (if m_entries msg \<noteq> []
           then case p_state (prs_at to r) of
                  ProgressStateReplicate \<Rightarrow>
                    Some (prs_upd to (optimisticUpdate (e_index (last (m_entries msg)))) r)
                | ProgressStateProbe \<Rightarrow> Some r
                | st \<Rightarrow> do { logged \<leftarrow> Progress_name st; Some r }
           else Some r);
     Some (send msg r) }"

definition bcastAppend :: "env \<Rightarrow> raft \<Rightarrow> raft option" where
  "bcastAppend E r =
     foreach (\<lambda>(nid, _) r. if nid = r_id r \<or> nid = 0 then Some r else sendAppend E nid r)
       (r_prs r) r"

definition sendAddNode :: "u64 \<Rightarrow> raft \<Rightarrow> raft" where
  "sendAddNode to r = send (new_Message\<lparr>m_type := MsgNode, m_from := r_id r, m_to := to\<rparr>) r"

subsection \<open>The leader\<close>

definition ackTransition :: "u64 \<Rightarrow> raft \<Rightarrow> raft" where
  "ackTransition from r =
     (case p_state (prs_at from r) of
        ProgressStateProbe \<Rightarrow> prs_upd from becomeReplicate r
      | ProgressStateSnapshot \<Rightarrow> prs_upd from becomeProbe r
      | _ \<Rightarrow> r)"

definition leaderAppResp :: "env \<Rightarrow> Message \<Rightarrow> raft \<Rightarrow> raft option" where
  "leaderAppResp E msg r =
     (let from = m_from msg;
          r = prs_upd from setRecentActive r
      in if m_reject msg then Some r
         else let (updated, p) = maybeUpdate (m_index msg) (prs_at from r);
                  r = prs_upd from (\<lambda>_. p) r
              in if updated
                 then do {
                   (committed, r) \<leftarrow> maybeCommit (ackTransition from r);
                   if committed then bcastAppend E r else Some r }
                 else Some r)"

definition leaderHeartbeatResp :: "env \<Rightarrow> Message \<Rightarrow> raft \<Rightarrow> raft option" where
  "leaderHeartbeatResp E msg r =
     (let from = m_from msg;
          r = prs_upd from setRecentActive r
      in if p_match (prs_at from r) < r_lastApplied r then sendAppend E from r else Some r)"

text \<open>The case of \<open>MsgAppResp\<close> has no \<open>break\<close> and runs on into that of \<open>MsgHeartbeatResp\<close>.\<close>

definition stepLeader :: "env \<Rightarrow> Message \<Rightarrow> raft \<Rightarrow> raft option" where
  "stepLeader E msg r =
     (case m_type msg of
        MsgBeat \<Rightarrow> bcastHeartbeat r
      | MsgProp \<Rightarrow> do { r \<leftarrow> appendEntry (m_entries msg) r; bcastAppend E r }
      | MsgCheckQuorum \<Rightarrow>
          (if \<not> checkQuorumActive r then Some (stepDown (r_currentTerm r) 0 r) else Some r)
      | t \<Rightarrow>
          (if \<not> umap_has (m_from msg) (r_prs r) then Some r
           else case t of
             MsgAppResp \<Rightarrow> do { r \<leftarrow> leaderAppResp E msg r; leaderHeartbeatResp E msg r }
           | MsgHeartbeatResp \<Rightarrow> leaderHeartbeatResp E msg r
           | _ \<Rightarrow> Some r))"

subsection \<open>Followers and candidates\<close>

definition copied_entry :: "Entry \<Rightarrow> Entry" where
  "copied_entry e =
     new_Entry\<lparr>e_index := e_index e, e_term := e_term e, e_data := e_data e\<rparr>"

text \<open>The block \<open>handle appendEntries\<close>, which both handlers contain.\<close>

definition handleAppendEntries :: "Message \<Rightarrow> raft \<Rightarrow> raft" where
  "handleAppendEntries msg r =
     (let resp = new_Message\<lparr>m_from := r_id r, m_to := m_from msg, m_type := MsgAppResp\<rparr>
      in if m_index msg < r_commitIndex r
         then send (resp\<lparr>m_index := r_commitIndex r\<rparr>) r
         else let ents = map copied_entry (m_entries msg);
                  (mlastIndex, r) = maybeAppend (m_index msg) (m_logterm msg) (m_commit msg) ents r
              in if mlastIndex > 0
                 then (send (resp\<lparr>m_index := mlastIndex\<rparr>) r)\<lparr>r_Ready := True\<rparr>
                 else send (resp\<lparr>m_reject := True, m_index := m_index msg\<rparr>) r)"

definition heartbeatResp :: "Message \<Rightarrow> raft \<Rightarrow> raft" where
  "heartbeatResp msg r =
     send (new_Message\<lparr>m_from := r_id r, m_to := m_from msg, m_type := MsgHeartbeatResp,
             m_context := m_context msg\<rparr>) r"

definition stepCandidate :: "env \<Rightarrow> Message \<Rightarrow> raft \<Rightarrow> raft option" where
  "stepCandidate E msg r =
     (case m_type msg of
        MsgHeartbeat \<Rightarrow> do {
          let r = stepDown (r_currentTerm r) (m_from msg) r;
          r \<leftarrow> commitTo (m_commit msg) r;
          Some (heartbeatResp msg r) }
      | MsgApp \<Rightarrow>
          (let r = stepDown (r_currentTerm r) (m_from msg) r
           in Some (handleAppendEntries msg r))
      | MsgVoteResp \<Rightarrow>
          (let (grant, r) = grantMe (m_from msg) (\<not> m_reject msg) r
           in if quorum r = grant then bcastAppend E (becomeLeader r)
              else if u64_of_u32 (quorum r) = sz (r_votes r) - u64_of_i32 grant
              then Some (stepDown (r_currentTerm r) 0 r)
              else Some r)
      | _ \<Rightarrow> Some r)"

definition stepFollower :: "Message \<Rightarrow> raft \<Rightarrow> raft option" where
  "stepFollower msg r =
     (case m_type msg of
        MsgHeartbeat \<Rightarrow> do {
          let r = r\<lparr>r_electionElapsed := 0\<rparr>;
          let r = (if r_leader r \<noteq> m_from msg
                   then r\<lparr>r_leader := m_from msg, r_currentTerm := m_term msg\<rparr> else r);
          r \<leftarrow> commitTo (m_commit msg) r;
          Some (heartbeatResp msg r) }
      | MsgApp \<Rightarrow>
          (let r = r\<lparr>r_electionElapsed := 0\<rparr>;
               r = r\<lparr>r_leader := m_from msg\<rparr>
           in Some (handleAppendEntries msg r))
      | MsgTransferLeader \<Rightarrow>
          (if r_leader r = 0 then Some r else Some (send (msg\<lparr>m_to := r_leader r\<rparr>) r))
      | _ \<Rightarrow> Some r)"

definition run_step :: "env \<Rightarrow> Message \<Rightarrow> raft \<Rightarrow> raft option" where
  "run_step E msg r =
     (case r_step r of
        StepLeader \<Rightarrow> stepLeader E msg r
      | StepCandidate \<Rightarrow> stepCandidate E msg r
      | StepFollower \<Rightarrow> stepFollower msg r)"

subsection \<open>The entry point\<close>

text \<open>
  The queue of unknown ids holds \<open>uint64_t\<close>, but \<open>pushUnknownid(msg.from())\<close> can only
  bind the overload for \<open>int32_t&&\<close>: the id is narrowed to 32 bits and then widened
  with its sign.
\<close>

definition pushUnknownid :: "i32 \<Rightarrow> raft \<Rightarrow> raft" where
  "pushUnknownid i r = r\<lparr>r_unknownid := r_unknownid r @ [u64_of_i32 i]\<rparr>"

definition pushUnknownid_u64 :: "u64 \<Rightarrow> raft \<Rightarrow> raft" where
  "pushUnknownid_u64 nid r = r\<lparr>r_unknownid := r_unknownid r @ [nid]\<rparr>"

definition popUnknownid :: "raft \<Rightarrow> (i32 \<times> raft) option" where
  "popUnknownid r =
     (case r_unknownid r of
        [] \<Rightarrow> None
      | nid # q \<Rightarrow> Some (i32_of_u64 nid, r\<lparr>r_unknownid := q\<rparr>))"

definition emptyUnknownid :: "raft \<Rightarrow> bool" where
  "emptyUnknownid r = (r_unknownid r = [])"

definition handleHup :: "raft \<Rightarrow> raft" where
  "handleHup r =
     (if r_state r \<noteq> STATE_LEADER
      then let r = becomeCandidate r;
               (granted, r) = grantMe (r_id r) True r
           in if quorum r = granted then becomeLeader r
              else fold (\<lambda>(nid, _) r.
                     if nid = r_id r then r
                     else send (new_Message\<lparr>m_term := r_currentTerm r, m_to := nid,
                            m_type := MsgVote, m_index := r_lastApplied r,
                            m_logterm := r_commitIndex r, m_context := []\<rparr>) r) (r_prs r) r
      else r)"

definition up_to_date :: "Message \<Rightarrow> raft \<Rightarrow> bool" where
  "up_to_date msg r =
     (m_logterm msg > r_commitIndex r \<or>
      m_logterm msg = r_commitIndex r \<and> m_index msg \<ge> r_lastApplied r)"

text \<open>
  The test \<open>(0 == _vote) || (_vote = msg.from())\<close> assigns when a vote was recorded
  before, and is then true unless the sender is 0.
\<close>

definition handleVote :: "Message \<Rightarrow> raft \<Rightarrow> raft" where
  "handleVote msg r =
     (let (may_vote, r) = (if r_vote r = 0 then (True, r)
                           else (m_from msg \<noteq> 0, r\<lparr>r_vote := m_from msg\<rparr>));
          resp = new_Message\<lparr>m_to := m_from msg, m_term := m_term msg, m_type := MsgVoteResp\<rparr>
      in if may_vote \<and> up_to_date msg r
         then (send resp r)\<lparr>r_electionElapsed := 0, r_vote := m_from msg\<rparr>
         else (send (resp\<lparr>m_reject := True\<rparr>) r)\<lparr>r_electionElapsed := 0, r_vote := m_from msg\<rparr>)"

definition handleNode :: "Message \<Rightarrow> raft \<Rightarrow> raft" where
  "handleNode msg r =
     (let r = addNode (m_from msg) r;
          r = pushUnknownid (i32_of_u64 (m_from msg)) r
      in send (new_Message\<lparr>m_to := m_from msg, m_term := m_term msg,
                 m_type := MsgNodeResp\<rparr>) r)"

definition dispatch :: "env \<Rightarrow> Message \<Rightarrow> raft \<Rightarrow> raft option" where
  "dispatch E msg r =
     (case m_type msg of
        MsgHup \<Rightarrow> Some (handleHup r)
      | MsgVote \<Rightarrow> Some (handleVote msg r)
      | MsgNode \<Rightarrow> Some (handleNode msg r)
      | _ \<Rightarrow> run_step E msg r)"

definition generalStep :: "env \<Rightarrow> Message \<Rightarrow> raft \<Rightarrow> raft option" where
  "generalStep E msg r =
     (if m_term msg = 0 then dispatch E msg r
      else if m_term msg > r_currentTerm r
      then (if m_type msg = MsgVote \<and> r_checkQuorum r \<and> r_leader r \<noteq> 0 \<and>
               r_electionElapsed r < r_electionTimeout r
            then Some r
            else dispatch E msg (stepDown (m_term msg) (m_from msg) r))
      else if m_term msg < r_currentTerm r
      then (if r_checkQuorum r \<and> (m_type msg = MsgHeartbeat \<or> m_type msg = MsgApp)
            then Some (send (new_Message\<lparr>m_to := m_from msg, m_type := MsgAppResp\<rparr>) r)
            else Some r)
      else dispatch E msg r)"

subsection \<open>Ticks\<close>

definition tickElection :: "env \<Rightarrow> raft \<Rightarrow> raft option" where
  "tickElection E r =
     (let r = r\<lparr>r_electionElapsed := r_electionElapsed r + 1\<rparr>
      in if pastElectionTimeout r
         then generalStep E (new_Message\<lparr>m_from := r_id r, m_type := MsgHup\<rparr>)
                (r\<lparr>r_electionElapsed := 0\<rparr>)
         else Some r)"

definition tickHeartbeat :: "env \<Rightarrow> raft \<Rightarrow> raft option" where
  "tickHeartbeat E r = do {
     let r = r\<lparr>r_heartbeatElapsed := r_heartbeatElapsed r + 1\<rparr>;
     let r = r\<lparr>r_electionElapsed := r_electionElapsed r + 1\<rparr>;
     r \<leftarrow> (if r_electionElapsed r \<ge> r_electionTimeout r
           then let r = r\<lparr>r_electionElapsed := 0\<rparr>
                in if r_checkQuorum r
                   then generalStep E (new_Message\<lparr>m_from := r_id r, m_type := MsgCheckQuorum\<rparr>) r
                   else Some r
           else Some r);
     if r_state r \<noteq> STATE_LEADER then Some r
     else if r_heartbeatElapsed r \<ge> r_heartbeatTimeout r
     then generalStep E (new_Message\<lparr>m_from := r_id r, m_type := MsgBeat\<rparr>)
            (r\<lparr>r_heartbeatElapsed := 0\<rparr>)
     else Some r }"

definition tickNode :: "env \<Rightarrow> raft \<Rightarrow> raft option" where
  "tickNode E r =
     (case r_tick r of TickElection \<Rightarrow> tickElection E r | TickHeartbeat \<Rightarrow> tickHeartbeat E r)"

subsection \<open>Message boxes\<close>

definition stepNode :: "env \<Rightarrow> raft \<Rightarrow> raft option" where
  "stepNode E r =
     (case r_recvmsgs r of
        [] \<Rightarrow> Some r
      | msg # q \<Rightarrow> generalStep E msg (r\<lparr>r_recvmsgs := q\<rparr>))"

definition Raft_serializeData :: "env \<Rightarrow> Message \<Rightarrow> bytes" where
  [simp]: "Raft_serializeData E msg = ser_Message (E_codec E) msg"

definition Raft_deserializeData :: "env \<Rightarrow> bytes \<Rightarrow> Message" where
  [simp]: "Raft_deserializeData E data = parse_Message (E_codec E) data"

definition tryPopSendbuf :: "env \<Rightarrow> raft \<Rightarrow> (bytes \<times> u64) \<times> raft" where
  "tryPopSendbuf E r =
     (case r_sendmsgs r of
        [] \<Rightarrow> (([], 0), r)
      | msg # q \<Rightarrow> ((Raft_serializeData E msg, m_to msg), r\<lparr>r_sendmsgs := q\<rparr>))"

definition tryPushRecvbuf :: "env \<Rightarrow> bytes \<Rightarrow> raft \<Rightarrow> bool \<times> raft" where
  "tryPushRecvbuf E data r =
     (if data \<noteq> []
      then (True, r\<lparr>r_recvmsgs := r_recvmsgs r @ [Raft_deserializeData E data]\<rparr>)
      else (False, r))"

definition propose :: "bytes \<Rightarrow> raft \<Rightarrow> bool \<times> raft" where
  "propose op r =
     (if op \<noteq> []
      then (True, r\<lparr>r_recvmsgs := r_recvmsgs r @
              [new_Message\<lparr>m_type := MsgProp, m_entries := [new_Entry\<lparr>e_data := op\<rparr>]\<rparr>]\<rparr>)
      else (False, r))"

lemmas [step_defs] =
  send_def sendHeartbeat_def bcastHeartbeat_def sendAppend_def bcastAppend_def
  ackTransition_def leaderAppResp_def leaderHeartbeatResp_def stepLeader_def handleAppendEntries_def
  heartbeatResp_def stepCandidate_def stepFollower_def run_step_def handleHup_def
  handleVote_def handleNode_def dispatch_def generalStep_def tickElection_def
  tickHeartbeat_def tickNode_def stepNode_def pushUnknownid_def

end
