(* ===== verification/Raft_Moves.thy ===== *)
theory Raft_Moves
  imports Raft_Step Interfaces
begin

text \<open>
  The abstract specification of a node: \<open>node_move msg\<close>, the elementary moves a node may
  make while it handles \<open>msg\<close>, each with the guard under which the handlers make it.
  \<open>generalStep_is_moves\<close> shows that a whole call of \<open>generalStep\<close> is a sequence of such
  moves; an invariant of the node is then proved once per move.
\<close>

text \<open>\<open>keeps_committed r es\<close>: replacing the entries by \<open>es\<close> leaves the committed ones alone.\<close>

definition keeps_committed :: "raft \<Rightarrow> Entry list \<Rightarrow> bool" where
  "keeps_committed r es =
     (\<forall>c. c \<le> unat (r_commitIndex r) \<longrightarrow> c \<le> length (r_entries r) \<longrightarrow>
        take c es = take c (r_entries r))"

text \<open>
  \<open>may_send msg r m\<close>: a node in the state \<open>r\<close> may send \<open>m\<close> while it handles \<open>msg\<close>. Answers go
  to the sender of what they answer; heartbeats come from a leader on its own beat, carry its
  term and no commit index above its mark; appends come from no follower and carry the
  commit mark; a request for a vote is in the candidate's own term.
\<close>

definition may_send :: "Message \<Rightarrow> raft \<Rightarrow> Message \<Rightarrow> bool" where
  "may_send msg r m =
     (case m_type m of
        MsgHeartbeat \<Rightarrow> m_type msg = MsgBeat \<and> r_step r = StepLeader \<and> m_from m = r_id r \<and>
          m_term m = r_currentTerm r \<and> m_commit m \<le> r_commitIndex r
      | MsgApp \<Rightarrow> r_step r \<noteq> StepFollower \<and> m_from m = r_id r \<and> m_term m = 0 \<and>
          m_commit m = r_commitIndex r
      | MsgVote \<Rightarrow> m_type msg = MsgHup \<and> r_step r = StepCandidate \<and>
          m_term m = r_currentTerm r \<and> m_index m = r_lastApplied r \<and>
          m_logterm m = r_commitIndex r
      | MsgHeartbeatResp \<Rightarrow> m_type msg = MsgHeartbeat \<and> r_step r = StepFollower \<and>
          m_to m = m_from msg
      | MsgAppResp \<Rightarrow> m_to m = m_from msg \<and>
          (m_type msg = MsgApp \<and> r_step r = StepFollower \<or>
           r_checkQuorum r \<and> m_term msg < r_currentTerm r)
      | MsgVoteResp \<Rightarrow> m_type msg = MsgVote \<and> m_to m = m_from msg \<and> m_term m = m_term msg
      | MsgNodeResp \<Rightarrow> m_type msg = MsgNode \<and> m_to m = m_from msg \<and> m_term m = m_term msg
      | MsgTransferLeader \<Rightarrow> r_step r = StepFollower \<and> r_leader r \<noteq> 0 \<and> m = msg\<lparr>m_to := r_leader r\<rparr>
      | _ \<Rightarrow> False)"

text \<open>The index a quorum acknowledged: the commit rule of the leader.\<close>

definition quorum_match :: "raft \<Rightarrow> u64 option" where
  "quorum_match r =
     vec_at (sort (map (\<lambda>(i, p). p_match p) (r_prs r))) (u64_of_u32 (quorum r - 1))"

text \<open>
  \<open>acknowledges msg i p q\<close>: \<open>msg\<close> is the acknowledgement from \<open>i\<close> that raises the record \<open>p\<close>
  to \<open>q\<close>.
\<close>

definition acknowledges :: "Message \<Rightarrow> u64 \<Rightarrow> Progress \<Rightarrow> Progress \<Rightarrow> bool" where
  "acknowledges msg i p q = (m_type msg = MsgAppResp \<and> \<not> m_reject msg \<and> m_from msg = i \<and>
     p_match p < m_index msg \<and> p_match q = m_index msg)"

inductive node_move :: "Message \<Rightarrow> raft \<Rightarrow> raft \<Rightarrow> bool" for msg :: Message where
  mv_send: "may_send msg r m \<Longrightarrow> node_move msg r (send m r)"
| mv_touch: "r_step r \<noteq> StepFollower \<Longrightarrow> node_move msg r (prs_touch i r)"
| mv_progress: "r_step r \<noteq> StepFollower \<Longrightarrow>
    p_match p = p_match (prs_at i r) \<or> acknowledges msg i (prs_at i r) p \<Longrightarrow>
    node_move msg r (prs_upd i (\<lambda>_. p) r)"
| mv_member: "m_type msg = MsgNode \<Longrightarrow> node_move msg r (addNode (m_from msg) r)"
| mv_commit_leader: "r_step r = StepLeader \<Longrightarrow> m_type msg = MsgProp \<or> m_type msg = MsgAppResp \<Longrightarrow>
    quorum_match r = Some c \<Longrightarrow> r_commitIndex r < c \<Longrightarrow> node_move msg r (r\<lparr>r_commitIndex := c\<rparr>)"
| mv_commit_follower: "r_step r = StepFollower \<Longrightarrow> m_type msg = MsgHeartbeat \<Longrightarrow>
    r_commitIndex r < m_commit msg \<Longrightarrow> node_move msg r (r\<lparr>r_commitIndex := m_commit msg\<rparr>)"
| mv_append: "r_step r = StepLeader \<Longrightarrow> m_type msg = MsgProp \<Longrightarrow>
    node_move msg r (r\<lparr>r_entries := r_entries r @
      number_entries (r_currentTerm r) (r_lastApplied r) (m_entries msg)\<rparr>)"
| mv_replace: "r_step r = StepFollower \<Longrightarrow> m_type msg = MsgApp \<Longrightarrow>
    r_commitIndex r \<le> m_index msg \<Longrightarrow> m_index msg \<le> sz (r_entries r) \<Longrightarrow>
    m_logterm msg = r_currentTerm r \<Longrightarrow>
    node_move msg r (r\<lparr>r_entries := pop_to (m_index msg) (r_entries r) @
      map copied_entry (m_entries msg)\<rparr>)"
| mv_ready: "m_type msg = MsgApp \<or> m_type msg = MsgProp \<Longrightarrow> node_move msg r (r\<lparr>r_Ready := True\<rparr>)"
| mv_rest: "m_type msg = MsgHeartbeat \<or> m_type msg = MsgApp \<or> m_type msg = MsgVote \<Longrightarrow>
    node_move msg r (r\<lparr>r_electionElapsed := 0\<rparr>)"
| mv_own_vote: "m_type msg = MsgHup \<Longrightarrow> \<not> umap_has (r_id r) (r_votes r) \<Longrightarrow>
    node_move msg r (r\<lparr>r_votes := umap_set (r_id r) 1 (r_votes r)\<rparr>)"
| mv_count_vote: "r_step r = StepCandidate \<Longrightarrow> m_type msg = MsgVoteResp \<Longrightarrow>
    \<not> umap_has (m_from msg) (r_votes r) \<Longrightarrow>
    node_move msg r (r\<lparr>r_votes := umap_set (m_from msg) (if m_reject msg then 0 else 1) (r_votes r)\<rparr>)"
| mv_vote: "m_type msg = MsgVote \<Longrightarrow> node_move msg r (r\<lparr>r_vote := m_from msg\<rparr>)"
| mv_unknown: "m_type msg = MsgNode \<Longrightarrow> node_move msg r (pushUnknownid (i32_of_u64 (m_from msg)) r)"
| mv_down_higher: "r_currentTerm r < m_term msg \<Longrightarrow>
    node_move msg r (stepDown (m_term msg) (m_from msg) r)"
| mv_down_same: "r_step r = StepCandidate \<Longrightarrow> l = m_from msg \<or> l = 0 \<Longrightarrow>
    node_move msg r (stepDown (r_currentTerm r) l r)"
| mv_candidate: "m_type msg = MsgHup \<Longrightarrow> r_state r \<noteq> STATE_LEADER \<Longrightarrow>
    node_move msg r (becomeCandidate r)"
| mv_leader: "m_type msg = MsgHup \<or> m_type msg = MsgVoteResp \<Longrightarrow> r_state r \<noteq> STATE_FOLLOWER \<Longrightarrow>
    quorum r = count_granted (r_votes r) \<Longrightarrow> node_move msg r (becomeLeader r)"
| mv_follow: "r_step r = StepFollower \<Longrightarrow> m_type msg = MsgApp \<Longrightarrow>
    node_move msg r (r\<lparr>r_leader := m_from msg\<rparr>)"
| mv_new_leader: "r_step r = StepFollower \<Longrightarrow> m_type msg = MsgHeartbeat \<Longrightarrow>
    r_leader r \<noteq> m_from msg \<Longrightarrow> m_term msg = 0 \<or> m_term msg = r_currentTerm r \<Longrightarrow>
    node_move msg r (r\<lparr>r_leader := m_from msg, r_currentTerm := m_term msg\<rparr>)"

inductive_cases node_move_elim: "node_move msg r r'"

text \<open>A call that completes makes moves.\<close>

definition moves :: "Message \<Rightarrow> raft \<Rightarrow> raft \<Rightarrow> bool" where
  "moves msg r r' = (node_move msg)\<^sup>*\<^sup>* r r'"

lemma moves_refl [simp, intro]: "moves msg r r"
  by (simp add: moves_def)

lemma moves_trans [trans]: "moves msg r s \<Longrightarrow> moves msg s t \<Longrightarrow> moves msg r t"
  by (simp add: moves_def)

lemma moves_one: "node_move msg r r' \<Longrightarrow> moves msg r r'"
  by (simp add: moves_def)

lemmas mvs_send = mv_send [THEN moves_one]
  and mvs_touch = mv_touch [THEN moves_one]
  and mvs_progress = mv_progress [THEN moves_one]
  and mvs_member = mv_member [THEN moves_one]
  and mvs_commit_leader = mv_commit_leader [THEN moves_one]
  and mvs_commit_follower = mv_commit_follower [THEN moves_one]
  and mvs_append = mv_append [THEN moves_one]
  and mvs_replace = mv_replace [THEN moves_one]
  and mvs_ready = mv_ready [THEN moves_one]
  and mvs_rest = mv_rest [THEN moves_one]
  and mvs_own_vote = mv_own_vote [THEN moves_one]
  and mvs_count_vote = mv_count_vote [THEN moves_one]
  and mvs_vote = mv_vote [THEN moves_one]
  and mvs_unknown = mv_unknown [THEN moves_one]
  and mvs_down_higher = mv_down_higher [THEN moves_one]
  and mvs_down_same = mv_down_same [THEN moves_one]
  and mvs_candidate = mv_candidate [THEN moves_one]
  and mvs_leader = mv_leader [THEN moves_one]
  and mvs_follow = mv_follow [THEN moves_one]
  and mvs_new_leader = mv_new_leader [THEN moves_one]

lemma prs_sel [simp]:
  "r_commitIndex (prs_touch i r) = r_commitIndex r" "r_commitIndex (prs_upd i f r) = r_commitIndex r"
  "r_commitIndex (addNode i r) = r_commitIndex r" "r_currentTerm (prs_touch i r) = r_currentTerm r"
  "r_currentTerm (prs_upd i f r) = r_currentTerm r" "r_currentTerm (addNode i r) = r_currentTerm r"
  "r_sendmsgs (prs_touch i r) = r_sendmsgs r" "r_sendmsgs (prs_upd i f r) = r_sendmsgs r"
  "r_sendmsgs (addNode i r) = r_sendmsgs r" "r_entries (prs_touch i r) = r_entries r"
  "r_entries (prs_upd i f r) = r_entries r" "r_entries (addNode i r) = r_entries r"
  "r_votes (prs_touch i r) = r_votes r" "r_votes (prs_upd i f r) = r_votes r"
  "r_votes (addNode i r) = r_votes r" "r_state (prs_touch i r) = r_state r"
  "r_state (prs_upd i f r) = r_state r" "r_state (addNode i r) = r_state r"
  "r_step (prs_touch i r) = r_step r" "r_step (prs_upd i f r) = r_step r"
  "r_id (prs_touch i r) = r_id r" "r_id (prs_upd i f r) = r_id r"
  by (simp_all add: prs_touch_def prs_upd_def addNode_def Let_def)

text \<open>
  The guards look at the role, the identity, the term and the commit mark, which sending
  and the progress map leave alone.
\<close>

definition same_post :: "raft \<Rightarrow> raft \<Rightarrow> bool" where
  "same_post r s = (r_step s = r_step r \<and> r_id s = r_id r \<and> r_currentTerm s = r_currentTerm r \<and>
     r_commitIndex s = r_commitIndex r)"

lemma same_post_refl [simp, intro]: "same_post r r"
  by (simp add: same_post_def)

lemma same_post_trans: "same_post r s \<Longrightarrow> same_post s t \<Longrightarrow> same_post r t"
  by (simp add: same_post_def)

lemma same_post_prs [simp]:
  "same_post r (prs_touch i r)" "same_post r (prs_upd i f r)" "same_post r (send m r)"
  by (simp_all add: same_post_def send_def)

text \<open>A loop whose turns keep the post and make moves from it.\<close>

lemma moves_foreach:
  assumes "foreach f xs r = Some r'"
    and "\<And>x u v. f x u = Some v \<Longrightarrow> same_post r u \<Longrightarrow> moves msg u v \<and> same_post u v"
  shows "moves msg r r' \<and> same_post r r'"
  by (rule foreach_inv [where P = "\<lambda>s. moves msg r s \<and> same_post r s", OF assms(1)])
    (use assms(2) in \<open>blast intro: moves_trans same_post_trans\<close>)+

lemma moves_prs_upd:
  "r_step r \<noteq> StepFollower \<Longrightarrow> p_match (f (prs_at i r)) = p_match (prs_at i r) \<Longrightarrow>
    moves msg r (prs_upd i f r)"
  using mvs_progress [of r "f (prs_at i r)" i msg] by (simp add: prs_upd_def)

lemma moves_sendHeartbeat:
  assumes "m_type msg = MsgBeat" and "r_step r = StepLeader"
  shows "moves msg r (sendHeartbeat i c r)"
  unfolding sendHeartbeat_def Let_def
  by (rule moves_trans [OF mvs_touch mvs_send]) (use assms in \<open>simp_all add: may_send_def prs_touch_def\<close>)

lemma moves_bcastHeartbeat:
  assumes "bcastHeartbeat r = Some r'" and "m_type msg = MsgBeat" and "r_step r = StepLeader"
  shows "moves msg r r'"
proof (cases "r_prs r = []")
  case False
  have post: "same_post u (sendHeartbeat i c u)" for i c u
    by (simp add: sendHeartbeat_def Let_def same_post_def send_def prs_touch_def)
  have "moves msg r r' \<and> same_post r r'"
    by (rule moves_foreach [where f = "\<lambda>(nid, _) r. if nid = r_id r then Some r else Some (sendHeartbeat nid [] r)"
          and xs = "r_prs r"])
      (use assms False post in \<open>auto simp: bcastHeartbeat_def same_post_def split: if_splits
        intro: moves_sendHeartbeat\<close>)
  then show ?thesis by blast
qed (use assms in \<open>simp add: bcastHeartbeat_def\<close>)

text \<open>What \<open>sendAppend\<close> sends, and what else it changes.\<close>

lemma sendAppend_shape:
  assumes "sendAppend E i r = Some r'"
  shows "\<exists>m s. r' = send m s \<and> m_type m = MsgApp \<and> m_from m = r_id r \<and> m_term m = 0 \<and>
    m_commit m = r_commitIndex r \<and>
    (s = prs_touch i r \<or> (\<exists>n. s = prs_upd i (optimisticUpdate n) (prs_touch i r)))"
proof -
  let ?t = "prs_touch i r"
  let ?full = "\<lambda>m1 es. m1\<lparr>m_commit := r_commitIndex ?t, m_entries := map sent_entry es\<rparr>"
  obtain m1 es s where m1: "(if p_next (prs_at i r) - 1 = 0
        then Some (new_Message\<lparr>m_from := r_id r, m_to := i, m_type := MsgApp, m_index := 0,
               m_logterm := r_currentTerm ?t\<rparr>)
        else Raft_term E (p_next (prs_at i r) - 1) ?t \<bind>
          (\<lambda>t. Some (new_Message\<lparr>m_from := r_id r, m_to := i, m_type := MsgApp,
             m_index := p_next (prs_at i r) - 1, m_logterm := t\<rparr>))) = Some m1"
    and s: "(if m_entries (?full m1 es) \<noteq> []
           then case p_state (prs_at i ?t) of
                  ProgressStateReplicate \<Rightarrow>
                    Some (prs_upd i (optimisticUpdate (e_index (last (m_entries (?full m1 es))))) ?t)
                | ProgressStateProbe \<Rightarrow> Some ?t
                | st \<Rightarrow> do { logged \<leftarrow> Progress_name st; Some ?t }
           else Some ?t) = Some s"
    and r': "r' = send (?full m1 es) s"
    using assms unfolding sendAppend_def Let_def
    by (auto simp only: bind_eq_Some_conv option.inject)
  let ?m = "?full m1 es"
  have m: "m_type ?m = MsgApp" "m_from ?m = r_id r" "m_term ?m = 0" "m_commit ?m = r_commitIndex r"
    using m1 by (auto simp: bind_eq_Some_conv split: if_splits)
  from s have s: "s = ?t \<or> (\<exists>n. s = prs_upd i (optimisticUpdate n) ?t)"
    by (auto simp: bind_eq_Some_conv split: if_splits ProgressStateType.splits)
  show ?thesis by (intro exI [of _ ?m] exI [of _ s] conjI r' m s)
qed

lemma sendAppend_moves:
  assumes "sendAppend E i r = Some r'" and f: "r_step r \<noteq> StepFollower"
  shows "moves msg r r' \<and> same_post r r'"
proof -
  let ?t = "prs_touch i r"
  obtain m s where r': "r' = send m s" and m: "m_type m = MsgApp" "m_from m = r_id r" "m_term m = 0"
      "m_commit m = r_commitIndex r"
    and s: "s = ?t \<or> (\<exists>n. s = prs_upd i (optimisticUpdate n) ?t)"
    using sendAppend_shape [OF assms(1)] by blast
  have t: "moves msg r ?t" by (rule mvs_touch [OF f])
  have u: "moves msg ?t (prs_upd i (optimisticUpdate n) ?t)" for n
    by (rule moves_prs_upd) (use f in simp_all)
  have ps: "same_post r s" using s by (auto simp: same_post_def)
  have "moves msg r s" using s t u by (auto intro: moves_trans)
  moreover have "moves msg s (send m s)"
    by (rule mvs_send) (use m f ps in \<open>simp add: may_send_def same_post_def\<close>)
  ultimately show ?thesis unfolding r' using ps by (blast intro: moves_trans same_post_trans same_post_prs)
qed

lemma bcastAppend_moves:
  assumes "bcastAppend E r = Some r'" and "r_step r \<noteq> StepFollower"
  shows "moves msg r r' \<and> same_post r r'"
proof (rule moves_foreach [OF assms(1) [unfolded bcastAppend_def]])
  fix x u v
  assume x: "(case x of (nid, _) \<Rightarrow> \<lambda>r. if nid = r_id r \<or> nid = 0 then Some r else sendAppend E nid r) u = Some v"
    and "same_post r u"
  then have "r_step u \<noteq> StepFollower" using assms(2) by (simp add: same_post_def)
  with x show "moves msg u v \<and> same_post u v"
    using sendAppend_moves [of E _ u v msg] by (cases x) (auto split: if_splits)
qed

text \<open>\<open>broadcasts E r ms\<close>: \<open>ms\<close> is what a broadcast of \<open>r\<close> queues.\<close>

definition broadcasts :: "env \<Rightarrow> raft \<Rightarrow> Message list \<Rightarrow> bool" where
  "broadcasts E r ms = (\<exists>u. (bcastHeartbeat r = Some u \<or> bcastAppend E r = Some u) \<and>
     r_sendmsgs u = r_sendmsgs r @ ms)"

lemma broadcasts_kind:
  assumes "broadcasts E r ms" and "m \<in> set ms"
  shows "(m_type m = MsgHeartbeat \<and> m_term m = r_currentTerm r) \<or> (m_type m = MsgApp \<and> m_term m = 0)"
    (is "?kind m")
proof -
  obtain u where u: "bcastHeartbeat r = Some u \<or> bcastAppend E r = Some u" "r_sendmsgs u = r_sendmsgs r @ ms"
    using assms(1) by (auto simp: broadcasts_def)
  let ?P = "\<lambda>s. r_currentTerm s = r_currentTerm r \<and>
    (\<exists>ns. r_sendmsgs s = r_sendmsgs r @ ns \<and> (\<forall>m\<in>set ns. ?kind m))"
  have more: "?P (send m s)" if "?P t" "r_sendmsgs s = r_sendmsgs t" "r_currentTerm s = r_currentTerm t" "?kind m"
    for m s t
    using that by (auto simp: send_def)
  have beat: "?P t" if "foreach (\<lambda>(nid, _) r. if nid = r_id r then Some r else Some (sendHeartbeat nid [] r)) xs r = Some t"
    for xs t
    by (rule foreach_inv [where P = ?P, OF that])
      (auto simp: sendHeartbeat_def Let_def send_def split: if_splits)
  have app: "?P t" if a: "bcastAppend E r = Some t" for t
  proof (rule foreach_inv [where P = ?P, OF a [unfolded bcastAppend_def]])
    fix x v w
    assume x: "(case x of (nid, _) \<Rightarrow> \<lambda>r. if nid = r_id r \<or> nid = 0 then Some r else sendAppend E nid r) v = Some w"
      and P: "?P v"
    show "?P w"
    proof (cases "w = v")
      case False
      then have "sendAppend E (fst x) v = Some w" using x by (cases x) (auto split: if_splits)
      then obtain m s where w: "w = send m s" and m: "m_type m = MsgApp" "m_term m = 0"
        and s: "s = prs_touch (fst x) v \<or> (\<exists>n. s = prs_upd (fst x) (optimisticUpdate n) (prs_touch (fst x) v))"
        using sendAppend_shape by blast
      show ?thesis unfolding w by (rule more [OF P]) (use s m in auto)
    qed (use P in simp)
  qed simp
  have "?P u" using u(1) beat app by (auto simp: bcastHeartbeat_def split: if_splits)
  then show ?thesis using u(2) assms(2) by auto
qed

lemmas moves_bcastAppend = bcastAppend_moves [THEN conjunct1]

lemma moves_maybeCommit:
  assumes "maybeCommit r = Some (b, r')" and "r_step r = StepLeader"
    and "m_type msg = MsgProp \<or> m_type msg = MsgAppResp"
  shows "moves msg r r' \<and> r_step r' = StepLeader"
  using assms
  by (auto simp: maybeCommit_def Let_def bind_eq_Some_conv commitTo_def quorum_match_def split: if_splits
      intro!: mvs_commit_leader)

text \<open>Replacing the log beyond an index that is not below the commit mark.\<close>

lemma keeps_committed_same [simp]: "keeps_committed r (r_entries r)"
  by (simp add: keeps_committed_def)

lemma keeps_committed_more [simp]: "keeps_committed r (r_entries r @ es)"
  by (simp add: keeps_committed_def)

lemma pop_to_keeps: "c \<le> unat n \<Longrightarrow> c \<le> length es \<Longrightarrow> take c (pop_to n es) = take c es \<and> c \<le> length (pop_to n es)"
proof (induction n es rule: pop_to.induct)
  case (1 n es)
  show ?case
  proof (cases "es \<noteq> [] \<and> sz es > n")
    case True
    have "c \<noteq> length es"
    proof
      assume "c = length es"
      then have "length es \<le> unat n" using "1.prems" by simp
      moreover have "unat n < 2 ^ 64" using unsigned_less [where w = n] by simp
      ultimately have "unat (sz es) \<le> unat n" using unat_sz [of es] by linarith
      then show False using True by (simp add: word_less_nat_alt)
    qed
    have "c \<le> length (butlast es)" using \<open>c \<noteq> length es\<close> "1.prems" by simp
    moreover have "c < length es" using \<open>c \<noteq> length es\<close> "1.prems" by simp
    ultimately show ?thesis using "1.IH" [OF True] "1.prems" True
      by (subst (1 2) pop_to.simps) (simp add: take_butlast)
  next
    case False
    then show ?thesis using "1.prems" by (subst (1 2) pop_to.simps) auto
  qed
qed

lemma keeps_committed_pop:
  "r_commitIndex r \<le> n \<Longrightarrow> keeps_committed r (pop_to n (r_entries r) @ es)"
  using pop_to_keeps [of _ n "r_entries r"] 
  by (auto simp: keeps_committed_def word_le_nat_alt)

lemma moves_appendEntry:
  assumes "appendEntry (m_entries msg) r = Some r'" and "r_step r = StepLeader" and "m_type msg = MsgProp"
  shows "moves msg r r' \<and> r_step r' = StepLeader"
proof -
  let ?s = "r\<lparr>r_entries := r_entries r @
    number_entries (r_currentTerm r) (r_lastApplied r) (m_entries msg)\<rparr>"
  obtain b u where u: "maybeCommit ?s = Some (b, u)" and r': "r' = u\<lparr>r_Ready := True\<rparr>"
    using assms(1) by (auto simp: appendEntry_def Let_def bind_eq_Some_conv)
  have "moves msg r ?s" by (rule mvs_append [OF assms(2,3)])
  moreover have "moves msg ?s u \<and> r_step u = StepLeader"
    by (rule moves_maybeCommit [OF u]) (use assms(2,3) in simp_all)
  moreover have "moves msg u (u\<lparr>r_Ready := True\<rparr>)" by (rule mvs_ready) (simp add: assms(3))
  ultimately show ?thesis unfolding r' by (auto intro: moves_trans)
qed

lemma moves_handleAppendEntries:
  assumes "r_step r = StepFollower" and "m_type msg = MsgApp"
  shows "moves msg r (handleAppendEntries msg r)"
proof -
  define es where "es = pop_to (m_index msg) (r_entries r) @ map copied_entry (m_entries msg)"
  let ?e = "r\<lparr>r_entries := es\<rparr>"
  let ?fits = "\<not> m_index msg < r_commitIndex r \<and> m_index msg \<le> sz (r_entries r) \<and>
    r_currentTerm r = m_logterm msg"
  have reply: "moves msg s (send m s)"
    if "m_type m = MsgAppResp" "m_to m = m_from msg" "r_step s = StepFollower" for m s
    by (rule mvs_send) (use that assms(2) in \<open>simp add: may_send_def\<close>)
  have "(?fits \<and> (\<exists>m. m_type m = MsgAppResp \<and> m_to m = m_from msg \<and>
        (handleAppendEntries msg r = (send m ?e)\<lparr>r_Ready := True\<rparr> \<or>
         handleAppendEntries msg r = send m ?e))) \<or>
    (\<exists>m. m_type m = MsgAppResp \<and> m_to m = m_from msg \<and> handleAppendEntries msg r = send m r)"
  proof (cases ?fits)
    case True
    let ?i = "m_index msg + sz (map copied_entry (m_entries msg))"
    have "maybeAppend (m_index msg) (m_logterm msg) (m_commit msg) (map copied_entry (m_entries msg)) r = (?i, ?e)"
      using True by (simp add: maybeAppend_def es_def Let_def)
    then have h: "handleAppendEntries msg r =
        (if 0 < ?i
         then (send (new_Message\<lparr>m_from := r_id r, m_to := m_from msg, m_type := MsgAppResp, m_index := ?i\<rparr>) ?e)
           \<lparr>r_Ready := True\<rparr>
         else send (new_Message\<lparr>m_from := r_id r, m_to := m_from msg, m_type := MsgAppResp,
           m_reject := True, m_index := m_index msg\<rparr>) ?e)"
      using True by (simp add: handleAppendEntries_def Let_def)
    define m where "m = (if 0 < ?i
      then new_Message\<lparr>m_from := r_id r, m_to := m_from msg, m_type := MsgAppResp, m_index := ?i\<rparr>
      else new_Message\<lparr>m_from := r_id r, m_to := m_from msg, m_type := MsgAppResp,
        m_reject := True, m_index := m_index msg\<rparr>)"
    have "m_type m = MsgAppResp" "m_to m = m_from msg" by (simp_all add: m_def)
    moreover have "handleAppendEntries msg r = (send m ?e)\<lparr>r_Ready := True\<rparr> \<or>
        handleAppendEntries msg r = send m ?e"
      unfolding h m_def by (cases "0 < ?i") simp_all
    ultimately show ?thesis using True by blast
  next
    case False
    have none: "maybeAppend (m_index msg) (m_logterm msg) (m_commit msg) (map copied_entry (m_entries msg)) r = (0, r)"
      if "\<not> m_index msg < r_commitIndex r"
      using False that by (auto simp: maybeAppend_def)
    define m where "m = (if m_index msg < r_commitIndex r
      then new_Message\<lparr>m_from := r_id r, m_to := m_from msg, m_type := MsgAppResp, m_index := r_commitIndex r\<rparr>
      else new_Message\<lparr>m_from := r_id r, m_to := m_from msg, m_type := MsgAppResp,
        m_reject := True, m_index := m_index msg\<rparr>)"
    have "m_type m = MsgAppResp" "m_to m = m_from msg" by (simp_all add: m_def)
    moreover have "handleAppendEntries msg r = send m r"
      using none by (simp add: handleAppendEntries_def Let_def m_def)
    ultimately show ?thesis by blast
  qed
  then consider (fits) m where ?fits "m_type m = MsgAppResp" "m_to m = m_from msg"
      "handleAppendEntries msg r = (send m ?e)\<lparr>r_Ready := True\<rparr> \<or> handleAppendEntries msg r = send m ?e"
    | (no) m where "m_type m = MsgAppResp" "m_to m = m_from msg" "handleAppendEntries msg r = send m r"
    by blast
  then show ?thesis
  proof cases
    case (fits m)
    have "moves msg r ?e"
      unfolding es_def by (rule mvs_replace) (use assms fits(1) in \<open>simp_all add: not_less\<close>)
    also have "moves msg ?e (send m ?e)" by (rule reply) (use fits assms in simp_all)
    finally have sent: "moves msg r (send m ?e)" .
    moreover have "moves msg (send m ?e) ((send m ?e)\<lparr>r_Ready := True\<rparr>)"
      by (rule mvs_ready) (simp add: assms)
    ultimately show ?thesis using fits(4) by (metis moves_trans)
  next
    case (no m)
    then show ?thesis using reply [of m r] assms by simp
  qed
qed

lemma moves_heartbeatResp:
  "m_type msg = MsgHeartbeat \<Longrightarrow> r_step r = StepFollower \<Longrightarrow> moves msg r (heartbeatResp msg r)"
  unfolding heartbeatResp_def by (rule mvs_send) (simp add: may_send_def)

text \<open>A follower follows the mark of a heartbeat and answers it.\<close>

lemma moves_follow_commit:
  assumes "commitTo (m_commit msg) r = Some u" and "m_type msg = MsgHeartbeat" and "r_step r = StepFollower"
  shows "moves msg r (heartbeatResp msg u)"
proof -
  have "moves msg r u" "r_step u = StepFollower"
    using assms by (auto simp: commitTo_def bind_eq_Some_conv split: if_splits intro: mvs_commit_follower)
  then show ?thesis using moves_heartbeatResp [OF assms(2)] moves_trans by blast
qed

subsection \<open>The handlers\<close>

lemma moves_leaderHeartbeatResp:
  assumes "leaderHeartbeatResp E m r = Some r'" and f: "r_step r \<noteq> StepFollower"
  shows "moves msg r r'"
proof -
  let ?s = "prs_upd (m_from m) setRecentActive r"
  have s: "moves msg r ?s" by (rule moves_prs_upd) (use f in simp_all)
  have "r' = ?s \<or> sendAppend E (m_from m) ?s = Some r'"
    using assms(1) by (auto simp: leaderHeartbeatResp_def Let_def split: if_splits)
  moreover have "moves msg ?s r'" if "sendAppend E (m_from m) ?s = Some r'"
    using sendAppend_moves [OF that] f by (simp add: prs_upd_def)
  ultimately show ?thesis using s moves_trans by blast
qed

lemma prs_at_upd [simp]: "prs_at i (prs_upd i f r) = f (prs_at i r)"
  by (simp add: prs_upd_def prs_at_def umap_get_set)

lemma prs_upd_step [simp]: "r_step (prs_upd i f r) = r_step r"
  by (simp add: prs_upd_def)

lemma moves_leaderAppResp:
  assumes "leaderAppResp E msg r = Some r'" and "r_step r = StepLeader" and "m_type msg = MsgAppResp"
  shows "moves msg r r' \<and> r_step r' = StepLeader"
proof -
  let ?i = "m_from msg"
  define s where "s = prs_upd ?i setRecentActive r"
  have rs: "moves msg r s" "r_step s = StepLeader"
    unfolding s_def using assms(2) by (auto intro!: moves_prs_upd)
  show ?thesis
  proof (cases "m_reject msg")
    case True
    with assms rs show ?thesis by (auto simp: leaderAppResp_def Let_def s_def)
  next
    case False
    obtain b p where bp: "maybeUpdate (m_index msg) (prs_at ?i s) = (b, p)" by fastforce
    define u where "u = prs_upd ?i (\<lambda>_. p) s"
    have "p_match p = max (p_match (prs_at ?i s)) (m_index msg)"
      using maybeUpdate_match [of "m_index msg" "prs_at ?i s"] bp by simp
    then have "p_match p = p_match (prs_at ?i s) \<or> acknowledges msg ?i (prs_at ?i s) p"
      using assms(3) False by (auto simp: acknowledges_def max_def)
    then have su: "moves msg s u" unfolding u_def by (intro mvs_progress) (use rs(2) in simp_all)
    define v where "v = ackTransition ?i u"
    have uv: "moves msg u v" "r_step v = StepLeader" "r_step u = StepLeader"
      using rs(2) by (auto simp: v_def u_def ackTransition_def split: ProgressStateType.splits
          intro!: moves_prs_upd)
    have ru: "moves msg r u" using rs(1) su by (rule moves_trans)
    have "(if b then maybeCommit v \<bind> (\<lambda>(c, w). if c then bcastAppend E w else Some w)
           else Some u) = Some r'"
      using assms(1) False bp
      by (simp add: leaderAppResp_def Let_def s_def u_def v_def split: if_splits)
    then consider "r' = u" | c w where "maybeCommit v = Some (c, w)"
        "c \<longrightarrow> bcastAppend E w = Some r'" "\<not> c \<longrightarrow> r' = w"
      by (auto simp: bind_eq_Some_conv split: if_splits)
    then show ?thesis
    proof cases
      case 2
      have vw: "moves msg v w \<and> r_step w = StepLeader"
        by (rule moves_maybeCommit [OF 2(1)]) (use uv assms(3) in simp_all)
      have "moves msg r w" using ru uv(1) vw by (blast intro: moves_trans)
      moreover have "moves msg w r' \<and> r_step r' = StepLeader"
      proof (cases c)
        case True
        then have b: "bcastAppend E w = Some r'" using 2 by simp
        then show ?thesis using bcastAppend_moves [OF b, of msg] vw by (simp add: same_post_def)
      qed (use 2 vw in simp)
      ultimately show ?thesis by (blast intro: moves_trans)
    qed (use ru uv in simp)
  qed
qed

lemma moves_stepLeader:
  assumes "stepLeader E msg r = Some r'" and l: "r_step r = StepLeader"
  shows "moves msg r r'"
proof (cases "m_type msg")
  case MsgBeat
  with assms show ?thesis by (auto simp: stepLeader_def intro: moves_bcastHeartbeat)
next
  case MsgProp
  then obtain u where u: "appendEntry (m_entries msg) r = Some u" "bcastAppend E u = Some r'"
    using assms(1) by (auto simp: stepLeader_def bind_eq_Some_conv)
  have "moves msg r u \<and> r_step u = StepLeader" by (rule moves_appendEntry [OF u(1) l MsgProp])
  then show ?thesis using moves_bcastAppend [OF u(2), of msg] by (auto intro: moves_trans)
next
  case MsgAppResp
  then consider "r' = r" | u where "leaderAppResp E msg r = Some u" "leaderHeartbeatResp E msg u = Some r'"
    using assms(1) by (auto simp: stepLeader_def bind_eq_Some_conv split: if_splits)
  then show ?thesis
  proof cases
    case (2 u)
    have "moves msg r u \<and> r_step u = StepLeader" by (rule moves_leaderAppResp [OF 2(1) l MsgAppResp])
    then show ?thesis using moves_leaderHeartbeatResp [OF 2(2), of msg] by (auto intro: moves_trans)
  qed simp
next
  case MsgHeartbeatResp
  with assms show ?thesis
    by (auto simp: stepLeader_def split: if_splits intro: moves_leaderHeartbeatResp)
qed (use assms in \<open>simp_all add: stepLeader_def checkQuorumActive_def split: if_splits\<close>)

lemma moves_stepCandidate:
  assumes "stepCandidate E msg r = Some r'" and sc: "r_step r = StepCandidate"
  shows "moves msg r r'"
proof (cases "m_type msg")
  case MsgHeartbeat
  let ?d = "stepDown (r_currentTerm r) (m_from msg) r"
  from assms MsgHeartbeat obtain u where u: "commitTo (m_commit msg) ?d = Some u"
      "r' = heartbeatResp msg u"
    by (auto simp: stepCandidate_def Let_def bind_eq_Some_conv)
  have "moves msg r ?d" by (rule mvs_down_same) (simp_all add: sc)
  moreover have "moves msg ?d r'"
    unfolding u(2) by (rule moves_follow_commit [OF u(1) MsgHeartbeat]) (simp add: role_defs)
  ultimately show ?thesis by (rule moves_trans)
next
  case MsgApp
  let ?d = "stepDown (r_currentTerm r) (m_from msg) r"
  have "moves msg r ?d" by (rule mvs_down_same) (simp_all add: sc)
  moreover have "moves msg ?d (handleAppendEntries msg ?d)"
    by (rule moves_handleAppendEntries) (simp_all add: role_defs MsgApp)
  ultimately show ?thesis using assms MsgApp by (auto simp: stepCandidate_def Let_def intro: moves_trans)
next
  case MsgVoteResp
  obtain g s where g: "grantMe (m_from msg) (\<not> m_reject msg) r = (g, s)" by fastforce
  have rs: "moves msg r s"
    using g mvs_count_vote [OF sc MsgVoteResp] by (auto simp: grantMe_def Let_def split: if_splits)
  have s: "r_step s = StepCandidate" "g = count_granted (r_votes s)"
    using g sc by (auto simp: grantMe_def Let_def split: if_splits)
  let ?lost = "u64_of_u32 (quorum s) = sz (r_votes s) - u64_of_i32 g"
  have "(if quorum s = g then bcastAppend E (becomeLeader s)
         else if ?lost then Some (stepDown (r_currentTerm s) 0 s) else Some s) = Some r'"
    using assms MsgVoteResp by (simp add: stepCandidate_def g)
  then consider "quorum s = g" "bcastAppend E (becomeLeader s) = Some r'"
    | "r' = stepDown (r_currentTerm s) 0 s" | "r' = s"
    by (metis option.inject)
  then show ?thesis
  proof cases
    case 1
    have "moves msg s (becomeLeader s)"
    proof (cases "r_state s = STATE_FOLLOWER")
      case False
      then show ?thesis by (rule mvs_leader [rotated]) (use 1(1) s MsgVoteResp in simp_all)
    qed (simp add: becomeLeader_def)
    moreover have "r_step (becomeLeader s) \<noteq> StepFollower"
      using s by (auto simp: becomeLeader_def role_defs)
    ultimately show ?thesis using moves_bcastAppend [OF 1(2)] rs by (blast intro: moves_trans)
  next
    case 2
    show ?thesis unfolding 2 by (rule moves_trans [OF rs mvs_down_same]) (simp_all add: s)
  qed (use rs in simp)
qed (use assms in \<open>auto simp: stepCandidate_def\<close>)

lemma moves_stepFollower:
  assumes "stepFollower msg r = Some r'" and f: "r_step r = StepFollower"
    and "m_term msg = 0 \<or> m_term msg = r_currentTerm r"
  shows "moves msg r r'"
proof (cases "m_type msg")
  case MsgHeartbeat
  let ?s = "r\<lparr>r_electionElapsed := 0\<rparr>"
  let ?t = "if r_leader ?s \<noteq> m_from msg
            then ?s\<lparr>r_leader := m_from msg, r_currentTerm := m_term msg\<rparr> else ?s"
  from assms(1) MsgHeartbeat obtain u where u: "commitTo (m_commit msg) ?t = Some u"
      "r' = heartbeatResp msg u"
    by (auto simp: stepFollower_def Let_def bind_eq_Some_conv)
  have "moves msg r ?s" by (rule mvs_rest) (simp add: MsgHeartbeat)
  also have "moves msg ?s ?t"
  proof (cases "r_leader ?s \<noteq> m_from msg")
    case True
    have "moves msg ?s (?s\<lparr>r_leader := m_from msg, r_currentTerm := m_term msg\<rparr>)"
      by (rule mvs_new_leader) (use assms(2,3) MsgHeartbeat True in simp_all)
    with True show ?thesis by simp
  qed simp
  also have "moves msg ?t r'"
    unfolding u(2) by (rule moves_follow_commit [OF u(1) MsgHeartbeat]) (simp add: f)
  finally show ?thesis .
next
  case MsgApp
  let ?s = "r\<lparr>r_electionElapsed := 0\<rparr>"
  let ?t = "?s\<lparr>r_leader := m_from msg\<rparr>"
  have "moves msg r ?s" by (rule mvs_rest) (simp add: MsgApp)
  also have "moves msg ?s ?t" by (rule mvs_follow) (simp_all add: f MsgApp)
  also have "moves msg ?t (handleAppendEntries msg ?t)"
    by (rule moves_handleAppendEntries) (simp_all add: f MsgApp)
  finally show ?thesis using assms(1) MsgApp by (simp add: stepFollower_def Let_def)
next
  case MsgTransferLeader
  then show ?thesis using assms(1) f
    by (auto simp: stepFollower_def may_send_def split: if_splits intro!: mvs_send)
qed (use assms(1) in \<open>auto simp: stepFollower_def split: if_splits\<close>)

lemma moves_run_step:
  assumes "run_step E msg r = Some r'" and "m_term msg = 0 \<or> m_term msg = r_currentTerm r"
  shows "moves msg r r'"
  using assms unfolding run_step_def
  by (auto split: step_fn.splits intro: moves_stepLeader moves_stepCandidate moves_stepFollower)

lemma moves_handleHup:
  assumes hup: "m_type msg = MsgHup"
  shows "moves msg r (handleHup r)"
proof (cases "r_state r = STATE_LEADER")
  case False
  let ?c = "becomeCandidate r"
  let ?ask = "\<lambda>(nid, _ :: Progress) r. if nid = r_id r then r
    else send (new_Message\<lparr>m_term := r_currentTerm r, m_to := nid, m_type := MsgVote,
           m_index := r_lastApplied r, m_logterm := r_commitIndex r, m_context := []\<rparr>) r"
  obtain g s where g: "grantMe (r_id ?c) True ?c = (g, s)" by fastforce
  have c: "r_step ?c = StepCandidate" "r_state ?c \<noteq> STATE_FOLLOWER"
    using False by (simp_all add: becomeCandidate_def reset_def resetRandomizedElectionTimeout_def
        Raft_rand_def Let_def)
  have s: "r_step s = StepCandidate" "r_state s \<noteq> STATE_FOLLOWER" "g = count_granted (r_votes s)"
    using g c by (auto simp: grantMe_def Let_def split: if_splits)
  have "moves msg r ?c" by (rule mvs_candidate [OF hup False])
  moreover have "moves msg ?c s"
    using g mvs_own_vote [OF hup] by (auto simp: grantMe_def Let_def split: if_splits)
  ultimately have rs: "moves msg r s" by (rule moves_trans)
  have asked: "moves msg u (fold ?ask xs u)" if "r_step u = StepCandidate" for xs u
    using that
  proof (induction xs arbitrary: u)
    case (Cons x xs)
    have "moves msg u (?ask x u)"
      using Cons.prems by (auto simp: may_send_def hup split: prod.split intro!: mvs_send)
    moreover have "r_step (?ask x u) = StepCandidate"
      using Cons.prems by (simp add: send_def split: prod.split)
    ultimately show ?case using Cons.IH [of "?ask x u"] by (auto intro: moves_trans)
  qed simp
  have "handleHup r = (if quorum s = g then becomeLeader s else fold ?ask (r_prs s) s)"
    using False g by (simp add: handleHup_def Let_def)
  moreover have "moves msg s (becomeLeader s)" if "quorum s = g"
    by (rule mvs_leader) (use that s hup in simp_all)
  ultimately show ?thesis using rs asked [OF s(1)] by (auto intro: moves_trans)
qed (simp add: handleHup_def)

lemma moves_handleVote:
  assumes "m_type msg = MsgVote"
  shows "moves msg r (handleVote msg r)"
proof -
  define s where "s = (if r_vote r = 0 then r else r\<lparr>r_vote := m_from msg\<rparr>)"
  obtain m where h: "handleVote msg r = (send m s)\<lparr>r_electionElapsed := 0, r_vote := m_from msg\<rparr>"
    and m: "m_type m = MsgVoteResp" "m_to m = m_from msg" "m_term m = m_term msg"
  proof -
    let ?resp = "new_Message\<lparr>m_to := m_from msg, m_term := m_term msg, m_type := MsgVoteResp\<rparr>"
    have "handleVote msg r = (send ?resp s)\<lparr>r_electionElapsed := 0, r_vote := m_from msg\<rparr> \<or>
        handleVote msg r = (send (?resp\<lparr>m_reject := True\<rparr>) s)\<lparr>r_electionElapsed := 0, r_vote := m_from msg\<rparr>"
      by (cases "r_vote r = 0") (simp_all add: handleVote_def Let_def s_def)
    then show thesis using that [of ?resp] that [of "?resp\<lparr>m_reject := True\<rparr>"] by auto
  qed
  have "moves msg r s" unfolding s_def using assms by (auto intro: mvs_vote)
  also have "moves msg s (send m s)" by (rule mvs_send) (use m assms in \<open>simp add: may_send_def\<close>)
  also have "moves msg (send m s) ((send m s)\<lparr>r_electionElapsed := 0\<rparr>)"
    by (rule mvs_rest) (simp add: assms)
  also have "moves msg ((send m s)\<lparr>r_electionElapsed := 0\<rparr>) (handleVote msg r)"
    using mvs_vote [OF assms, of "(send m s)\<lparr>r_electionElapsed := 0\<rparr>"] by (simp add: h)
  finally show ?thesis .
qed

lemma moves_handleNode:
  assumes "m_type msg = MsgNode"
  shows "moves msg r (handleNode msg r)"
  unfolding handleNode_def Let_def
  by (rule moves_trans [OF moves_trans [OF mvs_member [OF assms] mvs_unknown [OF assms]] mvs_send])
    (simp add: may_send_def assms)

lemma moves_dispatch:
  assumes "dispatch E msg r = Some r'" and "m_term msg = 0 \<or> m_term msg = r_currentTerm r"
  shows "moves msg r r'"
  using assms unfolding dispatch_def
  by (auto split: MessageType.splits
      intro: moves_handleHup moves_handleVote moves_handleNode moves_run_step)

lemma stepDown_currentTerm [simp]: "r_currentTerm (stepDown t l r) = t"
  by (simp add: role_defs)

lemma generalStep_is_moves:
  assumes "generalStep E msg r = Some r'"
  shows "moves msg r r'"
proof (cases "m_term msg = 0 \<or> m_term msg = r_currentTerm r")
  case True
  then have "generalStep E msg r = dispatch E msg r" by (auto simp: generalStep_def)
  with assms True show ?thesis by (auto intro: moves_dispatch)
next
  case False
  then consider "m_term msg > r_currentTerm r" | "m_term msg < r_currentTerm r" by fastforce
  then show ?thesis
  proof cases
    case 1
    have "moves msg r (stepDown (m_term msg) (m_from msg) r)" by (rule mvs_down_higher [OF 1])
    with assms False 1 show ?thesis
      by (auto simp: generalStep_def split: if_splits intro: moves_trans [OF _ moves_dispatch])
  next
    case 2
    with assms False show ?thesis
      by (auto simp: generalStep_def may_send_def split: if_splits intro!: mvs_send)
  qed
qed

end
