(* ===== verification/Raft_Invariants.thy ===== *)
theory Raft_Invariants
  imports Raft_Moves
begin

text \<open>
  What every completed call keeps: the role of a node and its function objects agree,
  the commit mark never goes back and stays above the apply mark, the term never goes
  back, the maps have no duplicate key, and a call leaves the identity, the timeouts,
  the storage, the offset and the receive queue alone. Each is an interpretation of
  \<open>invariant_system\<close> or \<open>monotone_system\<close> over \<open>node_move\<close>, carried to \<open>generalStep\<close> and
  to the ticks by \<open>generalStep_is_moves\<close>.
\<close>

subsection \<open>Invariants of one node\<close>

definition role_ok :: "raft \<Rightarrow> bool" where
  "role_ok r =
     (case r_state r of
        STATE_LEADER \<Rightarrow> r_step r = StepLeader \<and> r_tick r = TickHeartbeat \<and> r_leader r = r_id r
      | STATE_CANDIDATE \<Rightarrow> r_step r = StepCandidate \<and> r_tick r = TickElection
      | STATE_FOLLOWER \<Rightarrow> r_step r = StepFollower \<and> r_tick r = TickElection
      | STATE_LOCKING \<Rightarrow> False)"

definition maps_ok :: "raft \<Rightarrow> bool" where
  "maps_ok r = (umap_ok (r_prs r) \<and> umap_ok (r_votes r))"

definition applied_ok :: "raft \<Rightarrow> bool" where
  "applied_ok r = (r_lastApplied r \<le> r_commitIndex r)"

text \<open>The fields no message changes.\<close>

definition frame_of :: "raft \<Rightarrow> (u64, Progress) umap \<times> u64 \<times> u64 \<times> Snapshot ptr \<times> u64 \<times> stfile \<times>
    u32 \<times> u32 \<times> bool \<times> Message list \<times> chance" where
  "frame_of r = (r_pub_prs r, r_id r, r_lastApplied r, r_snap r, r_offset r, r_storage r,
     r_heartbeatTimeout r, r_electionTimeout r, r_checkQuorum r, r_recvmsgs r, r_rand r)"

lemma reset_sel [simp]:
  "r_state (reset t r) = r_state r" "r_step (reset t r) = r_step r" "r_tick (reset t r) = r_tick r"
  "r_id (reset t r) = r_id r" "r_commitIndex (reset t r) = r_commitIndex r"
  "r_currentTerm (reset t r) = t" "r_prs (reset t r) = r_prs r" "r_votes (reset t r) = r_votes r"
  "r_lastApplied (reset t r) = r_lastApplied r" "r_sendmsgs (reset t r) = r_sendmsgs r"
  "r_entries (reset t r) = r_entries r" "r_leader (reset t r) = 0"
  "r_vote (reset t r) = (if r_currentTerm r = t then r_vote r else 0)"
  "r_electionElapsed (reset t r) = 0" "r_heartbeatElapsed (reset t r) = 0"
  "r_electionTimeout (reset t r) = r_electionTimeout r" "r_Ready (reset t r) = r_Ready r"
  "r_pub_prs (reset t r) = r_pub_prs r" "r_recvmsgs (reset t r) = r_recvmsgs r"
  "frame_of (reset t r) = frame_of r"
  by (simp_all add: role_defs frame_of_def)

lemma stepDown_sel [simp]:
  "r_state (stepDown t l r) = STATE_FOLLOWER" "r_step (stepDown t l r) = StepFollower"
  "r_tick (stepDown t l r) = TickElection" "r_leader (stepDown t l r) = l"
  "r_id (stepDown t l r) = r_id r" "r_commitIndex (stepDown t l r) = r_commitIndex r"
  "r_prs (stepDown t l r) = r_prs r" "r_votes (stepDown t l r) = r_votes r"
  "r_lastApplied (stepDown t l r) = r_lastApplied r" "r_sendmsgs (stepDown t l r) = r_sendmsgs r"
  "r_entries (stepDown t l r) = r_entries r"
  "r_vote (stepDown t l r) = (if r_currentTerm r = t then r_vote r else 0)"
  "frame_of (stepDown t l r) = frame_of r"
  by (simp_all add: stepDown_def Let_def frame_of_def) (simp_all add: role_defs)

lemma becomeCandidate_sel [simp]:
  "r_id (becomeCandidate r) = r_id r" "r_commitIndex (becomeCandidate r) = r_commitIndex r"
  "r_prs (becomeCandidate r) = r_prs r" "r_votes (becomeCandidate r) = r_votes r"
  "r_lastApplied (becomeCandidate r) = r_lastApplied r"
  "r_sendmsgs (becomeCandidate r) = r_sendmsgs r" "r_entries (becomeCandidate r) = r_entries r"
  "frame_of (becomeCandidate r) = frame_of r"
  "r_currentTerm (becomeCandidate r) =
     (if r_state r = STATE_LEADER then r_currentTerm r else r_currentTerm r + 1)"
  by (simp_all add: becomeCandidate_def Let_def frame_of_def) (simp_all add: role_defs)

lemma becomeLeader_sel [simp]:
  "r_id (becomeLeader r) = r_id r" "r_commitIndex (becomeLeader r) = r_commitIndex r"
  "r_prs (becomeLeader r) = r_prs r" "r_votes (becomeLeader r) = r_votes r"
  "r_lastApplied (becomeLeader r) = r_lastApplied r"
  "r_sendmsgs (becomeLeader r) = r_sendmsgs r" "r_entries (becomeLeader r) = r_entries r"
  "frame_of (becomeLeader r) = frame_of r" "r_currentTerm (becomeLeader r) = r_currentTerm r"
  by (simp_all add: becomeLeader_def Let_def frame_of_def) (simp_all add: role_defs)

lemma role_ok_stepDown [simp]: "role_ok (stepDown t l r)"
  by (simp add: role_ok_def)

lemma role_ok_becomeCandidate: "role_ok r \<Longrightarrow> role_ok (becomeCandidate r)"
  by (auto simp: role_ok_def becomeCandidate_def Let_def)

lemma role_ok_becomeLeader: "role_ok r \<Longrightarrow> role_ok (becomeLeader r)"
  by (auto simp: role_ok_def becomeLeader_def Let_def)

lemma role_ok_follower: "role_ok r \<Longrightarrow> r_step r = StepFollower \<longleftrightarrow> r_state r = STATE_FOLLOWER"
  by (auto simp: role_ok_def split: State.splits)

lemma role_ok_prs [simp]:
  "role_ok (prs_touch i r) = role_ok r" "role_ok (prs_upd i f r) = role_ok r"
  "role_ok (addNode i r) = role_ok r"
  by (simp_all add: prs_touch_def prs_upd_def addNode_def Let_def role_ok_def split: State.split)

lemma frame_prs [simp]:
  "frame_of (prs_touch i r) = frame_of r" "frame_of (prs_upd i f r) = frame_of r"
  "frame_of (addNode i r) = frame_of r"
  by (simp_all add: frame_of_def prs_touch_def prs_upd_def addNode_def Let_def)

lemma maps_ok_prs [intro]:
  "maps_ok r \<Longrightarrow> maps_ok (prs_touch i r)" "maps_ok r \<Longrightarrow> maps_ok (prs_upd i f r)"
  "maps_ok r \<Longrightarrow> maps_ok (addNode i r)"
  by (auto simp: maps_ok_def prs_touch_def prs_upd_def addNode_def Let_def)

subsection \<open>Moves keep them\<close>

interpretation role_inv: invariant_system "node_move msg" role_ok
proof
  fix s t
  assume "node_move msg s t" and ok: "role_ok s"
  then show "role_ok t"
  proof cases
    case (mv_follow)
    with ok show ?thesis by (simp add: role_ok_follower) (simp add: role_ok_def)
  next
    case (mv_new_leader)
    with ok show ?thesis by (simp add: role_ok_follower) (simp add: role_ok_def)
  qed (auto simp: send_def pushUnknownid_def intro: role_ok_becomeCandidate role_ok_becomeLeader,
      simp_all add: role_ok_def split: State.splits)
qed

interpretation maps_inv: invariant_system "node_move msg" maps_ok
proof
  fix s t
  assume "node_move msg s t" and ok: "maps_ok s"
  then show "maps_ok t"
    by cases (use ok maps_ok_prs in \<open>auto simp: send_def pushUnknownid_def\<close>,
        auto simp: maps_ok_def)
qed

interpretation frame_inv: invariant_system "node_move msg" "\<lambda>r. frame_of r = F"
  by unfold_locales
    (erule node_move_elim, simp_all, simp_all add: frame_of_def send_def pushUnknownid_def)

interpretation commit_up: monotone_system "node_move msg" r_commitIndex
  by unfold_locales (erule node_move_elim, auto simp: send_def pushUnknownid_def)

interpretation applied_inv: invariant_system "node_move msg" applied_ok
proof
  fix s t
  assume mv: "node_move msg s t" and ok: "applied_ok s"
  have "frame_of t = frame_of s" using frame_inv.keeps [OF mv] by blast
  with commit_up.grows [OF mv] ok show "applied_ok t"
    by (auto simp: applied_ok_def frame_of_def)
qed

text \<open>
  The term: a heartbeat whose term field is 0 would reset it, so it is excluded by name.
  \<open>MsgHup\<close>, which increments the term, is treated apart, because the increment wraps.
\<close>

definition term_safe :: "Message \<Rightarrow> bool" where
  "term_safe msg = (m_type msg = MsgHeartbeat \<longrightarrow> m_term msg \<noteq> 0)"

interpretation term_up:
  monotone_system "\<lambda>s t. node_move msg s t \<and> term_safe msg \<and> m_type msg \<noteq> MsgHup" r_currentTerm
proof
  fix s t
  assume mv: "node_move msg s t \<and> term_safe msg \<and> m_type msg \<noteq> MsgHup"
  then have "node_move msg s t" by simp
  then show "r_currentTerm s \<le> r_currentTerm t"
    by cases (use mv in \<open>auto simp: send_def pushUnknownid_def term_safe_def
        intro: less_imp_le\<close>)
qed

text \<open>Every message sent before is still in the send queue, in its place.\<close>

definition sent_prefix :: "Message list \<Rightarrow> raft \<Rightarrow> bool" where
  "sent_prefix ms r = (\<exists>ns. r_sendmsgs r = ms @ ns)"

interpretation sent_inv: invariant_system "node_move msg" "sent_prefix ms"
  by unfold_locales
    (erule node_move_elim, auto simp: sent_prefix_def send_def pushUnknownid_def)

text \<open>The first \<open>c\<close> entries are committed and are \<open>X\<close>.\<close>

definition committed_is :: "nat \<Rightarrow> Entry list \<Rightarrow> raft \<Rightarrow> bool" where
  "committed_is c X r =
     (c \<le> unat (r_commitIndex r) \<and> c \<le> length (r_entries r) \<and> take c (r_entries r) = X)"

interpretation committed_inv: invariant_system "node_move msg" "committed_is c X"
proof
  fix s t
  assume mv: "node_move msg s t" and ok: "committed_is c X s"
  have "unat (r_commitIndex s) \<le> unat (r_commitIndex t)"
    using commit_up.grows [OF mv] by (simp add: word_le_nat_alt)
  then have c: "c \<le> unat (r_commitIndex t)" using ok by (simp add: committed_is_def)
  have up: "committed_is c X (s\<lparr>r_entries := es\<rparr>)" if "keeps_committed s es" for es
  proof -
    have "take c es = take c (r_entries s)"
      using that ok by (simp add: committed_is_def keeps_committed_def)
    moreover from this have "c \<le> length es"
      using ok by (metis committed_is_def length_take min.absorb2 min.cobounded1)
    ultimately show ?thesis using ok by (simp add: committed_is_def)
  qed
  from mv show "committed_is c X t"
  proof cases
    case mv_append
    then show ?thesis by (simp only: up keeps_committed_more)
  next
    case mv_replace
    then show ?thesis by (simp only: up keeps_committed_pop)
  qed (use ok c in \<open>auto simp: committed_is_def send_def pushUnknownid_def\<close>)
qed

text \<open>What a node knows a member to have acknowledged never goes back.\<close>

lemma prs_at_other:
  "prs_at j (prs_upd i f r) = (if j = i then f (prs_at i r) else prs_at j r)"
  by (simp add: prs_upd_def prs_at_def umap_get_set)

interpretation match_up: monotone_system "node_move msg" "\<lambda>r. p_match (prs_at j r)"
proof
  fix s t
  assume "node_move msg s t"
  then show "p_match (prs_at j s) \<le> p_match (prs_at j t)"
  proof cases
    case (mv_progress p i)
    then show ?thesis by (auto simp: prs_at_other acknowledges_def)
  next
    case (mv_touch i)
    then show ?thesis by (simp add: prs_touch_def prs_at_def umap_get_touch)
  next
    case mv_member
    show ?thesis
    proof (cases "umap_has (m_from msg) (r_prs s)")
      case False
      then have "p_match (prs_at (m_from msg) s) = 0"
        by (simp add: prs_at_def umap_get_def umap_has_def zero_Progress_def split: option.splits)
      then show ?thesis
        by (cases "j = m_from msg") (simp_all add: mv_member addNode_def Let_def prs_at_def umap_get_set)
    qed (simp add: mv_member addNode_def)
  qed (simp_all add: prs_at_def send_def pushUnknownid_def)
qed

subsection \<open>Carried to whole calls\<close>

lemma moves_role_ok: "moves msg r r' \<Longrightarrow> role_ok r \<Longrightarrow> role_ok r'"
  unfolding moves_def by (rule role_inv.keeps_star)

lemma moves_maps_ok: "moves msg r r' \<Longrightarrow> maps_ok r \<Longrightarrow> maps_ok r'"
  unfolding moves_def by (rule maps_inv.keeps_star)

lemma moves_frame: "moves msg r r' \<Longrightarrow> frame_of r' = frame_of r"
  unfolding moves_def by (rule frame_inv.keeps_star) auto

lemma moves_commit: "moves msg r r' \<Longrightarrow> r_commitIndex r \<le> r_commitIndex r'"
  unfolding moves_def by (rule commit_up.grows_star)

lemma moves_applied_ok: "moves msg r r' \<Longrightarrow> applied_ok r \<Longrightarrow> applied_ok r'"
  unfolding moves_def by (rule applied_inv.keeps_star)

lemma moves_sent: "moves msg r r' \<Longrightarrow> \<exists>ns. r_sendmsgs r' = r_sendmsgs r @ ns"
  unfolding moves_def using sent_inv.keeps_star [of msg r r' "r_sendmsgs r"]
  by (simp add: sent_prefix_def)

lemma moves_committed: "moves msg r r' \<Longrightarrow> committed_is c X r \<Longrightarrow> committed_is c X r'"
  unfolding moves_def by (rule committed_inv.keeps_star)

lemma moves_term:
  "moves msg r r' \<Longrightarrow> term_safe msg \<Longrightarrow> m_type msg \<noteq> MsgHup \<Longrightarrow> r_currentTerm r \<le> r_currentTerm r'"
  unfolding moves_def
  by (rule term_up.grows_star [of msg]) (erule rtranclp_mono [THEN predicate2D, rotated], auto)

lemmas call_invariants =
  moves_role_ok moves_maps_ok moves_frame moves_commit moves_applied_ok

text \<open>A tick moves the clocks, then handles a message of its own.\<close>

lemma tickElection_is_moves:
  assumes "tickElection E r = Some r'"
  shows "\<exists>msg e. m_type msg = MsgHup \<and> moves msg (r\<lparr>r_electionElapsed := e\<rparr>) r'"
proof -
  let ?m = "new_Message\<lparr>m_from := r_id r, m_type := MsgHup\<rparr>"
  let ?s = "r\<lparr>r_electionElapsed := r_electionElapsed r + 1\<rparr>"
  have "\<exists>e. moves ?m (r\<lparr>r_electionElapsed := e\<rparr>) r'"
  proof (cases "pastElectionTimeout ?s")
    case True
    then have "generalStep E ?m (r\<lparr>r_electionElapsed := 0\<rparr>) = Some r'"
      using assms by (simp add: tickElection_def Let_def)
    then show ?thesis using generalStep_is_moves by blast
  next
    case False
    then have "r' = ?s" using assms by (simp add: tickElection_def Let_def)
    then show ?thesis by blast
  qed
  then show ?thesis by (intro exI [of _ ?m]) simp
qed

end
