(* ===== verification/Raft_Log_Facts.thy ===== *)
theory Raft_Log_Facts
  imports Raft_Invariants
begin

text \<open>
  The abstract log of a node is a partial map from indices to entries, \<open>log_at r\<close>. Under
  the well-formedness \<open>wf_log\<close> (entry number \<open>k\<close> carries index \<open>offset + k\<close>) the
  operations of \<open>Raft_Log\<close> are the expected operations on that map: \<open>maybeTerm\<close> looks
  it up, \<open>truncateAndAppend\<close> overwrites it from the first new index on, \<open>stableTo\<close>
  removes its first index, \<open>storageLog\<close> writes exactly the entries between the apply and
  the commit mark.
\<close>

definition consecutive :: "u64 \<Rightarrow> Entry list \<Rightarrow> bool" where
  "consecutive i es = (\<forall>k < length es. e_index (es ! k) = i + of_nat k)"

definition wf_log :: "raft \<Rightarrow> bool" where
  "wf_log r =
     (r_offset r \<noteq> 0 \<and> consecutive (r_offset r) (r_entries r) \<and>
      unat (r_offset r) + length (r_entries r) < 2 ^ 64)"

definition log_at :: "raft \<Rightarrow> u64 \<Rightarrow> Entry option" where
  "log_at r i = (if r_offset r \<le> i then vec_at (r_entries r) (i - r_offset r) else None)"

subsection \<open>Consecutive entries\<close>

lemma consecutive_append:
  "consecutive i (xs @ ys) \<longleftrightarrow> consecutive i xs \<and> consecutive (i + of_nat (length xs)) ys"
proof
  assume c: "consecutive i (xs @ ys)"
  have "e_index (xs ! k) = i + of_nat k" if "k < length xs" for k
    using c [unfolded consecutive_def, rule_format, of k] that by (simp add: nth_append)
  moreover have "e_index (ys ! k) = i + of_nat (length xs) + of_nat k" if "k < length ys" for k
    using c [unfolded consecutive_def, rule_format, of "length xs + k"] that
    by (simp add: nth_append add.assoc)
  ultimately show "consecutive i xs \<and> consecutive (i + of_nat (length xs)) ys"
    by (simp add: consecutive_def)
next
  assume c: "consecutive i xs \<and> consecutive (i + of_nat (length xs)) ys"
  show "consecutive i (xs @ ys)"
    unfolding consecutive_def
  proof (intro allI impI)
    fix k assume k: "k < length (xs @ ys)"
    show "e_index ((xs @ ys) ! k) = i + of_nat k"
    proof (cases "k < length xs")
      case True
      then show ?thesis using c by (simp add: consecutive_def nth_append)
    next
      case False
      then obtain m where "k = length xs + m" by (metis le_Suc_ex not_less)
      then show ?thesis using c k by (simp add: consecutive_def nth_append add.assoc)
    qed
  qed
qed

lemma consecutive_Nil [simp]: "consecutive i []"
  by (simp add: consecutive_def)

lemma consecutive_take: "consecutive i es \<Longrightarrow> consecutive i (take n es)"
  by (simp add: consecutive_def)

lemma consecutive_number: "consecutive (i + 1) (number_entries t i es)"
proof (induction es arbitrary: i)
  case (Cons e es)
  have "consecutive (i + 1) [e\<lparr>e_term := t, e_index := i + 1\<rparr>]" by (simp add: consecutive_def)
  with Cons [of "i + 1"] show ?case
    using consecutive_append [of "i + 1" "[e\<lparr>e_term := t, e_index := i + 1\<rparr>]"] by simp
qed simp

lemma length_number [simp]: "length (number_entries t i es) = length es"
  by (induction es arbitrary: i) auto

lemma number_entries_term: "e \<in> set (number_entries t i es) \<Longrightarrow> e_term e = t"
  by (induction es arbitrary: i) auto

lemma number_entries_data: "map e_data (number_entries t i es) = map e_data es"
  by (induction es arbitrary: i) auto

subsection \<open>Reading the log\<close>

lemma log_at_Some:
  assumes "wf_log r"
  shows "log_at r i = Some e \<longleftrightarrow> unat (r_offset r) \<le> unat i \<and>
    unat i < unat (r_offset r) + length (r_entries r) \<and> r_entries r ! (unat i - unat (r_offset r)) = e"
  using assms
  by (auto simp: log_at_def vec_at_def unat_sub word_le_nat_alt)

lemma log_at_index: "wf_log r \<Longrightarrow> log_at r i = Some e \<Longrightarrow> e_index e = i"
  by (auto simp: log_at_Some wf_log_def consecutive_def)

lemma last_index:
  assumes "wf_log r" and "r_entries r \<noteq> []"
  shows "maybeLastIndex r = Some (r_offset r + sz (r_entries r) - 1)"
    and "unat (r_offset r + sz (r_entries r) - 1) = unat (r_offset r) + length (r_entries r) - 1"
proof -
  have l: "unat (r_offset r) + length (r_entries r) < 2 ^ 64"
    using assms by (simp add: wf_log_def)
  then have s: "unat (sz (r_entries r)) = length (r_entries r)"
    by (intro unat_sz) linarith
  have a: "unat (r_offset r + sz (r_entries r)) = unat (r_offset r) + length (r_entries r)"
    using l s by (simp add: unat_add_lem [symmetric] unat_plus_if')
  have "r_offset r + sz (r_entries r) \<noteq> 0"
    using a assms(2) by (metis add_is_0 length_0_conv unat_0)
  then show "unat (r_offset r + sz (r_entries r) - 1) = unat (r_offset r) + length (r_entries r) - 1"
    by (simp add: unat_minus_one a)
  show "maybeLastIndex r = Some (r_offset r + sz (r_entries r) - 1)"
    using assms(2) by (simp add: maybeLastIndex_def)
qed

lemma maybeTerm_log_at:
  assumes wf: "wf_log r" and e: "log_at r i = Some e"
  shows "maybeTerm i r = Some (e_term e)"
proof -
  from e wf have b: "unat (r_offset r) \<le> unat i"
      "unat i < unat (r_offset r) + length (r_entries r)"
      and ent: "r_entries r ! (unat i - unat (r_offset r)) = e"
    by (auto simp: log_at_Some)
  then have ne: "r_entries r \<noteq> []" by auto
  let ?last = "r_offset r + sz (r_entries r) - 1"
  have "unat ?last = unat (r_offset r) + length (r_entries r) - 1"
    using last_index [OF wf ne] by simp
  moreover have "r_offset r \<noteq> 0" using wf by (simp add: wf_log_def)
  ultimately have "?last \<noteq> 0" "\<not> i > ?last"
    using b ne by (auto simp: word_less_nat_alt unat_eq_0 [symmetric])
  moreover have "vec_at (r_entries r) (i - r_offset r) = Some e"
    using b ent by (simp add: vec_at_def unat_sub word_le_nat_alt)
  ultimately show ?thesis
    using b ne by (simp add: maybeTerm_def maybeLastIndex_def word_less_nat_alt)
qed

text \<open>One index past the end, the logged element is out of range.\<close>

lemma maybeTerm_past_end:
  assumes "wf_log r" and "unat i \<ge> unat (r_offset r) + length (r_entries r)"
  shows "maybeTerm i r = None"
  using assms
  by (auto simp: maybeTerm_def word_less_nat_alt vec_at_def unat_sub word_le_nat_alt
      bind_eq_None_conv split: if_splits)

subsection \<open>Overwriting the log\<close>

lemma vec_range_prefix: "n \<le> length xs \<Longrightarrow> vec_range xs 0 (int n) = Some (take n xs)"
  by (simp add: vec_range_def)

lemma truncateAndAppend_unfold:
  assumes "ents \<noteq> []"
  shows "truncateAndAppend ents r =
    (let i = e_index (hd ents) in
     if i = r_offset r + sz (r_entries r) then Some (r\<lparr>r_entries := r_entries r @ ents\<rparr>)
     else if i \<le> r_offset r then Some (r\<lparr>r_offset := i, r_entries := ents\<rparr>)
     else (case vec_range (r_entries r) 0 (uint i - uint (r_offset r)) of
             None \<Rightarrow> None | Some keep \<Rightarrow> Some (r\<lparr>r_entries := keep @ ents\<rparr>)))"
proof -
  have h: "vec_at ents 0 = Some (hd ents)"
    using assms by (simp add: vec_at_def hd_conv_nth)
  show ?thesis
    unfolding truncateAndAppend_def h Let_def bind.bind_lunit
    by (simp split: option.split)
qed

text \<open>Where the new entries leave no gap, all three branches are one overwrite.\<close>

lemma truncateAndAppend_form:
  assumes wf: "wf_log r" and ne: "ents \<noteq> []"
    and start: "unat (e_index (hd ents)) \<le> unat (r_offset r) + length (r_entries r)"
  shows "truncateAndAppend ents r = Some (r\<lparr>
     r_offset := min (e_index (hd ents)) (r_offset r),
     r_entries := take (unat (e_index (hd ents)) - unat (r_offset r)) (r_entries r) @ ents\<rparr>)"
proof -
  let ?i = "e_index (hd ents)"
  have l: "unat (r_offset r) + length (r_entries r) < 2 ^ 64"
    using wf by (simp add: wf_log_def)
  then have s: "unat (sz (r_entries r)) = length (r_entries r)"
    by (intro unat_sz) linarith
  have a: "unat (r_offset r + sz (r_entries r)) = unat (r_offset r) + length (r_entries r)"
    using l s by (simp add: unat_plus_if')
  have eqi: "?i = r_offset r + sz (r_entries r) \<longleftrightarrow>
      unat ?i = unat (r_offset r) + length (r_entries r)"
    unfolding a [symmetric] by (rule word_unat_eq_iff)
  consider (eq) "unat ?i = unat (r_offset r) + length (r_entries r)"
    | (low) "unat ?i \<le> unat (r_offset r)" "unat ?i \<noteq> unat (r_offset r) + length (r_entries r)"
    | (mid) "unat (r_offset r) < unat ?i" "unat ?i < unat (r_offset r) + length (r_entries r)"
    using start by linarith
  then show ?thesis
  proof cases
    case eq
    then have "r_offset r \<le> ?i" by (simp add: word_le_nat_alt)
    then have "min ?i (r_offset r) = r_offset r" by simp
    with eq show ?thesis unfolding truncateAndAppend_unfold [OF ne] Let_def eqi by simp
  next
    case low
    then have "?i \<le> r_offset r" by (simp only: word_le_nat_alt)
    with low show ?thesis
      unfolding truncateAndAppend_unfold [OF ne] Let_def eqi by (simp add: min_absorb1)
  next
    case mid
    then have lt: "r_offset r < ?i" by (simp only: word_less_nat_alt)
    have "uint ?i - uint (r_offset r) = int (unat ?i - unat (r_offset r))"
      using mid(1) by (simp add: of_nat_diff)
    moreover have "vec_range (r_entries r) 0 (int (unat ?i - unat (r_offset r))) =
        Some (take (unat ?i - unat (r_offset r)) (r_entries r))"
      by (rule vec_range_prefix) (use mid in linarith)
    ultimately have v: "vec_range (r_entries r) 0 (uint ?i - uint (r_offset r)) =
        Some (take (unat ?i - unat (r_offset r)) (r_entries r))"
      by (simp only:)
    have "min ?i (r_offset r) = r_offset r" using lt by (simp add: min_absorb2 less_imp_le)
    with lt mid(2) show ?thesis
      unfolding truncateAndAppend_unfold [OF ne] Let_def eqi v by (simp add: not_le)
  qed
qed

text \<open>The specification of an overwrite on the abstract log, and that the code meets it.\<close>

definition overwrite :: "u64 \<Rightarrow> Entry list \<Rightarrow> (u64 \<Rightarrow> Entry option) \<Rightarrow> u64 \<Rightarrow> Entry option" where
  "overwrite i0 ents L i = (if i < i0 then L i else vec_at ents (i - i0))"

lemma wf_log_overwrite:
  assumes wf: "wf_log r" and i0: "i0 \<noteq> 0" and c: "consecutive i0 ents"
    and start: "unat i0 \<le> unat (r_offset r) + length (r_entries r)"
    and top: "unat i0 + length ents < 2 ^ 64"
    and r': "r_offset r' = min i0 (r_offset r)"
      "r_entries r' = take (unat i0 - unat (r_offset r)) (r_entries r) @ ents"
  shows "wf_log r'" and "log_at r' = overwrite i0 ents (log_at r)"
proof -
  have off: "r_offset r \<noteq> 0" "consecutive (r_offset r) (r_entries r)"
    using wf by (simp_all add: wf_log_def)
  let ?n = "unat i0 - unat (r_offset r)"
  have len: "length (take ?n (r_entries r)) = ?n" using start by simp
  have um: "unat (r_offset r') = min (unat i0) (unat (r_offset r))"
    unfolding r'(1) by (simp add: min_def word_le_nat_alt)
  have "r_offset r' + of_nat ?n = i0"
  proof (rule word_unat_eq_iff [THEN iffD2])
    have "?n < 2 ^ 64" using top by linarith
    then have "unat (of_nat ?n :: u64) = ?n"
      by (simp add: unat_of_nat take_bit_nat_eq_self)
    then show "unat (r_offset r' + of_nat ?n) = unat i0"
      using top um by (simp add: unat_plus_if' min_def split: if_splits)
  qed
  moreover have "consecutive (r_offset r') (take ?n (r_entries r))"
    using off(2) um by (cases "i0 \<le> r_offset r")
      (auto simp: r'(1) min_def word_le_nat_alt intro: consecutive_take)
  ultimately have c': "consecutive (r_offset r') (r_entries r')"
    using c len by (simp add: r'(2) consecutive_append)
  have l': "unat (r_offset r') + length (r_entries r') = unat i0 + length ents"
    using um len by (simp add: r'(2))
  show wf': "wf_log r'"
    using c' l' top i0 off(1) by (simp add: wf_log_def r'(1) min_def)
  show "log_at r' = overwrite i0 ents (log_at r)"
  proof (rule ext, rule option.expand)
    fix i
    have "(log_at r' i = Some e) = (overwrite i0 ents (log_at r) i = Some e)" for e
    proof (cases "unat i < unat i0")
      case True
      then show ?thesis
        using um len start by (auto simp: log_at_Some [OF wf'] overwrite_def word_less_nat_alt
            log_at_Some [OF wf] r'(2) nth_append min_def)
    next
      case False
      then show ?thesis
        using um len start l'
        by (auto simp: log_at_Some [OF wf'] overwrite_def word_less_nat_alt vec_at_def
            unat_sub word_le_nat_alt r'(2) nth_append min_def split: if_splits)
    qed
    then have eq: "log_at r' i = overwrite i0 ents (log_at r) i"
      by (metis option.exhaust)
    show "(log_at r' i = None) = (overwrite i0 ents (log_at r) i = None)"
      and "the (log_at r' i) = the (overwrite i0 ents (log_at r) i)" by (simp_all add: eq)
  qed
qed

text \<open>A gap before the first new entry makes the range of the copy invalid.\<close>

lemma truncateAndAppend_gap:
  assumes wf: "wf_log r" and ne: "ents \<noteq> []"
    and gap: "unat (r_offset r) + length (r_entries r) < unat (e_index (hd ents))"
  shows "truncateAndAppend ents r = None"
proof -
  let ?i = "e_index (hd ents)"
  have l: "unat (r_offset r) + length (r_entries r) < 2 ^ 64"
    using wf by (simp add: wf_log_def)
  then have s: "unat (sz (r_entries r)) = length (r_entries r)"
    by (intro unat_sz) linarith
  have a: "unat (r_offset r + sz (r_entries r)) = unat (r_offset r) + length (r_entries r)"
    using l s by (simp add: unat_plus_if')
  have ni: "?i \<noteq> r_offset r + sz (r_entries r)"
    unfolding word_unat_eq_iff a using gap by linarith
  have "r_offset r < ?i" unfolding word_less_nat_alt using gap by linarith
  then have nl: "\<not> ?i \<le> r_offset r" by simp
  have "int (unat (r_offset r)) + int (length (r_entries r)) < int (unat ?i)"
    using gap by linarith
  then have "\<not> uint ?i - uint (r_offset r) \<le> int (length (r_entries r))"
    by (simp only: uint_nat)
  then have "vec_range (r_entries r) 0 (uint ?i - uint (r_offset r)) = None"
    by (simp only: vec_range_def if_False simp_thms)
  with ni nl show ?thesis unfolding truncateAndAppend_unfold [OF ne] Let_def by simp
qed

subsection \<open>Appending at a position\<close>

lemma pop_to_take: "length es < 2 ^ 64 \<Longrightarrow> pop_to n es = take (unat n) es"
proof (induction n es rule: pop_to.induct)
  case (1 n es)
  show ?case
  proof (cases "es \<noteq> [] \<and> sz es > n")
    case True
    then have "unat n < length es"
      using 1(2) by (simp add: word_less_nat_alt unat_sz)
    with True 1 show ?thesis
      by (subst pop_to.simps) (simp add: take_butlast)
  next
    case False
    then have "es = [] \<or> length es \<le> unat n"
      using 1(2) by (auto simp: word_less_nat_alt unat_sz)
    with False show ?thesis by (subst pop_to.simps) auto
  qed
qed

lemma maybeAppend_form:
  assumes "length (r_entries r) < 2 ^ 64"
  shows "maybeAppend index t c ents r =
    (if unat index \<le> length (r_entries r) \<and> r_currentTerm r = t
     then (index + sz ents, r\<lparr>r_entries := take (unat index) (r_entries r) @ ents\<rparr>)
     else (0, r))"
  using assms by (simp add: maybeAppend_def word_le_nat_alt unat_sz pop_to_take)

lemma wf_log_maybeAppend:
  assumes wf: "wf_log r" and one: "r_offset r = 1" and c: "consecutive (index + 1) ents"
    and top: "unat index + length ents + 1 < 2 ^ 64"
  shows "wf_log (snd (maybeAppend index t cm ents r))"
proof -
  have l: "length (r_entries r) < 2 ^ 64" and cr: "consecutive 1 (r_entries r)"
    using wf one by (simp_all add: wf_log_def)
  show ?thesis
  proof (cases "unat index \<le> length (r_entries r) \<and> r_currentTerm r = t")
    case True
    have "consecutive 1 (take (unat index) (r_entries r) @ ents)"
      using cr c True by (simp add: consecutive_append consecutive_take add.commute)
    with True one top show ?thesis
      by (simp add: maybeAppend_form [OF l] wf_log_def)
  next
    case False
    then have "snd (maybeAppend index t cm ents r) = r"
      unfolding maybeAppend_form [OF l] by (simp only: if_False snd_conv)
    with wf show ?thesis by simp
  qed
qed

subsection \<open>Committing\<close>

lemma commitTo_form:
  "commitTo c r = Some r' \<Longrightarrow> r' = r\<lparr>r_commitIndex := max (r_commitIndex r) c\<rparr>"
  by (auto simp: commitTo_def bind_eq_Some_conv max_def not_less split: if_splits)

lemma commitTo_Some:
  "r_entries r \<noteq> [] \<or> r_snap r \<noteq> Wild \<or> c \<le> r_commitIndex r \<Longrightarrow>
   commitTo c r = Some (r\<lparr>r_commitIndex := max (r_commitIndex r) c\<rparr>)"
  by (cases "r_snap r") (auto simp: commitTo_def lastIndex_def maybeLastIndex_def max_def not_less)

text \<open>In a sorted list, everything from position \<open>q\<close> on is at least what stands there.\<close>

lemma sorted_count_ge:
  fixes xs :: "u64 list"
  assumes "sorted xs" and "q < length xs"
  shows "length xs - q \<le> length (filter (\<lambda>x. xs ! q \<le> x) xs)"
proof -
  have "\<forall>x \<in> set (drop q xs). xs ! q \<le> x"
    using assms by (auto simp: in_set_conv_nth sorted_iff_nth_mono)
  then have "filter (\<lambda>x. xs ! q \<le> x) (drop q xs) = drop q xs" by (simp add: filter_True)
  then have "length xs - q = length (filter (\<lambda>x. xs ! q \<le> x) (drop q xs))" by simp
  also have "\<dots> \<le> length (filter (\<lambda>x. xs ! q \<le> x) (take q xs @ drop q xs))"
    unfolding filter_append by simp
  finally show ?thesis by simp
qed

definition acked :: "u64 \<Rightarrow> raft \<Rightarrow> nat" where
  "acked c r = length (filter (\<lambda>(i, p). c \<le> p_match p) (r_prs r))"

lemma maybeCommit_form:
  assumes "maybeCommit r = Some (b, r')"
  shows "\<exists>mci. unat (u64_of_u32 (quorum r - 1)) < length (r_prs r) \<and>
    mci = sort (map (\<lambda>(i, p). p_match p) (r_prs r)) ! unat (u64_of_u32 (quorum r - 1)) \<and>
    b = (r_commitIndex r < mci) \<and>
    r' = r\<lparr>r_commitIndex := max (r_commitIndex r) mci\<rparr> \<and>
    length (r_prs r) - unat (u64_of_u32 (quorum r - 1)) \<le> acked mci r"
proof -
  let ?mis = "sort (map (\<lambda>(i, p). p_match p) (r_prs r))"
  let ?q = "unat (u64_of_u32 (quorum r - 1))"
  define mci where "mci = ?mis ! ?q"
  from assms have q: "?q < length (r_prs r)"
    by (auto simp: maybeCommit_def Let_def bind_eq_Some_conv vec_at_def split: if_splits)
  have v: "vec_at ?mis (u64_of_u32 (quorum r - 1)) = Some mci"
    using q by (simp add: vec_at_def mci_def)
  have b: "b = (r_commitIndex r < mci)" and r': "r' = r\<lparr>r_commitIndex := max (r_commitIndex r) mci\<rparr>"
    using assms by (auto simp: maybeCommit_def Let_def v bind_eq_Some_conv max_def not_less
        dest: commitTo_form split: if_splits)
  have "length ?mis - ?q \<le> length (filter (\<lambda>x. ?mis ! ?q \<le> x) ?mis)"
    by (rule sorted_count_ge) (use q in simp_all)
  moreover have "length (filter (\<lambda>x. mci \<le> x) ?mis) = acked mci r"
    by (simp add: filter_sort acked_def filter_map o_def case_prod_beta')
  ultimately show ?thesis using q b r' by (auto simp: mci_def)
qed

lemma maybeCommit_no_fault:
  assumes "unat (u64_of_u32 (quorum r - 1)) < length (r_prs r)"
    and "r_entries r \<noteq> [] \<or> r_snap r \<noteq> Wild"
  shows "\<exists>b r'. maybeCommit r = Some (b, r')"
  using assms by (auto simp: maybeCommit_def Let_def vec_at_def commitTo_Some)

lemma maybeCommit_empty: "r_prs r = [] \<Longrightarrow> maybeCommit r = None"
  by (simp add: maybeCommit_def vec_at_def)

lemma appendEntry_form:
  assumes "appendEntry ents r = Some r'"
  shows "\<exists>c. r_commitIndex r \<le> c \<and> r' = r\<lparr>r_entries := r_entries r @
    number_entries (r_currentTerm r) (r_lastApplied r) ents, r_commitIndex := c, r_Ready := True\<rparr>"
proof -
  let ?s = "r\<lparr>r_entries := r_entries r @ number_entries (r_currentTerm r) (r_lastApplied r) ents\<rparr>"
  from assms obtain b u where u: "maybeCommit ?s = Some (b, u)" and r': "r' = u\<lparr>r_Ready := True\<rparr>"
    by (auto simp: appendEntry_def Let_def bind_eq_Some_conv)
  from maybeCommit_form [OF u] obtain m where "u = ?s\<lparr>r_commitIndex := max (r_commitIndex ?s) m\<rparr>"
    by blast
  with r' show ?thesis by (intro exI [of _ "max (r_commitIndex r) m"]) simp
qed

lemma wf_log_appendEntry:
  assumes wf: "wf_log r" and nxt: "r_lastApplied r + 1 = r_offset r + sz (r_entries r)"
    and top: "unat (r_offset r) + length (r_entries r) + length ents < 2 ^ 64"
    and r': "appendEntry ents r = Some r'"
  shows "wf_log r'"
proof -
  obtain c where "r' = r\<lparr>r_entries := r_entries r @
      number_entries (r_currentTerm r) (r_lastApplied r) ents, r_commitIndex := c, r_Ready := True\<rparr>"
    using appendEntry_form [OF r'] by blast
  moreover have "consecutive (r_offset r + of_nat (length (r_entries r)))
      (number_entries (r_currentTerm r) (r_lastApplied r) ents)"
    using consecutive_number [of "r_lastApplied r"] by (simp add: nxt sz_def)
  ultimately show ?thesis
    using wf top by (simp add: wf_log_def consecutive_append)
qed

subsection \<open>Persisting\<close>

lemma applied_pos_eq:
  assumes wf: "wf_log r" and one: "r_offset r = 1"
    and le: "unat (r_lastApplied r) \<le> length (r_entries r)"
  shows "applied_pos r =
    (if r_lastApplied r = 0 then length (r_entries r) else unat (r_lastApplied r) - 1)"
proof -
  have idx: "unat (e_index (r_entries r ! k)) = k + 1" if "k < length (r_entries r)" for k
  proof -
    have "e_index (r_entries r ! k) = 1 + of_nat k" and "k + 1 < 2 ^ 64"
      using wf one that by (auto simp: wf_log_def consecutive_def)
    then show ?thesis
      by (simp add: unat_of_nat take_bit_nat_eq_self flip: of_nat_Suc)
  qed
  show ?thesis
  proof (cases "r_lastApplied r = 0")
    case True
    have "r_lastApplied r \<noteq> e_index e" if "e \<in> set (r_entries r)" for e
    proof -
      from that obtain k where "k < length (r_entries r)" "e = r_entries r ! k"
        by (auto simp: in_set_conv_nth)
      with idx have "unat (e_index e) = k + 1" by simp
      then show ?thesis using True by auto
    qed
    then have tw: "takeWhile (\<lambda>e. r_lastApplied r \<noteq> e_index e) (r_entries r) = r_entries r"
      by (simp add: takeWhile_eq_all_conv)
    show ?thesis unfolding applied_pos_def tw using True by simp
  next
    case False
    let ?n = "unat (r_lastApplied r) - 1"
    have pos: "0 < unat (r_lastApplied r)" using False by (simp add: unat_gt_0)
    then have n: "?n < length (r_entries r)" using le by linarith
    have "unat (e_index (r_entries r ! ?n)) = unat (r_lastApplied r)"
      using idx [OF n] pos by linarith
    then have at: "\<not> r_lastApplied r \<noteq> e_index (r_entries r ! ?n)"
      by (simp add: word_unat_eq_iff)
    have "r_lastApplied r \<noteq> e_index (r_entries r ! k)" if "k < ?n" for k
    proof -
      have "unat (e_index (r_entries r ! k)) = k + 1" by (rule idx) (use that n in linarith)
      then have "unat (e_index (r_entries r ! k)) \<noteq> unat (r_lastApplied r)" using that by linarith
      then show ?thesis by (rule contrapos_nn) simp
    qed
    then have "takeWhile (\<lambda>e. r_lastApplied r \<noteq> e_index e) (r_entries r) = take ?n (r_entries r)"
      using at by (intro takeWhile_eq_take_P_nth) auto
    then have "length (takeWhile (\<lambda>e. r_lastApplied r \<noteq> e_index e) (r_entries r)) = ?n"
      using n by simp
    with False show ?thesis by (simp add: applied_pos_def)
  qed
qed

lemma vec_range_mid:
  "a \<le> b \<Longrightarrow> b \<le> length xs \<Longrightarrow>
   vec_range xs (int a) (int b) = Some (take (b - a) (drop a xs))"
  by (simp add: vec_range_def)

lemma storageLog_form:
  assumes wf: "wf_log r" and one: "r_offset r = 1" and ok: "applied_ok r"
    and le: "unat (r_commitIndex r) \<le> length (r_entries r)"
    and int_range: "length (r_entries r) \<le> 2147483647"
  shows "storageLog E r = Some (r\<lparr>
     r_storage := (if r_lastApplied r < r_commitIndex r
       then Storage_Append (E_codec E) (take (unat (r_commitIndex r) - unat (r_lastApplied r))
              (drop (unat (r_lastApplied r)) (r_entries r))) (r_storage r)
       else r_storage r),
     r_lastApplied := r_commitIndex r\<rparr>)"
proof -
  let ?c = "r_commitIndex r" and ?a = "r_lastApplied r" and ?es = "r_entries r"
  have ac: "unat ?a \<le> unat ?c" using ok by (simp add: applied_ok_def word_le_nat_alt)
  have l: "unat (sz ?es) = length ?es" by (rule unat_sz) (use int_range in simp)
  have pos: "applied_pos r = (if ?a = 0 then length ?es else unat ?a - 1)"
    using applied_pos_eq [OF wf one] ac le by linarith
  have small: "\<not> applied_pos r > 2147483647" using pos int_range ac le by auto
  have ap: "appliedTo ?c (r\<lparr>r_storage := f\<rparr>) = r\<lparr>r_storage := f, r_lastApplied := ?c\<rparr>" for f
  proof (cases "?c = 0")
    case True
    then have "?a = ?c" using ac by (simp add: unat_eq_0)
    with True show ?thesis by (simp add: appliedTo_def)
  qed (simp add: appliedTo_def)
  show ?thesis
  proof (cases "?a < ?c")
    case False
    then show ?thesis using small ap [of "r_storage r"] by (simp add: storageLog_def Let_def)
  next
    case True
    then have lt: "unat ?a < unat ?c" by (simp only: word_less_nat_alt)
    have "unat (?c - ?a) = unat ?c - unat ?a" using ac by (simp add: unat_sub word_le_nat_alt)
    then have todo: "?c - ?a \<le> sz ?es" using le l by (simp add: word_le_nat_alt)
    have "(if applied_pos r = length ?es then vec_range ?es 0 (uint ?c)
           else vec_range ?es (int (applied_pos r) + 1) (int (applied_pos r) + 1 + uint ?c - uint ?a))
      = Some (take (unat ?c - unat ?a) (drop (unat ?a) ?es))"
    proof (cases "?a = 0")
      case True
      then show ?thesis using pos le vec_range_prefix [of "unat ?c" ?es] by simp
    next
      case False
      then have p: "0 < unat ?a" by (simp add: unat_gt_0)
      then have ne: "applied_pos r \<noteq> length ?es" using pos False lt le by simp
      have st: "int (applied_pos r) + 1 = uint ?a"
        using pos False p by simp
      have en: "uint ?a + uint ?c - uint ?a = uint ?c" by simp
      show ?thesis unfolding if_not_P [OF ne] st en
        using vec_range_mid [of "unat ?a" "unat ?c" ?es] ac le by simp
    qed
    then show ?thesis
      using True small todo ap unfolding storageLog_def Let_def
      by (simp split: if_splits)
  qed
qed

subsection \<open>Stabilising\<close>

lemma stableTo_first:
  assumes wf: "wf_log r" and e: "log_at r (r_offset r) = Some e"
    and t: "e_term e = t" "t \<noteq> 0"
  shows "stableTo (r_offset r) t r =
    Some (r\<lparr>r_entries := tl (r_entries r), r_offset := r_offset r + 1\<rparr>)"
proof -
  have ne: "1 \<le> length (r_entries r)" using e wf by (auto simp: log_at_Some Suc_le_eq)
  have "vec_range (r_entries r) (int 1) (int (length (r_entries r))) = Some (tl (r_entries r))"
    using vec_range_mid [OF ne order_refl] by (simp add: drop_Suc)
  then have "vec_range (r_entries r) (uint (r_offset r) + 1 - uint (r_offset r))
      (int (length (r_entries r))) = Some (tl (r_entries r))"
    by simp
  then show ?thesis
    using maybeTerm_log_at [OF wf e] t by (simp add: stableTo_def)
qed

lemma stableTo_other:
  assumes "wf_log r" and "log_at r i = Some e" and "e_term e \<noteq> t \<or> i \<noteq> r_offset r"
  shows "stableTo i t r = Some r"
  using maybeTerm_log_at [OF assms(1,2)] assms(3) by (auto simp: stableTo_def)

lemma stableTo_log:
  assumes wf: "wf_log r" and ne: "r_entries r \<noteq> []"
    and r': "r' = r\<lparr>r_entries := tl (r_entries r), r_offset := r_offset r + 1\<rparr>"
  shows "wf_log r'" and "log_at r' = (log_at r)(r_offset r := None)"
proof -
  have b: "unat (r_offset r) + length (r_entries r) < 2 ^ 64" "r_offset r \<noteq> 0"
      "consecutive (r_offset r) (r_entries r)" using wf by (simp_all add: wf_log_def)
  obtain x xs where xs: "r_entries r = x # xs" using ne by (cases "r_entries r") auto
  have "unat (r_offset r) + 1 < 2 ^ 64" using b xs by simp
  then have u: "unat (r_offset r + 1) = unat (r_offset r) + 1" by (simp add: unat_plus_if')
  have "consecutive (r_offset r + 1) xs"
    using b(3) consecutive_append [of "r_offset r" "[x]" xs] by (simp add: xs)
  moreover have "r_offset r + 1 \<noteq> 0" using u by (metis add_is_0 one_neq_zero unat_0)
  ultimately show wf': "wf_log r'" using b u by (simp add: wf_log_def r' xs)
  have "(log_at r' i = Some e) = (((log_at r)(r_offset r := None)) i = Some e)" for i e
  proof (cases "i = r_offset r")
    case True
    then show ?thesis using u log_at_Some [OF wf', of i e] by (auto simp: r')
  next
    case False
    then have "unat i \<noteq> unat (r_offset r)" by (simp add: word_unat_eq_iff)
    then show ?thesis
      using False u log_at_Some [OF wf', of i e] log_at_Some [OF wf, of i e]
      by (auto simp: r' xs nth_Cons')
  qed
  then show "log_at r' = (log_at r)(r_offset r := None)"
    by (intro ext) (metis option.exhaust)
qed

end
