(* ===== verification/Raft_Step_Facts.thy ===== *)
theory Raft_Step_Facts
  imports Raft_Log_Facts
begin

text \<open>
  What the handlers of \<^verbatim>\<open>raft.cc\<close> do, branch by branch: the quorum and the election,
  votes, the append handler of a follower, the leader's commit rule, the broadcasts.
\<close>

subsection \<open>The quorum\<close>

lemma quorum_pub: "r_pub_prs r = [] \<Longrightarrow> quorum r = 1"
  by (simp add: quorum_def)

lemma quorum_frame:
  assumes "frame_of r' = frame_of r"
  shows "quorum r' = quorum r"
  using assms by (simp add: frame_of_def quorum_def)

definition granted_set :: "raft \<Rightarrow> u64 set" where
  "granted_set r = {i. \<exists>v. (i, v) \<in> set (r_votes r) \<and> 0 <s v}"

lemma count_granted_card:
  assumes "umap_ok vs"
  shows "count_granted vs = of_nat (card {i. \<exists>v. (i, v) \<in> set vs \<and> 0 <s v})"
proof -
  let ?fs = "filter (\<lambda>(i, v). 0 <s v) vs"
  have "distinct (map fst ?fs)" using assms by (simp add: umap_ok_def distinct_map_filter)
  then have "length ?fs = card (set (map fst ?fs))" by (metis distinct_card length_map)
  also have "set (map fst ?fs) = {i. \<exists>v. (i, v) \<in> set vs \<and> 0 <s v}" by force
  finally show ?thesis by (simp add: count_granted_def)
qed

lemma grantMe_fresh:
  assumes "\<not> umap_has i (r_votes r)"
  shows "grantMe i v r = (count_granted (umap_set i (if v then 1 else 0) (r_votes r)),
    r\<lparr>r_votes := umap_set i (if v then 1 else 0) (r_votes r)\<rparr>)"
  using assms by (simp add: grantMe_def)

lemma grantMe_repeat:
  "umap_has i (r_votes r) \<Longrightarrow> grantMe i v r = (count_granted (r_votes r), r)"
  by (simp add: grantMe_def)

lemma count_granted_single: "count_granted [(i, 1)] = 1"
  by (simp add: count_granted_def word_sless_alt)

text \<open>Setting out from no votes, the own vote alone is the quorum of an empty \<open>prs\<close>.\<close>

lemma handleHup_wins:
  assumes "r_pub_prs r = []" and "r_votes r = [] \<or> r_votes r = [(r_id r, 1)]"
    and "r_state r \<noteq> STATE_LEADER"
  shows "handleHup r = becomeLeader ((becomeCandidate r)\<lparr>r_votes := [(r_id r, 1)]\<rparr>)"
proof -
  let ?c = "becomeCandidate r"
  have q: "quorum ?c = 1"
    using assms(1) quorum_frame [of ?c r] by (simp add: quorum_pub)
  have g: "grantMe (r_id r) True ?c = (1, ?c\<lparr>r_votes := [(r_id r, 1)]\<rparr>)"
    using assms(2) by (auto simp: grantMe_def Let_def umap_has_def umap_set_def count_granted_single)
  show ?thesis
    using assms(3) q g by (simp add: handleHup_def Let_def quorum_def)
qed

subsection \<open>Votes\<close>

definition vote_granted :: "Message \<Rightarrow> raft \<Rightarrow> bool" where
  "vote_granted msg r = ((r_vote r = 0 \<or> m_from msg \<noteq> 0) \<and> up_to_date msg r)"

definition vote_reply :: "Message \<Rightarrow> bool \<Rightarrow> Message" where
  "vote_reply msg ok = new_Message\<lparr>m_to := m_from msg, m_term := m_term msg,
     m_type := MsgVoteResp, m_reject := \<not> ok\<rparr>"

lemma up_to_date_vote [simp]: "up_to_date msg (r\<lparr>r_vote := v\<rparr>) = up_to_date msg r"
  by (simp add: up_to_date_def)

lemma handleVote_form:
  "handleVote msg r = (send (vote_reply msg (vote_granted msg r)) r)
     \<lparr>r_electionElapsed := 0, r_vote := m_from msg\<rparr>"
  by (cases "r_vote r = 0"; cases "up_to_date msg r"; cases "m_from msg = 0")
    (simp_all add: handleVote_def Let_def vote_granted_def vote_reply_def send_def new_Message_def)

subsection \<open>The append handler\<close>

definition app_reply :: "Message \<Rightarrow> u64 \<Rightarrow> bool \<Rightarrow> raft \<Rightarrow> Message" where
  "app_reply msg i rej r = new_Message\<lparr>m_from := r_id r, m_to := m_from msg,
     m_type := MsgAppResp, m_index := i, m_reject := rej\<rparr>"

definition appended :: "Message \<Rightarrow> raft \<Rightarrow> Entry list" where
  "appended msg r = take (unat (m_index msg)) (r_entries r) @ map copied_entry (m_entries msg)"

definition append_fits :: "Message \<Rightarrow> raft \<Rightarrow> bool" where
  "append_fits msg r = (unat (m_index msg) \<le> length (r_entries r) \<and> r_currentTerm r = m_logterm msg)"

lemma handleAppendEntries_form:
  assumes "length (r_entries r) < 2 ^ 64"
  shows "handleAppendEntries msg r =
    (if m_index msg < r_commitIndex r then send (app_reply msg (r_commitIndex r) False r) r
     else if \<not> append_fits msg r then send (app_reply msg (m_index msg) True r) r
     else if m_index msg + sz (m_entries msg) = 0
     then send (app_reply msg (m_index msg) True r) (r\<lparr>r_entries := appended msg r\<rparr>)
     else (send (app_reply msg (m_index msg + sz (m_entries msg)) False r)
             (r\<lparr>r_entries := appended msg r\<rparr>))\<lparr>r_Ready := True\<rparr>)"
proof (cases "m_index msg < r_commitIndex r")
  case True
  then show ?thesis
    by (simp add: handleAppendEntries_def Let_def app_reply_def send_def new_Message_def)
next
  case low: False
  let ?es = "map copied_entry (m_entries msg)"
  have sz: "sz ?es = sz (m_entries msg)" by (simp add: sz_def)
  show ?thesis
  proof (cases "append_fits msg r")
    case True
    then have "maybeAppend (m_index msg) (m_logterm msg) (m_commit msg) ?es r =
        (m_index msg + sz (m_entries msg), r\<lparr>r_entries := appended msg r\<rparr>)"
      by (simp add: maybeAppend_form [OF assms] append_fits_def appended_def sz)
    with low True show ?thesis
      by (cases "m_index msg + sz (m_entries msg) = 0")
        (simp_all add: handleAppendEntries_def Let_def app_reply_def send_def new_Message_def word_gt_0)
  next
    case False
    then have "maybeAppend (m_index msg) (m_logterm msg) (m_commit msg) ?es r = (0, r)"
      unfolding maybeAppend_form [OF assms] append_fits_def by (simp only: if_False)
    with low False show ?thesis
      by (simp add: handleAppendEntries_def Let_def app_reply_def send_def new_Message_def)
  qed
qed

subsection \<open>Broadcasts\<close>

definition heartbeat_to :: "raft \<Rightarrow> u64 \<times> Progress \<Rightarrow> Message" where
  "heartbeat_to r = (\<lambda>(i, p). new_Message\<lparr>m_from := r_id r, m_to := i,
     m_term := r_currentTerm r, m_type := MsgHeartbeat,
     m_commit := min (p_match p) (r_commitIndex r), m_context := []\<rparr>)"

lemma prs_touch_id [simp]: "umap_has i (r_prs r) \<Longrightarrow> prs_touch i r = r"
  by (simp add: prs_touch_def)

lemma sendHeartbeat_form:
  "umap_has i (r_prs r) \<Longrightarrow> sendHeartbeat i [] r = send (heartbeat_to r (i, prs_at i r)) r"
  by (simp add: sendHeartbeat_def Let_def heartbeat_to_def)

lemma foreach_heartbeats:
  assumes "set ms \<subseteq> set (r_prs r)" and "umap_ok (r_prs r)"
  shows "foreach (\<lambda>(i, _) r. if i = r_id r then Some r else Some (sendHeartbeat i [] r)) ms
      (r\<lparr>r_sendmsgs := q\<rparr>) =
    Some (r\<lparr>r_sendmsgs := q @ map (heartbeat_to r) (filter (\<lambda>(i, p). i \<noteq> r_id r) ms)\<rparr>)"
  using assms(1)
proof (induction ms arbitrary: q)
  case Nil
  then show ?case by simp
next
  case (Cons m ms)
  obtain i p where m: "m = (i, p)" by (cases m)
  have h: "umap_has i (r_prs r)" using Cons.prems m by (force simp: umap_has_iff)
  have p: "umap_get zero_Progress i (r_prs r) = p"
    using Cons.prems m assms(2) by (intro umap_get_eq) auto
  have "sendHeartbeat i [] (r\<lparr>r_sendmsgs := q\<rparr>) = r\<lparr>r_sendmsgs := q @ [heartbeat_to r (i, p)]\<rparr>"
    using h p by (subst sendHeartbeat_form) (simp_all add: send_def heartbeat_to_def prs_at_def)
  then show ?case using Cons.IH Cons.prems m by simp
qed

lemma bcastHeartbeat_form:
  assumes "umap_ok (r_prs r)"
  shows "bcastHeartbeat r = Some (r\<lparr>r_sendmsgs := r_sendmsgs r @
    map (heartbeat_to r) (filter (\<lambda>(i, p). i \<noteq> r_id r) (r_prs r))\<rparr>)"
  using foreach_heartbeats [OF subset_refl assms, of "r_sendmsgs r"]
  by (simp add: bcastHeartbeat_def)

subsection \<open>What an append message carries\<close>

definition matches :: "(u64, Progress) umap \<Rightarrow> (u64 \<times> u64) list" where
  "matches P = map (\<lambda>(i, p). (i, p_match p)) P"

lemma matches_set:
  "umap_has i P \<Longrightarrow> p_match v = p_match (umap_get d i P) \<Longrightarrow> matches (umap_set i v P) = matches P"
  by (induction P) (auto simp: matches_def umap_set_def umap_get_def umap_has_def)

lemma matches_keys: "matches P = matches Q \<Longrightarrow> umap_has i P = umap_has i Q"
proof -
  assume "matches P = matches Q"
  then have "map fst (matches P) = map fst (matches Q)" by simp
  then have "map fst P = map fst Q" by (simp add: matches_def case_prod_beta' o_def)
  then show ?thesis by (metis image_set umap_has_iff)
qed

lemma acked_matches: "acked c r = length (filter (\<lambda>(i, m). c \<le> m) (matches (r_prs r)))"
  by (simp add: acked_def matches_def filter_map o_def case_prod_beta')

definition append_msg :: "u64 \<Rightarrow> u64 \<Rightarrow> Entry list \<Rightarrow> raft \<Rightarrow> Message" where
  "append_msg to t es r = new_Message\<lparr>m_from := r_id r, m_to := to, m_type := MsgApp,
     m_index := p_next (prs_at to r) - 1, m_logterm := t, m_commit := r_commitIndex r,
     m_entries := map sent_entry es\<rparr>"

definition optimistic :: "u64 \<Rightarrow> Entry list \<Rightarrow> raft \<Rightarrow> raft" where
  "optimistic to es r =
     (if es \<noteq> [] \<and> p_state (prs_at to r) = ProgressStateReplicate
      then prs_upd to (optimisticUpdate (e_index (last es))) r else r)"

definition prev_term :: "env \<Rightarrow> u64 \<Rightarrow> raft \<Rightarrow> u64 option" where
  "prev_term E i r = (if i = 0 then Some (r_currentTerm r) else Raft_term E i r)"

lemma sent_entry_index [simp]: "e_index (sent_entry e) = e_index e"
  by (simp add: sent_entry_def)

lemma sendAppend_form:
  assumes "umap_has to (r_prs r)"
  shows "sendAppend E to r =
    (case (prev_term E (p_next (prs_at to r) - 1) r,
           entries_from (p_next (prs_at to r) - 1) (r_entries r)) of
       (Some t, Some es) \<Rightarrow>
         if es \<noteq> [] \<and> p_state (prs_at to r) = ProgressStateZero then None
         else Some (send (append_msg to t es r) (optimistic to es r))
     | _ \<Rightarrow> None)"
proof -
  have l: "es \<noteq> [] \<Longrightarrow> last (map sent_entry es) = sent_entry (last es)" for es
    by (simp add: last_map)
  show ?thesis
  proof (cases "prev_term E (p_next (prs_at to r) - 1) r")
    case None
    then show ?thesis using assms
      by (auto simp: sendAppend_def Let_def prev_term_def split: if_splits)
  next
    case (Some t)
    then have t: "p_next (prs_at to r) = 1 \<Longrightarrow> t = r_currentTerm r"
      "p_next (prs_at to r) \<noteq> 1 \<Longrightarrow> Raft_term E (p_next (prs_at to r) - 1) r = Some t"
      by (simp_all add: prev_term_def)
    show ?thesis
      using assms Some t
      by (cases "p_next (prs_at to r) = 1";
          cases "entries_from (p_next (prs_at to r) - 1) (r_entries r)";
          cases "p_state (prs_at to r)")
        (simp_all add: sendAppend_def Let_def l optimistic_def append_msg_def send_def prs_upd_def
          new_Message_def)
  qed
qed

text \<open>Sending changes neither what the members acknowledged nor the log.\<close>

definition log_view :: "raft \<Rightarrow> (u64 \<times> u64) list \<times> u64 \<times> u64 \<times> Entry list \<times> State \<times> u32" where
  "log_view r = (matches (r_prs r), r_commitIndex r, r_currentTerm r, r_entries r, r_state r,
     quorum r)"

lemma log_view_send [simp]: "log_view (send m r) = log_view r"
  by (simp add: log_view_def send_def quorum_def)

lemma log_view_upd:
  "umap_has i (r_prs r) \<Longrightarrow> (\<And>p. p_match (f p) = p_match p) \<Longrightarrow> log_view (prs_upd i f r) = log_view r"
  by (simp add: log_view_def prs_upd_def prs_at_def quorum_def matches_set)

lemma log_view_has: "log_view r = log_view s \<Longrightarrow> umap_has i (r_prs r) = umap_has i (r_prs s)"
  by (rule matches_keys) (simp add: log_view_def)

lemma log_view_sendAppend:
  assumes "sendAppend E to r = Some r'" and "umap_has to (r_prs r)"
  shows "log_view r' = log_view r"
proof -
  obtain t es where r': "r' = send (append_msg to t es r) (optimistic to es r)"
    using assms unfolding sendAppend_form [OF assms(2)]
    by (auto split: option.split_asm if_split_asm)
  have "log_view (optimistic to es r) = log_view r"
    unfolding optimistic_def using log_view_upd [OF assms(2), of "optimisticUpdate (e_index (last es))"]
    by simp
  then show ?thesis by (simp add: r')
qed

lemma log_view_bcastAppend:
  assumes "bcastAppend E r = Some r'"
  shows "log_view r' = log_view r"
proof (rule foreach_inv [OF assms [unfolded bcastAppend_def], where P = "\<lambda>s. log_view s = log_view r"])
  fix x u v
  assume x: "x \<in> set (r_prs r)" and u: "log_view u = log_view r"
    and v: "(case x of (i, _) \<Rightarrow> \<lambda>r. if i = r_id r \<or> i = 0 then Some r else sendAppend E i r) u = Some v"
  obtain i p where xi: "x = (i, p)" by fastforce
  have "umap_has i (r_prs r)" using x xi by (force simp: umap_has_iff)
  then have "umap_has i (r_prs u)" using log_view_has [OF u] by simp
  with u v xi show "log_view v = log_view r"
    by (auto simp: log_view_sendAppend split: if_splits)
qed simp

lemma log_view_heartbeatResp:
  assumes "leaderHeartbeatResp E msg r = Some r'" and h: "umap_has (m_from msg) (r_prs r)"
  shows "log_view r' = log_view r"
proof -
  let ?s = "prs_upd (m_from msg) setRecentActive r"
  have s: "log_view ?s = log_view r" by (rule log_view_upd [OF h]) simp
  moreover have "umap_has (m_from msg) (r_prs ?s)" using log_view_has [OF s] h by simp
  ultimately show ?thesis using assms(1)
    by (auto simp: leaderHeartbeatResp_def Let_def log_view_sendAppend split: if_splits)
qed

subsection \<open>The commit rule of a leader\<close>

definition quorum_acked :: "raft \<Rightarrow> bool" where
  "quorum_acked r =
     (length (r_prs r) - unat (u64_of_u32 (quorum r - 1)) \<le> acked (r_commitIndex r) r)"

lemma quorum_acked_view: "log_view r = log_view s \<Longrightarrow> quorum_acked r = quorum_acked s"
proof -
  assume v: "log_view r = log_view s"
  then have "length (r_prs r) = length (r_prs s)"
    by (metis length_map log_view_def matches_def prod.inject)
  with v show ?thesis by (simp add: quorum_acked_def acked_matches log_view_def)
qed

lemma maybeCommit_acked:
  assumes "maybeCommit r = Some (b, r')" and "r_commitIndex r' \<noteq> r_commitIndex r"
  shows "quorum_acked r'"
proof -
  obtain mci where m: "r' = r\<lparr>r_commitIndex := max (r_commitIndex r) mci\<rparr>"
      "length (r_prs r) - unat (u64_of_u32 (quorum r - 1)) \<le> acked mci r"
    using maybeCommit_form [OF assms(1)] by blast
  moreover from this assms(2) have "r_commitIndex r' = mci" by (auto simp: max_def split: if_splits)
  ultimately show ?thesis by (simp add: quorum_acked_def acked_def quorum_def)
qed

lemma leaderAppResp_commit:
  assumes "leaderAppResp E msg r = Some r'" and h: "umap_has (m_from msg) (r_prs r)"
  shows "(r_commitIndex r' = r_commitIndex r \<or> quorum_acked r') \<and> umap_has (m_from msg) (r_prs r')"
proof -
  let ?s = "prs_upd (m_from msg) setRecentActive r"
  obtain b p where bp: "maybeUpdate (m_index msg) (prs_at (m_from msg) ?s) = (b, p)" by fastforce
  let ?u = "prs_upd (m_from msg) (\<lambda>_. p) ?s"
  have hu: "umap_has (m_from msg) (r_prs (prs_upd (m_from msg) f r))" for f r
    by (simp add: prs_upd_def umap_has_set)
  have c: "r_commitIndex (prs_upd i f r) = r_commitIndex r" for i f r by (simp add: prs_upd_def)
  consider "r' = ?s" | "r' = ?u"
    | t w where "maybeCommit (ackTransition (m_from msg) ?u) = Some (t, w)"
      "(if t then bcastAppend E w else Some w) = Some r'"
    using assms(1) bp
    by (auto simp: leaderAppResp_def Let_def bind_eq_Some_conv split: if_splits)
  then show ?thesis
  proof cases
    case (3 t w)
    have a: "r_commitIndex (ackTransition (m_from msg) ?u) = r_commitIndex r"
        "umap_has (m_from msg) (r_prs (ackTransition (m_from msg) ?u))"
      by (auto simp: ackTransition_def c hu split: ProgressStateType.splits)
    have w: "r_prs w = r_prs (ackTransition (m_from msg) ?u)"
      using maybeCommit_form [OF 3(1)] by auto
    have v: "log_view r' = log_view w"
      using 3(2) by (cases t) (auto simp: log_view_bcastAppend)
    then have cw: "r_commitIndex r' = r_commitIndex w" by (simp add: log_view_def)
    have "r_commitIndex w = r_commitIndex r \<or> quorum_acked w"
      using maybeCommit_acked [OF 3(1)] a by metis
    with v cw show ?thesis using quorum_acked_view [OF v] log_view_has [OF v] w a(2) by simp
  qed (simp_all add: c hu)
qed

lemma stepLeader_ack_commit:
  assumes "stepLeader E msg r = Some r'" and "m_type msg = MsgAppResp"
    and "r_commitIndex r' \<noteq> r_commitIndex r"
  shows "quorum_acked r'"
proof -
  have h: "umap_has (m_from msg) (r_prs r)"
    using assms by (auto simp: stepLeader_def split: if_splits)
  then obtain u where u: "leaderAppResp E msg r = Some u" "leaderHeartbeatResp E msg u = Some r'"
    using assms(1,2) by (auto simp: stepLeader_def bind_eq_Some_conv)
  have v: "log_view r' = log_view u"
    using log_view_heartbeatResp [OF u(2)] leaderAppResp_commit [OF u(1) h] by blast
  then have "r_commitIndex r' = r_commitIndex u" by (simp add: log_view_def)
  then show ?thesis
    using leaderAppResp_commit [OF u(1) h] assms(3) quorum_acked_view [OF v] by metis
qed

lemma stepLeader_prop_commit:
  assumes "stepLeader E msg r = Some r'" and "m_type msg = MsgProp"
    and "r_commitIndex r' \<noteq> r_commitIndex r"
  shows "quorum_acked r'"
proof -
  obtain u where u: "appendEntry (m_entries msg) r = Some u" "bcastAppend E u = Some r'"
    using assms(1,2) by (auto simp: stepLeader_def bind_eq_Some_conv)
  let ?s = "r\<lparr>r_entries := r_entries r @
      number_entries (r_currentTerm r) (r_lastApplied r) (m_entries msg)\<rparr>"
  obtain b w where w: "maybeCommit ?s = Some (b, w)" "u = w\<lparr>r_Ready := True\<rparr>"
    using u(1) by (auto simp: appendEntry_def Let_def bind_eq_Some_conv)
  have v: "log_view r' = log_view u" by (rule log_view_bcastAppend [OF u(2)])
  have uw: "log_view u = log_view w" by (simp add: w(2) log_view_def quorum_def)
  have "r_commitIndex w \<noteq> r_commitIndex ?s"
    using assms(3) v uw by (simp add: log_view_def)
  then have "quorum_acked w" by (rule maybeCommit_acked [OF w(1)])
  then show ?thesis using quorum_acked_view v uw by metis
qed

lemma stepLeader_commit:
  assumes "stepLeader E msg r = Some r'" and "r_commitIndex r' \<noteq> r_commitIndex r"
  shows "quorum_acked r'"
proof -
  have hb: "r_commitIndex u = r_commitIndex r" if "bcastHeartbeat r = Some u" for u
  proof -
    have "log_view u = log_view r" if "foreach f xs s = Some u" "log_view s = log_view r"
        "f = (\<lambda>(i, _) r. if i = r_id r then Some r else Some (sendHeartbeat i [] r))"
        "set xs \<subseteq> set (r_prs r)" for f xs s
      using that
    proof (induction xs arbitrary: s)
      case (Cons x xs)
      obtain i p where x: "x = (i, p)" by fastforce
      have "umap_has i (r_prs r)" using Cons.prems x by (force simp: umap_has_iff)
      then have h: "umap_has i (r_prs s)" using log_view_has Cons.prems(2) by blast
      show ?case using Cons x h by (auto simp: sendHeartbeat_form split: if_splits)
    qed simp
    with that show ?thesis by (auto simp: bcastHeartbeat_def log_view_def split: if_splits)
  qed
  consider "m_type msg = MsgAppResp" | "m_type msg = MsgProp"
    | "m_type msg \<noteq> MsgAppResp" "m_type msg \<noteq> MsgProp" by blast
  then show ?thesis
  proof cases
    case 3
    have "r_commitIndex r' = r_commitIndex r"
      using assms(1) 3
      by (auto simp: stepLeader_def checkQuorumActive_def hb split: MessageType.splits if_splits
          dest!: log_view_heartbeatResp, auto simp: log_view_def)
    with assms(2) show ?thesis by simp
  qed (use assms stepLeader_ack_commit stepLeader_prop_commit in blast)+
qed

end
