(* ===== verification/Raft_Replication.thy ===== *)
theory Raft_Replication
  imports Raft_Step_Facts
begin

text \<open>
  A leader and a follower together: one append message carries the tail of the leader's
  log to the follower, whose log then has the same payloads, and the acknowledgement
  raises what the leader knows of it. And the election: one time-out makes a node the
  leader of the next term by its own vote.
\<close>

subsection \<open>What a member acknowledged\<close>

lemma match_of_matches: "p_match (umap_get zero_Progress i P) = umap_get 0 i (matches P)"
proof -
  have "map_of (matches P) i = map_option p_match (map_of P i)"
    by (induction P) (auto simp: matches_def)
  then show ?thesis by (cases "map_of P i") (simp_all add: umap_get_def zero_Progress_def)
qed

lemma log_view_match: "log_view r = log_view s \<Longrightarrow> p_match (prs_at i r) = p_match (prs_at i s)"
  by (simp add: prs_at_def match_of_matches log_view_def)

lemma leaderAppResp_match:
  assumes "leaderAppResp E msg r = Some r'" and "\<not> m_reject msg"
  shows "p_match (prs_at (m_from msg) r') = max (p_match (prs_at (m_from msg) r)) (m_index msg)"
proof -
  let ?i = "m_from msg"
  let ?s = "prs_upd ?i setRecentActive r"
  obtain b p where bp: "maybeUpdate (m_index msg) (prs_at ?i ?s) = (b, p)" by fastforce
  let ?u = "prs_upd ?i (\<lambda>_. p) ?s"
  have at: "prs_at ?i (prs_upd ?i f t) = f (prs_at ?i t)" for f t
    by (simp add: prs_upd_def prs_at_def umap_get_set)
  have p: "p_match p = max (p_match (prs_at ?i r)) (m_index msg)"
    using maybeUpdate_match [of "m_index msg" "prs_at ?i ?s"] bp by (simp add: at)
  then have u: "p_match (prs_at ?i ?u) = max (p_match (prs_at ?i r)) (m_index msg)" by (simp add: at)
  consider "r' = ?u"
    | t w where "maybeCommit (ackTransition ?i ?u) = Some (t, w)"
      "(if t then bcastAppend E w else Some w) = Some r'"
    using assms bp by (auto simp: leaderAppResp_def Let_def bind_eq_Some_conv split: if_splits)
  then show ?thesis
  proof cases
    case (2 t w)
    have "p_match (prs_at ?i (ackTransition ?i ?u)) = p_match (prs_at ?i ?u)"
      by (simp add: ackTransition_def at split: ProgressStateType.split)
    moreover have "prs_at ?i w = prs_at ?i (ackTransition ?i ?u)"
      using maybeCommit_form [OF 2(1)] by (auto simp: prs_at_def)
    moreover have "log_view r' = log_view w"
      using 2(2) by (cases t) (auto simp: log_view_bcastAppend)
    ultimately show ?thesis using u log_view_match by metis
  qed (use u in simp)
qed

lemma stepLeader_ack_match:
  assumes "stepLeader E msg r = Some r'" and "m_type msg = MsgAppResp" and "\<not> m_reject msg"
    and h: "umap_has (m_from msg) (r_prs r)"
  shows "p_match (prs_at (m_from msg) r') = max (p_match (prs_at (m_from msg) r)) (m_index msg)"
proof -
  obtain u where u: "leaderAppResp E msg r = Some u" "leaderHeartbeatResp E msg u = Some r'"
    using assms by (auto simp: stepLeader_def bind_eq_Some_conv)
  have "log_view r' = log_view u"
    using log_view_heartbeatResp [OF u(2)] leaderAppResp_commit [OF u(1) h] by blast
  then show ?thesis using leaderAppResp_match [OF u(1) assms(3)] log_view_match by metis
qed

subsection \<open>One append message\<close>

definition payload :: "Entry \<Rightarrow> u64 \<times> u64 \<times> bytes" where
  "payload e = (e_index e, e_term e, e_data e)"

lemma payload_copied [simp]: "payload (copied_entry (sent_entry e)) = payload e"
  by (simp add: payload_def copied_entry_def sent_entry_def)

lemma entries_from_drop:
  assumes "length es \<le> 2147483647" and "unat n \<le> length es"
  shows "entries_from n es = Some (drop (unat n) es)"
proof -
  have n: "unat n < 2147483648" using assms by linarith
  have "int (unat n) < 2147483648" using n by linarith
  then have b: "uint n < 2147483648" by (simp only: uint_nat)
  have "uint (i32_of_u64 n) = uint n" using b
    by (simp add: i32_of_u64_def unsigned_ucast_eq take_bit_int_eq_self)
  moreover have "- 2147483648 \<le> uint n" using uint_ge_0 [of n] by linarith
  ultimately have s: "sint (i32_of_u64 n) = int (unat n)"
    using b by (simp add: sint_uint signed_take_bit_int_eq_self)
  show ?thesis using assms by (auto simp: entries_from_def Let_def s simp del: of_nat_unat)
qed

text \<open>
  The message \<open>sendAppend\<close> puts at the end of the send queue, handled by a follower that
  agrees with the leader on the first entries.
\<close>

lemma sendAppend_tail:
  assumes h: "umap_has to (r_prs L)" and len: "length (r_entries L) \<le> 2147483647"
    and n: "unat (p_next (prs_at to L) - 1) \<le> length (r_entries L)"
    and sent: "sendAppend E to L = Some L'"
  shows "\<exists>t. prev_term E (p_next (prs_at to L) - 1) L = Some t \<and>
    r_sendmsgs L' = r_sendmsgs L @
      [append_msg to t (drop (unat (p_next (prs_at to L) - 1)) (r_entries L)) L]"
proof -
  let ?n = "p_next (prs_at to L) - 1"
  have es: "entries_from ?n (r_entries L) = Some (drop (unat ?n) (r_entries L))"
    by (rule entries_from_drop [OF len n])
  obtain t where t: "prev_term E ?n L = Some t"
    using sent unfolding sendAppend_form [OF h] by (auto split: option.splits)
  have "L' = send (append_msg to t (drop (unat ?n) (r_entries L)) L)
      (optimistic to (drop (unat ?n) (r_entries L)) L)"
    using sent unfolding sendAppend_form [OF h] t es by (simp split: if_splits)
  then show ?thesis using t
    by (intro exI [of _ t]) (simp add: send_def optimistic_def prs_upd_def)
qed

lemma generalStep_follower_app:
  assumes "m_type msg = MsgApp" and "m_term msg = 0" and "r_step F = StepFollower"
  shows "generalStep E msg F =
    Some (handleAppendEntries msg (F\<lparr>r_electionElapsed := 0, r_leader := m_from msg\<rparr>))"
  using assms by (simp add: generalStep_def dispatch_def run_step_def stepFollower_def Let_def)

lemma append_msg_sel [simp]:
  "m_type (append_msg to t es r) = MsgApp" "m_term (append_msg to t es r) = 0"
  "m_from (append_msg to t es r) = r_id r" "m_to (append_msg to t es r) = to"
  "m_index (append_msg to t es r) = p_next (prs_at to r) - 1"
  "m_logterm (append_msg to t es r) = t" "m_entries (append_msg to t es r) = map sent_entry es"
  "m_commit (append_msg to t es r) = r_commitIndex r"
  by (simp_all add: append_msg_def)

lemma append_delivered:
  assumes n: "unat (p_next (prs_at f L) - 1) \<le> length (r_entries L)"
    and len: "length (r_entries L) < 2 ^ 64" "length (r_entries F) < 2 ^ 64"
    and pos: "r_entries L \<noteq> []"
    and ready: "r_step F = StepFollower" "r_currentTerm F = t"
      "r_commitIndex F \<le> p_next (prs_at f L) - 1"
    and agree: "map payload (take (unat (p_next (prs_at f L) - 1)) (r_entries F)) =
      map payload (take (unat (p_next (prs_at f L) - 1)) (r_entries L))"
  shows "\<exists>F' ack. generalStep E
      (append_msg f t (drop (unat (p_next (prs_at f L) - 1)) (r_entries L)) L) F = Some F' \<and>
    map payload (r_entries F') = map payload (r_entries L) \<and>
    r_sendmsgs F' = r_sendmsgs F @ [ack] \<and> m_type ack = MsgAppResp \<and> \<not> m_reject ack \<and>
    m_from ack = r_id F \<and> m_to ack = r_id L \<and> m_term ack = 0 \<and>
    m_index ack = sz (r_entries L) \<and> r_commitIndex F' = r_commitIndex F"
proof -
  let ?k = "p_next (prs_at f L) - 1"
  let ?m = "append_msg f t (drop (unat ?k) (r_entries L)) L"
  let ?F = "F\<lparr>r_electionElapsed := 0, r_leader := m_from ?m\<rparr>"
  have kF: "unat ?k \<le> length (r_entries F)"
    using arg_cong [OF agree, of length] n by simp
  have fits: "append_fits ?m ?F" using kF ready by (simp add: append_fits_def)
  have ix: "?k + sz (drop (unat ?k) (r_entries L)) = sz (r_entries L)"
  proof (rule word_unat_eq_iff [THEN iffD2])
    have "unat (sz (drop (unat ?k) (r_entries L))) = length (r_entries L) - unat ?k"
      using len by (subst unat_sz) auto
    then show "unat (?k + sz (drop (unat ?k) (r_entries L))) = unat (sz (r_entries L))"
      using n len by (simp add: unat_plus_if' unat_sz)
  qed
  have nz: "sz (r_entries L) \<noteq> 0"
    using pos unat_sz [OF len(1)] by auto
  have "map payload (appended ?m ?F) =
      map payload (take (unat ?k) (r_entries F)) @ map payload (drop (unat ?k) (r_entries L))"
    by (simp add: appended_def)
  also have "\<dots> = map payload (take (unat ?k) (r_entries L) @ drop (unat ?k) (r_entries L))"
    by (simp only: agree map_append)
  finally have es: "map payload (appended ?m ?F) = map payload (r_entries L)"
    by (simp only: append_take_drop_id)
  have "sz (map sent_entry (drop (unat ?k) (r_entries L))) = sz (drop (unat ?k) (r_entries L))"
    by (simp add: sz_def)
  then have "handleAppendEntries ?m ?F =
      (send (app_reply ?m (sz (r_entries L)) False ?F) (?F\<lparr>r_entries := appended ?m ?F\<rparr>))
        \<lparr>r_Ready := True\<rparr>"
    using fits ready(3) nz ix len(2)
    by (subst handleAppendEntries_form) (simp_all add: not_less)
  moreover have "generalStep E ?m F = Some (handleAppendEntries ?m ?F)"
    by (rule generalStep_follower_app) (simp_all add: ready)
  ultimately show ?thesis using es by (simp add: send_def app_reply_def)
qed

text \<open>
  A follower in another term than the entry before the appended ones refuses, and the refusal
  changes nothing of what the leader knows to be acknowledged.
\<close>

lemma append_refused:
  assumes "length (r_entries F) < 2 ^ 64" and "r_step F = StepFollower" and "t \<noteq> r_currentTerm F"
    and "r_commitIndex F \<le> p_next (prs_at f L) - 1"
  shows "\<exists>F' ack. generalStep E (append_msg f t es L) F = Some F' \<and> r_entries F' = r_entries F \<and>
    r_sendmsgs F' = r_sendmsgs F @ [ack] \<and> m_type ack = MsgAppResp \<and> m_reject ack \<and>
    m_from ack = r_id F \<and> m_term ack = 0"
proof -
  let ?m = "append_msg f t es L"
  let ?F = "F\<lparr>r_electionElapsed := 0, r_leader := m_from ?m\<rparr>"
  have "generalStep E ?m F = Some (handleAppendEntries ?m ?F)"
    by (rule generalStep_follower_app) (simp_all add: assms)
  moreover have "handleAppendEntries ?m ?F = send (app_reply ?m (m_index ?m) True ?F) ?F"
    using assms by (subst handleAppendEntries_form) (auto simp: append_fits_def not_less)
  ultimately show ?thesis by (simp add: send_def app_reply_def)
qed

lemma stepLeader_nack_match:
  assumes "stepLeader E msg r = Some r'" and "m_type msg = MsgAppResp" and "m_reject msg"
    and h: "umap_has (m_from msg) (r_prs r)"
  shows "p_match (prs_at (m_from msg) r') = p_match (prs_at (m_from msg) r)"
proof -
  let ?u = "prs_upd (m_from msg) setRecentActive r"
  have u: "leaderHeartbeatResp E msg ?u = Some r'"
    using assms by (simp add: stepLeader_def leaderAppResp_def Let_def)
  have "umap_has (m_from msg) (r_prs ?u)" using h by (simp add: prs_upd_def umap_has_set)
  then have "log_view r' = log_view ?u" by (rule log_view_heartbeatResp [OF u])
  then have "p_match (prs_at (m_from msg) r') = p_match (prs_at (m_from msg) ?u)" by (rule log_view_match)
  then show ?thesis by simp
qed

end
