(* ===== verification/Raft_Node.thy ===== *)
theory Raft_Node
  imports Raft_Replication
begin

text \<open>
  One node over its life: the operations that the threads of \<^verbatim>\<open>sapphiredb/raft/node.cc\<close>
  call on the \<open>Raft\<close> object, as a step relation \<open>node_op\<close>, the states they reach from
  the constructor, and the invariants of those states. Ticks alone: a follower whose
  timer runs out is the leader of the next term.
\<close>

subsection \<open>Operations and reachable states\<close>

text \<open>
  What \<open>Node::init\<close> does to the \<open>Raft\<close> object: \<open>stepDown(1, 0)\<close>, then \<open>addNode\<close> and
  \<open>sendAddNode\<close> for every peer of the configuration.
\<close>

definition init_raft :: "u64 list \<Rightarrow> raft \<Rightarrow> raft" where
  "init_raft peers r = fold (\<lambda>p r. sendAddNode p (addNode p r)) peers (stepDown 1 0 r)"

text \<open>
  The persisting thread calls \<open>storageLog\<close> and then clears \<open>Ready\<close>; other threads may act
  between the two, so they are two operations.
\<close>

definition clearReady :: "raft \<Rightarrow> raft" where
  "clearReady r = r\<lparr>r_Ready := False\<rparr>"

inductive node_op :: "env \<Rightarrow> raft \<Rightarrow> raft \<Rightarrow> bool" for E :: env where
  op_tick: "tickNode E r = Some r' \<Longrightarrow> node_op E r r'"
| op_step: "stepNode E r = Some r' \<Longrightarrow> node_op E r r'"
| op_send: "tryPopSendbuf E r = (d, r') \<Longrightarrow> node_op E r r'"
| op_recv: "tryPushRecvbuf E data r = (b, r') \<Longrightarrow> node_op E r r'"
| op_propose: "propose op r = (b, r') \<Longrightarrow> node_op E r r'"
| op_unknown: "popUnknownid r = Some (i, r') \<Longrightarrow> node_op E r r'"
| op_store: "storageLog E r = Some r' \<Longrightarrow> node_op E r r'"
| op_clear: "r' = clearReady r \<Longrightarrow> node_op E r r'"

inductive_cases node_op_elim: "node_op E r r'"

inductive reachable :: "env \<Rightarrow> raft \<Rightarrow> bool" for E :: env where
  reach_init: "new_Raft E nid heartbeatTimeout electionTimeout rnd f = Some r \<Longrightarrow>
    reachable E (init_raft peers r)"
| reach_op: "reachable E r \<Longrightarrow> node_op E r r' \<Longrightarrow> reachable E r'"

subsection \<open>Ticks as sequences of moves\<close>

lemma tickHeartbeat_moves:
  assumes "tickHeartbeat E r = Some r'"
  shows "\<exists>m1 m2 e h s k. m_type m1 = MsgCheckQuorum \<and> m_type m2 = MsgBeat \<and>
    moves m1 (r\<lparr>r_heartbeatElapsed := h, r_electionElapsed := e\<rparr>) s \<and>
    moves m2 (s\<lparr>r_heartbeatElapsed := k\<rparr>) r'"
proof -
  let ?a = "r\<lparr>r_heartbeatElapsed := r_heartbeatElapsed r + 1\<rparr>"
  let ?b = "?a\<lparr>r_electionElapsed := r_electionElapsed ?a + 1\<rparr>"
  let ?c = "?b\<lparr>r_electionElapsed := 0\<rparr>"
  let ?m1 = "new_Message\<lparr>m_from := r_id ?c, m_type := MsgCheckQuorum\<rparr>"
  obtain s where s: "(if r_electionElapsed ?b \<ge> r_electionTimeout ?b
           then if r_checkQuorum ?c then generalStep E ?m1 ?c else Some ?c
           else Some ?b) = Some s"
    and fin: "(if r_state s \<noteq> STATE_LEADER then Some s
     else if r_heartbeatElapsed s \<ge> r_heartbeatTimeout s
     then generalStep E (new_Message\<lparr>m_from := r_id s, m_type := MsgBeat\<rparr>)
            (s\<lparr>r_heartbeatElapsed := 0\<rparr>) else Some s) = Some r'"
    using assms unfolding tickHeartbeat_def Let_def bind_eq_Some_conv by blast
  from s consider "s = ?b" | "s = r\<lparr>r_heartbeatElapsed := r_heartbeatElapsed r + 1, r_electionElapsed := 0\<rparr>"
    | "generalStep E ?m1 (r\<lparr>r_heartbeatElapsed := r_heartbeatElapsed r + 1, r_electionElapsed := 0\<rparr>) = Some s"
    by (auto split: if_splits)
  then have rs: "\<exists>h e. moves ?m1 (r\<lparr>r_heartbeatElapsed := h, r_electionElapsed := e\<rparr>) s"
    by cases (metis moves_refl, metis moves_refl, metis generalStep_is_moves)
  let ?m2 = "new_Message\<lparr>m_from := r_id s, m_type := MsgBeat\<rparr>"
  have same: "s\<lparr>r_heartbeatElapsed := r_heartbeatElapsed s\<rparr> = s" by simp
  have sr: "\<exists>k. moves ?m2 (s\<lparr>r_heartbeatElapsed := k\<rparr>) r'"
    using fin same by (metis generalStep_is_moves moves_refl option.inject)
  from rs sr show ?thesis by (intro exI [of _ ?m1] exI [of _ ?m2]) fastforce
qed

text \<open>What every message and the clocks keep, every tick and every step of the receive queue keeps.\<close>

lemma tickNode_keeps:
  assumes "tickNode E r = Some r'" and I: "I r"
    and mv: "\<And>msg s t. moves msg s t \<Longrightarrow> I s \<Longrightarrow> I t"
    and ck: "\<And>s e. I s \<Longrightarrow> I (s\<lparr>r_electionElapsed := e\<rparr>)"
      "\<And>s h. I s \<Longrightarrow> I (s\<lparr>r_heartbeatElapsed := h\<rparr>)"
  shows "I r'"
proof (cases "r_tick r")
  case TickElection
  with assms(1) have "tickElection E r = Some r'" by (simp add: tickNode_def)
  then show ?thesis using tickElection_is_moves mv ck(1) I by blast
next
  case TickHeartbeat
  with assms(1) have "tickHeartbeat E r = Some r'" by (simp add: tickNode_def)
  then obtain m1 m2 e h s k where m: "moves m1 (r\<lparr>r_heartbeatElapsed := h, r_electionElapsed := e\<rparr>) s"
      "moves m2 (s\<lparr>r_heartbeatElapsed := k\<rparr>) r'"
    using tickHeartbeat_moves by blast
  have "I (r\<lparr>r_heartbeatElapsed := h, r_electionElapsed := e\<rparr>)" by (intro ck I)
  then have "I (s\<lparr>r_heartbeatElapsed := k\<rparr>)" using mv [OF m(1)] ck(2) by blast
  then show ?thesis by (rule mv [OF m(2)])
qed

lemma stepNode_keeps:
  assumes "stepNode E r = Some r'" and "I r"
    and "\<And>msg s t. moves msg s t \<Longrightarrow> I s \<Longrightarrow> I t"
    and "\<And>s q. I s \<Longrightarrow> I (s\<lparr>r_recvmsgs := q\<rparr>)"
  shows "I r'"
  using assms by (auto simp: stepNode_def dest: generalStep_is_moves split: list.splits)

lemma storageLog_stores:
  assumes "storageLog E r = Some r'"
  shows "\<exists>f i. (i = r_commitIndex r \<or> i = r_lastApplied r) \<and>
    r' = r\<lparr>r_storage := f, r_lastApplied := i\<rparr>"
proof -
  from assms obtain f where "r' = appliedTo (r_commitIndex r) (r\<lparr>r_storage := f\<rparr>)"
    by (auto simp: storageLog_def Let_def bind_eq_Some_conv split: if_splits)
      (metis raft.surjective raft.update_convs(13))+
  then have "r' = r\<lparr>r_storage := f, r_lastApplied := r_commitIndex r\<rparr> \<or>
      r' = r\<lparr>r_storage := f, r_lastApplied := r_lastApplied r\<rparr>"
    by (auto simp: appliedTo_def)
  then show ?thesis by blast
qed

text \<open>
  The frame of an operation: a predicate of the fields that the queues and the persisting
  thread do not touch, kept by every message, is kept by every operation.
\<close>

lemma node_op_keeps:
  assumes "node_op E r r'" and I: "I r"
    and mv: "\<And>msg s t. moves msg s t \<Longrightarrow> I s \<Longrightarrow> I t"
    and rq: "\<And>s q. I s \<Longrightarrow> I (s\<lparr>r_recvmsgs := q\<rparr>)"
    and sq: "\<And>s q. I s \<Longrightarrow> I (s\<lparr>r_sendmsgs := q\<rparr>)"
    and uq: "\<And>s q. I s \<Longrightarrow> I (s\<lparr>r_unknownid := q\<rparr>)"
    and ck: "\<And>s e. I s \<Longrightarrow> I (s\<lparr>r_electionElapsed := e\<rparr>)"
      "\<And>s h. I s \<Longrightarrow> I (s\<lparr>r_heartbeatElapsed := h\<rparr>)"
    and ap: "\<And>s f i. I s \<Longrightarrow> i = r_commitIndex s \<or> i = r_lastApplied s \<Longrightarrow>
      I (s\<lparr>r_storage := f, r_lastApplied := i\<rparr>)"
    and cl: "\<And>s. I s \<Longrightarrow> I (s\<lparr>r_Ready := False\<rparr>)"
  shows "I r'"
  using assms(1)
proof cases
  case op_tick
  then show ?thesis using tickNode_keeps [of E r r' I] I mv ck by blast
next
  case op_step
  then show ?thesis using stepNode_keeps [of E r r' I] I mv rq by blast
next
  case (op_send d)
  then show ?thesis using I sq by (auto simp: tryPopSendbuf_def split: list.splits)
next
  case (op_recv data b)
  then show ?thesis using I rq by (auto simp: tryPushRecvbuf_def split: if_splits)
next
  case (op_propose op b)
  then show ?thesis using I rq by (auto simp: propose_def split: if_splits)
next
  case (op_unknown i)
  then show ?thesis using I uq by (auto simp: popUnknownid_def split: list.splits)
next
  case op_store
  then show ?thesis using storageLog_stores [of E r r'] ap I by blast
next
  case op_clear
  then show ?thesis using cl [OF I] by (simp add: clearReady_def)
qed

subsection \<open>Invariants of the reachable states\<close>

lemma role_ok_upd [simp]:
  "role_ok (r\<lparr>r_votes := V\<rparr>) = role_ok r" "role_ok (r\<lparr>r_recvmsgs := q\<rparr>) = role_ok r"
  "role_ok (r\<lparr>r_sendmsgs := q\<rparr>) = role_ok r" "role_ok (r\<lparr>r_unknownid := u\<rparr>) = role_ok r"
  "role_ok (r\<lparr>r_storage := f\<rparr>) = role_ok r" "role_ok (r\<lparr>r_lastApplied := i\<rparr>) = role_ok r"
  "role_ok (r\<lparr>r_Ready := b\<rparr>) = role_ok r" "role_ok (r\<lparr>r_prs := P\<rparr>) = role_ok r"
  "role_ok (r\<lparr>r_electionElapsed := e\<rparr>) = role_ok r"
  "role_ok (r\<lparr>r_heartbeatElapsed := e\<rparr>) = role_ok r"
  by (simp_all add: role_ok_def split: State.split)

text \<open>What the constructor and \<open>init\<close> establish.\<close>

definition node_ok :: "raft \<Rightarrow> bool" where
  "node_ok r = (role_ok r \<and> maps_ok r \<and> applied_ok r \<and> r_pub_prs r = [] \<and> \<not> r_checkQuorum r)"

lemma new_Raft_form:
  assumes "new_Raft E nid hb el rnd f = Some r"
  shows "\<exists>i c. r = (resetRandomizedElectionTimeout (raft_blank nid hb el rnd f))
    \<lparr>r_offset := i, r_commitIndex := c, r_lastApplied := c\<rparr>"
proof -
  let ?b = "resetRandomizedElectionTimeout (raft_blank nid hb el rnd f)"
  have b: "?b\<lparr>r_offset := i, r_commitIndex := 0, r_lastApplied := 0\<rparr> = ?b\<lparr>r_offset := i\<rparr>" for i
    by (simp add: role_defs raft_blank_def)
  have c: "\<exists>i c. ?b\<lparr>r_offset := k\<rparr> = ?b\<lparr>r_offset := i, r_commitIndex := c, r_lastApplied := c\<rparr>" for k
    using b by metis
  show ?thesis
    using assms c by (auto simp: new_Raft_def Let_def bind_eq_Some_conv split: if_splits)
qed

lemma raft_blank_sel [simp]:
  "role_ok (raft_blank nid hb el rnd f)" "maps_ok (raft_blank nid hb el rnd f)"
  "r_pub_prs (raft_blank nid hb el rnd f) = []" "\<not> r_checkQuorum (raft_blank nid hb el rnd f)"
  "r_votes (raft_blank nid hb el rnd f) = []" "r_prs (raft_blank nid hb el rnd f) = []"
  "r_state (raft_blank nid hb el rnd f) = STATE_FOLLOWER"
  "r_sendmsgs (raft_blank nid hb el rnd f) = []" "r_snap (raft_blank nid hb el rnd f) = Wild"
  "r_entries (raft_blank nid hb el rnd f) = []" "r_rand (raft_blank nid hb el rnd f) = rnd"
  "r_electionTimeout (raft_blank nid hb el rnd f) = el" "r_id (raft_blank nid hb el rnd f) = nid"
  by (simp_all add: raft_blank_def role_ok_def maps_ok_def umap_ok_def)

lemma role_ok_upd_index [simp]:
  "role_ok (r\<lparr>r_offset := i\<rparr>) = role_ok r" "role_ok (r\<lparr>r_commitIndex := c\<rparr>) = role_ok r"
  "role_ok (r\<lparr>r_randomizedElectionTimeout := t\<rparr>) = role_ok r"
  "role_ok (r\<lparr>r_draws := n\<rparr>) = role_ok r" "role_ok (r\<lparr>r_static := d\<rparr>) = role_ok r"
  by (simp_all add: role_ok_def split: State.split)

lemma new_Raft_ok:
  assumes "new_Raft E nid hb el rnd f = Some r"
  shows "node_ok r" and "r_votes r = []" and "r_prs r = []" and "r_state r = STATE_FOLLOWER"
    and "r_sendmsgs r = []" and "r_snap r = Wild" and "r_entries r = []"
  using new_Raft_form [OF assms]
  by (auto simp: resetRandomizedElectionTimeout_def Raft_rand_def Let_def node_ok_def applied_ok_def,
      auto simp: maps_ok_def umap_ok_def)

lemma init_raft_keeps:
  assumes "I (stepDown 1 0 r)" and "\<And>p s. I s \<Longrightarrow> I (addNode p s)" and "\<And>m s. I s \<Longrightarrow> I (send m s)"
  shows "I (init_raft peers r)"
proof -
  have "I s \<Longrightarrow> I (fold (\<lambda>p r. sendAddNode p (addNode p r)) peers s)" for s
    by (induction peers arbitrary: s) (auto simp: sendAddNode_def assms(2,3))
  then show ?thesis by (simp add: init_raft_def assms(1))
qed

lemma reachable_keeps:
  assumes "reachable E r"
    and new: "\<And>nid hb el rnd f r. new_Raft E nid hb el rnd f = Some r \<Longrightarrow> I (stepDown 1 0 r)"
    and ad: "\<And>p s. I s \<Longrightarrow> I (addNode p s)" and sd: "\<And>m s. I s \<Longrightarrow> I (send m s)"
    and op: "\<And>s t. node_op E s t \<Longrightarrow> I s \<Longrightarrow> I t"
  shows "I r"
  using assms(1)
  by (induction rule: reachable.induct) (blast intro: init_raft_keeps new ad sd op)+

lemma moves_node_ok: "moves msg r r' \<Longrightarrow> node_ok r \<Longrightarrow> node_ok r'"
  using moves_frame [of msg r r'] call_invariants
  by (auto simp: node_ok_def frame_of_def)

lemma node_ok_upd [simp]:
  "node_ok (r\<lparr>r_recvmsgs := q\<rparr>) = node_ok r" "node_ok (r\<lparr>r_sendmsgs := q\<rparr>) = node_ok r"
  "node_ok (r\<lparr>r_unknownid := u\<rparr>) = node_ok r" "node_ok (r\<lparr>r_electionElapsed := e\<rparr>) = node_ok r"
  "node_ok (r\<lparr>r_heartbeatElapsed := e\<rparr>) = node_ok r" "node_ok (r\<lparr>r_Ready := b\<rparr>) = node_ok r"
  by (simp_all add: node_ok_def maps_ok_def applied_ok_def)

lemma node_ok_persisted:
  "node_ok r \<Longrightarrow> i = r_commitIndex r \<or> i = r_lastApplied r \<Longrightarrow>
   node_ok (r\<lparr>r_storage := f, r_lastApplied := i\<rparr>)"
  by (auto simp: node_ok_def maps_ok_def applied_ok_def)

lemma node_op_ok:
  assumes "node_op E r r'" and "node_ok r"
  shows "node_ok r'"
  by (rule node_op_keeps [of E r r' node_ok, OF assms moves_node_ok])
    (simp_all add: node_ok_persisted)

lemma node_ok_addNode: "node_ok r \<Longrightarrow> node_ok (addNode p r)"
  using frame_prs(3) [of p r] by (auto simp: node_ok_def applied_ok_def frame_of_def)

lemma node_ok_send: "node_ok r \<Longrightarrow> node_ok (send m r)"
  by (simp add: send_def)

lemma node_ok_stepDown: "node_ok r \<Longrightarrow> node_ok (stepDown t l r)"
  using stepDown_sel(13) [of t l r]
  by (auto simp: node_ok_def maps_ok_def applied_ok_def frame_of_def)

lemma reachable_node_ok: "reachable E r \<Longrightarrow> node_ok r"
  by (erule reachable_keeps)
    (auto simp: new_Raft_ok node_ok_stepDown node_ok_addNode node_ok_send node_op_ok)

text \<open>
  Elections. The quorum of the public map \<open>prs\<close>, which nothing fills, is 1: a node that
  starts an election is leader before \<open>generalStep\<close> returns.
\<close>

definition solo :: "raft \<Rightarrow> bool" where
  "solo r = (role_ok r \<and> r_pub_prs r = [] \<and> (r_votes r = [] \<or> r_votes r = [(r_id r, 1)]) \<and>
     (r_state r = STATE_LEADER \<or> r_state r = STATE_FOLLOWER))"

lemma solo_step: "solo r \<Longrightarrow> r_step r \<noteq> StepCandidate"
  by (auto simp: solo_def role_ok_def)

lemma solo_stepDown [simp]: "solo r \<Longrightarrow> solo (stepDown t l r)"
  using stepDown_sel(13) [of t l r] by (auto simp: solo_def frame_of_def)

lemma solo_move:
  assumes "node_move msg r r'" and "m_type msg \<noteq> MsgHup" and solo: "solo r"
  shows "solo r'"
proof -
  have ok: "role_ok r'" using role_inv.keeps [OF assms(1)] solo by (simp add: solo_def)
  have fr: "frame_of r' = frame_of r" using frame_inv.keeps [OF assms(1)] by blast
  have "(r_votes r' = r_votes r) \<and> (r_state r' = r_state r \<or> r_state r' = STATE_FOLLOWER)"
    using assms(1)
  proof cases
    case mv_leader
    with solo have "r_state r = STATE_LEADER" by (simp add: solo_def)
    then show ?thesis by (simp add: mv_leader becomeLeader_def Let_def)
  qed (use assms solo_step [OF solo] in \<open>auto simp: send_def pushUnknownid_def\<close>)
  with ok fr solo show ?thesis by (auto simp: solo_def frame_of_def)
qed

lemma solo_moves: "moves msg r r' \<Longrightarrow> m_type msg \<noteq> MsgHup \<Longrightarrow> solo r \<Longrightarrow> solo r'"
  unfolding moves_def by (induction rule: rtranclp_induct) (auto intro: solo_move)

text \<open>What an election leaves.\<close>

lemma handleHup_follower:
  assumes solo: "solo r" and f: "r_state r = STATE_FOLLOWER"
  shows "r_state (handleHup r) = STATE_LEADER" and "r_currentTerm (handleHup r) = r_currentTerm r + 1"
    and "r_leader (handleHup r) = r_id r" and "r_sendmsgs (handleHup r) = r_sendmsgs r"
    and "r_votes (handleHup r) = [(r_id r, 1)]" and "r_id (handleHup r) = r_id r"
    and "role_ok (handleHup r)" and "r_pub_prs (handleHup r) = []"
proof -
  let ?c = "(becomeCandidate r)\<lparr>r_votes := [(r_id r, 1)]\<rparr>"
  have h: "handleHup r = becomeLeader ?c"
    by (rule handleHup_wins) (use solo f in \<open>simp_all add: solo_def\<close>)
  have c: "r_state ?c = STATE_CANDIDATE" using f by (simp add: becomeCandidate_def Let_def)
  have ok: "role_ok ?c" using role_ok_becomeCandidate [of r] solo by (simp add: solo_def)
  show "r_state (handleHup r) = STATE_LEADER" "r_leader (handleHup r) = r_id r"
    unfolding h using c by (simp_all add: becomeLeader_def Let_def)
  show "r_currentTerm (handleHup r) = r_currentTerm r + 1"
    "r_sendmsgs (handleHup r) = r_sendmsgs r" "r_votes (handleHup r) = [(r_id r, 1)]"
    "r_id (handleHup r) = r_id r"
    unfolding h using f by simp_all
  show "role_ok (handleHup r)" unfolding h by (rule role_ok_becomeLeader [OF ok])
  show "r_pub_prs (handleHup r) = []"
    using becomeLeader_sel(8) [of ?c] becomeCandidate_sel(8) [of r] solo
    by (simp add: h frame_of_def solo_def)
qed

lemma solo_handleHup: "solo r \<Longrightarrow> solo (handleHup r)"
  using handleHup_follower [of r]
  by (cases "r_state r = STATE_LEADER") (auto simp: solo_def handleHup_def)

lemma solo_generalStep:
  assumes "generalStep E msg r = Some r'" and "solo r"
  shows "solo r'"
proof (cases "m_type msg = MsgHup")
  case True
  then have "r' = handleHup r \<or> r' = handleHup (stepDown (m_term msg) (m_from msg) r) \<or> r' = r"
    using assms(1) by (auto simp: generalStep_def dispatch_def split: if_splits)
  then show ?thesis using assms(2) solo_handleHup solo_stepDown by blast
qed (use assms solo_moves [OF generalStep_is_moves] in blast)

lemma solo_upd [simp]:
  "solo (r\<lparr>r_recvmsgs := q\<rparr>) = solo r" "solo (r\<lparr>r_sendmsgs := q\<rparr>) = solo r"
  "solo (r\<lparr>r_unknownid := u\<rparr>) = solo r" "solo (r\<lparr>r_electionElapsed := e\<rparr>) = solo r"
  "solo (r\<lparr>r_heartbeatElapsed := e\<rparr>) = solo r"
  "solo (r\<lparr>r_storage := f, r_lastApplied := i\<rparr>) = solo r" "solo (r\<lparr>r_Ready := b\<rparr>) = solo r"
  by (simp_all add: solo_def)

lemma solo_tickNode:
  assumes "tickNode E r = Some r'" and "solo r"
  shows "solo r'"
proof (cases "r_tick r")
  case TickElection
  with assms show ?thesis
    by (auto simp: tickNode_def tickElection_def Let_def split: if_splits intro: solo_generalStep)
next
  case TickHeartbeat
  then obtain m1 m2 e h s k where m: "m_type m1 = MsgCheckQuorum" "m_type m2 = MsgBeat"
      "moves m1 (r\<lparr>r_heartbeatElapsed := h, r_electionElapsed := e\<rparr>) s"
      "moves m2 (s\<lparr>r_heartbeatElapsed := k\<rparr>) r'"
    using tickHeartbeat_moves [of E r r'] assms(1) by (auto simp: tickNode_def)
  have "solo s" using solo_moves [OF m(3)] m(1) assms(2) by simp
  then show ?thesis using solo_moves [OF m(4)] m(2) by simp
qed

lemma solo_stepNode:
  assumes "stepNode E r = Some r'" and "solo r"
  shows "solo r'"
  using assms by (auto simp: stepNode_def intro: solo_generalStep split: list.splits)

lemma solo_op:
  assumes "node_op E r r'" and "solo r"
  shows "solo r'"
  using assms(1)
proof cases
  case (op_send d)
  then show ?thesis using assms(2) by (auto simp: tryPopSendbuf_def split: list.splits)
next
  case (op_recv data b)
  then show ?thesis using assms(2) by (auto simp: tryPushRecvbuf_def split: if_splits)
next
  case (op_propose op b)
  then show ?thesis using assms(2) by (auto simp: propose_def split: if_splits)
next
  case (op_unknown i)
  then show ?thesis using assms(2) by (auto simp: popUnknownid_def split: list.splits)
next
  case op_store
  then obtain f j where "r' = r\<lparr>r_storage := f, r_lastApplied := j\<rparr>"
    using storageLog_stores by blast
  then show ?thesis using assms(2) by simp
next
  case op_clear
  then show ?thesis using assms(2) by (simp add: clearReady_def)
qed (use assms(2) solo_tickNode solo_stepNode in blast)+

lemma reachable_solo: "reachable E r \<Longrightarrow> solo r"
proof (erule reachable_keeps)
  fix nid hb el rnd f r
  assume n: "new_Raft E nid hb el rnd f = Some r"
  have "r_pub_prs (stepDown 1 0 r) = []"
    using new_Raft_ok(1) [OF n] stepDown_sel(13) [of 1 0 r] by (simp add: node_ok_def frame_of_def)
  then show "solo (stepDown 1 0 r)" using new_Raft_ok [OF n] by (simp add: solo_def)
next
  fix p s assume "solo s" then show "solo (addNode p s)" by (simp add: addNode_def Let_def solo_def)
next
  fix m s assume "solo s" then show "solo (send m s)" by (simp add: send_def)
qed (rule solo_op)

text \<open>
  A leader takes no notice of the heartbeats and appends of its own term, in particular of
  those another leader of the term broadcasts.
\<close>

lemma leader_ignores:
  assumes "r_step r = StepLeader" and "m_type m = MsgHeartbeat \<or> m_type m = MsgApp"
    and "m_term m = 0 \<or> m_term m = r_currentTerm r"
  shows "generalStep E m r = Some r"
  using assms by (auto simp: generalStep_def dispatch_def run_step_def stepLeader_def)

lemma leader_ignores_broadcasts:
  assumes "r_step r = StepLeader" and "broadcasts E s ms" and "m \<in> set ms"
    and "r_currentTerm s = r_currentTerm r"
  shows "generalStep E m r = Some r"
  using broadcasts_kind [OF assms(2,3)] assms(1,4) by (intro leader_ignores) auto

subsection \<open>Histories: what is committed stays\<close>

lemma op_committed_is:
  assumes "node_op E r r'" and "committed_is c X r"
  shows "committed_is c X r'"
  by (rule node_op_keeps [of E r r' "committed_is c X", OF assms moves_committed])
    (simp_all add: committed_is_def)

lemma op_commit_grows:
  assumes "node_op E r r'"
  shows "r_commitIndex r \<le> r_commitIndex r'"
  by (rule node_op_keeps [of E r r' "\<lambda>s. r_commitIndex r \<le> r_commitIndex s", OF assms])
    (auto dest: moves_commit)

interpretation op_commit: monotone_system "node_op E" r_commitIndex
  by unfold_locales (rule op_commit_grows)

interpretation op_committed: invariant_system "node_op E" "committed_is c X"
  by unfold_locales (rule op_committed_is)

subsection \<open>Timers\<close>

text \<open>
  \<open>rand\<close> is asked for values from 0 to the election time-out, from its first call on, so the
  randomised time-out lies between one and two election time-outs.
\<close>

definition static_ok :: "raft \<Rightarrow> bool" where
  "static_ok r = (\<forall>s a b. r_static r = Some (s, a, b) \<longrightarrow> a = 0 \<and> b = r_electionTimeout r)"

definition timer_ok :: "raft \<Rightarrow> bool" where
  "timer_ok r = (static_ok r \<and>
     (rand_ok (r_rand r) \<and> 0 < r_electionTimeout r \<and> unat (r_electionTimeout r) < 2 ^ 31 \<longrightarrow>
       unat (r_electionTimeout r) \<le> unat (r_randomizedElectionTimeout r) \<and>
       unat (r_randomizedElectionTimeout r) < 2 * unat (r_electionTimeout r)))"

lemma timer_ok_draw:
  assumes "static_ok r" and "r_randomizedElectionTimeout r =
    r_electionTimeout r + c_value (r_rand r) s 0 (r_electionTimeout r) k"
  shows "timer_ok r"
proof -
  let ?v = "c_value (r_rand r) s 0 (r_electionTimeout r) k"
  have "unat (r_electionTimeout r) \<le> unat (r_electionTimeout r + ?v) \<and>
      unat (r_electionTimeout r + ?v) < 2 * unat (r_electionTimeout r)"
    if "rand_ok (r_rand r)" "0 < r_electionTimeout r" "unat (r_electionTimeout r) < 2 ^ 31"
  proof -
    have "?v < r_electionTimeout r" using that(1,2) by (simp add: rand_ok_def)
    then have "unat ?v < unat (r_electionTimeout r)" by (simp add: word_less_nat_alt)
    moreover from this that(3) have
      "unat (r_electionTimeout r + ?v) = unat (r_electionTimeout r) + unat ?v"
      by (simp add: unat_plus_if')
    ultimately show ?thesis by linarith
  qed
  then show ?thesis using assms by (simp add: timer_ok_def)
qed

lemma timer_ok_eq:
  assumes "r_randomizedElectionTimeout s = r_randomizedElectionTimeout r"
    and "r_electionTimeout s = r_electionTimeout r" and "r_rand s = r_rand r"
    and "r_static s = r_static r"
  shows "timer_ok s = timer_ok r"
  by (simp add: timer_ok_def static_ok_def assms)

lemma timer_ok_upd [simp]:
  "timer_ok (r\<lparr>r_prs := P\<rparr>) = timer_ok r" "timer_ok (r\<lparr>r_commitIndex := c\<rparr>) = timer_ok r"
  "timer_ok (r\<lparr>r_entries := es\<rparr>) = timer_ok r" "timer_ok (r\<lparr>r_Ready := b\<rparr>) = timer_ok r"
  "timer_ok (r\<lparr>r_electionElapsed := e\<rparr>) = timer_ok r"
  "timer_ok (r\<lparr>r_heartbeatElapsed := e\<rparr>) = timer_ok r"
  "timer_ok (r\<lparr>r_votes := V\<rparr>) = timer_ok r" "timer_ok (r\<lparr>r_vote := v\<rparr>) = timer_ok r"
  "timer_ok (r\<lparr>r_leader := l\<rparr>) = timer_ok r" "timer_ok (r\<lparr>r_currentTerm := t\<rparr>) = timer_ok r"
  "timer_ok (r\<lparr>r_sendmsgs := q\<rparr>) = timer_ok r" "timer_ok (r\<lparr>r_recvmsgs := q\<rparr>) = timer_ok r"
  "timer_ok (r\<lparr>r_unknownid := u\<rparr>) = timer_ok r" "timer_ok (r\<lparr>r_storage := f\<rparr>) = timer_ok r"
  "timer_ok (r\<lparr>r_lastApplied := i\<rparr>) = timer_ok r"
  by (simp_all add: timer_ok_def static_ok_def)

lemma static_ok_timer: "timer_ok r \<Longrightarrow> static_ok r"
  by (simp add: timer_ok_def)

lemma static_ok_upd [simp]: "static_ok (r\<lparr>r_step := p\<rparr>) = static_ok r"
  by (simp add: static_ok_def)

text \<open>Drawing makes the static objects, or finds them right.\<close>

lemma timer_ok_reset:
  assumes "static_ok r"
  shows "timer_ok (reset t r)"
proof -
  obtain s where s: "static_objects 0 (r_electionTimeout r) (c_time (r_rand r) (r_draws r)) r =
      (s, 0, r_electionTimeout r)"
    using assms by (cases "r_static r") (auto simp: static_objects_def static_ok_def)
  have st: "static_objects mi ma se (u\<lparr>r_leader := l, r_electionElapsed := e, r_heartbeatElapsed := h\<rparr>) =
      static_objects mi ma se u"
    and st': "static_objects mi ma se (u\<lparr>r_currentTerm := ct, r_vote := v\<rparr>) = static_objects mi ma se u"
    for u mi ma se l e h ct v
    by (simp_all add: static_objects_def)
  show ?thesis
    by (rule timer_ok_draw [where s = s and k = "r_draws r"])
      (use s in \<open>simp_all add: reset_def resetRandomizedElectionTimeout_def Raft_rand_def Let_def
        static_ok_def static_objects_def split: option.splits\<close>)
qed

lemma timer_ok_stepDown: "static_ok r \<Longrightarrow> timer_ok (stepDown t l r)"
proof -
  assume "static_ok r"
  have "timer_ok (stepDown t l r) = timer_ok (reset t (r\<lparr>r_step := StepFollower\<rparr>))"
    by (rule timer_ok_eq) (simp_all add: stepDown_def Let_def)
  then show ?thesis using \<open>static_ok r\<close> by (simp add: timer_ok_reset)
qed

lemma timer_ok_becomeCandidate: "timer_ok r \<Longrightarrow> timer_ok (becomeCandidate r)"
proof (cases "r_state r = STATE_LEADER")
  case False
  assume "timer_ok r"
  have "timer_ok (becomeCandidate r) =
      timer_ok (reset (r_currentTerm r + 1) (r\<lparr>r_step := StepCandidate\<rparr>))"
    by (rule timer_ok_eq) (simp_all add: becomeCandidate_def Let_def False)
  then show ?thesis using \<open>timer_ok r\<close> by (simp add: timer_ok_reset static_ok_timer)
qed (simp add: becomeCandidate_def)

lemma timer_ok_becomeLeader: "timer_ok r \<Longrightarrow> timer_ok (becomeLeader r)"
proof (cases "r_state r = STATE_FOLLOWER")
  case False
  assume "timer_ok r"
  have "timer_ok (becomeLeader r) = timer_ok (reset (r_currentTerm r) (r\<lparr>r_step := StepLeader\<rparr>))"
    by (rule timer_ok_eq) (simp_all add: becomeLeader_def Let_def False)
  then show ?thesis using \<open>timer_ok r\<close> by (simp add: timer_ok_reset static_ok_timer)
qed (simp add: becomeLeader_def)

interpretation timer_inv: invariant_system "node_move msg" timer_ok
proof
  fix s t
  assume "node_move msg s t" and ok: "timer_ok s"
  then show "timer_ok t"
    by cases (use ok in \<open>simp_all add: prs_touch_def prs_upd_def addNode_def Let_def timer_ok_stepDown timer_ok_becomeCandidate
        timer_ok_becomeLeader static_ok_timer send_def pushUnknownid_def\<close>)
qed

lemma moves_timer_ok: "moves msg r r' \<Longrightarrow> timer_ok r \<Longrightarrow> timer_ok r'"
  unfolding moves_def by (rule timer_inv.keeps_star)

lemma reachable_timer_ok: "reachable E r \<Longrightarrow> timer_ok r"
proof (erule reachable_keeps)
  fix p s assume "timer_ok s" then show "timer_ok (addNode p s)"
    by (simp add: addNode_def Let_def)
next
  fix m s assume "timer_ok s" then show "timer_ok (send m s)"
    by (simp add: send_def)
next
  fix s t assume "node_op E s t" "timer_ok s"
  then show "timer_ok t"
    by (rule node_op_keeps [of E s t timer_ok, OF _ _ moves_timer_ok])
      simp_all
next
  fix nid hb el rnd f s
  assume "new_Raft E nid hb el rnd f = Some s"
  then obtain i c where "s = (resetRandomizedElectionTimeout (raft_blank nid hb el rnd f))
      \<lparr>r_offset := i, r_commitIndex := c, r_lastApplied := c\<rparr>"
    using new_Raft_form by blast
  then have "static_ok s"
    by (simp add: static_ok_def resetRandomizedElectionTimeout_def Raft_rand_def static_objects_def
        raft_blank_def Let_def)
  then show "timer_ok (stepDown 1 0 s)" by (rule timer_ok_stepDown)
qed

subsection \<open>Ticks alone\<close>

fun ticks :: "nat \<Rightarrow> env \<Rightarrow> raft \<Rightarrow> raft option" where
  "ticks 0 E r = Some r"
| "ticks (Suc n) E r = do { r \<leftarrow> tickNode E r; ticks n E r }"

lemma tickElection_early:
  assumes "r_tick r = TickElection"
    and "Suc (unat (r_electionElapsed r)) < unat (r_randomizedElectionTimeout r)"
  shows "tickNode E r = Some (r\<lparr>r_electionElapsed := r_electionElapsed r + 1\<rparr>)"
    and "unat (r_electionElapsed r + 1) = Suc (unat (r_electionElapsed r))"
proof -
  have "unat (r_randomizedElectionTimeout r) < 2 ^ 32"
    using unsigned_less [where w = "r_randomizedElectionTimeout r"] by simp
  then show u: "unat (r_electionElapsed r + 1) = Suc (unat (r_electionElapsed r))"
    using assms(2) by (simp add: unat_plus_if')
  show "tickNode E r = Some (r\<lparr>r_electionElapsed := r_electionElapsed r + 1\<rparr>)"
    using assms u
    by (simp add: tickNode_def tickElection_def Let_def pastElectionTimeout_def word_le_nat_alt)
qed

lemma tickElection_late:
  assumes "r_tick r = TickElection"
    and "Suc (unat (r_electionElapsed r)) = unat (r_randomizedElectionTimeout r)"
  shows "tickNode E r = Some (handleHup (r\<lparr>r_electionElapsed := 0\<rparr>))"
proof -
  have "unat (r_randomizedElectionTimeout r) < 2 ^ 32"
    using unsigned_less [where w = "r_randomizedElectionTimeout r"] by simp
  then have u: "unat (r_electionElapsed r + 1) = Suc (unat (r_electionElapsed r))"
    using assms(2) by (simp add: unat_plus_if')
  then show ?thesis using assms
    by (simp add: tickNode_def tickElection_def Let_def pastElectionTimeout_def word_le_nat_alt
        generalStep_def dispatch_def)
qed

lemma ticks_elect:
  assumes "solo r" and "r_state r = STATE_FOLLOWER"
    and "unat (r_randomizedElectionTimeout r) = unat (r_electionElapsed r) + Suc n"
  shows "ticks (Suc n) E r = Some (handleHup (r\<lparr>r_electionElapsed := 0\<rparr>)) \<and>
    (\<forall>k\<le>n. \<exists>e. ticks k E r = Some (r\<lparr>r_electionElapsed := e\<rparr>))"
  using assms
proof (induction n arbitrary: r)
  case 0
  then have "r_tick r = TickElection" by (simp add: solo_def role_ok_def)
  then have "tickNode E r = Some (handleHup (r\<lparr>r_electionElapsed := 0\<rparr>))"
    by (rule tickElection_late) (use 0 in simp)
  then show ?case by (simp add: exI [of _ "r_electionElapsed r"])
next
  case (Suc n)
  then have t: "r_tick r = TickElection" by (simp add: solo_def role_ok_def)
  let ?s = "r\<lparr>r_electionElapsed := r_electionElapsed r + 1\<rparr>"
  have step: "tickNode E r = Some ?s" "unat (r_electionElapsed r + 1) = Suc (unat (r_electionElapsed r))"
    using tickElection_early [OF t] Suc.prems(3) by auto
  have IH: "ticks (Suc n) E ?s = Some (handleHup (?s\<lparr>r_electionElapsed := 0\<rparr>)) \<and>
      (\<forall>k\<le>n. \<exists>e. ticks k E ?s = Some (?s\<lparr>r_electionElapsed := e\<rparr>))"
    by (rule Suc.IH) (use Suc.prems step(2) in simp_all)
  show ?case
  proof (intro conjI allI impI)
    show "ticks (Suc (Suc n)) E r = Some (handleHup (r\<lparr>r_electionElapsed := 0\<rparr>))"
      using IH step(1) by (simp del: ticks.simps(2) add: ticks.simps(2) [of "Suc n"])
    fix k assume k: "k \<le> Suc n"
    show "\<exists>e. ticks k E r = Some (r\<lparr>r_electionElapsed := e\<rparr>)"
    proof (cases k)
      case 0
      then show ?thesis by (auto intro: exI [of _ "r_electionElapsed r"])
    next
      case (Suc j)
      then obtain e where "ticks j E ?s = Some (?s\<lparr>r_electionElapsed := e\<rparr>)" using IH k by auto
      then show ?thesis using Suc step(1) by (intro exI [of _ e]) simp
    qed
  qed
qed

subsection \<open>The term\<close>

lemma handleHup_term:
  assumes "r_pub_prs r = []" and "r_currentTerm r + 1 \<noteq> 0"
  shows "r_currentTerm r \<le> r_currentTerm (handleHup r)"
proof (cases "r_state r = STATE_LEADER")
  case False
  have f: "r_currentTerm (fold (\<lambda>(nid, _) r. if nid = r_id r then r else send (m nid r) r) xs s) =
      r_currentTerm s" for m :: "u64 \<Rightarrow> raft \<Rightarrow> Message" and xs :: "(u64 \<times> Progress) list" and s
    by (induction xs arbitrary: s) (auto simp: send_def)
  have g: "r_currentTerm (snd (grantMe i v s)) = r_currentTerm s" for i v s
    by (simp add: grantMe_def Let_def)
  obtain n s where ns: "grantMe (r_id (becomeCandidate r)) True (becomeCandidate r) = (n, s)"
    by fastforce
  then have s: "r_currentTerm s = r_currentTerm r + 1"
    using g [of "r_id (becomeCandidate r)" True "becomeCandidate r"] False by simp
  have "r_currentTerm (handleHup r) = r_currentTerm r + 1"
    unfolding handleHup_def Let_def using False ns s
    by (simp add: f [where m = "\<lambda>nid r. new_Message\<lparr>m_term := r_currentTerm r, m_to := nid,
          m_type := MsgVote, m_index := r_lastApplied r, m_logterm := r_commitIndex r,
          m_context := []\<rparr>"])
  then show ?thesis using word_less_plus_one [OF assms(2)] by simp
qed (simp add: handleHup_def)

lemma generalStep_term:
  assumes "generalStep E msg r = Some r'" and "term_safe msg" and "r_pub_prs r = []"
    and "r_currentTerm r + 1 \<noteq> 0" and "m_term msg + 1 \<noteq> 0"
  shows "r_currentTerm r \<le> r_currentTerm r'"
proof (cases "m_type msg = MsgHup")
  case False
  then show ?thesis using moves_term [OF generalStep_is_moves [OF assms(1)] assms(2)] by simp
next
  case True
  let ?d = "stepDown (m_term msg) (m_from msg) r"
  consider "r' = handleHup r" | "r' = handleHup ?d" "r_currentTerm r < m_term msg" | "r' = r"
    using assms(1) True by (auto simp: generalStep_def dispatch_def split: if_splits)
  then show ?thesis
  proof cases
    case 1
    then show ?thesis using handleHup_term assms by simp
  next
    case 2
    have "r_pub_prs ?d = []" using assms(3) stepDown_sel(13) [of "m_term msg" "m_from msg" r]
      by (simp add: frame_of_def)
    then have "r_currentTerm ?d \<le> r_currentTerm (handleHup ?d)"
      using handleHup_term [of ?d] assms(5) by simp
    with 2 show ?thesis by simp
  qed simp
qed

end
