(* ===== verification/Raft_Properties.thy ===== *)
theory Raft_Properties
  imports Raft_Node
begin

text \<open>
  The properties of the consensus component, each with a concrete instance. The library
  that proves them is in the theories \<open>Raft_Moves\<close> to \<open>Raft_Node\<close>.
\<close>

subsection \<open>A sample node\<close>

text \<open>
  The instances start from a node without a storage file; its environment is then not
  consulted.
\<close>

definition sample_env :: env where
  "sample_env = \<lparr>E_codec = \<lparr>ser_Storage = \<lambda>_. [], parse_Storage = \<lambda>_. new_StoragePB,
     ser_HardState = \<lambda>_. [], parse_HardState = \<lambda>_. new_HardState,
     ser_Message = \<lambda>_. [], parse_Message = \<lambda>_. new_Message\<rparr>, E_frame = \<lambda>_. []\<rparr>"

definition sample_node :: "u64 \<Rightarrow> raft" where
  "sample_node nid = init_raft [9] (resetRandomizedElectionTimeout (raft_blank nid 2 3 sample_chance None))"

lemma sample_reachable: "reachable sample_env (sample_node nid)"
proof -
  have "new_Raft sample_env nid 2 3 sample_chance None =
      Some (resetRandomizedElectionTimeout (raft_blank nid 2 3 sample_chance None))"
    by (simp add: new_Raft_def Storage_FirstIndex_def Storage_LastIndex_def Storage_Entries_def
        role_defs raft_blank_def)
  then show ?thesis unfolding sample_node_def by (rule reach_init)
qed

lemma sample_sel [simp]:
  "r_state (sample_node nid) = STATE_FOLLOWER" "r_electionElapsed (sample_node nid) = 0"
  "r_randomizedElectionTimeout (sample_node nid) = 4" "r_currentTerm (sample_node nid) = 1"
  "r_id (sample_node nid) = nid" "r_step (sample_node nid) = StepFollower"
  "r_entries (sample_node nid) = []" "r_commitIndex (sample_node nid) = 0"
  "r_lastApplied (sample_node nid) = 0" "r_vote (sample_node nid) = 0"
  "r_electionTimeout (sample_node nid) = 3" "r_rand (sample_node nid) = sample_chance"
  "r_checkQuorum (sample_node nid) = False" "r_leader (sample_node nid) = 0"
  by (simp_all add: sample_node_def init_raft_def sendAddNode_def send_def addNode_def Let_def
      umap_has_def)
    (simp_all add: role_defs static_objects_def sample_chance_def raft_blank_def)

subsection \<open>Invariants of a node's life\<close>

text \<open>
  C1: In every state a node reaches from its constructor, through any order of ticks,
  received bytes, proposals, steps, sends and persisting, its role, its step and tick
  functions and its leader field agree, its maps have no duplicate keys, it has not
  applied past its commit mark, and it is a leader or a follower with at most its own
  vote recorded: no state between two operations is a candidate.
\<close>

theorem reachable_invariant:
  assumes "reachable E r"
  shows "role_ok r \<and> maps_ok r \<and> r_lastApplied r \<le> r_commitIndex r \<and>
    (r_state r = STATE_LEADER \<or> r_state r = STATE_FOLLOWER) \<and>
    (r_votes r = [] \<or> r_votes r = [(r_id r, 1)])"
  using reachable_node_ok [OF assms] reachable_solo [OF assms]
  by (simp add: node_ok_def solo_def applied_ok_def)

theorem reachable_invariant_witness:
  "role_ok (sample_node 1) \<and> r_state (sample_node 1) = STATE_FOLLOWER"
  using reachable_invariant [OF sample_reachable [of 1]] by simp

text \<open>
  C2: Committed entries are final on a node: whatever operations follow, the commit mark
  does not go back and the entries up to it stay what they were.
\<close>

theorem committed_prefix_final:
  assumes "(node_op E)\<^sup>*\<^sup>* r r'" and "c \<le> unat (r_commitIndex r)" and "c \<le> length (r_entries r)"
  shows "r_commitIndex r \<le> r_commitIndex r' \<and> take c (r_entries r') = take c (r_entries r)"
proof -
  have "committed_is c (take c (r_entries r)) r" using assms by (simp add: committed_is_def)
  then have "committed_is c (take c (r_entries r)) r'" by (rule op_committed.keeps_star [OF assms(1)])
  then show ?thesis using op_commit.grows_star [OF assms(1)] by (simp add: committed_is_def)
qed

theorem committed_prefix_final_witness:
  "\<exists>r'. node_op sample_env ((sample_node 1)\<lparr>r_entries := [new_Entry], r_commitIndex := 1\<rparr>) r' \<and>
    r_recvmsgs r' \<noteq> [] \<and> 1 \<le> r_commitIndex r' \<and> take 1 (r_entries r') = [new_Entry]"
proof -
  let ?r = "(sample_node 1)\<lparr>r_entries := [new_Entry], r_commitIndex := 1\<rparr>"
  let ?s = "snd (propose [7] ?r)"
  have op: "node_op sample_env ?r ?s"
    by (rule op_propose [where op = "[7]" and b = True]) (simp add: propose_def)
  have "r_recvmsgs ?s \<noteq> []" by (simp add: propose_def)
  with op committed_prefix_final [OF r_into_rtranclp [of "node_op sample_env", OF op], of 1] show ?thesis
    by (intro exI [of _ ?s]) simp
qed

text \<open>
  C5: Refinement. A call of \<open>generalStep\<close> that completes is a sequence of the abstract moves of
  \<open>node_move\<close> for the message it handles, each made under its guard. A message is sent only when
  \<open>may_send\<close> allows it: answers go to the sender, heartbeats come from a leader on its own beat,
  appends from no follower. What a member acknowledged is changed only by an acknowledgement
  from it that is higher. A leader commits what \<open>quorum_match\<close> says, a follower what a heartbeat
  says, both only upwards. The log grows by a proposal at a leader, or is replaced at a follower
  from an index that is not below its commit mark. An election needs a \<open>MsgHup\<close>, and a node
  becomes leader with the quorum of its votes only. The term changes to the higher term of the
  message, by one in an election (where it wraps), or to the term field of a heartbeat from
  another sender than the leader, which is the node's term or 0.
\<close>

theorem generalStep_refines:
  assumes "generalStep E msg r = Some r'"
  shows "(node_move msg)\<^sup>*\<^sup>* r r'"
  using generalStep_is_moves [OF assms] by (simp add: moves_def)

theorem generalStep_refines_witness:
  "(node_move (new_Message\<lparr>m_type := MsgHup\<rparr>))\<^sup>*\<^sup>* (sample_node 1) (handleHup (sample_node 1))"
  by (rule generalStep_refines [of sample_env]) (simp add: generalStep_def dispatch_def)

text \<open>
  C20: The term never goes back. Terms wrap at 64 bits, and a heartbeat whose term field
  is 0 would install the term 0, so both are excluded by name.
\<close>

theorem term_never_goes_back:
  assumes "reachable E r" and "generalStep E msg r = Some r'"
    and "m_type msg = MsgHeartbeat \<Longrightarrow> m_term msg \<noteq> 0"
    and "r_currentTerm r + 1 \<noteq> 0" and "m_term msg + 1 \<noteq> 0"
  shows "r_currentTerm r \<le> r_currentTerm r'"
  by (rule generalStep_term [OF assms(2)])
    (use assms reachable_node_ok [OF assms(1)] in \<open>simp_all add: term_safe_def node_ok_def\<close>)

theorem term_never_goes_back_witness:
  "r_currentTerm (sample_node 1) \<le> r_currentTerm (handleHup (sample_node 1))"
  by (rule term_never_goes_back [OF sample_reachable, where msg = "new_Message\<lparr>m_type := MsgHup\<rparr>"])
    (simp_all add: generalStep_def dispatch_def)

subsection \<open>Elections\<close>

text \<open>
  C18: Liveness of the election timer. A follower that hears nothing stays a follower of
  its term until its randomised time-out, and the tick that reaches it makes it the
  leader of the next term. The election sends nothing: the quorum is counted on a map
  that is never filled, so the own vote decides.
\<close>

theorem timeout_elects:
  assumes "reachable E r" and "r_state r = STATE_FOLLOWER"
    and "unat (r_randomizedElectionTimeout r) = unat (r_electionElapsed r) + Suc n"
  shows "(\<forall>k\<le>n. \<exists>s. ticks k E r = Some s \<and> r_state s = STATE_FOLLOWER \<and>
            r_currentTerm s = r_currentTerm r) \<and>
    (\<exists>s. ticks (Suc n) E r = Some s \<and> r_state s = STATE_LEADER \<and>
       r_currentTerm s = r_currentTerm r + 1 \<and> r_leader s = r_id s \<and> r_sendmsgs s = r_sendmsgs r)"
proof -
  let ?s = "r\<lparr>r_electionElapsed := 0\<rparr>"
  have so: "solo r" by (rule reachable_solo [OF assms(1)])
  have h: "solo ?s" "r_state ?s = STATE_FOLLOWER" using so assms(2) by simp_all
  have "ticks (Suc n) E r = Some (handleHup ?s)"
    and "\<forall>k\<le>n. \<exists>e. ticks k E r = Some (r\<lparr>r_electionElapsed := e\<rparr>)"
    using ticks_elect [OF so assms(2,3)] by blast+
  with handleHup_follower [OF h] assms(2) show ?thesis by (auto 4 4)
qed

theorem timeout_elects_witness:
  "\<exists>s. ticks 4 sample_env (sample_node 1) = Some s \<and> r_state s = STATE_LEADER \<and> r_currentTerm s = 2"
  using timeout_elects [OF sample_reachable [of 1], of 3] by (auto simp del: ticks.simps)





text \<open>
  C29: The answer to a vote request, in every term. One of a lower term gets no answer and
  changes nothing; so does one of a higher term while quorum checks are on and the node has
  heard from a leader within its election time-out. Every other request gets exactly one
  \<open>MsgVoteResp\<close>, in the term of the request. It grants exactly when the request is up to date
  and the node had not voted in that term or the sender is not 0, and the node records the
  sender as its vote, and resets its timer, whether it granted or refused. A request of a
  higher term makes the node a follower of that term first.
\<close>

theorem vote_request_outcome:
  assumes "m_type msg = MsgVote"
  shows "if m_term msg \<noteq> 0 \<and> m_term msg < r_currentTerm r \<or>
      m_term msg > r_currentTerm r \<and> r_checkQuorum r \<and> r_leader r \<noteq> 0 \<and>
        r_electionElapsed r < r_electionTimeout r
    then generalStep E msg r = Some r
    else \<exists>r' reply. generalStep E msg r = Some r' \<and>
      r_sendmsgs r' = r_sendmsgs r @ [reply] \<and> m_type reply = MsgVoteResp \<and>
      m_to reply = m_from msg \<and> m_term reply = m_term msg \<and>
      (\<not> m_reject reply \<longleftrightarrow>
         (m_term msg > r_currentTerm r \<or> r_vote r = 0 \<or> m_from msg \<noteq> 0) \<and>
         (m_logterm msg > r_commitIndex r \<or>
          m_logterm msg = r_commitIndex r \<and> m_index msg \<ge> r_lastApplied r)) \<and>
      r_vote r' = m_from msg \<and> r_electionElapsed r' = 0 \<and>
      r_currentTerm r' = max (r_currentTerm r) (m_term msg) \<and>
      r_state r' = (if m_term msg > r_currentTerm r then STATE_FOLLOWER else r_state r)"
proof -
  let ?d = "stepDown (m_term msg) (m_from msg) r"
  have up: "up_to_date msg ?d = up_to_date msg r" by (simp add: up_to_date_def)
  consider (low) "m_term msg \<noteq> 0" "m_term msg < r_currentTerm r"
    | (lease) "m_term msg > r_currentTerm r" "r_checkQuorum r" "r_leader r \<noteq> 0"
        "r_electionElapsed r < r_electionTimeout r"
    | (high) "m_term msg > r_currentTerm r"
        "\<not> (r_checkQuorum r \<and> r_leader r \<noteq> 0 \<and> r_electionElapsed r < r_electionTimeout r)"
    | (same) "m_term msg = 0 \<or> m_term msg = r_currentTerm r"
    by fastforce
  then show ?thesis
  proof cases
    case low
    then show ?thesis using assms by (auto simp: generalStep_def)
  next
    case lease
    then show ?thesis using assms by (auto simp: generalStep_def)
  next
    case high
    then have "m_term msg \<noteq> 0" by auto
    then have "generalStep E msg r = Some (handleVote msg ?d)"
      using assms high by (auto simp: generalStep_def dispatch_def)
    then show ?thesis using high up
      by (auto simp: handleVote_form send_def vote_reply_def vote_granted_def up_to_date_def max_def)
  next
    case same
    then have "generalStep E msg r = Some (handleVote msg r)"
      using assms by (auto simp: generalStep_def dispatch_def)
    then show ?thesis using same
      by (auto simp: handleVote_form send_def vote_reply_def vote_granted_def up_to_date_def max_def)
  qed
qed

theorem vote_request_outcome_witness:
  "\<exists>r' reply. generalStep sample_env (new_Message\<lparr>m_type := MsgVote, m_from := 2, m_term := 5\<rparr>) (sample_node 1) =
      Some r' \<and> r_sendmsgs r' = r_sendmsgs (sample_node 1) @ [reply] \<and> \<not> m_reject reply \<and> r_currentTerm r' = 5"
  using vote_request_outcome [of "new_Message\<lparr>m_type := MsgVote, m_from := 2, m_term := 5\<rparr>" "sample_node 1" sample_env]
  by (auto simp: max_def)

text \<open>
  C19: Two votes in one term. A node that has just granted its vote in a term grants it
  again, in the same term, to a second candidate that is up to date.
\<close>

theorem double_vote:
  assumes "m_type m1 = MsgVote" and "m_type m2 = MsgVote"
    and "m_term m1 = r_currentTerm r" and "m_term m2 = r_currentTerm r"
    and "m_from m1 \<noteq> 0" and "m_from m2 \<noteq> 0"
    and "up_to_date m1 r" and "up_to_date m2 r"
  shows "\<exists>r1 r2 a1 a2. generalStep E m1 r = Some r1 \<and> generalStep E m2 r1 = Some r2 \<and>
    r_sendmsgs r2 = r_sendmsgs r @ [a1, a2] \<and>
    m_type a1 = MsgVoteResp \<and> m_type a2 = MsgVoteResp \<and> \<not> m_reject a1 \<and> \<not> m_reject a2 \<and>
    m_to a1 = m_from m1 \<and> m_to a2 = m_from m2 \<and> m_term a1 = m_term a2"
proof -
  let ?r1 = "handleVote m1 r"
  have e: "generalStep E m r = Some (handleVote m r)"
    if "m_type m = MsgVote" "m_term m = r_currentTerm r" for m r
    using that by (auto simp: generalStep_def dispatch_def)
  have t: "r_currentTerm ?r1 = r_currentTerm r" "up_to_date m2 ?r1 = up_to_date m2 r"
    by (simp_all add: handleVote_form send_def up_to_date_def)
  have "generalStep E m1 r = Some ?r1" "generalStep E m2 ?r1 = Some (handleVote m2 ?r1)"
    using e assms t by simp_all
  moreover have "r_sendmsgs (handleVote m2 ?r1) =
      r_sendmsgs r @ [vote_reply m1 True, vote_reply m2 True]"
    using assms t(2) by (simp add: handleVote_form [of m2] handleVote_form [of m1] send_def
        vote_granted_def up_to_date_def)
  ultimately show ?thesis using assms(3,4) by (auto simp: vote_reply_def)
qed

theorem double_vote_witness:
  "\<exists>r1 r2 a1 a2.
    generalStep sample_env (new_Message\<lparr>m_type := MsgVote, m_from := 2, m_term := 1\<rparr>) (sample_node 1) = Some r1 \<and>
    generalStep sample_env (new_Message\<lparr>m_type := MsgVote, m_from := 3, m_term := 1\<rparr>) r1 = Some r2 \<and>
    r_sendmsgs r2 = r_sendmsgs (sample_node 1) @ [a1, a2] \<and> \<not> m_reject a1 \<and> \<not> m_reject a2 \<and>
    m_to a1 = 2 \<and> m_to a2 = 3"
  using double_vote [of "new_Message\<lparr>m_type := MsgVote, m_from := 2, m_term := 1\<rparr>"
      "new_Message\<lparr>m_type := MsgVote, m_from := 3, m_term := 1\<rparr>" "sample_node 1" sample_env]
  by (auto simp: up_to_date_def)

subsection \<open>Replication\<close>

text \<open>
  C11: The commit rule. When a call raises the commit mark of a leader, every member has
  acknowledged every index up to the new mark: the quorum of the empty public map
  (which it is in every reachable state) picks the smallest acknowledged index.
\<close>

theorem leader_commits_acknowledged:
  assumes "r_pub_prs r = []" and "r_step r = StepLeader" and "generalStep E msg r = Some r'"
    and "m_term msg = 0 \<or> m_term msg = r_currentTerm r" and "m_type msg \<noteq> MsgHup"
    and "r_commitIndex r' \<noteq> r_commitIndex r"
  shows "\<forall>(i, p) \<in> set (r_prs r'). r_commitIndex r' \<le> p_match p"
proof -
  have "dispatch E msg r = Some r'" using assms(3,4) by (auto simp: generalStep_def split: if_splits)
  then have "stepLeader E msg r = Some r'"
    using assms(2,5,6)
    by (auto simp: dispatch_def run_step_def handleVote_form handleNode_def Let_def addNode_def
        pushUnknownid_def send_def split: MessageType.splits if_splits)
  then have "quorum_acked r'" using stepLeader_commit assms(6) by blast
  moreover have "quorum r' = 1"
    using moves_frame [OF generalStep_is_moves [OF assms(3)]] assms(1)
    by (simp add: quorum_frame [of r' r] quorum_pub)
  ultimately have "length (r_prs r') \<le> length (filter (\<lambda>(i, p). r_commitIndex r' \<le> p_match p) (r_prs r'))"
    by (simp add: quorum_acked_def acked_def u64_of_u32_def)
  then show ?thesis
    using length_filter_less [of _ "r_prs r'" "\<lambda>(i, p). r_commitIndex r' \<le> p_match p"]
    by (metis (no_types, lifting) linorder_not_less)
qed

definition sample_leader :: raft where
  "sample_leader = (sample_node 1)\<lparr>r_state := STATE_LEADER, r_step := StepLeader,
     r_tick := TickHeartbeat, r_leader := 1, r_prs := [(9, becomeReplicate zero_Progress)],
     r_entries := [new_Entry\<lparr>e_index := 1, e_term := 1, e_data := [65]\<rparr>]\<rparr>"

lemma sample_leader_sel:
  "r_pub_prs sample_leader = []" "r_step sample_leader = StepLeader"
  "r_commitIndex sample_leader = 0" "r_currentTerm sample_leader = 1"
  by (simp add: sample_leader_def sample_node_def init_raft_def sendAddNode_def send_def addNode_def
      umap_has_def) (simp_all add: sample_leader_def role_defs raft_blank_def)

lemma sample_leader_commits:
  "map_option r_commitIndex (generalStep sample_env
     (new_Message\<lparr>m_type := MsgAppResp, m_from := 9, m_index := 1\<rparr>) sample_leader) = Some 1"
  by code_simp

theorem leader_commits_acknowledged_witness:
  "\<exists>r'. generalStep sample_env
      (new_Message\<lparr>m_type := MsgAppResp, m_from := 9, m_index := 1\<rparr>) sample_leader = Some r' \<and>
    r_commitIndex r' = 1 \<and> (\<forall>(i, p) \<in> set (r_prs r'). 1 \<le> p_match p)"
proof -
  let ?m = "new_Message\<lparr>m_type := MsgAppResp, m_from := 9, m_index := 1\<rparr>"
  obtain r' where r': "generalStep sample_env ?m sample_leader = Some r'" "r_commitIndex r' = 1"
    using sample_leader_commits by auto
  have "\<forall>(i, p) \<in> set (r_prs r'). r_commitIndex r' \<le> p_match p"
    by (rule leader_commits_acknowledged [OF _ _ r'(1)]) (simp_all add: sample_leader_sel r'(2))
  with r' show ?thesis by auto
qed

text \<open>
  C30: The append handler of a follower, branch by branch, for an append of the follower's term
  or without a term, as \<open>sendAppend\<close> leaves it. In every case the follower takes the sender for
  its leader, resets its election timer and sends one answer. An append below the commit mark
  is answered with that mark, one that does not fit (its index is past the end of the entries,
  or the term of its previous entry is not the current one) is refused, and neither changes
  anything else. One that fits replaces everything after its index by its entries and is
  acknowledged with the index of the last of them, and the log is ready to be stored; except
  that one whose last index is 0 (an empty append at index 0) is answered as a refusal although
  it was made. No other field changes.
\<close>

theorem follower_append_outcome:
  assumes "m_type msg = MsgApp" and "m_term msg = 0 \<or> m_term msg = r_currentTerm r"
    and "r_step r = StepFollower" and "length (r_entries r) < 2 ^ 64"
  shows "\<exists>reply. m_type reply = MsgAppResp \<and> m_to reply = m_from msg \<and> m_from reply = r_id r \<and>
    (let heard = r\<lparr>r_electionElapsed := 0, r_leader := m_from msg, r_sendmsgs := r_sendmsgs r @ [reply]\<rparr>;
         last = m_index msg + sz (m_entries msg);
         es = take (unat (m_index msg)) (r_entries r) @ map copied_entry (m_entries msg)
     in if m_index msg < r_commitIndex r
        then \<not> m_reject reply \<and> m_index reply = r_commitIndex r \<and> generalStep E msg r = Some heard
        else if \<not> (unat (m_index msg) \<le> length (r_entries r) \<and> m_logterm msg = r_currentTerm r)
        then m_reject reply \<and> m_index reply = m_index msg \<and> generalStep E msg r = Some heard
        else if last = 0
        then m_reject reply \<and> m_index reply = m_index msg \<and>
          generalStep E msg r = Some (heard\<lparr>r_entries := es\<rparr>)
        else \<not> m_reject reply \<and> m_index reply = last \<and>
          generalStep E msg r = Some (heard\<lparr>r_entries := es, r_Ready := True\<rparr>))"
proof -
  let ?r = "r\<lparr>r_electionElapsed := 0, r_leader := m_from msg\<rparr>"
  have g: "generalStep E msg r = Some (handleAppendEntries msg ?r)"
    using assms(1-3)
    by (auto simp: generalStep_def dispatch_def run_step_def stepFollower_def Let_def)
  have f: "append_fits msg ?r \<longleftrightarrow>
      unat (m_index msg) \<le> length (r_entries r) \<and> m_logterm msg = r_currentTerm r"
    by (auto simp: append_fits_def)
  have len: "length (r_entries ?r) < 2 ^ 64" using assms(4) by simp
  note form = g [unfolded handleAppendEntries_form [OF len]]
  let ?reply = "\<lambda>i rej. app_reply msg i rej ?r"
  consider (stale) "m_index msg < r_commitIndex r" | (bad) "\<not> m_index msg < r_commitIndex r" "\<not> append_fits msg ?r"
    | (empty) "\<not> m_index msg < r_commitIndex r" "append_fits msg ?r" "m_index msg + sz (m_entries msg) = 0"
    | (fits) "\<not> m_index msg < r_commitIndex r" "append_fits msg ?r" "m_index msg + sz (m_entries msg) \<noteq> 0"
    by blast
  then show ?thesis
  proof cases
    case stale
    then show ?thesis unfolding Let_def f [symmetric] using form
      by (intro exI [of _ "?reply (r_commitIndex r) False"]) (simp add: app_reply_def send_def)
  next
    case bad
    then show ?thesis unfolding Let_def f [symmetric] using form
      by (intro exI [of _ "?reply (m_index msg) True"]) (simp add: app_reply_def send_def)
  next
    case empty
    then show ?thesis unfolding Let_def f [symmetric] using form
      by (intro exI [of _ "?reply (m_index msg) True"]) (simp add: app_reply_def send_def appended_def)
  next
    case fits
    then show ?thesis unfolding Let_def f [symmetric] using form
      by (intro exI [of _ "?reply (m_index msg + sz (m_entries msg)) False"])
        (simp add: app_reply_def send_def appended_def)
  qed
qed

theorem follower_append_outcome_witness:
  "\<exists>r' reply. generalStep sample_env (new_Message\<lparr>m_type := MsgApp, m_from := 9, m_logterm := 1,
      m_entries := [new_Entry\<lparr>e_index := 1, e_term := 1, e_data := [65]\<rparr>]\<rparr>) (sample_node 1) = Some r' \<and>
    r_sendmsgs r' = r_sendmsgs (sample_node 1) @ [reply] \<and> m_index reply = 1 \<and>
    map e_data (r_entries r') = [[65]] \<and> r_Ready r'"
  using follower_append_outcome [of "new_Message\<lparr>m_type := MsgApp, m_from := 9, m_logterm := 1,
      m_entries := [new_Entry\<lparr>e_index := 1, e_term := 1, e_data := [65]\<rparr>]\<rparr>" "sample_node 1" sample_env]
  by (auto simp: sz_def copied_entry_def Let_def)

text \<open>
  C10: Replication. Take a member that is a follower, has committed nothing from \<open>p_next\<close> on and
  agrees with the leader on the entries before it. When the term of the entry before \<open>p_next\<close>
  (the leader's term if there is none) is the follower's current term, the message \<open>sendAppend\<close>
  queues, delivered to it, makes the payloads (index, term, data) of its log those of the
  leader's log, and its one answer, handled by the leader, raises what the leader knows of it
  to the end of its log. When it is another term, say because the entry is from an earlier one,
  the follower refuses although the logs agree, keeps its log, and the answer changes nothing
  of what the leader knows to be acknowledged.
\<close>

theorem append_replicates:
  assumes member: "umap_has f (r_prs L)" and size: "length (r_entries L) \<le> 2147483647"
      "length (r_entries F) < 2 ^ 64" "r_entries L \<noteq> []"
    and prev: "unat (p_next (prs_at f L) - 1) \<le> length (r_entries L)"
      "prev_term E (p_next (prs_at f L) - 1) L = Some t"
    and follower: "r_step F = StepFollower" "r_id F = f"
      "r_commitIndex F \<le> p_next (prs_at f L) - 1"
    and agree: "map payload (take (unat (p_next (prs_at f L) - 1)) (r_entries F)) =
      map payload (take (unat (p_next (prs_at f L) - 1)) (r_entries L))"
    and sent: "sendAppend E f L = Some L1"
  shows "\<exists>msg F1 ack. r_sendmsgs L1 = r_sendmsgs L @ [msg] \<and> generalStep E msg F = Some F1 \<and>
    r_sendmsgs F1 = r_sendmsgs F @ [ack] \<and>
    (if t = r_currentTerm F
     then map payload (r_entries F1) = map payload (r_entries L) \<and> \<not> m_reject ack \<and>
       (\<forall>L2. r_step L1 = StepLeader \<longrightarrow> generalStep E ack L1 = Some L2 \<longrightarrow>
          p_match (prs_at f L2) = max (p_match (prs_at f L)) (sz (r_entries L)))
     else r_entries F1 = r_entries F \<and> m_reject ack \<and>
       (\<forall>L2. r_step L1 = StepLeader \<longrightarrow> generalStep E ack L1 = Some L2 \<longrightarrow>
          p_match (prs_at f L2) = p_match (prs_at f L)))"
proof -
  let ?msg = "append_msg f t (drop (unat (p_next (prs_at f L) - 1)) (r_entries L)) L"
  have msg: "r_sendmsgs L1 = r_sendmsgs L @ [?msg]"
    using sendAppend_tail [OF member size(1) prev(1) sent] prev(2) by auto
  have l: "length (r_entries L) < 2 ^ 64" using size(1) by simp
  have v: "log_view L1 = log_view L" by (rule log_view_sendAppend [OF sent member])
  then have h: "umap_has f (r_prs L1)" using log_view_has member by blast
  have led: "stepLeader E ack L1 = Some L2"
    if "r_step L1 = StepLeader" "generalStep E ack L1 = Some L2" "m_type ack = MsgAppResp" "m_term ack = 0"
    for ack L2
    using that by (simp add: generalStep_def dispatch_def run_step_def)
  show ?thesis
  proof (cases "t = r_currentTerm F")
    case True
    obtain F1 ack where F1: "generalStep E ?msg F = Some F1"
      "map payload (r_entries F1) = map payload (r_entries L)"
      "r_sendmsgs F1 = r_sendmsgs F @ [ack]" "m_type ack = MsgAppResp" "\<not> m_reject ack"
      "m_from ack = r_id F" "m_term ack = 0" "m_index ack = sz (r_entries L)"
      using append_delivered [OF prev(1) l size(2,3) follower(1) True [symmetric] follower(3) agree] by metis
    have "p_match (prs_at f L2) = max (p_match (prs_at f L)) (sz (r_entries L))"
      if s: "r_step L1 = StepLeader" "generalStep E ack L1 = Some L2" for L2
      using stepLeader_ack_match [OF led [OF s F1(4,7)] F1(4,5)] h F1(6,8) follower(2)
        log_view_match [OF v, of f] by simp
    with msg F1 True show ?thesis by (intro exI [of _ ?msg] exI [of _ F1] exI [of _ ack]) simp
  next
    case False
    obtain F1 ack where F1: "generalStep E ?msg F = Some F1" "r_entries F1 = r_entries F"
      "r_sendmsgs F1 = r_sendmsgs F @ [ack]" "m_type ack = MsgAppResp" "m_reject ack"
      "m_from ack = r_id F" "m_term ack = 0"
      using append_refused [OF size(2) follower(1) False follower(3)] by metis
    have "p_match (prs_at f L2) = p_match (prs_at f L)"
      if s: "r_step L1 = StepLeader" "generalStep E ack L1 = Some L2" for L2
      using stepLeader_nack_match [OF led [OF s F1(4,7)] F1(4,5)] h F1(6) follower(2)
        log_view_match [OF v, of f] by simp
    with msg F1 False show ?thesis by (intro exI [of _ ?msg] exI [of _ F1] exI [of _ ack]) simp
  qed
qed

theorem append_replicates_witness:
  "\<exists>msg F1. generalStep sample_env msg (sample_node 9) = Some F1 \<and>
    map payload (r_entries F1) = map payload (r_entries sample_leader)"
proof -
  obtain L1 where L1: "sendAppend sample_env 9 sample_leader = Some L1"
  proof -
    have "case_option False (\<lambda>_. True) (sendAppend sample_env 9 sample_leader)" by code_simp
    with that show ?thesis by (auto split: option.splits)
  qed
  have e: "length (r_entries sample_leader) = 1" "p_next (prs_at 9 sample_leader) = 1"
      "umap_has 9 (r_prs sample_leader)"
    by code_simp+
  have "r_entries sample_leader \<noteq> []" using e(1) by auto
  then show ?thesis
    using append_replicates [OF e(3) _ _ _ _ _ _ _ _ _ L1, of "sample_node 9"]
    by (auto simp: e prev_term_def sample_leader_sel)
qed

text \<open>
  Heartbeats. A leader's broadcast queues exactly one heartbeat for every member but
  itself, in its term, whose commit index is the smaller of its own commit mark and what
  the member acknowledged, and changes nothing else.
\<close>

theorem heartbeat_broadcast:
  assumes "umap_ok (r_prs r)"
  shows "bcastHeartbeat r = Some (r\<lparr>r_sendmsgs := r_sendmsgs r @
    map (\<lambda>(i, p). new_Message\<lparr>m_from := r_id r, m_to := i, m_term := r_currentTerm r,
           m_type := MsgHeartbeat, m_commit := min (p_match p) (r_commitIndex r)\<rparr>)
      (filter (\<lambda>(i, p). i \<noteq> r_id r) (r_prs r))\<rparr>)"
proof -
  have "heartbeat_to r = (\<lambda>(i, p). new_Message\<lparr>m_from := r_id r, m_to := i, m_term := r_currentTerm r,
           m_type := MsgHeartbeat, m_commit := min (p_match p) (r_commitIndex r)\<rparr>)"
    by (simp add: heartbeat_to_def new_Message_def)
  with bcastHeartbeat_form [OF assms] show ?thesis by simp
qed

theorem heartbeat_broadcast_witness:
  "\<exists>r'. bcastHeartbeat sample_leader = Some r' \<and>
    length (r_sendmsgs r') = Suc (length (r_sendmsgs sample_leader))"
proof -
  have ok: "umap_ok (r_prs sample_leader)"
    and l: "length (filter (\<lambda>(i, p). i \<noteq> r_id sample_leader) (r_prs sample_leader)) = 1"
    by code_simp+
  show ?thesis unfolding heartbeat_broadcast [OF ok] using l by simp
qed

end
