(* ===== verification/Raft_Queues.thy ===== *)
theory Raft_Queues
  imports Raft_Node
begin

text \<open>
  The three queues of a \<open>Raft\<close> object as FIFO queues: messages to send, messages
  received, and ids of peers that announced themselves. \<open>send_script\<close> is any
  interleaving of the handlers' \<open>send\<close> with the sending thread's \<open>tryPopSendbuf\<close>.
\<close>

subsection \<open>The queues meet the FIFO contract\<close>

definition deq_send :: "raft \<Rightarrow> (Message \<times> raft) option" where
  "deq_send r = (case r_sendmsgs r of [] \<Rightarrow> None | m # q \<Rightarrow> Some (m, r\<lparr>r_sendmsgs := q\<rparr>))"

definition enq_recv :: "Message \<Rightarrow> raft \<Rightarrow> raft" where
  "enq_recv m r = r\<lparr>r_recvmsgs := r_recvmsgs r @ [m]\<rparr>"

definition deq_recv :: "raft \<Rightarrow> (Message \<times> raft) option" where
  "deq_recv r = (case r_recvmsgs r of [] \<Rightarrow> None | m # q \<Rightarrow> Some (m, r\<lparr>r_recvmsgs := q\<rparr>))"

definition deq_unknown :: "raft \<Rightarrow> (u64 \<times> raft) option" where
  "deq_unknown r = (case r_unknownid r of [] \<Rightarrow> None | i # q \<Rightarrow> Some (i, r\<lparr>r_unknownid := q\<rparr>))"

interpretation sendq: fifo_queue send deq_send r_sendmsgs
  by unfold_locales (auto simp: send_def deq_send_def split: list.splits)

interpretation recvq: fifo_queue enq_recv deq_recv r_recvmsgs
  by unfold_locales (auto simp: enq_recv_def deq_recv_def split: list.splits)

interpretation unknownq: fifo_queue pushUnknownid_u64 deq_unknown r_unknownid
  by unfold_locales (auto simp: pushUnknownid_u64_def deq_unknown_def split: list.splits)

text \<open>The operations of the source on these queues.\<close>

lemma tryPopSendbuf_deq:
  "tryPopSendbuf E r = (case deq_send r of None \<Rightarrow> (([], 0), r)
     | Some (m, s) \<Rightarrow> ((ser_Message (E_codec E) m, m_to m), s))"
  by (simp add: tryPopSendbuf_def deq_send_def split: list.split)

lemma stepNode_deq:
  "stepNode E r = (case deq_recv r of None \<Rightarrow> Some r | Some (m, s) \<Rightarrow> generalStep E m s)"
  by (simp add: stepNode_def deq_recv_def split: list.split)

lemma tryPushRecvbuf_enq:
  "data \<noteq> [] \<Longrightarrow> tryPushRecvbuf E data r = (True, enq_recv (parse_Message (E_codec E) data) r)"
  by (simp add: tryPushRecvbuf_def enq_recv_def)

lemma popUnknownid_deq:
  "popUnknownid r = (case deq_unknown r of None \<Rightarrow> None | Some (i, s) \<Rightarrow> Some (i32_of_u64 i, s))"
  by (simp add: popUnknownid_def deq_unknown_def split: list.split)

lemma pushUnknownid_enq: "pushUnknownid i r = pushUnknownid_u64 (u64_of_i32 i) r"
  by (simp add: pushUnknownid_def pushUnknownid_u64_def)

subsection \<open>Interleavings of sending and popping\<close>

text \<open>
  \<open>Some m\<close>: a handler sends \<open>m\<close>; \<open>None\<close>: the sending thread pops. The result is what
  the thread got, in order, without the empty answers.
\<close>

fun send_script :: "env \<Rightarrow> Message option list \<Rightarrow> raft \<Rightarrow> (bytes \<times> u64) list \<times> raft" where
  "send_script E [] r = ([], r)"
| "send_script E (Some m # ops) r = send_script E ops (send m r)"
| "send_script E (None # ops) r =
     (if r_sendmsgs r = [] then send_script E ops r
      else let (d, s) = tryPopSendbuf E r; (out, t) = send_script E ops s in (d # out, t))"

lemma send_script_run:
  "send_script E ops r =
    (map (\<lambda>m. (ser_Message (E_codec E) m, m_to m)) (fst (sendq.run ops r)), snd (sendq.run ops r))"
proof (induction E ops r rule: send_script.induct)
  case (3 E ops r)
  show ?case
  proof (cases "deq_send r")
    case None
    then have "r_sendmsgs r = []" using sendq.deq_None [of r] by simp
    then show ?thesis using 3 by (simp add: None)
  next
    case (Some p)
    then obtain m s where p: "deq_send r = Some (m, s)" by (cases p) simp
    then have ne: "r_sendmsgs r \<noteq> []" using sendq.deq_None [of r] by simp
    have t: "tryPopSendbuf E r = ((ser_Message (E_codec E) m, m_to m), s)"
      by (simp add: tryPopSendbuf_deq p)
    show ?thesis using 3(2) [OF ne refl t [symmetric]] ne t p by (simp split: prod.split)
  qed
qed simp_all

end
