(* ===== verification/Raft_Log_Properties.thy ===== *)
theory Raft_Log_Properties
  imports Raft_Properties Raft_Queues
begin

text \<open>
  The properties of the log operations and of the queues, each with a concrete instance.
\<close>

subsection \<open>A sample log\<close>

definition sample_entry :: "u64 \<Rightarrow> byte \<Rightarrow> Entry" where
  "sample_entry i b = new_Entry\<lparr>e_index := i, e_term := 1, e_data := [b]\<rparr>"

definition sample_log :: raft where
  "sample_log = (sample_node 1)\<lparr>r_entries := [sample_entry 1 65, sample_entry 2 66]\<rparr>"

lemma sample_log_sel [simp]:
  "r_entries sample_log = [sample_entry 1 65, sample_entry 2 66]" "r_offset sample_log = 1"
  "r_commitIndex sample_log = 0" "r_lastApplied sample_log = 0" "r_storage sample_log = None"
  "r_currentTerm sample_log = 1"
  by (simp_all add: sample_log_def)
    (simp_all add: sample_node_def init_raft_def sendAddNode_def send_def addNode_def Let_def
      umap_has_def role_defs raft_blank_def)

lemma sample_entry_sel [simp]: "e_index (sample_entry i b) = i" "e_term (sample_entry i b) = 1"
  by (simp_all add: sample_entry_def)

lemma sample_log_wf: "wf_log sample_log"
  by (auto simp: wf_log_def consecutive_def less_Suc_eq)

lemma sample_log_at [simp]:
  "log_at sample_log 1 = Some (sample_entry 1 65)" "log_at sample_log 2 = Some (sample_entry 2 66)"
  "log_at sample_log 3 = None"
  by (simp_all add: log_at_def vec_at_def)

subsection \<open>The unstable log\<close>

text \<open>
  C35: Refinement of \<open>truncateAndAppend\<close>. On a well-formed log, new consecutive entries
  that start at or before the end overwrite the abstract log from their first index on,
  and the log stays well-formed; entries that would leave a gap have no defined outcome
  (the copied range ends past the vector).
\<close>

theorem truncateAndAppend_overwrites:
  assumes "wf_log r" and "ents \<noteq> []" and "consecutive (e_index (hd ents)) ents"
    and "e_index (hd ents) \<noteq> 0" and "unat (e_index (hd ents)) + length ents < 2 ^ 64"
  shows "if unat (e_index (hd ents)) \<le> unat (r_offset r) + length (r_entries r)
    then \<exists>r'. truncateAndAppend ents r = Some r' \<and> wf_log r' \<and>
      log_at r' = overwrite (e_index (hd ents)) ents (log_at r)
    else truncateAndAppend ents r = None"
proof (cases "unat (e_index (hd ents)) \<le> unat (r_offset r) + length (r_entries r)")
  case True
  let ?r = "r\<lparr>r_offset := min (e_index (hd ents)) (r_offset r),
     r_entries := take (unat (e_index (hd ents)) - unat (r_offset r)) (r_entries r) @ ents\<rparr>"
  have "truncateAndAppend ents r = Some ?r" by (rule truncateAndAppend_form [OF assms(1,2) True])
  moreover have "wf_log ?r" "log_at ?r = overwrite (e_index (hd ents)) ents (log_at r)"
    using wf_log_overwrite [OF assms(1,4,3) True assms(5), of ?r] by simp_all
  ultimately show ?thesis using True by auto
next
  case False
  then show ?thesis using truncateAndAppend_gap [OF assms(1,2)] by simp
qed

theorem truncateAndAppend_overwrites_witness:
  "\<exists>r'. truncateAndAppend [sample_entry 2 67] sample_log = Some r' \<and> wf_log r' \<and>
    log_at r' 1 = Some (sample_entry 1 65) \<and> log_at r' 2 = Some (sample_entry 2 67)"
proof -
  have "consecutive 2 [sample_entry 2 67]" by (simp add: consecutive_def)
  then obtain r' where "truncateAndAppend [sample_entry 2 67] sample_log = Some r'" "wf_log r'"
      "log_at r' = overwrite 2 [sample_entry 2 67] (log_at sample_log)"
    using truncateAndAppend_overwrites [OF sample_log_wf, of "[sample_entry 2 67]"] by auto
  then show ?thesis by (auto simp: overwrite_def vec_at_def)
qed

text \<open>
  \<open>maybeTerm\<close> answers the term of the entry the abstract log holds at an index; past
  the end of the log it has no defined outcome, since the entry is read for a log line
  before the bound is tested.
\<close>

theorem maybeTerm_reads_log:
  assumes "wf_log r" and "r_offset r \<le> i"
  shows "maybeTerm i r = map_option e_term (log_at r i)"
proof (cases "log_at r i")
  case None
  then have "length (r_entries r) \<le> unat (i - r_offset r)"
    using assms(2) by (simp add: log_at_def vec_at_None)
  then have "unat (r_offset r) + length (r_entries r) \<le> unat i"
    using assms(2) by (simp add: unat_sub word_le_nat_alt)
  then show ?thesis using maybeTerm_past_end [OF assms(1)] None by simp
next
  case (Some e)
  then show ?thesis using maybeTerm_log_at [OF assms(1)] by simp
qed

theorem maybeTerm_reads_log_witness:
  "maybeTerm 2 sample_log = Some 1 \<and> maybeTerm 3 sample_log = None"
  using maybeTerm_reads_log [OF sample_log_wf, of 2] maybeTerm_reads_log [OF sample_log_wf, of 3]
  by simp

text \<open>
  \<open>stableTo\<close> removes exactly the first unstable index, and only when the entry there
  has the given term; for any other index of the log it changes nothing.
\<close>

theorem stableTo_removes_first:
  assumes "wf_log r" and "log_at r i = Some e" and "e_term e \<noteq> 0"
  shows "\<exists>r'. stableTo i t r = Some r' \<and> wf_log r' \<and>
    log_at r' = (if i = r_offset r \<and> e_term e = t then (log_at r)(i := None) else log_at r)"
proof (cases "i = r_offset r \<and> e_term e = t")
  case True
  let ?r = "r\<lparr>r_entries := tl (r_entries r), r_offset := r_offset r + 1\<rparr>"
  have "stableTo i t r = Some ?r"
    using stableTo_first [OF assms(1), of e t] assms(2,3) True by simp
  moreover have "r_entries r \<noteq> []" using assms(1,2) by (auto simp: log_at_Some)
  ultimately show ?thesis using stableTo_log [OF assms(1), of ?r] True by simp
next
  case False
  then have "e_term e \<noteq> t \<or> i \<noteq> r_offset r" by blast
  then show ?thesis using stableTo_other [OF assms(1,2)] assms(1) False by auto
qed

theorem stableTo_removes_first_witness:
  "\<exists>r'. stableTo 1 1 sample_log = Some r' \<and> log_at r' 1 = None \<and>
    log_at r' 2 = Some (sample_entry 2 66)"
  using stableTo_removes_first [OF sample_log_wf, of 1 "sample_entry 1 65" 1]
  by auto

text \<open>
  C36: Persisting. On a well-formed log that starts at index 1 and holds everything up to
  the commit mark, \<open>storageLog\<close> stores exactly the entries after the apply mark up to the
  commit mark, and then the apply mark is the commit mark.
\<close>

theorem storageLog_stores_committed:
  assumes "wf_log r" and "r_offset r = 1" and "r_lastApplied r < r_commitIndex r"
    and "unat (r_commitIndex r) \<le> length (r_entries r)" and "length (r_entries r) \<le> 2147483647"
  shows "\<exists>ents. storageLog E r = Some (r\<lparr>
      r_storage := Storage_Append (E_codec E) ents (r_storage r), r_lastApplied := r_commitIndex r\<rparr>) \<and>
    length ents = unat (r_commitIndex r) - unat (r_lastApplied r) \<and>
    (\<forall>k < length ents. log_at r (r_lastApplied r + of_nat (Suc k)) = Some (ents ! k))"
proof -
  let ?a = "unat (r_lastApplied r)" and ?c = "unat (r_commitIndex r)"
  let ?es = "take (?c - ?a) (drop ?a (r_entries r))"
  have ac: "?a < ?c" using assms(3) by (simp add: word_less_nat_alt)
  have form: "storageLog E r = Some (r\<lparr>
      r_storage := Storage_Append (E_codec E) ?es (r_storage r), r_lastApplied := r_commitIndex r\<rparr>)"
    using storageLog_form [OF assms(1,2) _ assms(4,5), of E] assms(3)
    by (auto simp: applied_ok_def)
  have len: "length ?es = ?c - ?a" using assms(4) by simp
  have "log_at r (r_lastApplied r + of_nat (Suc k)) = Some (?es ! k)" if "k < length ?es" for k
  proof -
    have k: "?a + Suc k \<le> ?c" using that len ac by linarith
    have b: "?c < 2 ^ 64" using unsigned_less [where w = "r_commitIndex r"] by simp
    have "unat (of_nat (Suc k) :: u64) = Suc k"
      using k b by (simp only: unat_of_nat) (simp add: take_bit_nat_eq_self)
    then have "unat (r_lastApplied r + of_nat (Suc k)) = ?a + Suc k"
      using k b by (simp only: unat_plus_if') simp
    then show ?thesis using assms(1,2,4) k that by (simp add: log_at_Some)
  qed
  then show ?thesis using form len by blast
qed

theorem storageLog_stores_committed_witness:
  "storageLog sample_env (sample_log\<lparr>r_commitIndex := 1\<rparr>) =
    Some (sample_log\<lparr>r_commitIndex := 1, r_storage := Storage_Append (E_codec sample_env) [sample_entry 1 65] None,
      r_lastApplied := 1\<rparr>)"
proof -
  let ?r = "sample_log\<lparr>r_commitIndex := 1\<rparr>"
  have wf: "wf_log ?r" using sample_log_wf by (simp add: wf_log_def)
  obtain ents where e: "storageLog sample_env ?r = Some (?r\<lparr>
      r_storage := Storage_Append (E_codec sample_env) ents (r_storage ?r), r_lastApplied := r_commitIndex ?r\<rparr>)"
    "length ents = 1" "\<forall>k < length ents. log_at ?r (r_lastApplied ?r + of_nat (Suc k)) = Some (ents ! k)"
    using storageLog_stores_committed [OF wf, of sample_env] by auto
  have "ents ! 0 = sample_entry 1 65" using e(2,3) by (simp add: log_at_def vec_at_def)
  then have "ents = [sample_entry 1 65]" using e(2) by (cases ents) auto
  with e(1) show ?thesis by simp
qed

text \<open>
  C37: Proposals are numbered from the apply mark. Two proposals that a leader appends
  before the first is applied get the same index: the log is then not consecutive.
\<close>

theorem proposals_share_index:
  assumes "appendEntry [a] r = Some r1" and "appendEntry [b] r1 = Some r2"
  shows "\<exists>a' b'. r_entries r2 = r_entries r @ [a', b'] \<and> e_data a' = e_data a \<and> e_data b' = e_data b \<and>
    e_index a' = r_lastApplied r + 1 \<and> e_index b' = r_lastApplied r + 1"
  using appendEntry_form [OF assms(1)] appendEntry_form [OF assms(2)] by auto

theorem proposals_share_index_witness:
  "\<exists>r1 r2 a' b'. appendEntry [sample_entry 0 70] sample_leader = Some r1 \<and>
    appendEntry [sample_entry 0 71] r1 = Some r2 \<and>
    r_entries r2 = r_entries sample_leader @ [a', b'] \<and> e_index a' = e_index b'"
proof -
  have "case_option False (\<lambda>r1. case_option False (\<lambda>_. True) (appendEntry [sample_entry 0 71] r1))
      (appendEntry [sample_entry 0 70] sample_leader)" by code_simp
  then obtain r1 r2 where r: "appendEntry [sample_entry 0 70] sample_leader = Some r1"
      "appendEntry [sample_entry 0 71] r1 = Some r2" by (auto split: option.splits)
  from proposals_share_index [OF r] r show ?thesis by auto
qed

subsection \<open>The queues\<close>

text \<open>
  Messages leave in the order they were sent, none lost, none twice, whatever the
  interleaving of the handlers' sends with the sending thread's pops.
\<close>

theorem send_order_kept:
  "map (\<lambda>m. (ser_Message (E_codec E) m, m_to m))
      (r_sendmsgs r @ List.map_filter (\<lambda>x. x) ops) =
    fst (send_script E ops r) @
      map (\<lambda>m. (ser_Message (E_codec E) m, m_to m)) (r_sendmsgs (snd (send_script E ops r)))"
proof -
  have "r_sendmsgs r @ List.map_filter (\<lambda>x. x) ops =
      fst (sendq.run ops r) @ r_sendmsgs (snd (sendq.run ops r))"
    by (rule sendq.fifo) simp
  then have "map (\<lambda>m. (ser_Message (E_codec E) m, m_to m)) (r_sendmsgs r @ List.map_filter (\<lambda>x. x) ops) =
      map (\<lambda>m. (ser_Message (E_codec E) m, m_to m)) (fst (sendq.run ops r) @ r_sendmsgs (snd (sendq.run ops r)))"
    by (rule arg_cong)
  then show ?thesis by (simp only: send_script_run fst_conv snd_conv map_append)
qed

text \<open>
  The id of a new peer. A \<open>MsgNode\<close> makes its sender a member and queues the id of
  the sender for binding, but the queue's overload takes 32 bits and widens with the
  sign: the id that comes out and is widened again is the sender's exactly when it is
  below \<open>2 ^ 31\<close> or in the top \<open>2 ^ 31\<close> of the 64-bit range.
\<close>

theorem announced_id_survives:
  assumes "m_type msg = MsgNode" and "m_term msg = 0" and "r_unknownid r = []"
  shows "\<exists>r' i r''. generalStep E msg r = Some r' \<and> umap_has (m_from msg) (r_prs r') \<and>
    popUnknownid r' = Some (i, r'') \<and> emptyUnknownid r'' \<and>
    (u64_of_i32 i = m_from msg \<longleftrightarrow> unat (m_from msg) < 2 ^ 31 \<or> 2 ^ 64 - 2 ^ 31 \<le> unat (m_from msg))"
proof -
  let ?n = "m_from msg"
  let ?i = "i32_of_u64 (u64_of_i32 (i32_of_u64 ?n))"
  have g: "generalStep E msg r = Some (handleNode msg r)"
    using assms by (simp add: generalStep_def dispatch_def)
  have m: "umap_has ?n (r_prs (handleNode msg r))"
    by (auto simp: handleNode_def Let_def addNode_def send_def pushUnknownid_def umap_has_set)
  have p: "\<exists>s. popUnknownid (handleNode msg r) = Some (?i, s) \<and> emptyUnknownid s"
    using assms(3)
    by (simp add: handleNode_def Let_def addNode_def send_def pushUnknownid_def popUnknownid_def
        emptyUnknownid_def)
  have "u64_of_i32 ?i = ?n \<longleftrightarrow> unat ?n < 2 ^ 31 \<or> 2 ^ 64 - 2 ^ 31 \<le> unat ?n"
    by (simp only: i32_roundtrip widen_narrow)
  with g m p show ?thesis by blast
qed

theorem announced_id_survives_witness:
  "\<exists>r' i r''. generalStep sample_env (new_Message\<lparr>m_type := MsgNode, m_from := 2147483648\<rparr>) (sample_node 1) =
      Some r' \<and> popUnknownid r' = Some (i, r'') \<and> u64_of_i32 i \<noteq> 2147483648"
proof -
  have "r_unknownid (sample_node 1) = []" by code_simp
  from announced_id_survives [OF _ _ this, of "new_Message\<lparr>m_type := MsgNode, m_from := 2147483648\<rparr>" sample_env]
  show ?thesis by auto
qed

end
