(* ===== verification/Codec_Properties.thy ===== *)
theory Codec_Properties
  imports Wire_Varint Raft_Log_Properties
begin

text \<open>
  The codec of the program: what \<open>serializeData\<close> and \<open>deserializeData\<close> of
  \<^verbatim>\<open>raft.cc\<close> and \<^verbatim>\<open>storage.cc\<close> do through the generated classes (\<open>pb_codec\<close>), its
  contract as instances of \<open>byte_codec\<close>, and the properties of the generated classes.
\<close>

subsection \<open>The codec\<close>

definition pb_codec :: "wire \<Rightarrow> codec" where
  "pb_codec W = \<lparr>
     ser_Storage = StoragePB_SerializeToString W, parse_Storage = StoragePB_ParseFromString W,
     ser_HardState = HardState_SerializeToString W, parse_HardState = HardState_ParseFromString W,
     ser_Message = Message_SerializeToString W, parse_Message = Message_ParseFromString W \<rparr>"

definition Message_fits :: "wire \<Rightarrow> Message \<Rightarrow> bool" where
  "Message_fits W m = (Message_plain m \<and> length (Message_Serialize W m) < 2 ^ 31)"

definition StoragePB_fits :: "wire \<Rightarrow> StoragePB \<Rightarrow> bool" where
  "StoragePB_fits W m = (StoragePB_plain m \<and> length (StoragePB_Serialize W m) < 2 ^ 31)"

definition HardState_fits :: "wire \<Rightarrow> HardState \<Rightarrow> bool" where
  "HardState_fits W m = (HardState_plain m \<and> length (HardState_Serialize W m) < 2 ^ 31)"

text \<open>The size a class computes is that of what both its serialisers write.\<close>

definition exact_size :: "(wire \<Rightarrow> 'm \<Rightarrow> u64) \<Rightarrow> (wire \<Rightarrow> 'm \<Rightarrow> bytes) \<Rightarrow>
    (wire \<Rightarrow> 'm \<Rightarrow> bytes \<Rightarrow> bytes) \<Rightarrow> wire \<Rightarrow> 'm \<Rightarrow> bool" where
  "exact_size bytesize stream arr W m = (unat (bytesize W m) = length (stream W m) \<and>
     (\<forall>t. length (arr W m t) = length t + unat (bytesize W m)))"

locale wire_runtime = wire_laws W + wire_arrays W + wire_consumes W for W :: wire
begin

lemma Message_parse:
  "Message_fits W m \<Longrightarrow> Message_ParseFromString W (Message_SerializeToString W m) = m"
  using Message_round [of m]
  by (simp add: Message_ParseFromString_def Message_SerializeToString_def Message_arrays
      Message_Clear_new Message_fits_def parsed_message_def)

lemma StoragePB_parse:
  "StoragePB_fits W m \<Longrightarrow> StoragePB_ParseFromString W (StoragePB_SerializeToString W m) = m"
  using StoragePB_round [of m]
  by (simp add: StoragePB_ParseFromString_def StoragePB_SerializeToString_def StoragePB_arrays
      StoragePB_Clear_new StoragePB_fits_def parsed_message_def)

lemma HardState_parse:
  "HardState_fits W m \<Longrightarrow> HardState_ParseFromString W (HardState_SerializeToString W m) = m"
  using HardState_round [of m]
  by (simp add: HardState_ParseFromString_def HardState_SerializeToString_def HardState_arrays
      HardState_Clear_new HardState_fits_def parsed_message_def)

lemma exact_sizeI:
  assumes "sz (stream W m) = bytesize W m" and "\<And>t. arr W m t = t @ stream W m"
    and "length (stream W m) < 2 ^ 31"
  shows "exact_size bytesize stream arr W m"
  using assms unat_sz [of "stream W m"] by (simp add: exact_size_def flip: assms(1))

lemma exact_sizes:
  "ConfState_plain a \<Longrightarrow> length (ConfState_Serialize W a) < 2 ^ 31 \<Longrightarrow>
    exact_size ConfState_ByteSizeLong ConfState_Serialize ConfState_SerializeToArray W a"
  "Entry_plain b \<Longrightarrow> length (Entry_Serialize W b) < 2 ^ 31 \<Longrightarrow>
    exact_size Entry_ByteSizeLong Entry_Serialize Entry_SerializeToArray W b"
  "SnapshotMetadata_plain c \<Longrightarrow> length (SnapshotMetadata_Serialize W c) < 2 ^ 31 \<Longrightarrow>
    exact_size SnapshotMetadata_ByteSizeLong SnapshotMetadata_Serialize SnapshotMetadata_SerializeToArray W c"
  "Snapshot_plain d \<Longrightarrow> length (Snapshot_Serialize W d) < 2 ^ 31 \<Longrightarrow>
    exact_size Snapshot_ByteSizeLong Snapshot_Serialize Snapshot_SerializeToArray W d"
  "HardState_plain e \<Longrightarrow> length (HardState_Serialize W e) < 2 ^ 31 \<Longrightarrow>
    exact_size HardState_ByteSizeLong HardState_Serialize HardState_SerializeToArray W e"
  "StoragePB_plain f \<Longrightarrow> length (StoragePB_Serialize W f) < 2 ^ 31 \<Longrightarrow>
    exact_size StoragePB_ByteSizeLong StoragePB_Serialize StoragePB_SerializeToArray W f"
  "Message_plain g \<Longrightarrow> length (Message_Serialize W g) < 2 ^ 31 \<Longrightarrow>
    exact_size Message_ByteSizeLong Message_Serialize Message_SerializeToArray W g"
  using ConfState_size [of a]
    Entry_size [of b]
    SnapshotMetadata_size [of c]
    Snapshot_size [of d]
    HardState_size [of e]
    StoragePB_size [of f]
    Message_size [of g]
  by (auto intro!: exact_sizeI ConfState_arrays Entry_arrays SnapshotMetadata_arrays Snapshot_arrays HardState_arrays StoragePB_arrays Message_arrays)

end

sublocale wire_runtime \<subseteq> message: byte_codec
  "ser_Message (pb_codec W)" "parse_Message (pb_codec W)" "Message_fits W"
  by unfold_locales (simp add: pb_codec_def Message_parse)

sublocale wire_runtime \<subseteq> storage: byte_codec
  "ser_Storage (pb_codec W)" "parse_Storage (pb_codec W)" "StoragePB_fits W"
  by unfold_locales (simp add: pb_codec_def StoragePB_parse)

sublocale wire_runtime \<subseteq> hardstate: byte_codec
  "ser_HardState (pb_codec W)" "parse_HardState (pb_codec W)" "HardState_fits W"
  by unfold_locales (simp add: pb_codec_def HardState_parse)

interpretation varint: wire_runtime varint_wire
  by unfold_locales

subsection \<open>Sample messages\<close>

definition sample_append :: Message where
  "sample_append = new_Message\<lparr>m_type := MsgApp, m_to := 2, m_from := 1, m_index := 300,
     m_entries := [sample_entry 301 65, new_Entry], m_context := [7],
     m_snapshot := Some (new_Snapshot\<lparr>sn_metadata := Some (new_SnapshotMetadata\<lparr>sm_index := 5,
       sm_conf_state := Some (new_ConfState\<lparr>cs_nodes := [1, 200]\<rparr>)\<rparr>)\<rparr>)\<rparr>"

lemma sample_append_fits: "Message_fits varint_wire sample_append"
proof -
  have "Message_plain sample_append" by code_simp
  moreover have "length (Message_Serialize varint_wire sample_append) = 37" by code_simp
  ultimately show ?thesis by (simp add: Message_fits_def)
qed

definition sample_file :: StoragePB where
  "sample_file = new_StoragePB\<lparr>st_entries := [sample_entry 1 65, sample_entry 2 66]\<rparr>"

lemma sample_file_fits: "StoragePB_fits varint_wire sample_file"
proof -
  have "StoragePB_plain sample_file" by code_simp
  moreover have "length (StoragePB_Serialize varint_wire sample_file) = 18" by code_simp
  ultimately show ?thesis by (simp add: StoragePB_fits_def)
qed

lemma sample_hardstate_fits: "HardState_fits varint_wire (new_HardState\<lparr>hs_term := 300\<rparr>)"
proof -
  have "HardState_plain (new_HardState\<lparr>hs_term := 300\<rparr>)" by code_simp
  moreover have "length (HardState_Serialize varint_wire (new_HardState\<lparr>hs_term := 300\<rparr>)) = 3"
    by code_simp
  ultimately show ?thesis by (simp add: HardState_fits_def)
qed

subsection \<open>The generated classes\<close>

text \<open>
  C12: Round trip. What \<open>SerializeToString\<close> writes for a message, \<open>ParseFromString\<close>
  reads back as the same message, whatever the runtime, as long as its readers undo its
  writers: all twelve fields of \<open>Message\<close>, with its entries and its snapshot. The
  message has no unknown fields and takes less than \<open>2 ^ 31\<close> bytes.
\<close>

theorem message_roundtrip:
  assumes "wire_runtime W" and "Message_plain m" and "length (Message_Serialize W m) < 2 ^ 31"
  shows "Message_ParseFromString W (Message_SerializeToString W m) = m"
  using wire_runtime.Message_parse [OF assms(1)] assms(2,3) by (simp add: Message_fits_def)

theorem message_roundtrip_witness:
  "Message_ParseFromString varint_wire (Message_SerializeToString varint_wire sample_append) = sample_append"
  by (rule message_roundtrip [OF varint.wire_runtime_axioms])
    (use sample_append_fits in \<open>simp_all add: Message_fits_def\<close>)

text \<open>
  C32: \<open>ByteSizeLong\<close> is exact, for all seven classes: on a message without unknown fields that
  takes less than \<open>2 ^ 31\<close> bytes it answers the number of bytes that \<open>SerializeWithCachedSizes\<close>
  writes and that \<open>InternalSerializeWithCachedSizesToArray\<close> adds to the array; the cached sizes
  that prefix sub-messages are therefore right.
\<close>

theorem byte_size_exact:
  assumes "wire_runtime W"
  shows "(\<forall>m. ConfState_plain m \<and> length (ConfState_Serialize W m) < 2 ^ 31 \<longrightarrow>
       exact_size ConfState_ByteSizeLong ConfState_Serialize ConfState_SerializeToArray W m) \<and>
    (\<forall>m. Entry_plain m \<and> length (Entry_Serialize W m) < 2 ^ 31 \<longrightarrow>
       exact_size Entry_ByteSizeLong Entry_Serialize Entry_SerializeToArray W m) \<and>
    (\<forall>m. SnapshotMetadata_plain m \<and> length (SnapshotMetadata_Serialize W m) < 2 ^ 31 \<longrightarrow>
       exact_size SnapshotMetadata_ByteSizeLong SnapshotMetadata_Serialize SnapshotMetadata_SerializeToArray W m) \<and>
    (\<forall>m. Snapshot_plain m \<and> length (Snapshot_Serialize W m) < 2 ^ 31 \<longrightarrow>
       exact_size Snapshot_ByteSizeLong Snapshot_Serialize Snapshot_SerializeToArray W m) \<and>
    (\<forall>m. HardState_plain m \<and> length (HardState_Serialize W m) < 2 ^ 31 \<longrightarrow>
       exact_size HardState_ByteSizeLong HardState_Serialize HardState_SerializeToArray W m) \<and>
    (\<forall>m. StoragePB_plain m \<and> length (StoragePB_Serialize W m) < 2 ^ 31 \<longrightarrow>
       exact_size StoragePB_ByteSizeLong StoragePB_Serialize StoragePB_SerializeToArray W m) \<and>
    (\<forall>m. Message_plain m \<and> length (Message_Serialize W m) < 2 ^ 31 \<longrightarrow>
       exact_size Message_ByteSizeLong Message_Serialize Message_SerializeToArray W m)"
  using wire_runtime.exact_sizes [OF assms] by blast

theorem byte_size_exact_witness:
  "unat (StoragePB_ByteSizeLong varint_wire sample_file) = 18"
proof -
  have "length (StoragePB_Serialize varint_wire sample_file) = 18" by code_simp
  then show ?thesis
    using byte_size_exact [OF varint.wire_runtime_axioms] sample_file_fits
    by (auto simp: exact_size_def StoragePB_fits_def)
qed

text \<open>
  C33: The two serialisers of each of the seven classes agree:
  \<open>InternalSerializeWithCachedSizesToArray\<close> leaves what the array held and appends exactly what
  \<open>SerializeWithCachedSizes\<close> writes to a stream, when the runtime's array writers append what
  its stream writers write.
\<close>

theorem serialisers_agree:
  assumes "wire_arrays W"
  shows "ConfState_SerializeToArray W a t = t @ ConfState_Serialize W a \<and>
    Entry_SerializeToArray W b t = t @ Entry_Serialize W b \<and>
    SnapshotMetadata_SerializeToArray W c t = t @ SnapshotMetadata_Serialize W c \<and>
    Snapshot_SerializeToArray W d t = t @ Snapshot_Serialize W d \<and>
    HardState_SerializeToArray W e t = t @ HardState_Serialize W e \<and>
    StoragePB_SerializeToArray W f t = t @ StoragePB_Serialize W f \<and>
    Message_SerializeToArray W g t = t @ Message_Serialize W g"
  by (intro conjI wire_arrays.ConfState_arrays [OF assms]
    wire_arrays.Entry_arrays [OF assms]
    wire_arrays.SnapshotMetadata_arrays [OF assms]
    wire_arrays.Snapshot_arrays [OF assms]
    wire_arrays.HardState_arrays [OF assms]
    wire_arrays.StoragePB_arrays [OF assms]
    wire_arrays.Message_arrays [OF assms])

theorem serialisers_agree_witness:
  "Message_SerializeToArray varint_wire sample_append [1, 2] =
    [1, 2] @ Message_Serialize varint_wire sample_append"
  using serialisers_agree [OF varint.wire_arrays_axioms] by blast

text \<open>
  C34: Termination. On every input, valid or not, and from every message, the parsing loops
  of all seven classes end within as many turns as the input has bytes, and one more, when
  the runtime consumes at least a byte per tag and gives no input back.
\<close>

theorem parsers_end:
  assumes "wire_consumes W"
  shows "ConfState_MergePartial W inp a \<noteq> None \<and> Entry_MergePartial W inp b \<noteq> None \<and>
    SnapshotMetadata_MergePartial W inp c \<noteq> None \<and> Snapshot_MergePartial W inp d \<noteq> None \<and>
    HardState_MergePartial W inp e \<noteq> None \<and> StoragePB_MergePartial W inp f \<noteq> None \<and>
    Message_MergePartial W inp g \<noteq> None"
  using wire_consumes.ConfState_ends [OF assms] wire_consumes.Entry_ends [OF assms]
    wire_consumes.SnapshotMetadata_ends [OF assms] wire_consumes.Snapshot_ends [OF assms]
    wire_consumes.HardState_ends [OF assms] wire_consumes.StoragePB_ends [OF assms]
    wire_consumes.Message_ends [OF assms] by blast

theorem parsers_end_witness:
  "Message_MergePartial varint_wire [58, 255, 8, 0, 200, 1] new_Message \<noteq> None"
  using parsers_end [OF varint.wire_consumes_axioms] by blast

text \<open>
  \<open>CopyFrom\<close> makes a message equal to its argument whatever it held, also when the
  argument leaves fields unset, and does nothing when both are the same object;
  \<open>Swap\<close> exchanges two messages.
\<close>

theorem copy_and_swap:
  assumes "MessageType_ok (m_type src)"
  shows "Message_CopyFrom False src m = src \<and> Message_CopyFrom True src m = m \<and>
    Message_Swap False m other = (other, m) \<and> Message_Swap True m other = (m, other)"
  using Message_CopyFrom_copies [of src m] assms
  by (simp add: Message_Swap_swaps Message_canonical_def Message_CopyFrom_def)

theorem copy_and_swap_witness:
  "Message_CopyFrom False (new_Message\<lparr>m_to := 2\<rparr>) sample_append = new_Message\<lparr>m_to := 2\<rparr>"
  using copy_and_swap [of "new_Message\<lparr>m_to := 2\<rparr>" sample_append] by (simp add: MessageType_ok_def)

subsection \<open>From one node's queue to another's\<close>

text \<open>
  The message boxes over the codec. When the message at the head of one node's send
  queue fits the wire format, the bytes that \<open>tryPopSendbuf\<close> takes out, pushed into
  another node with \<open>tryPushRecvbuf\<close>, put exactly that message at the end of its receive
  queue, and change nothing else there; the pair names the message's receiver.
\<close>

theorem queues_deliver:
  assumes "wire_runtime W" and "E_codec E = pb_codec W"
    and "r_sendmsgs a = m # q" and "Message_fits W m" and "Message_Serialize W m \<noteq> []"
  shows "\<exists>data. tryPopSendbuf E a = ((data, m_to m), a\<lparr>r_sendmsgs := q\<rparr>) \<and>
    tryPushRecvbuf E data b = (True, b\<lparr>r_recvmsgs := r_recvmsgs b @ [m]\<rparr>)"
proof -
  have "Message_SerializeToString W m = Message_Serialize W m"
    using wire_arrays.Message_arrays [OF wire_runtime.axioms(2) [OF assms(1)]]
    by (simp add: Message_SerializeToString_def)
  then show ?thesis
    using assms wire_runtime.Message_parse [OF assms(1,4)]
    by (simp add: tryPopSendbuf_def tryPushRecvbuf_def pb_codec_def)
qed

definition varint_env :: env where
  "varint_env = \<lparr>E_codec = pb_codec varint_wire, E_frame = (\<lambda>_. replicate 1024 0)\<rparr>"

theorem queues_deliver_witness:
  "\<exists>data. tryPopSendbuf varint_env (send sample_append ((sample_node 1)\<lparr>r_sendmsgs := []\<rparr>)) =
      ((data, 2), (sample_node 1)\<lparr>r_sendmsgs := []\<rparr>) \<and>
    r_recvmsgs (snd (tryPushRecvbuf varint_env data (sample_node 2))) =
      r_recvmsgs (sample_node 2) @ [sample_append]"
proof -
  let ?a = "send sample_append ((sample_node 1)\<lparr>r_sendmsgs := []\<rparr>)"
  have l: "length (Message_Serialize varint_wire sample_append) = 37" by code_simp
  have to: "m_to sample_append = 2" by (simp add: sample_append_def)
  have "\<exists>data. tryPopSendbuf varint_env ?a = ((data, m_to sample_append), ?a\<lparr>r_sendmsgs := []\<rparr>) \<and>
    tryPushRecvbuf varint_env data (sample_node 2) =
      (True, (sample_node 2)\<lparr>r_recvmsgs := r_recvmsgs (sample_node 2) @ [sample_append]\<rparr>)"
    by (rule queues_deliver [OF varint.wire_runtime_axioms _ _ sample_append_fits])
      (use l in \<open>auto simp: varint_env_def send_def\<close>)
  then show ?thesis by (auto simp: to send_def)
qed

end
