(* ===== verification/Storage_Properties.thy ===== *)
theory Storage_Properties
  imports Codec_Properties
begin

text \<open>
  The properties of the stable storage over the generated classes (the codec is
  \<open>pb_codec\<close> of a runtime that meets its laws), of a restart from it, and of the
  progress records.
\<close>

subsection \<open>Reading back\<close>

definition log_file :: "Entry list \<Rightarrow> StoragePB" where
  "log_file ents = new_StoragePB\<lparr>st_entries := map stored_entry ents\<rparr>"

text \<open>The bytes fill less than the array of a reader, hold no NUL, and a NUL follows them there.\<close>

definition reads_whole :: "bytes \<Rightarrow> bytes \<Rightarrow> bool" where
  "reads_whole g d = (0 \<notin> set d \<and> length d < 1024 \<and> length g = 1024 \<and> g ! length d = 0)"

lemma reads_whole_cstr: "reads_whole g d \<Longrightarrow> read_cstr g d = Some d"
  by (rule read_cstr_exact) (simp_all add: reads_whole_def)

lemma Append_bytes:
  assumes "wire_runtime W"
  shows "Storage_Append (pb_codec W) ents f = Some (StoragePB_Serialize W (log_file ents))"
  using wire_arrays.StoragePB_arrays [OF wire_runtime.axioms(2) [OF assms]]
  by (simp add: Storage_Append_def pb_codec_def StoragePB_SerializeToString_def log_file_def)

lemma log_file_parse:
  assumes "wire_runtime W" and "StoragePB_fits W (log_file ents)"
  shows "parse_Storage (pb_codec W) (StoragePB_Serialize W (log_file ents)) = log_file ents"
  using wire_runtime.StoragePB_parse [OF assms]
    wire_arrays.StoragePB_arrays [OF wire_runtime.axioms(2) [OF assms(1)]]
  by (simp add: pb_codec_def StoragePB_SerializeToString_def)

lemma log_file_sel [simp]:
  "st_entries (log_file ents) = map stored_entry ents" "st_offset (log_file ents) = 0"
  "Snapshot_metadata (StoragePB_snap (log_file ents)) = new_SnapshotMetadata"
  by (simp_all add: log_file_def new_StoragePB_def StoragePB_snap_def Snapshot_metadata_def
      new_Snapshot_def)

lemma new_SnapshotMetadata_sel [simp]: "sm_index new_SnapshotMetadata = 0"
  by (simp add: new_SnapshotMetadata_def)

lemma append_reads:
  assumes "wire_runtime W" and "StoragePB_fits W (log_file ents)"
    and "reads_whole g (StoragePB_Serialize W (log_file ents))"
  shows "Storage_Entries (pb_codec W) g (Storage_Append (pb_codec W) ents f) = Some (map stored_entry ents) \<and>
    Storage_FirstIndex (pb_codec W) g (Storage_Append (pb_codec W) ents f) = Some 0 \<and>
    Storage_LastIndex (pb_codec W) g (Storage_Append (pb_codec W) ents f) =
      Some (if sz ents > 0 then sz ents - 1 else 0)"
  unfolding Append_bytes [OF assms(1)] Storage_Entries_def Storage_FirstIndex_def
    Storage_LastIndex_def
  by (simp add: reads_whole_cstr [OF assms(3)] log_file_parse [OF assms(1,2)] Let_def sz_def)

text \<open>
  C38: What \<open>Append\<close> wrote is what \<open>Entries\<close> reads, entry by entry (all fields but
  unknown ones), and nothing of what the file held before; \<open>LastIndex\<close> answers one less
  than the number of entries, as \<open>Append\<close> never stores an offset. The serialised entries
  hold no NUL, take less than 1024 bytes, and the readers' array is zero behind them.
\<close>

theorem append_then_read:
  assumes "wire_runtime W" and "StoragePB_fits W (log_file ents)"
    and "reads_whole g (StoragePB_Serialize W (log_file ents))"
  shows "Storage_Entries (pb_codec W) g (Storage_Append (pb_codec W) ents f) = Some (map stored_entry ents) \<and>
    Storage_FirstIndex (pb_codec W) g (Storage_Append (pb_codec W) ents f) = Some 0 \<and>
    Storage_LastIndex (pb_codec W) g (Storage_Append (pb_codec W) ents f) =
      Some (if sz ents > 0 then sz ents - 1 else 0)"
  by (rule append_reads [OF assms])

lemma sample_log_file:
  "StoragePB_fits varint_wire (log_file [sample_entry 1 65, sample_entry 2 66])"
  "reads_whole (replicate 1024 0) (StoragePB_Serialize varint_wire (log_file [sample_entry 1 65, sample_entry 2 66]))"
proof -
  let ?d = "StoragePB_Serialize varint_wire (log_file [sample_entry 1 65, sample_entry 2 66])"
  have l: "length ?d = 18" by code_simp
  have "StoragePB_plain (log_file [sample_entry 1 65, sample_entry 2 66])" by code_simp
  then show "StoragePB_fits varint_wire (log_file [sample_entry 1 65, sample_entry 2 66])"
    using l by (simp add: StoragePB_fits_def)
  have "list_all (\<lambda>b. b \<noteq> 0) ?d" by code_simp
  then show "reads_whole (replicate 1024 0) ?d"
    using l by (auto simp: reads_whole_def list_all_iff)
qed

theorem append_then_read_witness:
  "Storage_Entries (pb_codec varint_wire) (replicate 1024 0)
     (Storage_Append (pb_codec varint_wire) [sample_entry 1 65, sample_entry 2 66] (Some [1, 2, 3])) =
   Some [sample_entry 1 65, sample_entry 2 66]"
proof -
  have "map stored_entry [sample_entry 1 65, sample_entry 2 66] = [sample_entry 1 65, sample_entry 2 66]"
    by code_simp
  then show ?thesis using append_then_read [OF varint.wire_runtime_axioms sample_log_file] by metis
qed

text \<open>
  C39: A file whose first 1024 bytes hold no NUL has no defined reading: all five readers,
  both operations that read before they write, and the constructor of \<open>Raft\<close> (a node that
  restarts) run off their array, whatever codec and stack.
\<close>

theorem long_file_is_unreadable:
  assumes "1024 \<le> length content" and "0 \<notin> set (take 1024 content)"
  shows "Storage_FirstIndex C g (Some content) = None \<and> Storage_LastIndex C g (Some content) = None \<and>
    Storage_Term C g g' (Some content) i = None \<and> Storage_Snapshot C g (Some content) = None \<and>
    Storage_Entries C g (Some content) = None \<and> Storage_ApplySnapshot C g snap (Some content) = None \<and>
    Storage_SetHardState C g hs (Some content) = None \<and>
    new_Raft E nid heartbeatTimeout electionTimeout rnd (Some content) = None"
proof -
  have r: "read_cstr h content = None" for h by (rule read_cstr_overrun [OF assms(2,1)])
  show ?thesis by (simp add: storage_defs new_Raft_def r)
qed

theorem long_file_is_unreadable_witness:
  "new_Raft varint_env 1 10 150 sample_chance (Some (replicate 1024 65)) = None"
  using long_file_is_unreadable [of "replicate 1024 65"] by simp

text \<open>
  C40: A restart forgets the log. A node constructed over the file that \<open>Append\<close> wrote
  starts with an empty log, nothing committed and nothing applied, though the file reads
  back in full; its next index is the number of stored entries (1 when there are none).
\<close>

theorem restart_forgets_log:
  assumes "wire_runtime W" and "E_codec E = pb_codec W" and "StoragePB_fits W (log_file ents)"
    and "\<And>k. reads_whole (E_frame E k) (StoragePB_Serialize W (log_file ents))"
  shows "\<exists>r. new_Raft E nid heartbeatTimeout electionTimeout rnd (Storage_Append (E_codec E) ents f) = Some r \<and>
    r_entries r = [] \<and> r_commitIndex r = 0 \<and> r_lastApplied r = 0 \<and>
    r_offset r = (if sz ents > 1 then sz ents else 1) \<and>
    Storage_Entries (E_codec E) (E_frame E 0) (r_storage r) = Some (map stored_entry ents)"
proof -
  note rd = append_reads [OF assms(1,3,4)]
  have one: "(0::u64) < n - 1 \<longleftrightarrow> 1 < n" if "0 < n" for n :: u64
    using that unfolding word_less_nat_alt by (simp add: unat_sub word_le_nat_alt)
  have z: "1 < n \<Longrightarrow> 0 < n" for n :: u64 by (simp add: word_less_nat_alt)
  show ?thesis
    unfolding new_Raft_def assms(2) using z [of "sz ents"]
    by (cases "0 < sz ents"; cases "1 < sz ents")
      (simp_all add: rd one Let_def resetRandomizedElectionTimeout_def Raft_rand_def raft_blank_def)
qed

theorem restart_forgets_log_witness:
  "\<exists>r. new_Raft varint_env 1 10 150 sample_chance
      (Storage_Append (pb_codec varint_wire) [sample_entry 1 65, sample_entry 2 66] None) = Some r \<and>
    r_entries r = [] \<and> r_commitIndex r = 0 \<and> r_offset r = 2"
proof -
  have c: "E_codec varint_env = pb_codec varint_wire" by (simp add: varint_env_def)
  have n: "sz [sample_entry 1 65, sample_entry 2 66] = 2" by (simp add: sz_def)
  have "reads_whole (E_frame varint_env k)
      (StoragePB_Serialize varint_wire (log_file [sample_entry 1 65, sample_entry 2 66]))" for k
    using sample_log_file(2) by (simp add: varint_env_def)
  from restart_forgets_log [OF varint.wire_runtime_axioms c sample_log_file(1) this,
      of 1 10 150 sample_chance None]
  show ?thesis unfolding c n by auto
qed

subsection \<open>Hard state and snapshots\<close>

text \<open>
  \<open>SetHardState\<close> stores the commit index as the term, and neither the term nor the
  vote: what is then parsed back is the old hard state with its term replaced by the new
  commit index. A file that does not exist counts as the default hard state.
\<close>

theorem hardstate_stores_commit:
  assumes "wire_runtime W" and "HardState_fits W (old\<lparr>hs_term := hs_commit hs\<rparr>)"
    and "case f of None \<Rightarrow> old = new_HardState
         | Some c \<Rightarrow> \<exists>d. read_cstr g c = Some d \<and> parse_HardState (pb_codec W) d = old"
  shows "\<exists>out. Storage_SetHardState (pb_codec W) g hs f = Some (Some out) \<and>
    parse_HardState (pb_codec W) out = old\<lparr>hs_term := hs_commit hs\<rparr>"
proof -
  let ?new = "old\<lparr>hs_term := hs_commit hs\<rparr>"
  have "Storage_SetHardState (pb_codec W) g hs f = Some (Some (ser_HardState (pb_codec W) ?new))"
    using assms(3) by (cases f) (auto simp: Storage_SetHardState_def put_hardstate_def)
  moreover have "parse_HardState (pb_codec W) (ser_HardState (pb_codec W) ?new) = ?new"
    using wire_runtime.HardState_parse [OF assms(1,2)] by (simp add: pb_codec_def)
  ultimately show ?thesis by blast
qed

theorem hardstate_stores_commit_witness:
  "\<exists>out. Storage_SetHardState (pb_codec varint_wire) []
      (new_HardState\<lparr>hs_term := 7, hs_vote := 2, hs_commit := 300\<rparr>) None = Some (Some out) \<and>
    parse_HardState (pb_codec varint_wire) out = new_HardState\<lparr>hs_term := 300\<rparr>"
  using hardstate_stores_commit [OF varint.wire_runtime_axioms, where old = new_HardState and f = None
      and hs = "new_HardState\<lparr>hs_term := 7, hs_vote := 2, hs_commit := 300\<rparr>" and g = "[]"]
    sample_hardstate_fits by simp

definition membership :: "Snapshot \<Rightarrow> ConfState" where
  "membership s = SnapshotMetadata_conf_state (Snapshot_metadata s)"

lemma add_conf_state_joins:
  "length ns \<le> length ls \<Longrightarrow> \<exists>c'. add_conf_state ns ls c = Some c' \<and>
    (case c' of Some x \<Rightarrow> x | None \<Rightarrow> new_ConfState) =
    (let s = (case c of Some x \<Rightarrow> x | None \<Rightarrow> new_ConfState)
     in s\<lparr>cs_nodes := cs_nodes s @ ns, cs_learners := cs_learners s @ take (length ns) ls\<rparr>)"
  by (induction ns ls c rule: add_conf_state.induct) (auto simp: Let_def)

lemma merge_snapshot_joins:
  assumes "length (cs_nodes (membership snap)) \<le> length (cs_learners (membership snap))"
  shows "\<exists>sn. merge_snapshot snap msg = Some (msg\<lparr>st_snap := Some sn\<rparr>) \<and> sn_data sn = sn_data snap \<and>
    sm_index (Snapshot_metadata sn) = sm_index (Snapshot_metadata snap) \<and>
    sm_term (Snapshot_metadata sn) = sm_term (Snapshot_metadata snap) \<and>
    cs_nodes (membership sn) = cs_nodes (membership (StoragePB_snap msg)) @ cs_nodes (membership snap) \<and>
    cs_learners (membership sn) = cs_learners (membership (StoragePB_snap msg)) @
      take (length (cs_nodes (membership snap))) (cs_learners (membership snap))"
proof -
  let ?old = "StoragePB_snap msg" and ?cs = "membership snap"
  have md: "Snapshot_metadata (?old\<lparr>sn_data := x\<rparr>) = Snapshot_metadata ?old" for x
    by (simp add: Snapshot_metadata_def)
  obtain c where c: "add_conf_state (cs_nodes ?cs) (cs_learners ?cs)
        (sm_conf_state (Snapshot_metadata ?old)) = Some c"
    and j: "(case c of Some x \<Rightarrow> x | None \<Rightarrow> new_ConfState) = (let s = membership ?old
      in s\<lparr>cs_nodes := cs_nodes s @ cs_nodes ?cs,
           cs_learners := cs_learners s @ take (length (cs_nodes ?cs)) (cs_learners ?cs)\<rparr>)"
    using add_conf_state_joins [OF assms, of "sm_conf_state (Snapshot_metadata ?old)"]
    by (auto simp: membership_def SnapshotMetadata_conf_state_def)
  let ?md = "(Snapshot_metadata ?old)\<lparr>sm_conf_state := c,
    sm_index := sm_index (Snapshot_metadata snap), sm_term := sm_term (Snapshot_metadata snap)\<rparr>"
  let ?sn = "?old\<lparr>sn_data := sn_data snap, sn_metadata := Some ?md\<rparr>"
  have m: "Snapshot_metadata ?sn = ?md" by (simp add: Snapshot_metadata_def)
  have "merge_snapshot snap msg = Some (msg\<lparr>st_snap := Some ?sn\<rparr>)"
    using c by (simp add: merge_snapshot_def Let_def md flip: membership_def)
  moreover have "membership ?sn = (case c of Some x \<Rightarrow> x | None \<Rightarrow> new_ConfState)"
    unfolding membership_def m by (simp add: SnapshotMetadata_conf_state_def)
  ultimately show ?thesis
    by (intro exI [of _ ?sn]) (simp add: m j Let_def)
qed

text \<open>
  \<open>ApplySnapshot\<close> over a readable file keeps everything but the snapshot. The new
  snapshot has the data, the index and the term of the argument, and its membership is the
  old one followed by the argument's nodes and as many of its learners; when the argument
  names fewer learners than nodes, a learner past the end is read and there is no outcome.
\<close>

theorem snapshot_accumulates:
  assumes "read_cstr g content = Some d" and "parse_Storage C d = old"
  shows "if length (cs_nodes (membership snap)) \<le> length (cs_learners (membership snap))
    then \<exists>sn. Storage_ApplySnapshot C g snap (Some content) =
          Some (Some (ser_Storage C (old\<lparr>st_snap := Some sn\<rparr>))) \<and>
        sn_data sn = sn_data snap \<and>
        sm_index (Snapshot_metadata sn) = sm_index (Snapshot_metadata snap) \<and>
        sm_term (Snapshot_metadata sn) = sm_term (Snapshot_metadata snap) \<and>
        cs_nodes (membership sn) = cs_nodes (membership (StoragePB_snap old)) @ cs_nodes (membership snap) \<and>
        cs_learners (membership sn) = cs_learners (membership (StoragePB_snap old)) @
          take (length (cs_nodes (membership snap))) (cs_learners (membership snap))
    else Storage_ApplySnapshot C g snap (Some content) = None"
proof (cases "length (cs_nodes (membership snap)) \<le> length (cs_learners (membership snap))")
  case True
  obtain sn where "merge_snapshot snap old = Some (old\<lparr>st_snap := Some sn\<rparr>)"
    and r: "sn_data sn = sn_data snap" "sm_index (Snapshot_metadata sn) = sm_index (Snapshot_metadata snap)"
      "sm_term (Snapshot_metadata sn) = sm_term (Snapshot_metadata snap)"
      "cs_nodes (membership sn) = cs_nodes (membership (StoragePB_snap old)) @ cs_nodes (membership snap)"
      "cs_learners (membership sn) = cs_learners (membership (StoragePB_snap old)) @
        take (length (cs_nodes (membership snap))) (cs_learners (membership snap))"
    using merge_snapshot_joins [OF True, of old] by blast
  then have "Storage_ApplySnapshot C g snap (Some content) =
      Some (Some (ser_Storage C (old\<lparr>st_snap := Some sn\<rparr>)))"
    using assms by (simp add: Storage_ApplySnapshot_def)
  with r True show ?thesis by auto
next
  case False
  then have "merge_snapshot snap old = None"
    using add_conf_state_None [of "cs_learners (membership snap)" "cs_nodes (membership snap)"]
    by (simp add: merge_snapshot_def Let_def flip: membership_def)
  with False assms show ?thesis by (simp add: Storage_ApplySnapshot_def)
qed

definition snapshot_of :: "u64 list \<Rightarrow> u64 list \<Rightarrow> Snapshot" where
  "snapshot_of ns ls = new_Snapshot\<lparr>sn_metadata := Some (new_SnapshotMetadata\<lparr>sm_conf_state :=
     Some (new_ConfState\<lparr>cs_nodes := ns, cs_learners := ls\<rparr>)\<rparr>)\<rparr>"

lemma membership_snapshot_of:
  "cs_nodes (membership (snapshot_of ns ls)) = ns" "cs_learners (membership (snapshot_of ns ls)) = ls"
  by (simp_all add: membership_def snapshot_of_def Snapshot_metadata_def SnapshotMetadata_conf_state_def)

theorem snapshot_accumulates_witness:
  "Storage_ApplySnapshot (pb_codec varint_wire) (replicate 1024 0) (snapshot_of [1, 2] [3]) (Some []) = None"
proof -
  have r: "read_cstr (replicate 1024 0) [] = Some []"
    by (rule read_cstr_exact) simp_all
  show ?thesis
    using snapshot_accumulates [OF r refl, where C = "pb_codec varint_wire" and snap = "snapshot_of [1, 2] [3]"]
    by (simp add: membership_snapshot_of)
qed

subsection \<open>Progress records\<close>

text \<open>
  An acknowledgement of index \<open>n\<close> never lowers what a leader knows of a follower:
  \<open>maybeUpdate\<close> answers whether \<open>n\<close> is news, afterwards \<open>match\<close> and \<open>next\<close> are the
  larger of their old values and \<open>n\<close>, \<open>n + 1\<close>, \<open>match < next\<close> still holds, also after
  the change of state that follows, and nothing else changes.
\<close>

theorem acknowledgement_advances:
  assumes "progress_ok p" and "n + 1 \<noteq> 0" and "maybeUpdate n p = (b, p')"
  shows "(b \<longleftrightarrow> p_match p < n) \<and> p_match p' = max (p_match p) n \<and> p_next p' = max (p_next p) (n + 1) \<and>
    p_state p' = p_state p \<and> progress_ok p' \<and> (b \<longrightarrow> progress_ok (becomeReplicate p') \<and> progress_ok (becomeProbe p'))"
proof -
  have m: "p_match p' = max (p_match p) n" using maybeUpdate_match [of n p] assms(3) by simp
  have b: "b \<longleftrightarrow> p_match p < n" using maybeUpdate_fst [of n p] assms(3) by simp
  have "p_match p' + 1 \<noteq> 0" if b
  proof -
    have "max (p_match p) n = n" using that b by (simp add: max_absorb2 less_imp_le)
    then show ?thesis using m assms(2) by simp
  qed
  moreover have "p_state p' = p_state p"
    using assms(3) by (auto simp: maybeUpdate_def Let_def split: if_splits)
  ultimately show ?thesis
    using m b maybeUpdate_next [of n p] progress_ok_maybeUpdate [OF assms(1,2)] assms(3)
    by (simp add: progress_ok_becomeReplicate progress_ok_becomeProbe)
qed

theorem acknowledgement_advances_witness:
  "p_match (snd (maybeUpdate 5 (zero_Progress\<lparr>p_next := 1\<rparr>))) = 5"
proof -
  have "progress_ok (zero_Progress\<lparr>p_next := 1\<rparr>)" by (simp add: progress_ok_def zero_Progress_def)
  moreover obtain b p' where e: "maybeUpdate 5 (zero_Progress\<lparr>p_next := 1\<rparr>) = (b, p')" by fastforce
  ultimately have "p_match p' = max (p_match (zero_Progress\<lparr>p_next := 1\<rparr>)) 5"
    using acknowledgement_advances by fastforce
  then show ?thesis unfolding e by (simp add: zero_Progress_def)
qed

end
