(* ===== verification/Net_Buffer.thy ===== *)
theory Net_Buffer
  imports Raft_Queues
begin

text \<open>
  \<^verbatim>\<open>sapphiredb/common/net.h\<close> and \<^verbatim>\<open>net.cc\<close>: the class \<open>Netcon\<close>, with one buffer per
  direction and the queue of connections that no peer has claimed. A buffer is a string
  with a fill level \<open>d_len\<close> of its own; the string's own length is the length of the
  list, an access past it has no defined meaning and is \<open>None\<close>.
\<close>

subsection \<open>Strings written by index\<close>

text \<open>\<open>s[j] = ch\<close>: at the end of the string only the terminating NUL may be written.\<close>

definition str_put :: "int \<Rightarrow> byte \<Rightarrow> bytes \<Rightarrow> bytes option" where
  "str_put j ch s =
     (if 0 \<le> j \<and> j < int (length s) then Some (s[nat j := ch])
      else if j = int (length s) \<and> ch = 0 then Some s
      else None)"

text \<open>The loop \<open>for(auto ch : data) s[j++] = ch\<close>, with the index it ends at.\<close>

fun str_write :: "int \<Rightarrow> bytes \<Rightarrow> bytes \<Rightarrow> (int \<times> bytes) option" where
  "str_write j [] s = Some (j, s)"
| "str_write j (ch # data) s = do { s \<leftarrow> str_put j ch s; str_write (j + 1) data s }"

lemma str_write_fits:
  assumes "0 \<le> j" and "nat j + length data \<le> length s"
  shows "str_write j data s =
    Some (j + int (length data), take (nat j) s @ data @ drop (nat j + length data) s)"
  using assms
proof (induction data arbitrary: j s)
  case (Cons ch data)
  have j: "j < int (length s)" using Cons.prems by simp
  have "str_write (j + 1) data (s[nat j := ch]) = Some (j + 1 + int (length data),
      take (nat (j + 1)) (s[nat j := ch]) @ data @ drop (nat (j + 1) + length data) (s[nat j := ch]))"
    by (rule Cons.IH) (use Cons.prems in auto)
  moreover have "take (nat (j + 1)) (s[nat j := ch]) = take (nat j) s @ [ch]"
  proof -
    have "nat (j + 1) = Suc (nat j)" using Cons.prems(1) by simp
    then show ?thesis using j Cons.prems(1) by (simp add: take_Suc_conv_app_nth nat_less_iff)
  qed
  moreover have "drop (nat (j + 1) + length data) (s[nat j := ch]) = drop (nat j + length (ch # data)) s"
    using Cons.prems(1) by (simp add: nat_add_distrib)
  ultimately show ?case using Cons.prems(1) j by (simp add: str_put_def)
qed simp

lemma str_write_overrun:
  assumes "0 \<le> j" "j \<le> int (length s)" "int (length s) < j + int (length data)" "0 \<notin> set data"
  shows "str_write j data s = None"
  using assms
proof (induction data arbitrary: j s)
  case (Cons ch data)
  show ?case
  proof (cases "j < int (length s)")
    case True
    then have "str_write (j + 1) data (s[nat j := ch]) = None" by (intro Cons.IH) (use Cons.prems in auto)
    then show ?thesis using True Cons.prems by (simp add: str_put_def)
  next
    case False
    then show ?thesis using Cons.prems by (auto simp: str_put_def)
  qed
qed simp

subsection \<open>The class\<close>

record data =
  d_len :: u32
  d_size :: u32
  d_buf :: bytes

definition new_Data :: "u32 \<Rightarrow> data" where
  "new_Data s = \<lparr>d_len = 0, d_size = s, d_buf = replicate (unat s) 0\<rparr>"

datatype NetType = IPV4 | IPV6

text \<open>\<open>_port\<close> is assigned for IPv4 only.\<close>

record netcon =
  n_port :: "u32 option"
  n_addr_ipv4 :: string
  n_recvbuf :: data
  n_sendbuf :: data
  n_unknownfd :: "i32 list"

definition new_Netcon :: "string \<Rightarrow> u32 \<Rightarrow> NetType \<Rightarrow> u32 \<Rightarrow> netcon" where
  "new_Netcon addr port type bufsize =
     (let c = \<lparr>n_port = None, n_addr_ipv4 = '''', n_recvbuf = new_Data bufsize,
                n_sendbuf = new_Data bufsize, n_unknownfd = []\<rparr>
      in if type = IPV4 then c\<lparr>n_addr_ipv4 := addr, n_port := Some port\<rparr> else c)"

definition getData :: "'a netcon_scheme \<Rightarrow> data" where
  "getData c = n_recvbuf c"

text \<open>
  \<open>pushData\<close>, both overloads: refused while an earlier message is in the buffer or when
  the data is larger than it. The length is tested again under the lock.
\<close>

definition pushData :: "bytes \<Rightarrow> 'a netcon_scheme \<Rightarrow> (bool \<times> 'a netcon_scheme) option" where
  "pushData dat c =
     (let b = n_sendbuf c
      in if d_len b > 0 then Some (False, c)
         else if u64_of_u32 (d_len b) + sz dat > u64_of_u32 (d_size b) then Some (False, c)
         else do {
           b \<leftarrow> (if u64_of_u32 (d_len b) + sz dat \<le> u64_of_u32 (d_size b)
                 then do {
                   (j, s) \<leftarrow> str_write (sint (d_len b)) dat (d_buf b);
                   s \<leftarrow> str_put j 0 s;
                   Some (b\<lparr>d_buf := s, d_len := d_len b + of_nat (length dat)\<rparr>) }
                 else Some b);
           Some (True, c\<lparr>n_sendbuf := b\<rparr>) })"

definition popData :: "'a netcon_scheme \<Rightarrow> (bytes \<times> 'a netcon_scheme) option" where
  "popData c =
     (let b = n_recvbuf c
      in if d_len b \<le> 0 then Some ([], c)
         else if d_len b > 0
         then let slen = d_len b; b = b\<lparr>d_len := 0\<rparr>
              in (if unat slen \<le> length (d_buf b)
                  then Some (take (unat slen) (d_buf b), c\<lparr>n_recvbuf := b\<rparr>) else None)
         else Some ([], c))"

definition clearSendbuf :: "'a netcon_scheme \<Rightarrow> 'a netcon_scheme" where
  "clearSendbuf c = c\<lparr>n_sendbuf := (n_sendbuf c)\<lparr>d_buf := [], d_len := 0\<rparr>\<rparr>"

definition clearRecvbuf :: "'a netcon_scheme \<Rightarrow> 'a netcon_scheme" where
  "clearRecvbuf c = c\<lparr>n_recvbuf := (n_recvbuf c)\<lparr>d_buf := [], d_len := 0\<rparr>\<rparr>"

definition pushUnknownfd :: "i32 \<Rightarrow> 'a netcon_scheme \<Rightarrow> 'a netcon_scheme" where
  "pushUnknownfd fd c = c\<lparr>n_unknownfd := n_unknownfd c @ [fd]\<rparr>"

definition popUnknownfd :: "'a netcon_scheme \<Rightarrow> (i32 \<times> 'a netcon_scheme) option" where
  "popUnknownfd c =
     (case n_unknownfd c of [] \<Rightarrow> None | fd # q \<Rightarrow> Some (fd, c\<lparr>n_unknownfd := q\<rparr>))"

definition emptyUnknownfd :: "'a netcon_scheme \<Rightarrow> bool" where
  "emptyUnknownfd c = (n_unknownfd c = [])"

text \<open>The connections nobody claimed form a FIFO queue.\<close>

interpretation fdq: fifo_queue pushUnknownfd popUnknownfd n_unknownfd
  by unfold_locales
    (auto simp: pushUnknownfd_def popUnknownfd_def split: list.splits)

subsection \<open>Invariant of a buffer\<close>

text \<open>A buffer that was not cleared is as long as its size says, and not filled beyond it.\<close>

definition data_ok :: "data \<Rightarrow> bool" where
  "data_ok b = (length (d_buf b) = unat (d_size b) \<and> d_len b \<le> d_size b)"

definition contents :: "data \<Rightarrow> bytes" where
  "contents b = take (unat (d_len b)) (d_buf b)"

lemma data_ok_new: "data_ok (new_Data s)"
  by (simp add: data_ok_def new_Data_def)

lemma unat_widen [simp]: "unat (u64_of_u32 w) = unat w"
proof -
  have "unat w < 2 ^ LENGTH(32)" by (rule unsigned_less)
  then have "unat w < 2 ^ 64" by simp
  then show ?thesis by (simp add: u64_of_u32_def unsigned_ucast_eq take_bit_nat_eq_self_iff)
qed

lemma u64_of_u32_zero [simp]: "u64_of_u32 0 = 0"
  by (simp add: u64_of_u32_def)

lemma pushData_accepts:
  assumes "data_ok (n_sendbuf c)" and "d_len (n_sendbuf c) = 0"
    and "length dat \<le> unat (d_size (n_sendbuf c))"
  shows "\<exists>b. pushData dat c = Some (True, c\<lparr>n_sendbuf := b\<rparr>) \<and> data_ok b \<and> contents b = dat \<and>
    unat (d_len b) = length dat \<and> d_size b = d_size (n_sendbuf c)"
proof -
  let ?b = "n_sendbuf c"
  let ?s = "dat @ drop (length dat) (d_buf ?b)"
  have size: "unat (d_size ?b) < 2 ^ 32" using unsigned_less [where w = "d_size ?b"] by simp
  have n: "unat (sz dat) = length dat" by (rule unat_sz) (use assms(3) size in simp)
  have le: "\<not> u64_of_u32 (d_size ?b) < u64_of_u32 (d_len ?b) + sz dat"
    using assms(2,3) n by (simp add: word_less_nat_alt u64_of_u32_zero)
  have len: "length (d_buf ?b) = unat (d_size ?b)" using assms(1) by (simp add: data_ok_def)
  have w: "str_write 0 dat (d_buf ?b) = Some (int (length dat), ?s)"
    using str_write_fits [of 0 dat "d_buf ?b"] assms(3) len by simp
  obtain s where p: "str_put (int (length dat)) 0 ?s = Some s" and ls: "length s = length (d_buf ?b)"
    and ts: "take (length dat) s = dat"
  proof (cases "length dat < length (d_buf ?b)")
    case True
    then show thesis using that [of "?s[length dat := 0]"] by (simp add: str_put_def)
  next
    case False
    then have "length dat = length (d_buf ?b)" using assms(3) len by simp
    then show thesis using that [of ?s] by (simp add: str_put_def)
  qed
  let ?b' = "?b\<lparr>d_buf := s, d_len := of_nat (length dat)\<rparr>"
  have u: "unat (of_nat (length dat) :: u32) = length dat"
    using assms(3) size by (simp add: unat_of_nat)
  have "pushData dat c = Some (True, c\<lparr>n_sendbuf := ?b'\<rparr>)"
    using le assms(2) w p by (simp add: pushData_def Let_def not_less)
  moreover have "data_ok ?b'" using ls len assms(3) u by (simp add: data_ok_def word_le_nat_alt)
  moreover have "contents ?b' = dat" using u ts by (simp add: contents_def)
  ultimately show ?thesis using u by (intro exI [of _ ?b']) simp
qed

lemma pushData_refuses:
  assumes "0 < d_len (n_sendbuf c) \<or>
    unat (d_size (n_sendbuf c)) < unat (d_len (n_sendbuf c)) + length dat \<and> length dat < 2 ^ 63"
  shows "pushData dat c = Some (False, c)"
proof (cases "0 < d_len (n_sendbuf c)")
  case False
  have "unat (sz dat) = length dat" if "length dat < 2 ^ 63" by (rule unat_sz) (use that in simp)
  moreover have "d_len (n_sendbuf c) = 0" using False word_neq_0_conv by blast
  ultimately show ?thesis
    using assms False by (auto simp: pushData_def Let_def word_less_nat_alt)
qed (simp add: pushData_def)

lemma popData_contents:
  assumes "data_ok (n_recvbuf c)"
  shows "popData c = Some (contents (n_recvbuf c), c\<lparr>n_recvbuf := (n_recvbuf c)\<lparr>d_len := 0\<rparr>\<rparr>)"
proof (cases "d_len (n_recvbuf c) = 0")
  case True
  then show ?thesis by (cases c) (simp add: popData_def contents_def)
next
  case False
  then have "0 < d_len (n_recvbuf c)" by (simp add: word_neq_0_conv)
  moreover have "unat (d_len (n_recvbuf c)) \<le> length (d_buf (n_recvbuf c))"
    using assms by (simp add: data_ok_def word_le_nat_alt)
  ultimately show ?thesis by (simp add: popData_def contents_def Let_def)
qed

end
