(* ===== verification/Net_System.thy ===== *)
theory Net_System
  imports Net_Buffer
begin

text \<open>
  What the two event loops share: the system calls, the state they add to \<open>Netcon\<close>, and
  the loops of \<open>handleRead\<close> and \<open>handleWrite\<close>, which \<^verbatim>\<open>epoll.cc\<close> and \<^verbatim>\<open>kqueue.cc\<close> contain in
  the same form. The kernel is not part of the repository: its calls are the fields of the
  record \<open>sys\<close>, functions over a state \<open>'w\<close> of the outside world.
\<close>

subsection \<open>Outcomes\<close>

text \<open>
  A call returns, ends the process (\<open>exit_if\<close>), has no defined meaning, or is still in a
  loop when the bound on its turns is used up.
\<close>

datatype 'a outcome = Done 'a | Exited | Faulted | Spinning

definition and_then :: "'a outcome \<Rightarrow> ('a \<Rightarrow> 'b outcome) \<Rightarrow> 'b outcome" where
  "and_then x f =
     (case x of Done y \<Rightarrow> f y | Exited \<Rightarrow> Exited | Faulted \<Rightarrow> Faulted | Spinning \<Rightarrow> Spinning)"

definition defined :: "'a option \<Rightarrow> ('a \<Rightarrow> 'b outcome) \<Rightarrow> 'b outcome" where
  "defined x f = (case x of Some y \<Rightarrow> f y | None \<Rightarrow> Faulted)"

fun for_each :: "('x \<Rightarrow> 's \<Rightarrow> 's outcome) \<Rightarrow> 'x list \<Rightarrow> 's \<Rightarrow> 's outcome" where
  "for_each f [] s = Done s"
| "for_each f (x # xs) s = and_then (f x s) (for_each f xs)"

lemma and_then_simps [simp]:
  "and_then (Done y) f = f y" "and_then Exited f = Exited" "and_then Faulted f = Faulted"
  "and_then Spinning f = Spinning"
  by (simp_all add: and_then_def)

lemma and_then_Done: "and_then x f = Done z \<longleftrightarrow> (\<exists>y. x = Done y \<and> f y = Done z)"
  by (cases x) simp_all

lemma defined_simps [simp]: "defined (Some y) f = f y" "defined None f = Faulted"
  by (simp_all add: defined_def)

subsection \<open>System calls\<close>

datatype errno = E_AGAIN | E_INTR | E_OTHER

text \<open>\<open>read\<close> and \<open>write\<close> answer a positive count, zero, or an error.\<close>

datatype read_result = Got bytes | Eof | ReadError errno

datatype write_result = Sent nat | WroteNothing | WriteError errno

datatype ctl_op = CTL_ADD | CTL_MOD | CTL_DEL

datatype kfilter = FILT_READ | FILT_WRITE | FILT_OTHER

datatype kchange = KAdd i32 kfilter | KDelete i32 kfilter

record 'w sys =
  sys_getfl :: "i32 \<Rightarrow> 'w \<Rightarrow> i32 \<times> 'w"
  sys_setfl :: "i32 \<Rightarrow> i32 \<Rightarrow> 'w \<Rightarrow> i32 \<times> 'w"
  sys_socket :: "'w \<Rightarrow> i32 \<times> 'w"
  sys_bind :: "i32 \<Rightarrow> string \<Rightarrow> u32 \<Rightarrow> 'w \<Rightarrow> i32 \<times> 'w"
  sys_connect :: "i32 \<Rightarrow> string \<Rightarrow> u32 \<Rightarrow> 'w \<Rightarrow> i32 \<times> 'w"
  sys_listen :: "i32 \<Rightarrow> u32 \<Rightarrow> 'w \<Rightarrow> i32 \<times> 'w"
  sys_accept :: "i32 \<Rightarrow> 'w \<Rightarrow> i32 \<times> 'w"
  sys_getpeername :: "i32 \<Rightarrow> 'w \<Rightarrow> i32 \<times> 'w"
  sys_read :: "i32 \<Rightarrow> nat \<Rightarrow> 'w \<Rightarrow> read_result \<times> 'w"
  sys_write :: "i32 \<Rightarrow> bytes \<Rightarrow> 'w \<Rightarrow> write_result \<times> 'w"
  sys_close :: "i32 \<Rightarrow> 'w \<Rightarrow> 'w"
  sys_poller :: "u32 \<Rightarrow> 'w \<Rightarrow> i32 \<times> 'w" \<comment> \<open>\<open>epoll_create\<close>, \<open>kqueue\<close>\<close>
  sys_epoll_ctl :: "i32 \<Rightarrow> ctl_op \<Rightarrow> i32 \<Rightarrow> i32 \<Rightarrow> 'w \<Rightarrow> i32 \<times> 'w"
  sys_epoll_wait :: "i32 \<Rightarrow> nat \<Rightarrow> i32 \<Rightarrow> 'w \<Rightarrow> (i32 \<times> i32) list \<times> 'w"
  sys_kevent_change :: "i32 \<Rightarrow> kchange list \<Rightarrow> 'w \<Rightarrow> i32 \<times> 'w"
  sys_kevent_wait :: "i32 \<Rightarrow> nat \<Rightarrow> int \<times> int \<Rightarrow> 'w \<Rightarrow> (i32 \<times> kfilter) list \<times> 'w"

subsection \<open>The state of an event loop\<close>

text \<open>\<open>e_logger\<close> tells whether the constructor got as far as setting the logger.\<close>

record 'w net = netcon +
  e_pollfd :: i32
  e_listenfd :: i32
  e_peersfd :: "(u64, i32) umap"
  e_readfd :: "i32 list"
  e_bcastfd :: "i32 list"
  e_logger :: bool
  e_world :: 'w

definition new_net :: "netcon \<Rightarrow> 'w \<Rightarrow> 'w net" where
  "new_net c w = netcon.extend c \<lparr>e_pollfd = 0, e_listenfd = 0, e_peersfd = [], e_readfd = [],
     e_bcastfd = [], e_logger = False, e_world = w\<rparr>"

text \<open>A call whose negative, or nonzero, result ends the process.\<close>

definition call :: "('w \<Rightarrow> i32 \<times> 'w) \<Rightarrow> 'w net \<Rightarrow> i32 \<times> 'w net" where
  "call f s = (let (r, w) = f (e_world s) in (r, s\<lparr>e_world := w\<rparr>))"

definition exit_if_negative :: "i32 \<times> 'w net \<Rightarrow> (i32 \<Rightarrow> 'w net \<Rightarrow> 'b outcome) \<Rightarrow> 'b outcome" where
  "exit_if_negative x f = (case x of (r, s) \<Rightarrow> if sint r < 0 then Exited else f r s)"

definition exit_if_nonzero :: "i32 \<times> 'w net \<Rightarrow> ('w net \<Rightarrow> 'b outcome) \<Rightarrow> 'b outcome" where
  "exit_if_nonzero x f = (case x of (r, s) \<Rightarrow> if r \<noteq> 0 then Exited else f s)"

definition O_NONBLOCK :: i32 where
  "O_NONBLOCK = 2048"

definition setNonBlock :: "'w sys \<Rightarrow> i32 \<Rightarrow> 'w net \<Rightarrow> 'w net outcome" where
  "setNonBlock S fd s =
     exit_if_negative (call (sys_getfl S fd) s) (\<lambda>flags s.
     exit_if_negative (call (sys_setfl S fd (or flags O_NONBLOCK)) s) (\<lambda>r s. Done s))"

subsection \<open>Reading\<close>

text \<open>
  One turn of the inner loop: \<open>read\<close> put the chunk \<open>x\<close> over the array \<open>buf\<close> of 4096 bytes;
  everything up to the first NUL of the array is copied, and the level grows by the length
  of the chunk.
\<close>

definition over :: "bytes \<Rightarrow> bytes \<Rightarrow> bytes" where
  "over x buf = x @ drop (length x) buf"

definition copy_chunk :: "bytes \<Rightarrow> nat \<Rightarrow> data \<Rightarrow> data option" where
  "copy_chunk buf n b =
     (if 0 \<in> set buf
      then do {
        (j, t) \<leftarrow> str_write (sint (d_len b)) (takeWhile (\<lambda>ch. ch \<noteq> 0) buf) (d_buf b);
        Some (b\<lparr>d_buf := t, d_len := d_len b + of_nat n\<rparr>) }
      else None)"

text \<open>The loop that drops the peer whose connection was closed: the first entry with the descriptor.\<close>

fun drop_peer :: "i32 \<Rightarrow> (u64, i32) umap \<Rightarrow> (u64, i32) umap" where
  "drop_peer fd [] = []"
| "drop_peer fd ((nid, v) # ps) = (if v = fd then ps else (nid, v) # drop_peer fd ps)"

text \<open>
  \<open>handleRead\<close>. \<open>full\<close> and \<open>closed\<close> are what the class does with its poller when the buffer
  is full and when the peer closed.
\<close>

fun read_loop :: "'w sys \<Rightarrow> ('w net \<Rightarrow> 'w net outcome) \<Rightarrow> ('w net \<Rightarrow> 'w net outcome) \<Rightarrow>
    nat \<Rightarrow> i32 \<Rightarrow> bytes \<Rightarrow> 'w net \<Rightarrow> 'w net outcome" where
  "read_loop S full closed 0 fd buf s = Spinning"
| "read_loop S full closed (Suc k) fd buf s =
     (let (res, w) = sys_read S fd 4096 (e_world s);
          s = s\<lparr>e_world := w\<rparr>
      in case res of
           Got x \<Rightarrow>
             (let buf = over x buf
              in if of_nat (length x) + d_len (n_recvbuf s) > d_size (n_recvbuf s) then full s
                 else defined (copy_chunk buf (length x) (n_recvbuf s))
                        (\<lambda>b. read_loop S full closed k fd buf (s\<lparr>n_recvbuf := b\<rparr>)))
         | Eof \<Rightarrow> and_then (closed s) (\<lambda>s. Done (s\<lparr>e_peersfd := drop_peer fd (e_peersfd s)\<rparr>))
         | ReadError E_AGAIN \<Rightarrow> Done (s\<lparr>e_readfd := e_readfd s @ [fd]\<rparr>)
         | ReadError E_INTR \<Rightarrow> read_loop S full closed k fd buf s
         | ReadError E_OTHER \<Rightarrow> Exited)"

subsection \<open>Writing\<close>

text \<open>
  \<open>handleWrite\<close>: \<open>buf\<close> is the copy of the buffer made at the start; every turn offers its
  first \<open>d_len\<close> bytes, also after a part was written.
\<close>

fun write_loop :: "'w sys \<Rightarrow> ('w net \<Rightarrow> 'w net outcome) \<Rightarrow> nat \<Rightarrow> i32 \<Rightarrow> bytes \<Rightarrow> 'w net \<Rightarrow>
    'w net outcome" where
  "write_loop S rearm 0 fd buf s = Spinning"
| "write_loop S rearm (Suc k) fd buf s =
     (let (res, w) = sys_write S fd (take (unat (d_len (n_sendbuf s))) buf) (e_world s);
          s = s\<lparr>e_world := w\<rparr>
      in case res of
           WriteError E_OTHER \<Rightarrow> rearm s
         | WriteError _ \<Rightarrow> write_loop S rearm k fd buf s
         | WroteNothing \<Rightarrow> rearm s
         | Sent r \<Rightarrow>
             (let s = s\<lparr>n_sendbuf := (n_sendbuf s)\<lparr>d_len := d_len (n_sendbuf s) - of_nat r\<rparr>\<rparr>
              in if d_len (n_sendbuf s) \<le> 0 then rearm s else write_loop S rearm k fd buf s))"

definition write_all :: "'w sys \<Rightarrow> ('w net \<Rightarrow> 'w net outcome) \<Rightarrow> nat \<Rightarrow> i32 \<Rightarrow> 'w net \<Rightarrow> 'w net outcome" where
  "write_all S rearm k fd s =
     (if unat (d_len (n_sendbuf s)) \<le> length (d_buf (n_sendbuf s))
      then write_loop S rearm k fd (contents (n_sendbuf s)) s
      else Faulted)"

subsection \<open>After a read\<close>

definition do_something :: "'w sys \<Rightarrow> (i32 \<Rightarrow> 'w net \<Rightarrow> 'w net outcome) \<Rightarrow> 'w net \<Rightarrow> 'w net outcome" where
  "do_something S task s =
     (case e_readfd s of
        [] \<Rightarrow> Done s
      | fd # q \<Rightarrow>
          and_then (task fd (s\<lparr>e_readfd := q\<rparr>)) (\<lambda>s.
            let s = s\<lparr>e_world := sys_close S fd (e_world s)\<rparr>
            in Done (clearRecvbuf s)))"

definition bind_peer :: "u64 \<Rightarrow> i32 \<Rightarrow> 'w net \<Rightarrow> 'w net" where
  "bind_peer nid fd s =
     (if \<not> umap_has nid (e_peersfd s)
      then s\<lparr>e_peersfd := umap_set nid fd (e_peersfd s)\<rparr>
      else s\<lparr>e_peersfd := umap_set nid fd (e_peersfd s)\<rparr>)"

text \<open>The destructors close every descriptor of every list, in this order.\<close>

definition close_all :: "'w sys \<Rightarrow> 'w net \<Rightarrow> 'w net" where
  "close_all S s =
     (let fds = [e_listenfd s, e_pollfd s] @ map snd (e_peersfd s) @ e_bcastfd s @
                n_unknownfd s @ e_readfd s
      in s\<lparr>e_world := fold (sys_close S) fds (e_world s), n_unknownfd := [], e_readfd := []\<rparr>)"

end
