(* ===== verification/Epoll_Loop.thy ===== *)
theory Epoll_Loop
  imports Net_System
begin

unbundle bit_operations_syntax

text \<open>
  \<^verbatim>\<open>sapphiredb/common/epoll.h\<close> and \<^verbatim>\<open>epoll.cc\<close>: the class \<open>Epoll\<close>, every method as an
  operation on the state \<open>net\<close>. The event masks are those of \<^verbatim>\<open>sys/epoll.h\<close>.
\<close>

definition EPOLLIN :: i32 where "EPOLLIN = 1"
definition EPOLLOUT :: i32 where "EPOLLOUT = 4"
definition EPOLLERR :: i32 where "EPOLLERR = 8"
definition EPOLLET :: i32 where "EPOLLET = 0x80000000"

lemmas epoll_masks = EPOLLIN_def EPOLLOUT_def EPOLLERR_def EPOLLET_def

definition Epoll_updateEvents :: "'w sys \<Rightarrow> i32 \<Rightarrow> i32 \<Rightarrow> i32 \<Rightarrow> ctl_op \<Rightarrow> 'w net \<Rightarrow> 'w net outcome" where
  "Epoll_updateEvents S efd fd events op s =
     exit_if_nonzero (call (sys_epoll_ctl S efd op fd events) s) Done"

definition Epoll_handleConnect :: "'w sys \<Rightarrow> i32 \<Rightarrow> i32 \<Rightarrow> 'w net \<Rightarrow> 'w net outcome" where
  "Epoll_handleConnect S efd fd s =
     and_then (setNonBlock S fd s)
       (Epoll_updateEvents S efd fd (EPOLLIN OR EPOLLET) CTL_ADD)"

definition Epoll_connecttopeer :: "'w sys \<Rightarrow> string \<Rightarrow> u32 \<Rightarrow> u64 \<Rightarrow> 'w net \<Rightarrow> 'w net outcome" where
  "Epoll_connecttopeer S ip port nid s =
     (let (sockfd, s) = call (sys_socket S) s;
          (_, s) = call (sys_bind S sockfd ip port) s;
          (_, s) = call (sys_connect S sockfd ip port) s;
          s = (if nid = 0 then s\<lparr>e_bcastfd := e_bcastfd s @ [sockfd]\<rparr>
               else s\<lparr>e_peersfd := umap_set nid sockfd (e_peersfd s)\<rparr>)
      in Epoll_handleConnect S (e_pollfd s) sockfd s)"

definition Epoll_handleAccept :: "'w sys \<Rightarrow> i32 \<Rightarrow> i32 \<Rightarrow> 'w net \<Rightarrow> 'w net outcome" where
  "Epoll_handleAccept S efd fd s =
     exit_if_negative (call (sys_accept S fd) s) (\<lambda>cfd s.
     exit_if_negative (call (sys_getpeername S cfd) s) (\<lambda>r s.
       let s = pushUnknownfd cfd s;
           s = s\<lparr>e_bcastfd := e_bcastfd s @ [cfd]\<rparr>
       in and_then (setNonBlock S cfd s)
            (Epoll_updateEvents S efd cfd (EPOLLIN OR EPOLLET) CTL_ADD)))"

definition Epoll_handleRead :: "'w sys \<Rightarrow> nat \<Rightarrow> bytes \<Rightarrow> i32 \<Rightarrow> i32 \<Rightarrow> 'w net \<Rightarrow> 'w net outcome" where
  "Epoll_handleRead S k g efd fd s =
     read_loop S Done (Epoll_updateEvents S efd fd EPOLLIN CTL_DEL) k fd g s"

definition Epoll_handleWrite :: "'w sys \<Rightarrow> nat \<Rightarrow> i32 \<Rightarrow> i32 \<Rightarrow> 'w net \<Rightarrow> 'w net outcome" where
  "Epoll_handleWrite S k efd fd s =
     write_all S (Epoll_updateEvents S (e_pollfd s) fd (EPOLLIN OR EPOLLET) CTL_MOD) k fd s"

definition Epoll_doSomething :: "'w sys \<Rightarrow> (i32 \<Rightarrow> 'w net \<Rightarrow> 'w net outcome) \<Rightarrow> 'w net \<Rightarrow> 'w net outcome" where
  "Epoll_doSomething S task s = do_something S task s"

text \<open>One event: its descriptor and mask. \<open>g\<close> is the stack array of \<open>handleRead\<close>.\<close>

definition Epoll_dispatch :: "'w sys \<Rightarrow> nat \<Rightarrow> bytes \<Rightarrow> i32 \<Rightarrow> i32 \<Rightarrow> i32 \<times> i32 \<Rightarrow> 'w net \<Rightarrow> 'w net outcome" where
  "Epoll_dispatch S k g efd lfd ev s =
     (case ev of (fd, events) \<Rightarrow>
        if events AND (EPOLLIN OR EPOLLERR) \<noteq> 0
        then (if fd = lfd then Epoll_handleAccept S efd fd s else Epoll_handleRead S k g efd fd s)
        else if events AND EPOLLOUT \<noteq> 0 then Epoll_handleWrite S k efd fd s
        else Exited)"

definition epoll_loop_once :: "'w sys \<Rightarrow> nat \<Rightarrow> bytes \<Rightarrow> i32 \<Rightarrow> i32 \<Rightarrow> i32 \<Rightarrow> 'w net \<Rightarrow> 'w net outcome" where
  "epoll_loop_once S k g efd lfd waitms s =
     (let (evs, w) = sys_epoll_wait S efd 20 waitms (e_world s)
      in for_each (Epoll_dispatch S k g efd lfd) evs (s\<lparr>e_world := w\<rparr>))"

definition Epoll_send :: "'w sys \<Rightarrow> u64 \<Rightarrow> 'w net \<Rightarrow> 'w net outcome" where
  "Epoll_send S nid s =
     (if d_len (n_sendbuf s) > 0
      then if nid = 0
           then for_each (\<lambda>ufd s. Epoll_updateEvents S (e_pollfd s) ufd
                  (EPOLLIN OR EPOLLOUT OR EPOLLET) CTL_MOD s) (e_bcastfd s) s
           else if \<not> umap_has nid (e_peersfd s) \<or> umap_get 0 nid (e_peersfd s) = 0
           then Done (s\<lparr>n_sendbuf := (n_sendbuf s)\<lparr>d_len := 0\<rparr>\<rparr>)
           else Epoll_updateEvents S (e_pollfd s) (umap_get 0 nid (e_peersfd s))
                  (EPOLLIN OR EPOLLOUT OR EPOLLET) CTL_MOD s
      else Done s)"

definition Epoll_recv :: "'w sys \<Rightarrow> u64 \<Rightarrow> 'w net \<Rightarrow> 'w net outcome" where
  "Epoll_recv S nid s =
     (if nid = 0
      then for_each (\<lambda>ufd s. Epoll_updateEvents S (e_pollfd s) ufd (EPOLLIN OR EPOLLET) CTL_ADD s)
             (e_bcastfd s) s
      else let s = s\<lparr>e_peersfd := umap_touch 0 nid (e_peersfd s)\<rparr>
           in Epoll_updateEvents S (e_pollfd s) (umap_get 0 nid (e_peersfd s))
                (EPOLLIN OR EPOLLET) CTL_ADD s)"

definition Epoll_conn :: "'w sys \<Rightarrow> string \<Rightarrow> u32 \<Rightarrow> u64 \<Rightarrow> 'w net \<Rightarrow> 'w net outcome" where
  "Epoll_conn S ip port nid s = Epoll_connecttopeer S ip port nid s"

definition Epoll_loop_once :: "'w sys \<Rightarrow> nat \<Rightarrow> bytes \<Rightarrow> u32 \<Rightarrow> 'w net \<Rightarrow> 'w net outcome" where
  "Epoll_loop_once S k g waitms s = epoll_loop_once S k g (e_pollfd s) (e_listenfd s) waitms s"

definition Epoll_listenp :: "'w sys \<Rightarrow> u32 \<Rightarrow> 'w net \<Rightarrow> 'w net outcome" where
  "Epoll_listenp S listenq s =
     (let (_, s) = call (sys_listen S (e_listenfd s) listenq) s
      in and_then (setNonBlock S (e_listenfd s) s) (\<lambda>s.
           Epoll_updateEvents S (e_pollfd s) (e_listenfd s) (EPOLLIN OR EPOLLET) CTL_ADD s))"

definition Epoll_bindPeerfd :: "u64 \<Rightarrow> i32 \<Rightarrow> 'w net \<Rightarrow> 'w net" where
  "Epoll_bindPeerfd nid fd s = bind_peer nid fd s"

definition Epoll_funcPeerfd :: "((u64, i32) umap \<Rightarrow> 'w net \<Rightarrow> 'w net outcome) \<Rightarrow> 'w net \<Rightarrow> 'w net outcome" where
  "Epoll_funcPeerfd func s = func (e_peersfd s) s"

text \<open>A failing \<open>bind\<close> is caught: the object exists, without its logger.\<close>

definition new_Epoll :: "'w sys \<Rightarrow> string \<Rightarrow> u32 \<Rightarrow> NetType \<Rightarrow> u32 \<Rightarrow> u32 \<Rightarrow> u32 \<Rightarrow> 'w \<Rightarrow> 'w net" where
  "new_Epoll S ip port type bufsize fdsize listenq w =
     (let s = new_net (new_Netcon ip port type bufsize) w;
          (efd, s) = call (sys_poller S fdsize) s;
          s = s\<lparr>e_pollfd := efd\<rparr>;
          (lfd, s) = call (sys_socket S) s;
          s = s\<lparr>e_listenfd := lfd\<rparr>;
          (rbind, s) = call (sys_bind S lfd ip port) s
      in if rbind \<noteq> 0 then s else s\<lparr>e_logger := True\<rparr>)"

definition delete_Epoll :: "'w sys \<Rightarrow> 'w net \<Rightarrow> 'w net" where
  "delete_Epoll S s = close_all S s"

end
