(* ===== verification/Kqueue_Loop.thy ===== *)
theory Kqueue_Loop
  imports Net_System
begin

unbundle bit_operations_syntax

text \<open>
  \<^verbatim>\<open>sapphiredb/common/kqueue.h\<close> and \<^verbatim>\<open>kqueue.cc\<close>: the class \<open>Kqueue\<close>, which takes the place
  of \<open>Epoll\<close> on BSD systems. Both filters of a descriptor are changed with one \<open>kevent\<close>
  call over a list of changes.
\<close>

definition KQUEUE_READ_EVENT :: i32 where "KQUEUE_READ_EVENT = 1"
definition KQUEUE_WRITE_EVENT :: i32 where "KQUEUE_WRITE_EVENT = 2"

lemmas kqueue_masks = KQUEUE_READ_EVENT_def KQUEUE_WRITE_EVENT_def

definition Kqueue_updateEvents :: "'w sys \<Rightarrow> i32 \<Rightarrow> i32 \<Rightarrow> i32 \<Rightarrow> bool \<Rightarrow> 'w net \<Rightarrow> 'w net outcome" where
  "Kqueue_updateEvents S efd fd events modify s =
     (let ev = (if events AND KQUEUE_READ_EVENT \<noteq> 0 then [KAdd fd FILT_READ]
                else if modify then [KDelete fd FILT_READ] else []);
          ev = ev @ (if events AND KQUEUE_WRITE_EVENT \<noteq> 0 then [KAdd fd FILT_WRITE]
                else if modify then [KDelete fd FILT_WRITE] else [])
      in exit_if_nonzero (call (sys_kevent_change S efd ev) s) Done)"

definition delete_event :: "'w sys \<Rightarrow> i32 \<Rightarrow> i32 \<Rightarrow> i32 \<Rightarrow> 'w net \<Rightarrow> 'w net outcome" where
  "delete_event S efd fd events s =
     (let ev = (if events AND KQUEUE_READ_EVENT \<noteq> 0 then [KDelete fd FILT_READ] else []);
          ev = ev @ (if events AND KQUEUE_WRITE_EVENT \<noteq> 0 then [KDelete fd FILT_WRITE] else [])
      in exit_if_nonzero (call (sys_kevent_change S efd ev) s) Done)"

definition Kqueue_setNonBlock :: "'w sys \<Rightarrow> i32 \<Rightarrow> 'w net \<Rightarrow> 'w net outcome" where
  "Kqueue_setNonBlock S fd s =
     exit_if_negative (call (sys_getfl S fd) s) (\<lambda>flags s.
     exit_if_negative (call (sys_setfl S fd (flags OR O_NONBLOCK)) s) (\<lambda>r s. Done s))"

definition Kqueue_handleConnect :: "'w sys \<Rightarrow> i32 \<Rightarrow> i32 \<Rightarrow> 'w net \<Rightarrow> 'w net outcome" where
  "Kqueue_handleConnect S efd fd s =
     and_then (Kqueue_setNonBlock S fd s) (Kqueue_updateEvents S efd fd KQUEUE_READ_EVENT False)"

definition Kqueue_connecttopeer :: "'w sys \<Rightarrow> string \<Rightarrow> u32 \<Rightarrow> u64 \<Rightarrow> 'w net \<Rightarrow> 'w net outcome" where
  "Kqueue_connecttopeer S ip port nid s =
     (let (sockfd, s) = call (sys_socket S) s;
          (_, s) = call (sys_bind S sockfd ip port) s;
          (_, s) = call (sys_connect S sockfd ip port) s;
          s = (if nid = 0 then s\<lparr>e_bcastfd := e_bcastfd s @ [sockfd]\<rparr>
               else s\<lparr>e_peersfd := umap_set nid sockfd (e_peersfd s)\<rparr>)
      in Kqueue_handleConnect S (e_pollfd s) sockfd s)"

definition Kqueue_handleAccept :: "'w sys \<Rightarrow> i32 \<Rightarrow> i32 \<Rightarrow> 'w net \<Rightarrow> 'w net outcome" where
  "Kqueue_handleAccept S efd fd s =
     exit_if_negative (call (sys_accept S fd) s) (\<lambda>cfd s.
     exit_if_negative (call (sys_getpeername S cfd) s) (\<lambda>r s.
       let s = pushUnknownfd cfd s;
           s = s\<lparr>e_bcastfd := e_bcastfd s @ [cfd]\<rparr>
       in and_then (Kqueue_setNonBlock S cfd s)
            (Kqueue_updateEvents S efd cfd KQUEUE_READ_EVENT False)))"

definition Kqueue_handleRead :: "'w sys \<Rightarrow> nat \<Rightarrow> bytes \<Rightarrow> i32 \<Rightarrow> i32 \<Rightarrow> 'w net \<Rightarrow> 'w net outcome" where
  "Kqueue_handleRead S k g efd fd s =
     read_loop S (delete_event S efd fd KQUEUE_READ_EVENT) (delete_event S efd fd KQUEUE_READ_EVENT)
       k fd g s"

definition Kqueue_handleWrite :: "'w sys \<Rightarrow> nat \<Rightarrow> i32 \<Rightarrow> i32 \<Rightarrow> 'w net \<Rightarrow> 'w net outcome" where
  "Kqueue_handleWrite S k efd fd s =
     write_all S (delete_event S efd fd KQUEUE_WRITE_EVENT) k fd s"

definition Kqueue_doSomething :: "'w sys \<Rightarrow> (i32 \<Rightarrow> 'w net \<Rightarrow> 'w net outcome) \<Rightarrow> 'w net \<Rightarrow> 'w net outcome" where
  "Kqueue_doSomething S task s = do_something S task s"

definition Kqueue_dispatch :: "'w sys \<Rightarrow> nat \<Rightarrow> bytes \<Rightarrow> i32 \<Rightarrow> i32 \<Rightarrow> i32 \<times> kfilter \<Rightarrow> 'w net \<Rightarrow> 'w net outcome" where
  "Kqueue_dispatch S k g efd lfd ev s =
     (case ev of
        (fd, FILT_READ) \<Rightarrow>
          (if fd = lfd then Kqueue_handleAccept S efd fd s else Kqueue_handleRead S k g efd fd s)
      | (fd, FILT_WRITE) \<Rightarrow> Kqueue_handleWrite S k efd fd s
      | (fd, FILT_OTHER) \<Rightarrow> Exited)"

text \<open>The timeout is in seconds and nanoseconds; C division truncates towards zero.\<close>

definition kqueue_timeout :: "i32 \<Rightarrow> int \<times> int" where
  "kqueue_timeout waitms =
     (let m = sint waitms
      in (if m < 0 then - (- m div 1000) else m div 1000,
          (if m < 0 then - (- m mod 1000) else m mod 1000) * 1000 * 1000))"

definition kqueue_loop_once :: "'w sys \<Rightarrow> nat \<Rightarrow> bytes \<Rightarrow> i32 \<Rightarrow> i32 \<Rightarrow> i32 \<Rightarrow> 'w net \<Rightarrow> 'w net outcome" where
  "kqueue_loop_once S k g efd lfd waitms s =
     (let (evs, w) = sys_kevent_wait S efd 20 (kqueue_timeout waitms) (e_world s)
      in for_each (Kqueue_dispatch S k g efd lfd) evs (s\<lparr>e_world := w\<rparr>))"

text \<open>\<open>peersfd[id]\<close> of an unknown id inserts the descriptor 0, the standard input.\<close>

definition Kqueue_send :: "'w sys \<Rightarrow> u64 \<Rightarrow> 'w net \<Rightarrow> 'w net outcome" where
  "Kqueue_send S nid s =
     (if d_len (n_sendbuf s) > 0
      then if nid = 0
           then for_each (\<lambda>ufd s. Kqueue_updateEvents S (e_pollfd s) ufd KQUEUE_WRITE_EVENT False s)
                  (e_bcastfd s) s
           else let s = s\<lparr>e_peersfd := umap_touch 0 nid (e_peersfd s)\<rparr>
                in Kqueue_updateEvents S (e_pollfd s) (umap_get 0 nid (e_peersfd s))
                     KQUEUE_WRITE_EVENT False s
      else Done s)"

definition Kqueue_recv :: "'w sys \<Rightarrow> u64 \<Rightarrow> 'w net \<Rightarrow> 'w net outcome" where
  "Kqueue_recv S nid s =
     (if nid = 0
      then for_each (\<lambda>ufd s. Kqueue_updateEvents S (e_pollfd s) ufd KQUEUE_READ_EVENT False s)
             (e_bcastfd s) s
      else let s = s\<lparr>e_peersfd := umap_touch 0 nid (e_peersfd s)\<rparr>
           in Kqueue_updateEvents S (e_pollfd s) (umap_get 0 nid (e_peersfd s))
                KQUEUE_READ_EVENT False s)"

definition Kqueue_conn :: "'w sys \<Rightarrow> string \<Rightarrow> u32 \<Rightarrow> u64 \<Rightarrow> 'w net \<Rightarrow> 'w net outcome" where
  "Kqueue_conn S ip port nid s = Kqueue_connecttopeer S ip port nid s"

definition Kqueue_loop_once :: "'w sys \<Rightarrow> nat \<Rightarrow> bytes \<Rightarrow> u32 \<Rightarrow> 'w net \<Rightarrow> 'w net outcome" where
  "Kqueue_loop_once S k g waitms s = kqueue_loop_once S k g (e_pollfd s) (e_listenfd s) waitms s"

definition Kqueue_listenp :: "'w sys \<Rightarrow> u32 \<Rightarrow> 'w net \<Rightarrow> 'w net outcome" where
  "Kqueue_listenp S listenq s =
     (let (_, s) = call (sys_listen S (e_listenfd s) listenq) s
      in and_then (Kqueue_setNonBlock S (e_listenfd s) s) (\<lambda>s.
           Kqueue_updateEvents S (e_pollfd s) (e_listenfd s) KQUEUE_READ_EVENT False s))"

definition Kqueue_bindPeerfd :: "u64 \<Rightarrow> i32 \<Rightarrow> 'w net \<Rightarrow> 'w net" where
  "Kqueue_bindPeerfd nid fd s = bind_peer nid fd s"

definition Kqueue_funcPeerfd :: "((u64, i32) umap \<Rightarrow> 'w net \<Rightarrow> 'w net outcome) \<Rightarrow> 'w net \<Rightarrow> 'w net outcome" where
  "Kqueue_funcPeerfd func s = func (e_peersfd s) s"

definition new_Kqueue :: "'w sys \<Rightarrow> string \<Rightarrow> u32 \<Rightarrow> NetType \<Rightarrow> u32 \<Rightarrow> u32 \<Rightarrow> u32 \<Rightarrow> 'w \<Rightarrow> 'w net" where
  "new_Kqueue S ip port type bufsize fdsize listenq w =
     (let s = new_net (new_Netcon ip port type bufsize) w;
          (efd, s) = call (sys_poller S 0) s;
          s = s\<lparr>e_pollfd := efd\<rparr>;
          (lfd, s) = call (sys_socket S) s;
          s = s\<lparr>e_listenfd := lfd\<rparr>;
          (rbind, s) = call (sys_bind S lfd ip port) s
      in if rbind \<noteq> 0 then s else s\<lparr>e_logger := True\<rparr>)"

definition delete_Kqueue :: "'w sys \<Rightarrow> 'w net \<Rightarrow> 'w net" where
  "delete_Kqueue S s = close_all S s"

end
