(* ===== verification/Net_Properties.thy ===== *)
theory Net_Properties
  imports Storage_Properties Epoll_Loop Kqueue_Loop
begin

text \<open>
  The reading and writing loops of both event loops: what one chunk leaves in the buffer,
  when the loops end, and what a partial write sends.
\<close>

subsection \<open>One chunk\<close>

lemma copy_chunk_form:
  assumes "0 \<in> set buf" and "d_len b = 0"
    and "length (takeWhile (\<lambda>ch. ch \<noteq> 0) buf) \<le> length (d_buf b)"
  shows "copy_chunk buf n b = Some (b\<lparr>d_buf := takeWhile (\<lambda>ch. ch \<noteq> 0) buf @
      drop (length (takeWhile (\<lambda>ch. ch \<noteq> 0) buf)) (d_buf b), d_len := of_nat n\<rparr>)"
proof -
  let ?p = "takeWhile (\<lambda>ch. ch \<noteq> 0) buf"
  have "str_write 0 ?p (d_buf b) =
      Some (int (length ?p), ?p @ drop (length ?p) (d_buf b))"
    using str_write_fits [of 0 ?p "d_buf b"] assms(3) by simp
  then show ?thesis using assms(1,2) by (simp add: copy_chunk_def)
qed

text \<open>What a reader finds after one chunk: the array up to its NUL, then what was there.\<close>

definition received :: "bytes \<Rightarrow> bytes \<Rightarrow> bytes \<Rightarrow> bytes" where
  "received x g old =
     (let p = takeWhile (\<lambda>ch. ch \<noteq> 0) (over x g) in take (length x) (p @ drop (length p) old))"

lemma read_loop_chunk:
  assumes chunk: "sys_read S fd 4096 (e_world s) = (Got x, w1)" "sys_read S fd 4096 w1 = (ReadError E_AGAIN, w2)"
    and buf: "data_ok (n_recvbuf s)" "d_len (n_recvbuf s) = 0" "length x \<le> unat (d_size (n_recvbuf s))"
    and nul: "0 \<in> set (over x g)" "length (takeWhile (\<lambda>ch. ch \<noteq> 0) (over x g)) \<le> unat (d_size (n_recvbuf s))"
  shows "\<exists>b. read_loop S full closed (Suc (Suc k)) fd g s =
      Done (s\<lparr>n_recvbuf := b, e_readfd := e_readfd s @ [fd], e_world := w2\<rparr>) \<and>
    data_ok b \<and> d_size b = d_size (n_recvbuf s) \<and> contents b = received x g (d_buf (n_recvbuf s))"
proof -
  let ?b = "n_recvbuf s" and ?p = "takeWhile (\<lambda>ch. ch \<noteq> 0) (over x g)"
  let ?b' = "?b\<lparr>d_buf := ?p @ drop (length ?p) (d_buf ?b), d_len := of_nat (length x)\<rparr>"
  have len: "length (d_buf ?b) = unat (d_size ?b)" using buf(1) by (simp add: data_ok_def)
  have "unat (d_size ?b) < 2 ^ LENGTH(32)" by (rule unsigned_less)
  then have u: "unat (of_nat (length x) :: u32) = length x" using buf(3) by (simp add: unat_of_nat)
  have "\<not> d_size ?b < of_nat (length x) + d_len ?b" using buf(2,3) u by (simp add: word_less_nat_alt)
  then have "read_loop S full closed (Suc (Suc k)) fd g s =
      Done (s\<lparr>n_recvbuf := ?b', e_readfd := e_readfd s @ [fd], e_world := w2\<rparr>)"
    using chunk copy_chunk_form [OF nul(1) buf(2)] nul(2) len by (simp add: Let_def)
  moreover have "data_ok ?b'" using len nul(2) buf(3) u by (simp add: data_ok_def word_le_nat_alt)
  moreover have "contents ?b' = received x g (d_buf ?b)" using u by (simp add: contents_def received_def Let_def)
  ultimately show ?thesis by (intro exI [of _ ?b']) simp
qed

lemma received_whole:
  assumes "0 \<notin> set x"
  shows "received x g old = x"
proof -
  have "takeWhile (\<lambda>ch. ch \<noteq> 0) (over x g) = x @ takeWhile (\<lambda>ch. ch \<noteq> 0) (drop (length x) g)"
    unfolding over_def by (rule takeWhile_append2) (use assms in auto)
  then show ?thesis by (simp add: received_def Let_def)
qed

lemma received_nul:
  assumes "x = p @ 0 # q" and "0 \<notin> set p"
  shows "received x g old = take (length x) (p @ drop (length p) old)"
proof -
  have "takeWhile (\<lambda>ch. ch \<noteq> 0) (p @ 0 # q @ drop (length x) g) = p"
    using assms(2) by (subst takeWhile_append2) auto
  then have "takeWhile (\<lambda>ch. ch \<noteq> 0) (over x g) = p" using assms(1) by (simp add: over_def)
  then show ?thesis by (simp add: received_def Let_def)
qed

subsection \<open>Termination of the reading loop\<close>

text \<open>
  What \<open>read\<close> promises: a count of bytes between one and the size of the array; and from a
  world \<open>w\<close> on it is interrupted at most \<open>q w\<close> times.
\<close>

definition reads_ok :: "('w \<Rightarrow> nat) \<Rightarrow> 'w sys \<Rightarrow> bool" where
  "reads_ok q S = (\<forall>fd w. case sys_read S fd 4096 w of (res, w') \<Rightarrow>
     (case res of
        Got x \<Rightarrow> x \<noteq> [] \<and> length x \<le> 4096 \<and> q w' \<le> q w
      | Eof \<Rightarrow> True
      | ReadError e \<Rightarrow> e = E_INTR \<longrightarrow> q w' < q w))"

lemma read_loop_ends:
  assumes "reads_ok q S" and "\<And>s. full s \<noteq> Spinning" and "\<And>s. closed s \<noteq> Spinning"
    and "unat (d_size (n_recvbuf s)) < 2 ^ 31" and "d_len (n_recvbuf s) \<le> d_size (n_recvbuf s)"
    and "unat (d_size (n_recvbuf s)) + q (e_world s) < k + unat (d_len (n_recvbuf s))"
  shows "read_loop S full closed k fd buf s \<noteq> Spinning"
  using assms(4-6)
proof (induction k arbitrary: buf s)
  case (Suc k)
  obtain res w where r: "sys_read S fd 4096 (e_world s) = (res, w)" by fastforce
  then have ok: "case res of Got x \<Rightarrow> x \<noteq> [] \<and> length x \<le> 4096 \<and> q w \<le> q (e_world s)
      | Eof \<Rightarrow> True | ReadError e \<Rightarrow> e = E_INTR \<longrightarrow> q w < q (e_world s)"
    using assms(1) [unfolded reads_ok_def, rule_format, where fd = fd and w = "e_world s"] by simp
  show ?case
  proof (cases res)
    case (Got x)
    let ?b = "n_recvbuf s"
    have x: "1 \<le> length x" "length x \<le> 4096" and q: "q w \<le> q (e_world s)"
      using ok Got by (auto simp: Suc_le_eq)
    have len: "unat (d_len ?b) \<le> unat (d_size ?b)" using Suc.prems(2) by (simp add: word_le_nat_alt)
    have u: "unat (of_nat (length x) + d_len ?b) = length x + unat (d_len ?b)"
    proof -
      have "unat (of_nat (length x) :: u32) = length x" using x(2) by (simp add: unat_of_nat)
      then show ?thesis using len Suc.prems(1) x(2) by (subst unat_add_lem [THEN iffD1]) simp_all
    qed
    show ?thesis
    proof (cases "d_size ?b < of_nat (length x) + d_len ?b")
      case True
      then show ?thesis using r Got assms(2) by (simp add: Let_def)
    next
      case False
      then have fit: "length x + unat (d_len ?b) \<le> unat (d_size ?b)"
        using u by (simp add: word_less_nat_alt)
      show ?thesis
      proof (cases "copy_chunk (over x buf) (length x) ?b")
        case None
        then show ?thesis using r Got False by (simp add: Let_def)
      next
        case (Some b)
        then have b: "d_len b = of_nat (length x) + d_len ?b" "d_size b = d_size ?b"
          by (auto simp: copy_chunk_def bind_eq_Some_conv split: if_splits prod.splits)
        have "read_loop S full closed k fd (over x buf) (s\<lparr>e_world := w, n_recvbuf := b\<rparr>) \<noteq> Spinning"
          by (rule Suc.IH) (use Suc.prems b u fit x q in \<open>simp_all add: word_le_nat_alt\<close>)
        then show ?thesis using r Got False Some by (simp add: Let_def)
      qed
    qed
  next
    case Eof
    then show ?thesis using r assms(3) by (auto simp: and_then_def split: outcome.splits)
  next
    case (ReadError e)
    show ?thesis
    proof (cases e)
      case E_INTR
      then have "read_loop S full closed k fd buf (s\<lparr>e_world := w\<rparr>) \<noteq> Spinning"
        using ok ReadError Suc.prems by (intro Suc.IH) simp_all
      then show ?thesis using r ReadError E_INTR by simp
    qed (use r ReadError in simp_all)
  qed
qed (use assms in \<open>simp add: word_le_nat_alt\<close>)

lemma exit_if_nonzero_ends: "exit_if_nonzero x Done \<noteq> Spinning"
  by (simp add: exit_if_nonzero_def split: prod.splits)

text \<open>
  C22: Termination of \<open>handleRead\<close>, in both event loops: when a read answers with between 1
  and 4096 bytes, end of file or an error, and from the present state of the kernel on at most
  \<open>q\<close> reads are interrupted, the loop ends within one turn more than the buffer has bytes and
  reads are interrupted, whatever arrives, since every chunk takes room in the buffer. It may
  end the process or leave defined behaviour, but it does not spin. The buffer has less than
  \<open>2 ^ 31\<close> bytes.
\<close>

theorem handleRead_ends:
  assumes "reads_ok q S" and "unat (d_size (n_recvbuf s)) < 2 ^ 31"
    and "d_len (n_recvbuf s) \<le> d_size (n_recvbuf s)"
    and "unat (d_size (n_recvbuf s)) + q (e_world s) < k"
  shows "Epoll_handleRead S k g efd fd s \<noteq> Spinning \<and> Kqueue_handleRead S k g efd fd s \<noteq> Spinning"
  unfolding Epoll_handleRead_def Kqueue_handleRead_def
  using assms
  by (intro conjI read_loop_ends [where q = q])
    (simp_all add: Epoll_updateEvents_def delete_event_def Let_def exit_if_nonzero_ends)

text \<open>
  A kernel for examples: the world holds the bytes written so far and the chunks that
  arrive; a write takes at most \<open>limit\<close> bytes.
\<close>

definition pipe_sys :: "nat \<Rightarrow> (bytes \<times> bytes list) sys" where
  "pipe_sys limit = \<lparr>
     sys_getfl = (\<lambda>fd w. (0, w)), sys_setfl = (\<lambda>fd fl w. (0, w)), sys_socket = (\<lambda>w. (5, w)),
     sys_bind = (\<lambda>fd ip port w. (0, w)), sys_connect = (\<lambda>fd ip port w. (0, w)),
     sys_listen = (\<lambda>fd q w. (0, w)), sys_accept = (\<lambda>fd w. (6, w)),
     sys_getpeername = (\<lambda>fd w. (0, w)),
     sys_read = (\<lambda>fd n w. case snd w of
        [] \<Rightarrow> (ReadError E_AGAIN, w) | x # xs \<Rightarrow> (if x = [] then Eof else Got (take n x), (fst w, xs))),
     sys_write = (\<lambda>fd x w. (Sent (min limit (length x)), (fst w @ take limit x, snd w))),
     sys_close = (\<lambda>fd w. w), sys_poller = (\<lambda>n w. (3, w)),
     sys_epoll_ctl = (\<lambda>efd c fd ev w. (0, w)), sys_epoll_wait = (\<lambda>efd n t w. ([], w)),
     sys_kevent_change = (\<lambda>efd ch w. (0, w)), sys_kevent_wait = (\<lambda>efd n t w. ([], w)) \<rparr>"

text \<open>One whose reads are interrupted as often as its world says.\<close>

definition noisy_sys :: "(nat \<times> bytes list) sys" where
  "noisy_sys = \<lparr>
     sys_getfl = (\<lambda>fd w. (0, w)), sys_setfl = (\<lambda>fd fl w. (0, w)), sys_socket = (\<lambda>w. (5, w)),
     sys_bind = (\<lambda>fd ip port w. (0, w)), sys_connect = (\<lambda>fd ip port w. (0, w)),
     sys_listen = (\<lambda>fd q w. (0, w)), sys_accept = (\<lambda>fd w. (6, w)),
     sys_getpeername = (\<lambda>fd w. (0, w)),
     sys_read = (\<lambda>fd n w. case w of
        (Suc i, xs) \<Rightarrow> (ReadError E_INTR, (i, xs))
      | (0, []) \<Rightarrow> (ReadError E_AGAIN, w)
      | (0, x # xs) \<Rightarrow> (if x = [] then Eof else Got (take n x), (0, xs))),
     sys_write = (\<lambda>fd x w. (Sent (length x), w)), sys_close = (\<lambda>fd w. w),
     sys_poller = (\<lambda>n w. (3, w)),
     sys_epoll_ctl = (\<lambda>efd c fd ev w. (0, w)), sys_epoll_wait = (\<lambda>efd n t w. ([], w)),
     sys_kevent_change = (\<lambda>efd ch w. (0, w)), sys_kevent_wait = (\<lambda>efd n t w. ([], w)) \<rparr>"

lemma noisy_reads_ok: "reads_ok fst noisy_sys"
  by (auto simp: reads_ok_def noisy_sys_def split: list.splits nat.splits)

definition sample_net :: "'w \<Rightarrow> 'w net" where
  "sample_net w = new_net (new_Netcon ''127.0.0.1'' 80 IPV4 1024) w"

lemma sample_net_sel [simp]:
  "n_recvbuf (sample_net w) = new_Data 1024" "n_sendbuf (sample_net w) = new_Data 1024"
  "e_world (sample_net w) = w" "e_pollfd (sample_net w) = 0" "e_peersfd (sample_net w) = []"
  by (simp_all add: sample_net_def new_net_def new_Netcon_def netcon.defs Let_def)

lemma new_Data_sel [simp]: "d_len (new_Data n) = 0" "d_size (new_Data n) = n"
  by (simp_all add: new_Data_def)

theorem handleRead_ends_witness:
  "Epoll_handleRead noisy_sys 1028 [] 0 5 (sample_net (3, [[65, 0], [66]])) \<noteq> Spinning"
  using handleRead_ends [OF noisy_reads_ok, of "sample_net (3, [[65, 0], [66]])" 1028] by simp

subsection \<open>Writing\<close>

lemma write_loop_partial:
  assumes "contents (n_sendbuf s) = msg" and "unat (d_len (n_sendbuf s)) = length msg"
    and "sys_write S fd msg (e_world s) = (Sent r, w1)" and "0 < r" "r < length msg"
    and "sys_write S fd (take (length msg - r) msg) w1 = (Sent (length msg - r), w2)"
  shows "write_loop S rearm (Suc (Suc k)) fd msg s =
    rearm (s\<lparr>e_world := w2, n_sendbuf := (n_sendbuf s)\<lparr>d_len := 0\<rparr>\<rparr>)"
proof -
  let ?l = "d_len (n_sendbuf s)"
  have "unat ?l < 2 ^ LENGTH(32)" by (rule unsigned_less)
  then have small: "length msg < 2 ^ 32" using assms(2) by simp
  then have r: "unat (of_nat r :: u32) = r" using assms(5) by (simp add: unat_of_nat)
  have d: "unat (?l - of_nat r) = length msg - r"
    using assms(2,5) r by (simp add: unat_sub word_le_nat_alt)
  have z: "?l - of_nat r - of_nat (length msg - r) = 0"
  proof -
    have "unat (of_nat (length msg - r) :: u32) = length msg - r" using small by (simp add: unat_of_nat)
    then have "?l - of_nat r = of_nat (length msg - r)" using d by (simp add: word_unat_eq_iff)
    then show ?thesis by simp
  qed
  have "?l - of_nat r \<noteq> 0" using d assms(5) by (metis unat_0 zero_less_diff less_irrefl)
  then have "\<not> ?l - of_nat r \<le> 0" by simp
  then show ?thesis using assms d z by (simp add: Let_def)
qed

text \<open>
  C23: A partial write corrupts the stream. When the kernel takes only the first \<open>r\<close>
  bytes of a message of \<open>n\<close>, both event loops next offer its first \<open>n - r\<close> bytes again
  instead of the rest; once those are taken the message counts as sent (the buffer is
  empty), though the kernel has not taken its last bytes in their place.
\<close>

theorem partial_write_repeats_prefix:
  assumes "data_ok (n_sendbuf s)" and "contents (n_sendbuf s) = msg"
    and "sys_write S fd msg (e_world s) = (Sent r, w1)" and "0 < r" "r < length msg"
    and "sys_write S fd (take (length msg - r) msg) w1 = (Sent (length msg - r), w2)"
    and "sys_epoll_ctl S (e_pollfd s) CTL_MOD fd (or EPOLLIN EPOLLET) w2 = (0, w3)"
    and "sys_kevent_change S efd [KDelete fd FILT_WRITE] w2 = (0, w3)"
  shows "Epoll_handleWrite S (Suc (Suc k)) efd fd s =
      Done (s\<lparr>e_world := w3, n_sendbuf := (n_sendbuf s)\<lparr>d_len := 0\<rparr>\<rparr>) \<and>
    Kqueue_handleWrite S (Suc (Suc k)) efd fd s =
      Done (s\<lparr>e_world := w3, n_sendbuf := (n_sendbuf s)\<lparr>d_len := 0\<rparr>\<rparr>)"
proof -
  have le: "unat (d_len (n_sendbuf s)) \<le> length (d_buf (n_sendbuf s))"
    using assms(1) by (simp add: data_ok_def word_le_nat_alt)
  then have n: "unat (d_len (n_sendbuf s)) = length msg"
    using assms(2) by (auto simp: contents_def)
  have m: "and KQUEUE_WRITE_EVENT KQUEUE_READ_EVENT = 0" "and KQUEUE_WRITE_EVENT KQUEUE_WRITE_EVENT \<noteq> 0"
    by code_simp+
  show ?thesis
    unfolding Epoll_handleWrite_def Kqueue_handleWrite_def write_all_def
    using le assms(2,7,8) write_loop_partial [OF assms(2) n assms(3-6)] m
    by (simp add: Epoll_updateEvents_def delete_event_def call_def exit_if_nonzero_def)
qed

theorem partial_write_repeats_prefix_witness:
  "\<exists>s'. Epoll_handleWrite (pipe_sys 2) 2 3 5
      ((sample_net ([], []))\<lparr>n_sendbuf := \<lparr>d_len = 3, d_size = 4, d_buf = [1, 2, 3, 0]\<rparr>\<rparr>) = Done s' \<and>
    e_world s' = ([1, 2, 1], [])"
proof -
  let ?s = "(sample_net ([], []))\<lparr>n_sendbuf := \<lparr>d_len = 3, d_size = 4, d_buf = [1, 2, 3, 0]\<rparr>\<rparr>"
  have "data_ok (n_sendbuf ?s)" "contents (n_sendbuf ?s) = [1, 2, 3]"
    by (simp_all add: data_ok_def contents_def)
  from partial_write_repeats_prefix [OF this, where S = "pipe_sys 2" and fd = 5 and efd = 3 and k = 0
      and r = 2 and ?w1.0 = "([1, 2], [])" and ?w2.0 = "([1, 2, 1], [])" and ?w3.0 = "([1, 2, 1], [])"]
  show ?thesis by (simp add: pipe_sys_def numeral_2_eq_2)
qed

end
