(* ===== verification/Node_Threads.thy ===== *)
theory Node_Threads
  imports Net_Properties
begin

text \<open>
  \<^verbatim>\<open>sapphiredb/raft/node.h\<close> and \<^verbatim>\<open>node.cc\<close>: a node is one \<open>Raft\<close> object and one event loop,
  and the tasks that its threads run between them. The class of the event loop is chosen
  at compile time, so it is a record of the operations the node calls, with the two
  classes as its values.
\<close>

subsection \<open>The two event loops behind one interface\<close>

record 'w poller =
  k_new :: "'w sys \<Rightarrow> string \<Rightarrow> u32 \<Rightarrow> NetType \<Rightarrow> u32 \<Rightarrow> u32 \<Rightarrow> u32 \<Rightarrow> 'w \<Rightarrow> 'w net"
  k_delete :: "'w sys \<Rightarrow> 'w net \<Rightarrow> 'w net"
  k_send :: "'w sys \<Rightarrow> u64 \<Rightarrow> 'w net \<Rightarrow> 'w net outcome"
  k_conn :: "'w sys \<Rightarrow> string \<Rightarrow> u32 \<Rightarrow> u64 \<Rightarrow> 'w net \<Rightarrow> 'w net outcome"
  k_listenp :: "'w sys \<Rightarrow> u32 \<Rightarrow> 'w net \<Rightarrow> 'w net outcome"
  k_loop_once :: "'w sys \<Rightarrow> nat \<Rightarrow> bytes \<Rightarrow> u32 \<Rightarrow> 'w net \<Rightarrow> 'w net outcome"
  k_bindPeerfd :: "u64 \<Rightarrow> i32 \<Rightarrow> 'w net \<Rightarrow> 'w net"

definition epoll_poller :: "'w poller" where
  "epoll_poller = \<lparr>k_new = new_Epoll, k_delete = delete_Epoll, k_send = Epoll_send,
     k_conn = Epoll_conn, k_listenp = Epoll_listenp, k_loop_once = Epoll_loop_once,
     k_bindPeerfd = Epoll_bindPeerfd\<rparr>"

definition kqueue_poller :: "'w poller" where
  "kqueue_poller = \<lparr>k_new = new_Kqueue, k_delete = delete_Kqueue, k_send = Kqueue_send,
     k_conn = Kqueue_conn, k_listenp = Kqueue_listenp, k_loop_once = Kqueue_loop_once,
     k_bindPeerfd = Kqueue_bindPeerfd\<rparr>"

lemmas pollers = epoll_poller_def kqueue_poller_def

subsection \<open>Configuration\<close>

record Timeout =
  heartbeatTimeout :: u64
  electionTimeout :: u64

record Config =
  conf_id :: u64
  conf_raftlog :: string
  conf_timeout :: "Timeout option"
  conf_socket :: "string \<times> u32"
  conf_peers :: "(u64 \<times> string \<times> u32) list"

definition new_Timeout :: "u64 \<Rightarrow> u64 \<Rightarrow> Timeout" where
  "new_Timeout h e = \<lparr>heartbeatTimeout = h, electionTimeout = e\<rparr>"

definition new_Config :: "u64 \<Rightarrow> string \<Rightarrow> Timeout option \<Rightarrow> string \<times> u32 \<Rightarrow>
    (u64 \<times> string \<times> u32) list \<Rightarrow> Config" where
  "new_Config nid raftlog timeout socket peers =
     \<lparr>conf_id = nid, conf_raftlog = raftlog, conf_timeout = timeout, conf_socket = socket,
      conf_peers = peers\<rparr>"

subsection \<open>A node\<close>

text \<open>
  \<open>nd_pending\<close> is where the sending thread is: the copies of the message it popped that
  are still to be put into the buffer, with the peer each is for. \<open>nd_storing\<close> is where the
  persisting thread is: between \<open>storageLog()\<close> and \<open>Ready = false\<close>.
\<close>

record 'w node =
  nd_raft :: raft
  nd_kque :: "'w net"
  nd_pending :: "(bytes \<times> u64) list"
  nd_storing :: bool

text \<open>
  \<open>init\<close>, up to the creation of the threads. The raft object and the event loop are
  changed in turn, peer by peer.
\<close>

definition init_peer :: "'w poller \<Rightarrow> 'w sys \<Rightarrow> u64 \<times> string \<times> u32 \<Rightarrow> 'w node \<Rightarrow> 'w node outcome" where
  "init_peer K S p nd =
     (case p of (nid, ip, port) \<Rightarrow>
        and_then (k_conn K S ip port nid (nd_kque nd)) (\<lambda>kq.
          let nd = nd\<lparr>nd_kque := kq\<rparr>;
              nd = nd\<lparr>nd_raft := addNode nid (nd_raft nd)\<rparr>
          in Done (nd\<lparr>nd_raft := sendAddNode nid (nd_raft nd)\<rparr>)))"

definition Node_init :: "'w poller \<Rightarrow> 'w sys \<Rightarrow> Config \<Rightarrow> 'w node \<Rightarrow> 'w node outcome" where
  "Node_init K S conf nd =
     and_then (k_listenp K S 20 (nd_kque nd)) (\<lambda>kq.
       let nd = nd\<lparr>nd_kque := kq\<rparr>;
           nd = nd\<lparr>nd_raft := stepDown 1 0 (nd_raft nd)\<rparr>
       in for_each (init_peer K S) (conf_peers conf) nd)"

text \<open>
  The timeouts are narrowed to 32 bits, the defaults are those of \<open>Raft\<close>'s constructor,
  and a null \<open>timeout\<close> is read when only \<open>raftlog\<close> is given.
\<close>

definition Node_raft :: "env \<Rightarrow> Config \<Rightarrow> chance \<Rightarrow> stfile \<Rightarrow> raft option" where
  "Node_raft E conf rnd f =
     (if conf_timeout conf = None \<and> conf_raftlog conf = ''''
      then new_Raft E (conf_id conf) 10 150 rnd f
      else do {
        t \<leftarrow> conf_timeout conf;
        new_Raft E (conf_id conf) (ucast (heartbeatTimeout t)) (ucast (electionTimeout t)) rnd f })"

text \<open>
  The two constructors. With a \<open>Config&\<close> and the id 0 no \<open>Raft\<close> object is made, and
  \<open>init\<close> uses a pointer that was never set.
\<close>

definition new_Node_moved :: "'w poller \<Rightarrow> 'w sys \<Rightarrow> env \<Rightarrow> chance \<Rightarrow> stfile \<Rightarrow> Config \<Rightarrow> 'w \<Rightarrow>
    'w node outcome" where
  "new_Node_moved K S E rnd f conf w =
     (let kq = k_new K S (fst (conf_socket conf)) (snd (conf_socket conf)) IPV4 1024 1024 100 w
      in defined (Node_raft E conf rnd f) (\<lambda>r.
           Node_init K S conf \<lparr>nd_raft = r, nd_kque = kq, nd_pending = [], nd_storing = False\<rparr>))"

definition new_Node :: "'w poller \<Rightarrow> 'w sys \<Rightarrow> env \<Rightarrow> chance \<Rightarrow> stfile \<Rightarrow> Config \<Rightarrow> 'w \<Rightarrow>
    'w node outcome" where
  "new_Node K S E rnd f conf w =
     (let kq = k_new K S (fst (conf_socket conf)) (snd (conf_socket conf)) IPV4 1024 1024 100 w
      in if conf_id conf \<noteq> 0
         then defined (Node_raft E conf rnd f) (\<lambda>r.
                Node_init K S conf \<lparr>nd_raft = r, nd_kque = kq, nd_pending = [], nd_storing = False\<rparr>)
         else Faulted)"

definition delete_Node :: "'w poller \<Rightarrow> 'w sys \<Rightarrow> 'w node \<Rightarrow> 'w" where
  "delete_Node K S nd = e_world (k_delete K S (nd_kque nd))"

subsection \<open>The tasks\<close>

text \<open>
  One turn of a task; \<open>None\<close> while the condition it waits for does not hold. A turn is at most
  one call on the \<open>Raft\<close> object: the two statements of the persisting thread, the rounds of the
  binding loop, and the calls of the sending thread are turns of their own.
\<close>

definition poll_task :: "'w poller \<Rightarrow> 'w sys \<Rightarrow> nat \<Rightarrow> bytes \<Rightarrow> 'w node \<Rightarrow> 'w node outcome" where
  "poll_task K S k g nd =
     and_then (k_loop_once K S k g 1000 (nd_kque nd)) (\<lambda>kq. Done (nd\<lparr>nd_kque := kq\<rparr>))"

definition take_received :: "env \<Rightarrow> 'w node \<Rightarrow> 'w node outcome" where
  "take_received E nd =
     defined (popData (nd_kque nd)) (\<lambda>(dat, kq).
       let (b, r) = tryPushRecvbuf E dat (nd_raft nd)
       in Done (nd\<lparr>nd_kque := kq, nd_raft := r\<rparr>))"

definition recv_task :: "env \<Rightarrow> 'w node \<Rightarrow> 'w node outcome option" where
  "recv_task E nd =
     (if \<not> d_len (n_recvbuf (nd_kque nd)) \<le> 0 then Some (take_received E nd) else None)"

text \<open>The task of the \<open>Config&&\<close> version waits for the queue of the \<open>Raft\<close> object instead.\<close>

definition recv_task_moved :: "env \<Rightarrow> 'w node \<Rightarrow> 'w node outcome option" where
  "recv_task_moved E nd =
     (if r_recvmsgs (nd_raft nd) = [] then Some (take_received E nd) else None)"

text \<open>
  The sending task: it pops a message when it has nothing left to send, then offers one
  copy until the buffer takes it. \<open>send_pop\<close> and \<open>send_push\<close> are its two kinds of turns.
\<close>

definition send_pop :: "env \<Rightarrow> 'w node \<Rightarrow> 'w node option" where
  "send_pop E nd =
     (if nd_pending nd = [] \<and> r_sendmsgs (nd_raft nd) \<noteq> []
      then let ((msg, to), r) = tryPopSendbuf E (nd_raft nd);
               nd = nd\<lparr>nd_raft := r\<rparr>
           in Some (if msg \<noteq> []
                    then nd\<lparr>nd_pending := (if to = 0 then map (\<lambda>(nid, fd). (msg, nid)) (e_peersfd (nd_kque nd))
                                           else [(msg, to)])\<rparr>
                    else nd)
      else None)"

definition send_push :: "'w poller \<Rightarrow> 'w sys \<Rightarrow> 'w node \<Rightarrow> 'w node outcome option" where
  "send_push K S nd =
     (case nd_pending nd of
        [] \<Rightarrow> None
      | (msg, nid) # rest \<Rightarrow> Some (
          defined (pushData msg (nd_kque nd)) (\<lambda>(b, kq).
            let nd = nd\<lparr>nd_kque := kq\<rparr>
            in if \<not> b then Done nd
               else and_then (k_send K S nid (nd_kque nd)) (\<lambda>kq.
                      Done (nd\<lparr>nd_kque := kq, nd_pending := rest\<rparr>)))))"

text \<open>The task that binds announced ids to accepted connections.\<close>

lemma popUnknownid_shrinks:
  "popUnknownid r = Some (i, r') \<Longrightarrow> length (r_unknownid r') < length (r_unknownid r)"
  by (auto simp: popUnknownid_def split: list.splits)

function bind_loop :: "'w poller \<Rightarrow> 'w node \<Rightarrow> 'w node outcome" where
  "bind_loop K nd =
     (if \<not> emptyUnknownfd (nd_kque nd) \<and> \<not> emptyUnknownid (nd_raft nd)
      then case popUnknownid (nd_raft nd) of
             None \<Rightarrow> Faulted
           | Some (i, r) \<Rightarrow>
               (case popUnknownfd (nd_kque nd) of
                  None \<Rightarrow> Faulted
                | Some (fd, kq) \<Rightarrow>
                    bind_loop K (nd\<lparr>nd_raft := r, nd_kque := k_bindPeerfd K (u64_of_i32 i) fd kq\<rparr>))
      else Done nd)"
  by pat_completeness auto

termination
  by (relation "measure (\<lambda>(K, nd). length (r_unknownid (nd_raft nd)))")
    (auto dest: popUnknownid_shrinks)

declare bind_loop.simps [simp del]

text \<open>One round of it.\<close>

definition bind_turn :: "'w poller \<Rightarrow> 'w node \<Rightarrow> 'w node option" where
  "bind_turn K nd =
     (if \<not> emptyUnknownfd (nd_kque nd) \<and> \<not> emptyUnknownid (nd_raft nd)
      then do {
        (i, r) \<leftarrow> popUnknownid (nd_raft nd);
        (fd, kq) \<leftarrow> popUnknownfd (nd_kque nd);
        Some (nd\<lparr>nd_raft := r, nd_kque := k_bindPeerfd K (u64_of_i32 i) fd kq\<rparr>) }
      else None)"

definition bind_task :: "'w poller \<Rightarrow> 'w node \<Rightarrow> 'w node outcome option" where
  "bind_task K nd =
     (if \<not> emptyUnknownfd (nd_kque nd) \<and> \<not> emptyUnknownid (nd_raft nd) then Some (bind_loop K nd)
      else None)"

definition on_raft :: "(raft \<Rightarrow> raft option) \<Rightarrow> 'w node \<Rightarrow> 'w node outcome" where
  "on_raft f nd = defined (f (nd_raft nd)) (\<lambda>r. Done (nd\<lparr>nd_raft := r\<rparr>))"

definition step_task :: "env \<Rightarrow> 'w node \<Rightarrow> 'w node outcome option" where
  "step_task E nd = (if r_recvmsgs (nd_raft nd) \<noteq> [] then Some (on_raft (stepNode E) nd) else None)"

definition persist_store :: "env \<Rightarrow> 'w node \<Rightarrow> 'w node outcome option" where
  "persist_store E nd =
     (if \<not> nd_storing nd \<and> r_Ready (nd_raft nd)
      then Some (and_then (on_raft (storageLog E) nd) (\<lambda>nd. Done (nd\<lparr>nd_storing := True\<rparr>)))
      else None)"

definition persist_clear :: "'w node \<Rightarrow> 'w node option" where
  "persist_clear nd =
     (if nd_storing nd then Some (nd\<lparr>nd_raft := clearReady (nd_raft nd), nd_storing := False\<rparr>) else None)"

definition tick_task :: "env \<Rightarrow> 'w node \<Rightarrow> 'w node outcome" where
  "tick_task E nd = on_raft (tickNode E) nd"

definition Node_propose :: "bytes \<Rightarrow> 'w node \<Rightarrow> bool \<times> 'w node" where
  "Node_propose op nd = (let (b, r) = propose op (nd_raft nd) in (b, nd\<lparr>nd_raft := r\<rparr>))"

end
