(* ===== verification/Node_Properties.thy ===== *)
theory Node_Properties
  imports Node_Threads
begin

text \<open>
  The threads of a node in any interleaving: what they do to the \<open>Raft\<close> object is a
  sequence of its operations, what becomes of a message that is larger than the buffer,
  which connection a peer's id is bound to, and the way of a message from one node to
  another.
\<close>

subsection \<open>Interleavings\<close>

inductive node_step :: "'w poller \<Rightarrow> 'w sys \<Rightarrow> env \<Rightarrow> 'w node \<Rightarrow> 'w node \<Rightarrow> bool"
  for K :: "'w poller" and S :: "'w sys" and E :: env where
  at_poll: "poll_task K S k g nd = Done nd' \<Longrightarrow> node_step K S E nd nd'"
| at_recv: "recv_task E nd = Some (Done nd') \<Longrightarrow> node_step K S E nd nd'"
| at_recv_moved: "recv_task_moved E nd = Some (Done nd') \<Longrightarrow> node_step K S E nd nd'"
| at_pop: "send_pop E nd = Some nd' \<Longrightarrow> node_step K S E nd nd'"
| at_push: "send_push K S nd = Some (Done nd') \<Longrightarrow> node_step K S E nd nd'"
| at_bind: "bind_turn K nd = Some nd' \<Longrightarrow> node_step K S E nd nd'"
| at_step: "step_task E nd = Some (Done nd') \<Longrightarrow> node_step K S E nd nd'"
| at_store: "persist_store E nd = Some (Done nd') \<Longrightarrow> node_step K S E nd nd'"
| at_clear: "persist_clear nd = Some nd' \<Longrightarrow> node_step K S E nd nd'"
| at_tick: "tick_task E nd = Done nd' \<Longrightarrow> node_step K S E nd nd'"
| at_propose: "Node_propose op nd = (b, nd') \<Longrightarrow> node_step K S E nd nd'"

inductive_cases node_step_elim: "node_step K S E nd nd'"

lemma defined_Done: "defined x f = Done z \<longleftrightarrow> (\<exists>y. x = Some y \<and> f y = Done z)"
  by (cases x) simp_all

lemmas task_results = and_then_Done defined_Done on_raft_def Let_def

subsection \<open>The tasks operate on the \<open>Raft\<close> object\<close>

lemma for_each_inv:
  assumes "\<And>x s s'. f x s = Done s' \<Longrightarrow> P s \<Longrightarrow> P s'" and "for_each f xs s = Done s'" and "P s"
  shows "P s'"
  using assms(2,3) by (induction xs arbitrary: s) (auto simp: and_then_Done dest: assms(1))

lemma init_peers_raft:
  "for_each (init_peer K S) ps nd = Done nd' \<Longrightarrow>
    nd_raft nd' = fold (\<lambda>p r. sendAddNode p (addNode p r)) (map fst ps) (nd_raft nd)"
  by (induction ps arbitrary: nd)
    (auto simp: init_peer_def task_results split: prod.splits)

lemma Node_init_raft:
  "Node_init K S conf nd = Done nd' \<Longrightarrow>
    nd_raft nd' = init_raft (map fst (conf_peers conf)) (nd_raft nd)"
  by (auto simp: Node_init_def init_raft_def task_results dest!: init_peers_raft)

lemma Node_raft_new:
  "Node_raft E conf rnd f = Some r \<Longrightarrow> \<exists>h e. new_Raft E (conf_id conf) h e rnd f = Some r"
  by (auto simp: Node_raft_def bind_eq_Some_conv split: if_splits)

lemma new_Node_reachable:
  assumes "new_Node K S E rnd f conf w = Done nd \<or> new_Node_moved K S E rnd f conf w = Done nd"
  shows "reachable E (nd_raft nd)"
proof -
  obtain r kq where "Node_raft E conf rnd f = Some r"
    and "Node_init K S conf \<lparr>nd_raft = r, nd_kque = kq, nd_pending = [], nd_storing = False\<rparr> = Done nd"
    using assms by (auto simp: new_Node_def new_Node_moved_def task_results split: if_splits)
  then show ?thesis
    using Node_raft_new [of E conf rnd f r] by (auto dest!: Node_init_raft intro: reach_init)
qed

lemmas reach_by =
  reach_op [OF _ op_tick] reach_op [OF _ op_step] reach_op [OF _ op_send] reach_op [OF _ op_recv]
  reach_op [OF _ op_propose] reach_op [OF _ op_unknown] reach_op [OF _ op_store]
  reach_op [OF _ op_clear [OF refl]]

lemma take_received_reachable:
  "take_received E nd = Done nd' \<Longrightarrow> reachable E (nd_raft nd) \<Longrightarrow> reachable E (nd_raft nd')"
  by (auto simp: take_received_def task_results case_prod_unfold)
    (metis prod.collapse reach_op op_recv)

lemma node_step_reachable:
  assumes "node_step K S E nd nd'" and "reachable E (nd_raft nd)"
  shows "reachable E (nd_raft nd')"
  using assms
proof cases
  case at_recv
  then show ?thesis using assms(2) take_received_reachable by (auto simp: recv_task_def split: if_splits)
next
  case at_recv_moved
  then show ?thesis using assms(2) take_received_reachable
    by (auto simp: recv_task_moved_def split: if_splits)
next
  case at_pop
  then obtain d r where "tryPopSendbuf E (nd_raft nd) = (d, r)" "nd_raft nd' = r"
    by (cases "tryPopSendbuf E (nd_raft nd)")
      (auto simp: send_pop_def Let_def split: if_splits prod.splits)
  then show ?thesis using assms(2) by (blast intro: reach_by)
next
  case at_bind
  then show ?thesis using assms(2) by (auto simp: bind_turn_def bind_eq_Some_conv split: if_splits dest: reach_by(6))
qed (use assms(2) in \<open>auto simp: poll_task_def send_push_def step_task_def persist_store_def
      persist_clear_def tick_task_def Node_propose_def task_results split: if_splits list.splits prod.splits
      dest: reach_by\<close>)

interpretation node_threads: invariant_system "node_step K S E" "\<lambda>nd. reachable E (nd_raft nd)"
  for K :: "'w poller" and S E
  by unfold_locales (rule node_step_reachable)

text \<open>The whole binding task is a sequence of its rounds.\<close>

lemma bind_loop_turns:
  "bind_loop K nd = Done nd' \<Longrightarrow> (node_step K S E)\<^sup>*\<^sup>* nd nd'"
proof (induction K nd rule: bind_loop.induct)
  case (1 K nd)
  show ?case
  proof (cases "\<not> emptyUnknownfd (nd_kque nd) \<and> \<not> emptyUnknownid (nd_raft nd)")
    case True
    then obtain i r fd kq where p: "popUnknownid (nd_raft nd) = Some (i, r)"
      "popUnknownfd (nd_kque nd) = Some (fd, kq)"
      by (auto simp: popUnknownid_def popUnknownfd_def emptyUnknownid_def emptyUnknownfd_def neq_Nil_conv)
    let ?t = "nd\<lparr>nd_raft := r, nd_kque := k_bindPeerfd K (u64_of_i32 i) fd kq\<rparr>"
    have "node_step K S E nd ?t" by (rule at_bind) (use True p in \<open>simp add: bind_turn_def\<close>)
    moreover have "(node_step K S E)\<^sup>*\<^sup>* ?t nd'"
      by (rule "1.IH" [OF True p(1) refl p(2) refl]) (use 1(2) True p in \<open>simp add: bind_loop.simps [of K nd]\<close>)
    ultimately show ?thesis by (rule converse_rtranclp_into_rtranclp)
  next
    case False
    then show ?thesis using 1(2) by (auto simp: bind_loop.simps [of K nd])
  qed
qed

text \<open>
  What clearing \<open>Ready\<close> in a turn of its own does: a message handled after \<open>storageLog\<close> and
  before \<open>Ready = false\<close> has its entries in the log and its notification lost.
\<close>

lemma ready_lost:
  assumes "nd_storing nd" and "stepNode E (nd_raft nd) = Some r" and "r_recvmsgs (nd_raft nd) \<noteq> []"
  shows "\<exists>nd1 nd2. node_step K S E nd nd1 \<and> nd_raft nd1 = r \<and> node_step K S E nd1 nd2 \<and>
    r_entries (nd_raft nd2) = r_entries r \<and> \<not> r_Ready (nd_raft nd2) \<and> persist_store E nd2 = None"
proof -
  let ?n1 = "nd\<lparr>nd_raft := r\<rparr>"
  let ?n2 = "?n1\<lparr>nd_raft := clearReady r, nd_storing := False\<rparr>"
  have "node_step K S E nd ?n1"
    by (rule at_step) (use assms in \<open>simp add: step_task_def on_raft_def\<close>)
  moreover have "node_step K S E ?n1 ?n2"
    by (rule at_clear) (use assms(1) in \<open>simp add: persist_clear_def\<close>)
  ultimately show ?thesis
    by (intro exI [of _ ?n1] exI [of _ ?n2]) (simp add: clearReady_def persist_store_def)
qed

text \<open>
  C3: The node implements the model of its \<open>Raft\<close> object, as long as calls on the object do
  not overlap. From either constructor, after any interleaving of the turns of its seven
  tasks and of proposals, with either event loop and any kernel, the \<open>Raft\<close> object is in a
  state that its own operations reach, and satisfies their invariant. A turn is at most one
  call on the object: \<open>storageLog\<close> and the clearing of \<open>Ready\<close> are apart, and so are the rounds of
  the binding loop. The code does not enforce that calls do not overlap, since \<open>tickNode\<close>
  takes no lock and \<open>stepNode\<close> and \<open>storageLog\<close> take different ones; an execution in which they
  do is a data race and is not covered.
\<close>

theorem threads_refine_raft:
  assumes "new_Node K S E rnd f conf w = Done nd \<or> new_Node_moved K S E rnd f conf w = Done nd"
    and "(node_step K S E)\<^sup>*\<^sup>* nd nd'"
  shows "reachable E (nd_raft nd') \<and> node_ok (nd_raft nd')"
  using node_threads.keeps_star [OF assms(2) new_Node_reachable [OF assms(1)]]
  by (simp add: reachable_node_ok)

definition sample_config :: Config where
  "sample_config = new_Config 1 '''' None (''127.0.0.1'', 80) [(2, ''127.0.0.1'', 81)]"

definition sample_start :: "(bytes \<times> bytes list) node outcome" where
  "sample_start = new_Node epoll_poller (pipe_sys 1024) varint_env sample_chance None sample_config ([], [])"

lemma outcome_Done: "(case x of Done y \<Rightarrow> P y | _ \<Rightarrow> False) \<longleftrightarrow> (\<exists>y. x = Done y \<and> P y)"
  by (cases x) simp_all

lemma sample_starts: "\<exists>nd. sample_start = Done nd \<and> r_id (nd_raft nd) = 1 \<and>
    e_peersfd (nd_kque nd) = [(2, 5)]"
  by (rule outcome_Done [THEN iffD1]) code_simp

theorem threads_refine_raft_witness:
  "\<exists>nd nd'. sample_start = Done nd \<and> Node_propose [7] nd = (True, nd') \<and>
    reachable varint_env (nd_raft nd')"
proof -
  obtain nd where nd: "sample_start = Done nd" using sample_starts by blast
  obtain nd' where p: "Node_propose [7] nd = (True, nd')"
    by (simp add: Node_propose_def propose_def)
  have "(node_step epoll_poller (pipe_sys 1024) varint_env)\<^sup>*\<^sup>* nd nd'"
    using at_propose [OF p] by (rule r_into_rtranclp)
  then show ?thesis
    using threads_refine_raft [OF disjI1 [OF nd [unfolded sample_start_def]]] nd p by blast
qed

subsection \<open>Binding ids to connections\<close>

lemma bind_loop_pairs:
  assumes "\<And>nid fd s. k_bindPeerfd K nid fd s = s\<lparr>e_peersfd := umap_set nid fd (e_peersfd s)\<rparr>"
  shows "bind_loop K nd =
    (let ids = r_unknownid (nd_raft nd); fds = n_unknownfd (nd_kque nd);
         n = min (length ids) (length fds)
     in Done (nd\<lparr>nd_raft := (nd_raft nd)\<lparr>r_unknownid := drop n ids\<rparr>,
       nd_kque := (nd_kque nd)\<lparr>n_unknownfd := drop n fds,
         e_peersfd := fold (\<lambda>(i, fd). umap_set (u64_of_i32 (i32_of_u64 i)) fd) (zip ids fds)
           (e_peersfd (nd_kque nd))\<rparr>\<rparr>))"
  using assms
proof (induction K nd rule: bind_loop.induct)
  case (1 K nd)
  show ?case
  proof (cases "r_unknownid (nd_raft nd) = [] \<or> n_unknownfd (nd_kque nd) = []")
    case True
    then show ?thesis
      by (subst bind_loop.simps) (auto simp: emptyUnknownid_def emptyUnknownfd_def Let_def)
  next
    case False
    then obtain i ids fd fds where q: "r_unknownid (nd_raft nd) = i # ids" "n_unknownfd (nd_kque nd) = fd # fds"
      by (auto simp: neq_Nil_conv)
    then have p: "popUnknownid (nd_raft nd) = Some (i32_of_u64 i, (nd_raft nd)\<lparr>r_unknownid := ids\<rparr>)"
      "popUnknownfd (nd_kque nd) = Some (fd, (nd_kque nd)\<lparr>n_unknownfd := fds\<rparr>)"
      and ne: "\<not> emptyUnknownfd (nd_kque nd) \<and> \<not> emptyUnknownid (nd_raft nd)"
      by (auto simp: popUnknownid_def popUnknownfd_def emptyUnknownid_def emptyUnknownfd_def)
    show ?thesis
      using "1.IH" [OF ne p(1) refl p(2) refl "1.prems"] ne p q "1.prems"
      by (subst bind_loop.simps) (simp add: Let_def)
  qed
qed

text \<open>
  The binding task ends, and binds in order: the first announced id to the connection
  accepted first, and so on, as long as there are both; what is left of the longer queue
  stays. The order in which ids were announced and that in which connections were accepted
  are all it goes by, and the ids it binds have been cut to 32 bits.
\<close>

theorem bind_in_order:
  assumes "K = epoll_poller \<or> K = kqueue_poller"
    and "r_unknownid (nd_raft nd) = ids" and "n_unknownfd (nd_kque nd) = fds"
    and "n = min (length ids) (length fds)"
  shows "\<exists>nd'. bind_loop K nd = Done nd' \<and>
    r_unknownid (nd_raft nd') = drop n ids \<and> n_unknownfd (nd_kque nd') = drop n fds \<and>
    e_peersfd (nd_kque nd') = fold (\<lambda>(i, fd). umap_set (u64_of_i32 (i32_of_u64 i)) fd)
      (zip ids fds) (e_peersfd (nd_kque nd))"
proof -
  have "k_bindPeerfd K nid fd s = s\<lparr>e_peersfd := umap_set nid fd (e_peersfd s)\<rparr>" for nid fd s
    using assms(1) by (auto simp: pollers Epoll_bindPeerfd_def Kqueue_bindPeerfd_def bind_peer_def)
  then show ?thesis using assms(2-4) by (simp add: bind_loop_pairs Let_def)
qed

definition sample_link :: "bytes \<times> bytes list \<Rightarrow> (bytes \<times> bytes list) node" where
  "sample_link w = \<lparr>nd_raft = raft_blank 1 10 150 sample_chance None, nd_kque = sample_net w,
     nd_pending = [], nd_storing = False\<rparr>"

theorem bind_in_order_witness:
  "\<exists>nd'. bind_loop epoll_poller ((sample_link ([], []))\<lparr>
      nd_raft := (raft_blank 1 10 150 sample_chance None)\<lparr>r_unknownid := [3, 2 ^ 32 + 2]\<rparr>,
      nd_kque := (sample_net ([], []))\<lparr>n_unknownfd := [7, 8, 9]\<rparr>\<rparr>) = Done nd' \<and>
    e_peersfd (nd_kque nd') = [(3, 7), (2, 8)] \<and> n_unknownfd (nd_kque nd') = [9]"
proof -
  let ?nd = "(sample_link ([], []))\<lparr>
      nd_raft := (raft_blank 1 10 150 sample_chance None)\<lparr>r_unknownid := [3, 2 ^ 32 + 2]\<rparr>,
      nd_kque := (sample_net ([], []))\<lparr>n_unknownfd := [7, 8, 9]\<rparr>\<rparr>"
  have "fold (\<lambda>(i, fd). umap_set (u64_of_i32 (i32_of_u64 i)) fd) (zip [3, 2 ^ 32 + 2] [7, 8, 9]) [] =
    ([(3, 7), (2, 8)] :: (u64, i32) umap)"
    by code_simp
  then show ?thesis
    using bind_in_order [of epoll_poller ?nd "[3, 2 ^ 32 + 2]" "[7, 8, 9]" 2] by auto
qed

end
