(* ===== verification/Node_Delivery.thy ===== *)
theory Node_Delivery
  imports Node_Properties
begin

text \<open>
  Messages between the \<open>Raft\<close> object and the event loop: the size of the buffer never
  changes, so that a message larger than it holds the sending thread for ever, and a
  message that fits arrives as it was sent.
\<close>

subsection \<open>The size of the buffer\<close>

definition room :: "'a netcon_scheme \<Rightarrow> u32" where
  "room c = d_size (n_sendbuf c)"

lemma room_upd [simp]:
  "room (s\<lparr>e_world := w\<rparr>) = room s" "room (s\<lparr>e_peersfd := p\<rparr>) = room s"
  "room (s\<lparr>e_readfd := q\<rparr>) = room s" "room (s\<lparr>e_bcastfd := v\<rparr>) = room s"
  "room (s\<lparr>e_pollfd := fd\<rparr>) = room s" "room (s\<lparr>e_listenfd := fd\<rparr>) = room s"
  "room (s\<lparr>e_logger := l\<rparr>) = room s"
  "room (c\<lparr>n_unknownfd := u\<rparr>) = room c" "room (c\<lparr>n_recvbuf := b\<rparr>) = room c"
  "room (c\<lparr>n_sendbuf := d\<rparr>) = d_size d" "room (pushUnknownfd fd c) = room c"
  by (simp_all add: room_def pushUnknownfd_def)

lemma exit_if_Done:
  "exit_if_nonzero (call f s) g = Done z \<longleftrightarrow>
    fst (f (e_world s)) = 0 \<and> g (s\<lparr>e_world := snd (f (e_world s))\<rparr>) = Done z"
  "exit_if_negative (call f s) h = Done z \<longleftrightarrow>
    \<not> sint (fst (f (e_world s))) < 0 \<and>
    h (fst (f (e_world s))) (s\<lparr>e_world := snd (f (e_world s))\<rparr>) = Done z"
  by (auto simp: exit_if_nonzero_def exit_if_negative_def call_def split: prod.splits)

text \<open>An operation that leaves the size alone.\<close>

definition roomy :: "('w net \<Rightarrow> 'w net outcome) \<Rightarrow> bool" where
  "roomy f = (\<forall>s s'. f s = Done s' \<longrightarrow> room s' = room s)"

lemma roomyI: "(\<And>s s'. f s = Done s' \<Longrightarrow> room s' = room s) \<Longrightarrow> roomy f"
  by (simp add: roomy_def)

lemma roomyD: "roomy f \<Longrightarrow> f s = Done s' \<Longrightarrow> room s' = room s"
  by (simp add: roomy_def)

lemma roomy_for_each:
  assumes "\<And>x. roomy (f x)"
  shows "roomy (for_each f xs)"
proof (induction xs)
  case (Cons x xs)
  then show ?case using assms [of x] unfolding roomy_def by (auto simp: and_then_Done)
qed (simp add: roomy_def)

lemma roomy_read_loop:
  assumes "roomy full" "roomy closed"
  shows "roomy (read_loop S full closed k fd buf)"
proof (induction k arbitrary: buf)
  case (Suc k)
  show ?case
  proof (rule roomyI)
    fix s s' assume a: "read_loop S full closed (Suc k) fd buf s = Done s'"
    obtain res w where r: "sys_read S fd 4096 (e_world s) = (res, w)" by fastforce
    show "room s' = room s"
    proof (cases res)
      case (Got x)
      then show ?thesis
        using a r roomyD [OF assms(1), of "s\<lparr>e_world := w\<rparr>" s'] roomyD [OF Suc.IH]
        by (fastforce simp: Let_def defined_Done split: if_splits)
    next
      case Eof
      then show ?thesis using a r roomyD [OF assms(2), of "s\<lparr>e_world := w\<rparr>"]
        by (fastforce simp: and_then_Done)
    next
      case (ReadError e)
      then show ?thesis using a r roomyD [OF Suc.IH, of buf "s\<lparr>e_world := w\<rparr>" s'] by (cases e) auto
    qed
  qed
qed (simp add: roomy_def)

lemma roomy_write_loop:
  assumes "roomy rearm"
  shows "roomy (write_loop S rearm k fd buf)"
proof (induction k)
  case (Suc k)
  show ?case
  proof (rule roomyI)
    fix s s' assume a: "write_loop S rearm (Suc k) fd buf s = Done s'"
    obtain res w where r: "sys_write S fd (take (unat (d_len (n_sendbuf s))) buf) (e_world s) = (res, w)"
      by fastforce
    note keep = roomyD [OF assms, of "s\<lparr>e_world := w\<rparr>" s'] roomyD [OF Suc.IH, of "s\<lparr>e_world := w\<rparr>" s']
    show "room s' = room s"
    proof (cases res)
      case (Sent n)
      let ?s = "s\<lparr>e_world := w, n_sendbuf := (n_sendbuf s)\<lparr>d_len := d_len (n_sendbuf s) - of_nat n\<rparr>\<rparr>"
      have "rearm ?s = Done s' \<or> write_loop S rearm k fd buf ?s = Done s'"
        using a r Sent by (simp add: Let_def split: if_splits)
      moreover have "room ?s = room s" by (simp add: room_def)
      ultimately show ?thesis using roomyD [OF assms, of ?s s'] roomyD [OF Suc.IH, of ?s s'] by argo
    next
      case WroteNothing
      then show ?thesis using a r keep by simp
    next
      case (WriteError e)
      then show ?thesis using a r keep by (cases e) simp_all
    qed
  qed
qed (simp add: roomy_def)

lemma roomy_write_all: "roomy rearm \<Longrightarrow> roomy (write_all S rearm k fd)"
  using roomy_write_loop [of rearm S k fd] by (auto simp: roomy_def write_all_def split: if_splits)

named_theorems room_simps \<open>definitions of the operations that keep the size\<close>

lemmas [room_simps] =
  Epoll_updateEvents_def Epoll_handleConnect_def Epoll_connecttopeer_def Epoll_handleAccept_def
  Epoll_send_def Epoll_conn_def Epoll_listenp_def Kqueue_updateEvents_def delete_event_def
  Kqueue_handleConnect_def Kqueue_connecttopeer_def Kqueue_handleAccept_def Kqueue_send_def
  Kqueue_conn_def Kqueue_listenp_def setNonBlock_def Kqueue_setNonBlock_def call_def
  exit_if_nonzero_def exit_if_negative_def and_then_Done Let_def

lemma room_events [dest]:
  "Epoll_updateEvents S efd fd ev op s = Done s' \<Longrightarrow> room s' = room s"
  "Kqueue_updateEvents S efd fd ev modify s = Done s' \<Longrightarrow> room s' = room s"
  "delete_event S efd fd ev s = Done s' \<Longrightarrow> room s' = room s"
  by (auto simp: room_simps split: prod.splits if_splits)

lemma room_events_each [dest]:
  "for_each (\<lambda>ufd s. Epoll_updateEvents S (e_pollfd s) ufd ev op s) xs s = Done s' \<Longrightarrow> room s' = room s"
  "for_each (\<lambda>ufd s. Kqueue_updateEvents S (e_pollfd s) ufd ev modify s) xs s = Done s' \<Longrightarrow> room s' = room s"
  by (erule roomyD [OF roomy_for_each, rotated]; auto intro: roomyI)+

lemma room_connect [dest]:
  "Epoll_handleConnect S efd fd s = Done s' \<Longrightarrow> room s' = room s"
  "Kqueue_handleConnect S efd fd s = Done s' \<Longrightarrow> room s' = room s"
  by (auto simp: room_simps split: prod.splits if_splits)

lemma room_conn [dest]:
  "Epoll_conn S ip port nid s = Done s' \<Longrightarrow> room s' = room s"
  "Kqueue_conn S ip port nid s = Done s' \<Longrightarrow> room s' = room s"
  unfolding Epoll_conn_def Kqueue_conn_def Epoll_connecttopeer_def Kqueue_connecttopeer_def call_def Let_def
  by (auto split: prod.splits if_splits)

lemma room_accept [dest]:
  "Epoll_handleAccept S efd fd s = Done s' \<Longrightarrow> room s' = room s"
  "Kqueue_handleAccept S efd fd s = Done s' \<Longrightarrow> room s' = room s"
  by (auto simp: room_simps split: prod.splits if_splits)

lemma room_listenp [dest]:
  "Epoll_listenp S q s = Done s' \<Longrightarrow> room s' = room s"
  "Kqueue_listenp S q s = Done s' \<Longrightarrow> room s' = room s"
  by (auto simp: room_simps split: prod.splits if_splits)

lemma room_send [dest]:
  "Epoll_send S nid s = Done s' \<Longrightarrow> room s' = room s"
  "Kqueue_send S nid s = Done s' \<Longrightarrow> room s' = room s"
  unfolding Epoll_send_def Kqueue_send_def Let_def
  by (auto simp: room_def split: if_splits dest!: room_events_each room_events)

lemma room_readwrite [dest]:
  "Epoll_handleRead S k g efd fd s = Done s' \<Longrightarrow> room s' = room s"
  "Kqueue_handleRead S k g efd fd s = Done s' \<Longrightarrow> room s' = room s"
  "Epoll_handleWrite S k efd fd s = Done s' \<Longrightarrow> room s' = room s"
  "Kqueue_handleWrite S k efd fd s = Done s' \<Longrightarrow> room s' = room s"
  unfolding Epoll_handleRead_def Kqueue_handleRead_def Epoll_handleWrite_def Kqueue_handleWrite_def
  by (erule roomyD [OF roomy_read_loop, rotated 2] roomyD [OF roomy_write_all, rotated];
      auto intro: roomyI)+

lemma room_dispatch:
  "roomy (Epoll_dispatch S k g efd lfd ev)" "roomy (Kqueue_dispatch S k g efd lfd ev')"
  unfolding Epoll_dispatch_def Kqueue_dispatch_def
  by (auto intro!: roomyI split: prod.splits kfilter.splits if_splits)

lemma room_loop [dest]:
  "Epoll_loop_once S k g ms s = Done s' \<Longrightarrow> room s' = room s"
  "Kqueue_loop_once S k g ms s = Done s' \<Longrightarrow> room s' = room s"
  unfolding Epoll_loop_once_def Kqueue_loop_once_def epoll_loop_once_def kqueue_loop_once_def
  by (auto dest!: roomyD [OF roomy_for_each [OF room_dispatch(1)]]
      roomyD [OF roomy_for_each [OF room_dispatch(2)]] split: prod.splits)

lemma room_new:
  "room (new_Epoll S ip port type n fdsize lq w) = n" "room (new_Kqueue S ip port type n fdsize lq w) = n"
  by (auto simp: new_Epoll_def new_Kqueue_def call_def Let_def new_net_def new_Netcon_def netcon.defs
      room_def new_Data_def split: prod.splits)

lemma bind_turn_Some:
  assumes "bind_turn K nd = Some nd'"
  obtains i r fd kq where "popUnknownid (nd_raft nd) = Some (i, r)" "popUnknownfd (nd_kque nd) = Some (fd, kq)"
    "nd' = nd\<lparr>nd_raft := r, nd_kque := k_bindPeerfd K (u64_of_i32 i) fd kq\<rparr>"
  using assms by (auto simp: bind_turn_def bind_eq_Some_conv split: if_splits)

lemma take_received_Done:
  assumes "take_received E nd = Done nd'"
  obtains dat kq b r where "popData (nd_kque nd) = Some (dat, kq)"
    "tryPushRecvbuf E dat (nd_raft nd) = (b, r)" "nd' = nd\<lparr>nd_kque := kq, nd_raft := r\<rparr>"
  using assms by (auto simp: take_received_def task_results case_prod_unfold prod_eq_iff)

lemma popData_room: "popData c = Some (dat, c') \<Longrightarrow> room c' = room c"
  by (auto simp: popData_def Let_def split: if_splits)

text \<open>A message that is too large stays the one to send.\<close>

definition stuck_with :: "bytes \<Rightarrow> (bytes \<times> u64) list \<Rightarrow> 'w node \<Rightarrow> bool" where
  "stuck_with msg pending nd = (nd_pending nd = pending \<and> pending \<noteq> [] \<and> fst (hd pending) = msg \<and>
     unat (room (nd_kque nd)) < length msg \<and> length msg < 2 ^ 63)"

locale roomy_poller =
  fixes K :: "'w poller" and S :: "'w sys"
  assumes send_room: "k_send K S nid s = Done s' \<Longrightarrow> room s' = room s"
    and conn_room: "k_conn K S ip port nid s = Done s' \<Longrightarrow> room s' = room s"
    and listenp_room: "k_listenp K S q s = Done s' \<Longrightarrow> room s' = room s"
    and loop_room: "k_loop_once K S k g ms s = Done s' \<Longrightarrow> room s' = room s"
    and bind_room: "room (k_bindPeerfd K nid fd s) = room s"
    and new_room: "room (k_new K S ip port type n fdsize lq w) = n"
begin

lemma bind_turn_room: "bind_turn K nd = Some nd' \<Longrightarrow> room (nd_kque nd') = room (nd_kque nd)"
  by (elim bind_turn_Some) (auto simp: bind_room popUnknownfd_def split: list.splits)

lemma init_room: "Node_init K S conf nd = Done nd' \<Longrightarrow> room (nd_kque nd') = room (nd_kque nd)"
proof -
  have each: "room (nd_kque n') = room (nd_kque nd)"
    if "for_each (init_peer K S) ps n = Done n'" "room (nd_kque n) = room (nd_kque nd)" for ps n n'
    using _ that
  proof (rule for_each_inv [where P = "\<lambda>n. room (nd_kque n) = room (nd_kque nd)"])
    show "init_peer K S p m = Done m' \<Longrightarrow> room (nd_kque m) = room (nd_kque nd) \<Longrightarrow>
        room (nd_kque m') = room (nd_kque nd)" for p m m'
      by (auto simp: init_peer_def task_results dest: conn_room split: prod.splits)
  qed
  show "Node_init K S conf nd = Done nd' \<Longrightarrow> room (nd_kque nd') = room (nd_kque nd)"
    unfolding Node_init_def by (auto simp: task_results dest!: listenp_room intro: each)
qed

lemma node_room:
  "new_Node K S E rnd f conf w = Done nd \<or> new_Node_moved K S E rnd f conf w = Done nd \<Longrightarrow>
    room (nd_kque nd) = 1024"
  by (auto simp: new_Node_def new_Node_moved_def task_results new_room dest!: init_room split: if_splits)

lemma push_room: "pushData dat c = Some (b, c') \<Longrightarrow> room c' = room c"
  by (auto simp: pushData_def Let_def bind_eq_Some_conv room_def split: if_splits prod.splits)

lemma received_room: "take_received E nd = Done nd' \<Longrightarrow> room (nd_kque nd') = room (nd_kque nd)"
  by (elim take_received_Done) (simp add: popData_room)

lemma step_room:
  assumes "node_step K S E nd nd'"
  shows "room (nd_kque nd') = room (nd_kque nd)"
  using assms
proof cases
  case at_push
  then show ?thesis
    by (auto simp: send_push_def task_results dest!: push_room send_room split: list.splits prod.splits if_splits)
qed (auto simp: poll_task_def recv_task_def recv_task_moved_def send_pop_def step_task_def
    persist_store_def persist_clear_def tick_task_def Node_propose_def task_results received_room bind_turn_room
    split: if_splits prod.splits dest: loop_room)

lemma stuck_step:
  assumes "node_step K S E nd nd'" and "stuck_with msg pending nd"
  shows "stuck_with msg pending nd'"
proof -
  obtain nid rest where p: "nd_pending nd = (msg, nid) # rest" "pending = (msg, nid) # rest"
    using assms(2) by (cases pending) (auto simp: stuck_with_def)
  have "pushData msg (nd_kque nd) = Some (False, nd_kque nd)"
    by (rule pushData_refuses) (use assms(2) in \<open>auto simp: stuck_with_def room_def\<close>)
  with assms(1) have "nd_pending nd' = nd_pending nd"
  proof cases
    case at_recv
    then show ?thesis by (auto simp: recv_task_def split: if_splits elim: take_received_Done)
  next
    case at_recv_moved
    then show ?thesis by (auto simp: recv_task_moved_def split: if_splits elim: take_received_Done)
  next
    case at_bind
    then show ?thesis by (auto elim: bind_turn_Some)
  qed (use p in \<open>auto simp: poll_task_def send_pop_def send_push_def step_task_def
      persist_store_def persist_clear_def tick_task_def Node_propose_def task_results
      split: if_splits prod.splits\<close>)
  then show ?thesis using assms(2) step_room [OF assms(1)] by (simp add: stuck_with_def)
qed

end

sublocale roomy_poller \<subseteq> stuck: invariant_system "node_step K S E" "stuck_with msg pending"
  for E msg pending
  by unfold_locales (rule stuck_step)

interpretation epoll: roomy_poller epoll_poller S for S :: "'w sys"
  by unfold_locales (auto simp: epoll_poller_def Epoll_bindPeerfd_def bind_peer_def room_new)

interpretation kqueue: roomy_poller kqueue_poller S for S :: "'w sys"
  by unfold_locales (auto simp: kqueue_poller_def Kqueue_bindPeerfd_def bind_peer_def room_new)

text \<open>
  C24: A message larger than the buffer blocks the sending thread for good. The buffers of a
  node have 1024 bytes; once the thread is to send a message with more bytes than the buffer
  has, then after any interleaving of the tasks it is still to send it, and its turn
  changes nothing, in both event loops.
\<close>

theorem oversized_message_blocks:
  assumes "K = epoll_poller \<or> K = kqueue_poller"
    and "nd_pending nd = (msg, nid) # rest" and "unat (room (nd_kque nd)) < length msg"
    and "length msg < 2 ^ 63" and "(node_step K S E)\<^sup>*\<^sup>* nd nd'"
  shows "nd_pending nd' = (msg, nid) # rest \<and> send_push K S nd' = Some (Done nd') \<and>
    (new_Node K S E rnd f conf w = Done new \<longrightarrow> room (nd_kque new) = 1024)"
proof -
  have start: "stuck_with msg ((msg, nid) # rest) nd" using assms(2-4) by (simp add: stuck_with_def)
  have "stuck_with msg ((msg, nid) # rest) nd'"
    using assms(1,5) epoll.stuck.keeps_star [OF _ start] kqueue.stuck.keeps_star [OF _ start] by blast
  then have s: "nd_pending nd' = (msg, nid) # rest" "unat (room (nd_kque nd')) < length msg"
    by (simp_all add: stuck_with_def)
  have "pushData msg (nd_kque nd') = Some (False, nd_kque nd')"
    by (rule pushData_refuses) (use s assms(4) in \<open>auto simp: room_def\<close>)
  moreover have "new_Node K S E rnd f conf w = Done new \<longrightarrow> room (nd_kque new) = 1024"
    using assms(1) epoll.node_room [of S E rnd f conf w new] kqueue.node_room [of S E rnd f conf w new]
    by blast
  ultimately show ?thesis using s by (simp add: send_push_def)
qed

theorem oversized_message_blocks_witness:
  "\<exists>nd'. (node_step epoll_poller (pipe_sys 1024) varint_env)
      ((sample_link ([], []))\<lparr>nd_pending := [(replicate 1025 7, 2)]\<rparr>) nd' \<and>
    nd_pending nd' = [(replicate 1025 7, 2)]"
proof -
  let ?nd = "(sample_link ([], []))\<lparr>nd_pending := [(replicate 1025 7, 2)]\<rparr>"
  obtain nd' where s: "node_step epoll_poller (pipe_sys 1024) varint_env ?nd nd'"
    using at_propose [of "[]" ?nd False ?nd] by (auto simp: Node_propose_def propose_def)
  have "room (nd_kque ?nd) = 1024" by (simp add: sample_link_def room_def)
  then have "nd_pending nd' = [(replicate 1025 7, 2)]"
    using oversized_message_blocks [where K = epoll_poller, OF _ _ _ _ r_into_rtranclp [of "node_step epoll_poller
        (pipe_sys 1024) varint_env", OF s]] by simp
  then show ?thesis using s by blast
qed

subsection \<open>From one node to another\<close>

lemma handleWrite_whole:
  assumes "data_ok (n_sendbuf s)" and "contents (n_sendbuf s) = x" and "unat (d_len (n_sendbuf s)) = length x"
    and "sys_write S fd x (e_world s) = (Sent (length x), w1)"
    and "sys_epoll_ctl S (e_pollfd s) CTL_MOD fd (EPOLLIN OR EPOLLET) w1 = (0, w2)"
  shows "Epoll_handleWrite S (Suc k) efd fd s =
    Done (s\<lparr>e_world := w2, n_sendbuf := (n_sendbuf s)\<lparr>d_len := 0\<rparr>\<rparr>)"
proof -
  have z: "d_len (n_sendbuf s) - of_nat (length x) = 0"
    using assms(3) by (simp flip: assms(3))
  have "unat (d_len (n_sendbuf s)) \<le> length (d_buf (n_sendbuf s))"
    using assms(1) by (simp add: data_ok_def word_le_nat_alt)
  then show ?thesis using assms z
    by (simp add: Epoll_handleWrite_def write_all_def Epoll_updateEvents_def exit_if_nonzero_def call_def)
qed

lemma Epoll_send_peer:
  assumes "0 < d_len (n_sendbuf s)" and "nid \<noteq> 0" and "umap_has nid (e_peersfd s)"
    and "umap_get 0 nid (e_peersfd s) = fd" "fd \<noteq> 0"
    and "sys_epoll_ctl S (e_pollfd s) CTL_MOD fd (EPOLLIN OR EPOLLOUT OR EPOLLET) (e_world s) = (0, w)"
  shows "Epoll_send S nid s = Done (s\<lparr>e_world := w\<rparr>)"
  using assms by (simp add: Epoll_send_def Epoll_updateEvents_def exit_if_nonzero_def call_def)

text \<open>
  C4: A message crosses the network, over the epoll event loop, under these conditions. The
  runtime of the codec keeps its promises, and the message at the head of node \<open>a\<close>'s queue has
  a receiver, no unknown fields, and less than \<open>2 ^ 31\<close> bytes, at least one and none of them NUL.
  Node \<open>a\<close> has nothing else to send, its send buffer is empty and as large as the message, and
  it has a descriptor for the receiver. Node \<open>b\<close>'s receive buffer is empty. The kernel accepts
  both changes of the watched events, takes the bytes in one write, hands them to node \<open>b\<close> in
  one read, and then has no more. The reader finds the end of a chunk by a NUL, so the stale
  bytes \<open>g\<close> of its array, which it does not initialise, contain one behind the chunk, and what
  stands before it still fits into the buffer. Then the sending task, the write event, the
  read event and the receiving task put exactly that message at the end of \<open>b\<close>'s queue, and
  \<open>a\<close>'s buffer is empty again.
\<close>

theorem message_crosses_network:
  assumes "wire_runtime W" and "E_codec E = pb_codec W"
    and "nd_pending a = []" "r_sendmsgs (nd_raft a) = m # q" "Message_fits W m" "m_to m \<noteq> 0"
    and "Message_Serialize W m = x" "x \<noteq> []" "0 \<notin> set x"
    and "data_ok (n_sendbuf (nd_kque a))" "d_len (n_sendbuf (nd_kque a)) = 0"
      "length x \<le> unat (d_size (n_sendbuf (nd_kque a)))"
    and "umap_has (m_to m) (e_peersfd (nd_kque a))" "umap_get 0 (m_to m) (e_peersfd (nd_kque a)) = fd" "fd \<noteq> 0"
    and "sys_epoll_ctl S (e_pollfd (nd_kque a)) CTL_MOD fd (EPOLLIN OR EPOLLOUT OR EPOLLET)
      (e_world (nd_kque a)) = (0, w1)"
    and "sys_write S fd x w1 = (Sent (length x), w2)"
    and "sys_epoll_ctl S (e_pollfd (nd_kque a)) CTL_MOD fd (EPOLLIN OR EPOLLET) w2 = (0, w3)"
    and "sys_read T rfd 4096 (e_world (nd_kque b)) = (Got x, v1)" "sys_read T rfd 4096 v1 = (ReadError E_AGAIN, v2)"
    and "data_ok (n_recvbuf (nd_kque b))" "d_len (n_recvbuf (nd_kque b)) = 0"
    and "0 \<in> set (over x g)"
      "length (takeWhile (\<lambda>ch. ch \<noteq> 0) (over x g)) \<le> unat (d_size (n_recvbuf (nd_kque b)))"
  shows "\<exists>a1 a2 ka kb b'. send_pop E a = Some a1 \<and> send_push epoll_poller S a1 = Some (Done a2) \<and>
    Epoll_handleWrite S (Suc k) (e_pollfd (nd_kque a)) fd (nd_kque a2) = Done ka \<and>
    nd_pending a2 = [] \<and> d_len (n_sendbuf ka) = 0 \<and>
    Epoll_handleRead T (Suc (Suc j)) g efd rfd (nd_kque b) = Done kb \<and>
    recv_task E (b\<lparr>nd_kque := kb\<rparr>) = Some (Done b') \<and>
    nd_raft b' = enq_recv m (nd_raft b)"
proof -
  let ?a = "nd_kque a" and ?b = "nd_kque b"
  have ser: "Message_SerializeToString W m = x"
    using wire_arrays.Message_arrays [OF wire_runtime.axioms(2) [OF assms(1)]] assms(7)
    by (simp add: Message_SerializeToString_def)
  have parse: "parse_Message (E_codec E) x = m"
    using wire_runtime.Message_parse [OF assms(1,5)] ser assms(2) by (simp add: pb_codec_def)
  obtain d where push: "pushData x ?a = Some (True, ?a\<lparr>n_sendbuf := d\<rparr>)"
    and d: "data_ok d" "contents d = x" "unat (d_len d) = length x"
    using pushData_accepts [OF assms(10,11,12)] by blast
  have pos: "0 < d_len d" using d(3) assms(8) by (simp add: word_less_nat_alt)
  let ?a1 = "a\<lparr>nd_raft := (nd_raft a)\<lparr>r_sendmsgs := q\<rparr>, nd_pending := [(x, m_to m)]\<rparr>"
  let ?k = "?a\<lparr>n_sendbuf := d, e_world := w1\<rparr>"
  have pop: "send_pop E a = Some ?a1"
    using assms(3,4,6,8) ser by (simp add: send_pop_def tryPopSendbuf_def assms(2) pb_codec_def)
  have send: "Epoll_send S (m_to m) (?a\<lparr>n_sendbuf := d\<rparr>) = Done ?k"
    using Epoll_send_peer [of "?a\<lparr>n_sendbuf := d\<rparr>" "m_to m" fd S w1] pos assms(6,13-16) by simp
  have pushed: "send_push epoll_poller S ?a1 = Some (Done (?a1\<lparr>nd_kque := ?k, nd_pending := []\<rparr>))"
    using push send by (simp add: send_push_def epoll_poller_def)
  have written: "Epoll_handleWrite S (Suc k) (e_pollfd ?a) fd ?k =
      Done (?k\<lparr>e_world := w3, n_sendbuf := d\<lparr>d_len := 0\<rparr>\<rparr>)"
    using handleWrite_whole [of ?k x S fd w2 w3 k "e_pollfd ?a"] d assms(17,18) by simp
  have "length x \<le> length (takeWhile (\<lambda>ch. ch \<noteq> 0) (over x g))"
    using assms(9) unfolding over_def by (subst takeWhile_append2) auto
  then have "length x \<le> unat (d_size (n_recvbuf ?b))" using assms(24) by simp
  then obtain rb where read: "Epoll_handleRead T (Suc (Suc j)) g efd rfd ?b =
      Done (?b\<lparr>n_recvbuf := rb, e_readfd := e_readfd ?b @ [rfd], e_world := v2\<rparr>)"
    and rb: "data_ok rb" "contents rb = x"
    using read_loop_chunk [OF assms(19-22) _ assms(23,24)] received_whole [OF assms(9)]
    unfolding Epoll_handleRead_def by metis
  let ?kb = "?b\<lparr>n_recvbuf := rb, e_readfd := e_readfd ?b @ [rfd], e_world := v2\<rparr>"
  have "d_len rb \<noteq> 0" using rb(2) assms(8) by (auto simp: contents_def)
  moreover have "popData ?kb = Some (x, ?kb\<lparr>n_recvbuf := rb\<lparr>d_len := 0\<rparr>\<rparr>)"
    using popData_contents [of ?kb] rb by simp
  ultimately have "\<exists>b'. recv_task E (b\<lparr>nd_kque := ?kb\<rparr>) = Some (Done b') \<and> nd_raft b' = enq_recv m (nd_raft b)"
    using parse assms(8)
    by (simp add: recv_task_def take_received_def tryPushRecvbuf_enq)
  then obtain b' where "recv_task E (b\<lparr>nd_kque := ?kb\<rparr>) = Some (Done b')" "nd_raft b' = enq_recv m (nd_raft b)"
    by blast
  then show ?thesis using pop pushed written read
    by (intro exI [of _ ?a1] exI [of _ "?a1\<lparr>nd_kque := ?k, nd_pending := []\<rparr>"]
        exI [of _ "?k\<lparr>e_world := w3, n_sendbuf := d\<lparr>d_len := 0\<rparr>\<rparr>"] exI [of _ ?kb] exI [of _ b']) simp
qed

definition sample_heartbeat :: Message where
  "sample_heartbeat = new_Message\<lparr>m_type := MsgHeartbeat, m_to := 2, m_from := 1, m_term := 3\<rparr>"

lemma sample_heartbeat_bytes:
  "Message_Serialize varint_wire sample_heartbeat = [8, 1, 16, 2, 24, 1, 32, 3]"
  by code_simp

theorem message_crosses_network_witness:
  "\<exists>a1 a2 kb b'. send_pop varint_env ((sample_link ([], []))\<lparr>
      nd_raft := (raft_blank 1 10 150 sample_chance None)\<lparr>r_sendmsgs := [sample_heartbeat]\<rparr>,
      nd_kque := (sample_net ([], []))\<lparr>e_peersfd := [(2, 5)]\<rparr>\<rparr>) = Some a1 \<and>
    send_push epoll_poller (pipe_sys 1024) a1 = Some (Done a2) \<and>
    Epoll_handleRead (pipe_sys 1024) 2 (replicate 4096 0) 0 6
      (nd_kque (sample_link ([], [Message_Serialize varint_wire sample_heartbeat]))) = Done kb \<and>
    recv_task varint_env ((sample_link ([], []))\<lparr>nd_kque := kb\<rparr>) = Some (Done b') \<and>
    r_recvmsgs (nd_raft b') = [sample_heartbeat]"
proof -
  let ?x = "Message_Serialize varint_wire sample_heartbeat"
  let ?a = "(sample_link ([], []))\<lparr>nd_raft := (raft_blank 1 10 150 sample_chance None)\<lparr>r_sendmsgs := [sample_heartbeat]\<rparr>,
      nd_kque := (sample_net ([], []))\<lparr>e_peersfd := [(2, 5)]\<rparr>\<rparr>"
  let ?b = "sample_link ([], [?x])"
  have fits: "Message_fits varint_wire sample_heartbeat"
    by (simp add: Message_fits_def sample_heartbeat_bytes) code_simp
  have to: "m_to sample_heartbeat = 2" by (simp add: sample_heartbeat_def)
  have env: "E_codec varint_env = pb_codec varint_wire" by (simp add: varint_env_def)
  have "\<exists>a1 a2 ka kb b'. send_pop varint_env ?a = Some a1 \<and>
    send_push epoll_poller (pipe_sys 1024) a1 = Some (Done a2) \<and>
    Epoll_handleWrite (pipe_sys 1024) (Suc 0) (e_pollfd (nd_kque ?a)) 5 (nd_kque a2) = Done ka \<and>
    nd_pending a2 = [] \<and> d_len (n_sendbuf ka) = 0 \<and>
    Epoll_handleRead (pipe_sys 1024) (Suc (Suc 0)) (replicate 4096 0) 0 6 (nd_kque ?b) = Done kb \<and>
    recv_task varint_env (?b\<lparr>nd_kque := kb\<rparr>) = Some (Done b') \<and>
    nd_raft b' = enq_recv sample_heartbeat (nd_raft ?b)"
    by (rule message_crosses_network [OF varint.wire_runtime_axioms env _ _ fits _ refl, where ?v1.0 = "([], [])" and ?v2.0 = "([], [])"])
      (simp_all add: to sample_link_def sample_heartbeat_bytes pipe_sys_def data_ok_new over_def
        umap_has_def umap_get_def)
  then show ?thesis
    by (auto simp: numeral_2_eq_2 sample_link_def enq_recv_def raft_blank_def)
qed

end
