(* ===== verification/Thread_Pool.thy ===== *)
theory Thread_Pool
  imports Interfaces
begin

text \<open>
  \<^verbatim>\<open>sapphiredb/common/thread_pool.h\<close>: a queue of tasks, worker threads that take from it,
  and a flag that stops the pool. A worker is waiting on the condition, running a task, or
  has returned. The destructor sets the flag and joins the workers.
\<close>

datatype 'a worker = Waiting | Running 'a | Returned

record 'a pool =
  p_workers :: "'a worker list"
  p_tasks :: "'a list"
  p_stop :: bool

definition new_ThreadPool :: "nat \<Rightarrow> 'a pool" where
  "new_ThreadPool threads = \<lparr>p_workers = replicate threads Waiting, p_tasks = [], p_stop = False\<rparr>"

text \<open>\<open>None\<close> is the exception \<open>enqueue on stopped ThreadPool\<close>.\<close>

definition enqueue :: "'a \<Rightarrow> 'a pool \<Rightarrow> 'a pool option" where
  "enqueue task p = (if p_stop p then None else Some (p\<lparr>p_tasks := p_tasks p @ [task]\<rparr>))"

text \<open>
  A worker that is woken: it goes on waiting (\<open>None\<close>) until the pool is stopped or has a
  task, returns when it is stopped and empty, and takes the first task otherwise.
\<close>

definition worker_wakes :: "nat \<Rightarrow> 'a pool \<Rightarrow> 'a pool option" where
  "worker_wakes i p =
     (if i < length (p_workers p) \<and> p_workers p ! i = Waiting \<and> (p_stop p \<or> p_tasks p \<noteq> [])
      then if p_stop p \<and> p_tasks p = []
           then Some (p\<lparr>p_workers := (p_workers p)[i := Returned]\<rparr>)
           else Some (p\<lparr>p_workers := (p_workers p)[i := Running (hd (p_tasks p))],
                        p_tasks := tl (p_tasks p)\<rparr>)
      else None)"

definition worker_finishes :: "nat \<Rightarrow> 'a pool \<Rightarrow> 'a pool option" where
  "worker_finishes i p =
     (if i < length (p_workers p)
      then case p_workers p ! i of
             Running t \<Rightarrow> Some (p\<lparr>p_workers := (p_workers p)[i := Waiting]\<rparr>)
           | _ \<Rightarrow> None
      else None)"

definition pool_stop :: "'a pool \<Rightarrow> 'a pool" where
  "pool_stop p = p\<lparr>p_stop := True\<rparr>"

definition joined :: "'a pool \<Rightarrow> bool" where
  "joined p = list_all (\<lambda>w. w = Returned) (p_workers p)"

subsection \<open>The queue of tasks\<close>

definition push_task :: "'a \<Rightarrow> 'a pool \<Rightarrow> 'a pool" where
  "push_task t p = p\<lparr>p_tasks := p_tasks p @ [t]\<rparr>"

definition take_task :: "'a pool \<Rightarrow> ('a \<times> 'a pool) option" where
  "take_task p = (case p_tasks p of [] \<Rightarrow> None | t # ts \<Rightarrow> Some (t, p\<lparr>p_tasks := ts\<rparr>))"

interpretation taskq: fifo_queue push_task take_task p_tasks
  by unfold_locales (auto simp: push_task_def take_task_def split: list.splits)

subsection \<open>Runs\<close>

datatype 'a event = Enqueue 'a | Wake nat | Finish nat | Stop

text \<open>
  A history of calls and wake-ups, in any order; one that cannot happen then is skipped.
  The result is the tasks that were accepted, those that a worker started, both in order,
  and the final state.
\<close>

definition started_by :: "nat \<Rightarrow> 'a pool \<Rightarrow> 'a list" where
  "started_by i p =
     (case worker_wakes i p of
        Some q \<Rightarrow> (case p_workers q ! i of Running t \<Rightarrow> [t] | _ \<Rightarrow> [])
      | None \<Rightarrow> [])"

definition pool_step :: "'a event \<Rightarrow> 'a pool \<Rightarrow> 'a pool" where
  "pool_step e p =
     (case (case e of
              Enqueue t \<Rightarrow> enqueue t p
            | Wake i \<Rightarrow> worker_wakes i p
            | Finish i \<Rightarrow> worker_finishes i p
            | Stop \<Rightarrow> Some (pool_stop p)) of
        Some q \<Rightarrow> q | None \<Rightarrow> p)"

fun pool_run :: "'a event list \<Rightarrow> 'a pool \<Rightarrow> 'a list \<times> 'a list \<times> 'a pool" where
  "pool_run [] p = ([], [], p)"
| "pool_run (e # es) p =
     (let (acc, st, q) = pool_run es (pool_step e p);
          acc1 = (case e of Enqueue t \<Rightarrow> if p_stop p then [] else [t] | _ \<Rightarrow> []);
          st1 = (case e of Wake i \<Rightarrow> started_by i p | _ \<Rightarrow> [])
      in (acc1 @ acc, st1 @ st, q))"

lemma pool_run_fifo:
  "pool_run es p = (acc, st, q) \<Longrightarrow> p_tasks p @ acc = st @ p_tasks q"
proof (induction es arbitrary: p acc st q)
  case (Cons e es)
  obtain acc' st' where r: "pool_run es (pool_step e p) = (acc', st', q)"
    using Cons.prems by (auto split: prod.splits)
  have ih: "p_tasks (pool_step e p) @ acc' = st' @ p_tasks q" by (rule Cons.IH [OF r])
  show ?case
  proof (cases e)
    case (Enqueue t)
    then show ?thesis using Cons.prems r ih by (auto simp: pool_step_def enqueue_def)
  next
    case (Wake i)
    have "p_tasks p = started_by i p @ p_tasks (pool_step e p)"
      unfolding Wake by (auto simp: pool_step_def worker_wakes_def started_by_def)
    then show ?thesis using Cons.prems r ih Wake by auto
  next
    case (Finish i)
    have "p_tasks (pool_step e p) = p_tasks p"
      unfolding Finish by (auto simp: pool_step_def worker_finishes_def split: worker.split)
    then show ?thesis using Cons.prems r ih Finish by auto
  next
    case Stop
    then show ?thesis using Cons.prems r ih by (auto simp: pool_step_def pool_stop_def)
  qed
qed simp

text \<open>A worker returns only from a stopped, empty pool, and such a pool stays so.\<close>

definition pool_ok :: "'a pool \<Rightarrow> bool" where
  "pool_ok p = (Returned \<in> set (p_workers p) \<longrightarrow> p_stop p \<and> p_tasks p = [])"

lemma pool_ok_new: "pool_ok (new_ThreadPool n)"
  by (simp add: pool_ok_def new_ThreadPool_def)

lemma returned_update: "Returned \<in> set (ws[i := w]) \<Longrightarrow> Returned \<in> set ws \<or> w = Returned"
  using set_update_subset_insert [of ws i w] by auto

lemma pool_ok_step: "pool_ok p \<Longrightarrow> pool_ok (pool_step e p)"
  by (cases e) (auto simp: pool_ok_def pool_step_def enqueue_def worker_wakes_def
      worker_finishes_def pool_stop_def dest: returned_update split: worker.splits option.splits)

interpretation pool: invariant_system "\<lambda>p q. \<exists>e. q = pool_step e p" pool_ok
  by unfold_locales (auto intro: pool_ok_step)

lemma pool_ok_run: "pool_run es p = (acc, st, q) \<Longrightarrow> pool_ok p \<Longrightarrow> pool_ok q"
  by (induction es arbitrary: p acc st) (auto split: prod.splits intro: pool_ok_step)

lemma workers_step: "length (p_workers (pool_step e p)) = length (p_workers p)"
  by (cases e) (auto simp: pool_step_def enqueue_def worker_wakes_def worker_finishes_def
      pool_stop_def split: worker.splits)

lemma workers_run: "pool_run es p = (acc, st, q) \<Longrightarrow> length (p_workers q) = length (p_workers p)"
  by (induction es arbitrary: p acc st) (auto split: prod.splits simp: workers_step)

subsection \<open>Joining\<close>

text \<open>What a stopped pool has left to do: two steps per task, one or two per worker.\<close>

fun worker_work :: "'a worker \<Rightarrow> nat" where
  "worker_work Waiting = 1"
| "worker_work (Running t) = 2"
| "worker_work Returned = 0"

definition work_left :: "'a pool \<Rightarrow> nat" where
  "work_left p = 2 * length (p_tasks p) + sum_list (map worker_work (p_workers p))"

text \<open>One step of some worker.\<close>

definition worker_moves :: "'a pool \<Rightarrow> 'a pool \<Rightarrow> bool" where
  "worker_moves p q = (\<exists>i < length (p_workers p). worker_wakes i p = Some q \<or> worker_finishes i p = Some q)"

lemma work_update:
  "i < length ws \<Longrightarrow> sum_list (map worker_work (ws[i := w])) + worker_work (ws ! i) =
    sum_list (map worker_work ws) + worker_work w"
proof (induction ws arbitrary: i)
  case (Cons v ws)
  then show ?case by (cases i) auto
qed simp

lemma work_decreases:
  assumes "worker_moves p q"
  shows "work_left q < work_left p"
proof -
  obtain i where i: "i < length (p_workers p)"
    and c: "worker_wakes i p = Some q \<or> worker_finishes i p = Some q"
    using assms by (auto simp: worker_moves_def)
  note u = work_update [OF i]
  show ?thesis
    using c u [of Returned] u [of "Running (hd (p_tasks p))"] u [of Waiting]
    by (cases "p_tasks p")
      (auto simp: worker_wakes_def worker_finishes_def work_left_def split: if_splits worker.splits)
qed

lemma stopped_moves:
  assumes "p_stop p" and "\<not> joined p"
  shows "\<exists>q. worker_moves p q \<and> p_stop q"
proof -
  obtain i where i: "i < length (p_workers p)" "p_workers p ! i \<noteq> Returned"
    using assms(2) by (auto simp: joined_def list_all_length)
  show ?thesis
  proof (cases "p_workers p ! i")
    case Waiting
    then have "\<exists>q. worker_wakes i p = Some q \<and> p_stop q" using assms(1) i by (simp add: worker_wakes_def)
    then show ?thesis using i by (auto simp: worker_moves_def)
  next
    case (Running t)
    then have "\<exists>q. worker_finishes i p = Some q \<and> p_stop q" using assms(1) i by (simp add: worker_finishes_def)
    then show ?thesis using i by (auto simp: worker_moves_def)
  qed (use i in simp)
qed

lemma steps_bounded: "(worker_moves ^^ n) p q \<Longrightarrow> n + work_left q \<le> work_left p"
proof (induction n arbitrary: q)
  case (Suc n)
  then obtain r where "(worker_moves ^^ n) p r" "worker_moves r q" by auto
  then show ?case using Suc.IH [of r] work_decreases [of r q] by simp
qed simp

subsection \<open>Properties\<close>

text \<open>
  C21: Whatever the order of calls and wake-ups, the tasks the workers started are the
  accepted ones in the order they came, up to those still queued; no task is lost or
  started twice. When the destructor has joined the workers of a pool that has any,
  nothing is queued, so every accepted task was started.
\<close>

theorem tasks_run_in_order:
  assumes "pool_run es (new_ThreadPool n) = (accepted, started, p)"
  shows "accepted = started @ p_tasks p \<and> (joined p \<and> 0 < n \<longrightarrow> started = accepted)"
proof -
  have a: "accepted = started @ p_tasks p"
    using pool_run_fifo [OF assms] by (simp add: new_ThreadPool_def)
  have "p_tasks p = []" if "joined p" "0 < n"
  proof -
    have "length (p_workers p) = n" using workers_run [OF assms] by (simp add: new_ThreadPool_def)
    then have "Returned \<in> set (p_workers p)"
      using that by (cases "p_workers p") (auto simp: joined_def)
    then show ?thesis using pool_ok_run [OF assms pool_ok_new] by (simp add: pool_ok_def)
  qed
  with a show ?thesis by auto
qed

theorem tasks_run_in_order_witness:
  "\<exists>p. pool_run [Enqueue (1::nat), Enqueue 2, Wake 0, Stop, Enqueue 3, Finish 0, Wake 0, Finish 0, Wake 0]
      (new_ThreadPool 1) = ([1, 2], [1, 2], p) \<and> joined p"
proof -
  let ?es = "[Enqueue (1::nat), Enqueue 2, Wake 0, Stop, Enqueue 3, Finish 0, Wake 0, Finish 0, Wake 0]"
  obtain a s p where r: "pool_run ?es (new_ThreadPool 1) = (a, s, p)" by (metis prod_cases3)
  have "fst (pool_run ?es (new_ThreadPool 1)) = [1, 2]" by code_simp
  then have a: "a = [1, 2]" unfolding r by simp
  have "joined (snd (snd (pool_run ?es (new_ThreadPool 1))))" by code_simp
  then have j: "joined p" unfolding r by simp
  have "s = a" using tasks_run_in_order [OF r] j zero_less_one by blast
  then show ?thesis by (intro exI [of _ p]) (simp only: r a j simp_thms)
qed

text \<open>
  The destructor ends. After the stop flag is set, workers that have not returned can
  always make a step (none waits for a task that never comes), and every run of worker
  steps is at most as long as the work left: two steps per task, one or two per worker.
  This counts a task as a step, so it presumes that every task returns.
\<close>

theorem stopped_pool_joins:
  assumes "p_stop p"
  shows "\<exists>n q. (worker_moves ^^ n) p q \<and> n \<le> work_left p \<and> joined q \<and>
    (\<forall>m r. (worker_moves ^^ m) p r \<longrightarrow> m \<le> work_left p)"
proof -
  have "\<exists>n q. (worker_moves ^^ n) p q \<and> joined q"
    using assms
  proof (induction "work_left p" arbitrary: p rule: less_induct)
    case less
    show ?case
    proof (cases "joined p")
      case True
      then show ?thesis by (intro exI [of _ 0]) auto
    next
      case False
      then obtain r where r: "worker_moves p r" "p_stop r" using stopped_moves less.prems by blast
      then obtain n q where "(worker_moves ^^ n) r q" "joined q"
        using less.hyps [OF work_decreases [OF r(1)] r(2)] by blast
      then have "(worker_moves ^^ Suc n) p q" using r(1) by (metis relpowp_Suc_I2)
      then show ?thesis using \<open>joined q\<close> by blast
    qed
  qed
  then obtain n q where "(worker_moves ^^ n) p q" "joined q" by blast
  moreover have "m \<le> work_left p" if "(worker_moves ^^ m) p r" for m r
    using steps_bounded [OF that] by simp
  ultimately show ?thesis by blast
qed

theorem stopped_pool_joins_witness:
  "\<exists>n q. (worker_moves ^^ n) (pool_stop (new_ThreadPool 2 :: nat pool)) q \<and> n \<le> 2 \<and> joined q"
proof -
  have w: "work_left (pool_stop (new_ThreadPool 2 :: nat pool)) = 2" by code_simp
  have "p_stop (pool_stop (new_ThreadPool 2 :: nat pool))" by (simp add: pool_stop_def)
  from stopped_pool_joins [OF this] show ?thesis unfolding w by blast
qed

end
