(* ===== verification/Unique_Id.thy ===== *)
theory Unique_Id
  imports Prelude "HOL-Library.Signed_Division"
begin

unbundle bit_operations_syntax

text \<open>
  \<^verbatim>\<open>sapphiredb/common/uniqueid.h\<close> and \<^verbatim>\<open>uniqueid.cc\<close>: ids made of a time stamp, a machine
  number and a sequence number. The clock (milliseconds) and the draws of \<open>rand\<close> are
  arguments; \<open>rand\<close> draws the machine number below \<open>0x4ff\<close> and the sequence number
  below \<open>0xfff\<close>.
\<close>

definition getTimestamps :: "u64 \<Rightarrow> u64" where
  "getTimestamps ms = 0x7fffffffffc00000 AND push_bit 22 ms"

definition getUniqueid :: "u64 \<Rightarrow> u32 \<Rightarrow> i32 \<Rightarrow> u64" where
  "getUniqueid ms machineid seqid =
     getTimestamps ms OR u64_of_u32 (push_bit 12 machineid) OR u64_of_i32 seqid"

subsection \<open>Bits of an id\<close>

lemma bit_below:
  fixes w :: "'a::len word"
  assumes "unat w < 2 ^ k" and "bit w n"
  shows "n < k"
proof (rule ccontr)
  assume "\<not> n < k"
  then have "unat w < 2 ^ n" using assms(1) by (meson leI less_le_trans one_le_numeral power_increasing)
  moreover have "bit (unat w) n" using assms(2) by (simp add: bit_unsigned_iff)
  ultimately show False by (simp add: bit_iff_odd)
qed

lemma timestamp_mask: "(0x7fffffffffc00000 :: u64) = push_bit 22 (mask 41)"
  by code_simp

lemma bit_timestamp: "bit (getTimestamps ms) n \<longleftrightarrow> 22 \<le> n \<and> n < 63 \<and> bit ms (n - 22)"
  unfolding getTimestamps_def timestamp_mask
  by (auto simp: bit_and_iff bit_push_bit_iff bit_mask_iff)

lemma bit_machine:
  "bit (u64_of_u32 (push_bit 12 m)) n \<longleftrightarrow> 12 \<le> n \<and> n < 32 \<and> bit m (n - 12)"
  unfolding u64_of_u32_def by (auto simp: bit_push_bit_iff bit_ucast_iff)

lemma bit_seq:
  assumes "q < 4096"
  shows "bit (u64_of_i32 q) n \<longleftrightarrow> bit q n"
proof -
  have "\<not> bit q k" if "12 \<le> k" for k using bit_below [of q 12 k] assms that by (auto simp: word_less_nat_alt)
  then show ?thesis unfolding u64_of_i32_def
    by (auto simp: bit_signed_iff min_def dest: bit_imp_le_length)
qed

lemma bit_id:
  assumes "q < 4096"
  shows "bit (getUniqueid ms m q) n \<longleftrightarrow>
    22 \<le> n \<and> n < 63 \<and> bit ms (n - 22) \<or> 12 \<le> n \<and> n < 32 \<and> bit m (n - 12) \<or> bit q n"
  by (simp add: getUniqueid_def bit_or_iff bit_timestamp bit_machine bit_seq [OF assms])

subsection \<open>Properties\<close>

text \<open>
  The layout of an id. When the machine number fits its ten bits, an id determines
  what it was made of: the sequence number are the low twelve bits, the machine number the
  ten above them, and the rest the low 41 bits of the time. So ids that differ in one of
  them differ.
\<close>

theorem unique_id_layout:
  assumes "m < 1024" and "q < 4096"
  shows "getUniqueid ms m q AND 0xfff = ucast q \<and> drop_bit 12 (getUniqueid ms m q) AND 0x3ff = ucast m \<and>
    drop_bit 22 (getUniqueid ms m q) = take_bit 41 ms"
proof -
  have m: "bit m k \<Longrightarrow> k < 10" for k using bit_below [of m 10 k] assms(1) by (simp add: word_less_nat_alt)
  have q: "bit q k \<Longrightarrow> k < 12" for k using bit_below [of q 12 k] assms(2) by (simp add: word_less_nat_alt)
  have f: "(0xfff :: u64) = mask 12" "(0x3ff :: u64) = mask 10" by code_simp+
  have "getUniqueid ms m q AND mask 12 = ucast q"
    by (rule bit_eqI) (auto simp: bit_and_iff bit_mask_iff bit_id [OF assms(2)] bit_ucast_iff dest: q)
  moreover have "drop_bit 12 (getUniqueid ms m q) AND mask 10 = ucast m"
    by (rule bit_eqI)
      (auto simp: bit_and_iff bit_mask_iff bit_drop_bit_eq bit_id [OF assms(2)] bit_ucast_iff dest: q m)
  moreover have "drop_bit 22 (getUniqueid ms m q) = take_bit 41 ms"
    by (rule bit_eqI)
      (auto simp: bit_take_bit_iff bit_drop_bit_eq bit_id [OF assms(2)] dest: q m)
  ultimately show ?thesis unfolding f by blast
qed

theorem unique_id_layout_witness:
  "drop_bit 22 (getUniqueid 1700000000000 1023 7) = take_bit 41 (1700000000000 :: u64)"
  using unique_id_layout [of 1023 7 1700000000000] by simp

text \<open>
  The machine number is drawn below \<open>0x4ff\<close>, which needs an eleventh bit, and that bit
  is the lowest one of the time. A machine with a number of 1024 or more makes the same
  ids in two successive milliseconds.
\<close>

theorem machine_overlaps_time:
  assumes "1024 \<le> m" and "m < 0x4ff" and "q < 4096"
  shows "getUniqueid ms m q = getUniqueid (ms OR 1) m q"
proof -
  have "bit m 10"
  proof (rule ccontr)
    assume "\<not> bit m 10"
    have "bit m k \<Longrightarrow> k < 11" for k using bit_below [of m 11 k] assms(2) by (simp add: word_less_nat_alt)
    then have "k < 10" if "bit m k" for k using that \<open>\<not> bit m 10\<close> by (cases "k = 10") fastforce+
    then have "take_bit 10 m = m" by (intro bit_eqI) (auto simp: bit_take_bit_iff)
    then have "unat m = take_bit 10 (unat m)" by (metis unsigned_take_bit_eq)
    moreover have "take_bit 10 (unat m) < 2 ^ 10" by (rule take_bit_nat_less_exp)
    ultimately have "m < 1024" by (simp add: word_less_nat_alt)
    with assms(1) show False by simp
  qed
  then show ?thesis
    by (intro bit_eqI) (auto simp: bit_id [OF assms(3)] bit_or_iff bit_1_iff)
qed

theorem machine_overlaps_time_witness:
  "getUniqueid 1700000000000 1024 7 = getUniqueid 1700000000001 1024 7"
  using machine_overlaps_time [of 1024 7 1700000000000] by simp

subsection \<open>The generator\<close>

text \<open>
  \<open>rand\<close> has a static engine and a static distribution, which its first call makes: the
  arguments of every later call are ignored. \<open>mk\<close> is the engine of a seed and \<open>draw a b\<close> takes a
  number from the distribution on \<open>[a, b)\<close>, cut to an integer, and moves the engine on.
\<close>

record 'e rand_static =
  rs_engine :: 'e
  rs_min :: u32
  rs_max :: u32

definition Uniqueid_rand :: "(u32 \<Rightarrow> 'e) \<Rightarrow> (u32 \<Rightarrow> u32 \<Rightarrow> 'e \<Rightarrow> u32 \<times> 'e) \<Rightarrow> u32 \<Rightarrow> u32 \<Rightarrow> u32 \<Rightarrow>
    'e rand_static option \<Rightarrow> u32 \<times> 'e rand_static option" where
  "Uniqueid_rand mk draw a b seed st =
     (let u = (case st of Some u \<Rightarrow> u | None \<Rightarrow> \<lparr>rs_engine = mk seed, rs_min = a, rs_max = b\<rparr>);
          (v, e) = draw (rs_min u) (rs_max u) (rs_engine u)
      in (v, Some (u\<lparr>rs_engine := e\<rparr>)))"

record 'e uniqueid =
  ud_static :: "'e rand_static option"
  ud_machineid :: u32

text \<open>The machine number is drawn when the program starts, before any id is made.\<close>

definition new_uniqueid :: "(u32 \<Rightarrow> 'e) \<Rightarrow> (u32 \<Rightarrow> u32 \<Rightarrow> 'e \<Rightarrow> u32 \<times> 'e) \<Rightarrow> u32 \<Rightarrow> 'e uniqueid" where
  "new_uniqueid mk draw time =
     (let (v, st) = Uniqueid_rand mk draw 0 0x4ff time None in \<lparr>ud_static = st, ud_machineid = v\<rparr>)"

text \<open>\<open>ns\<close> is the system clock in nanoseconds since the epoch, \<open>time\<close> the same in seconds.\<close>

definition millis_of :: "int \<Rightarrow> u64" where
  "millis_of ns = word_of_int (ns sdiv 1000000)"

definition next_id :: "(u32 \<Rightarrow> 'e) \<Rightarrow> (u32 \<Rightarrow> u32 \<Rightarrow> 'e \<Rightarrow> u32 \<times> 'e) \<Rightarrow> int \<Rightarrow> u32 \<Rightarrow> 'e uniqueid \<Rightarrow>
    u64 \<times> 'e uniqueid" where
  "next_id mk draw ns time g =
     (let (v, st) = Uniqueid_rand mk draw 0 0xfff time (ud_static g)
      in (getUniqueid (millis_of ns) (ud_machineid g) v, g\<lparr>ud_static := st\<rparr>))"

fun ids :: "(u32 \<Rightarrow> 'e) \<Rightarrow> (u32 \<Rightarrow> u32 \<Rightarrow> 'e \<Rightarrow> u32 \<times> 'e) \<Rightarrow> (int \<times> u32) list \<Rightarrow> 'e uniqueid \<Rightarrow> u64 list" where
  "ids mk draw [] g = []"
| "ids mk draw ((ns, time) # ts) g = (let (i, g) = next_id mk draw ns time g in i # ids mk draw ts g)"

text \<open>What the library promises of a distribution.\<close>

definition draws_inside :: "(u32 \<Rightarrow> u32 \<Rightarrow> 'e \<Rightarrow> u32 \<times> 'e) \<Rightarrow> bool" where
  "draws_inside draw = (\<forall>a b e. a < b \<longrightarrow> a \<le> fst (draw a b e) \<and> fst (draw a b e) < b)"

definition generator_ok :: "'e uniqueid \<Rightarrow> bool" where
  "generator_ok g = (ud_machineid g < 0x4ff \<and>
     (case ud_static g of Some u \<Rightarrow> rs_min u = 0 \<and> rs_max u = 0x4ff | None \<Rightarrow> False))"

lemma drawn_below:
  assumes "draws_inside draw" and "draw 0 0x4ff e = (v, e')"
  shows "v < 0x4ff"
proof -
  have "(0 :: u32) < 0x4ff" by simp
  then have "fst (draw 0 0x4ff e) < 0x4ff" using assms(1) unfolding draws_inside_def by blast
  then show ?thesis by (simp add: assms(2))
qed

lemma new_uniqueid_ok: "draws_inside draw \<Longrightarrow> generator_ok (new_uniqueid mk draw time)"
  by (auto simp: generator_ok_def new_uniqueid_def Uniqueid_rand_def Let_def dest: drawn_below split: prod.splits)

lemma next_id_ok:
  assumes "draws_inside draw" and "generator_ok g" and "next_id mk draw ns time g = (i, g')"
  shows "generator_ok g' \<and> ud_machineid g' = ud_machineid g \<and>
    (\<exists>v < 0x4ff. i = getUniqueid (millis_of ns) (ud_machineid g) v)"
  using assms
  by (auto simp: next_id_def Uniqueid_rand_def generator_ok_def Let_def dest: drawn_below split: prod.splits option.splits)

lemma ids_of_one_millisecond:
  assumes "draws_inside draw" and "generator_ok g" and "\<forall>(ns, time)\<in>set ts. millis_of ns = ms"
  shows "set (ids mk draw ts g) \<subseteq> (\<lambda>v. getUniqueid ms (ud_machineid g) v) ` {v :: u32. v < 0x4ff}"
  using assms(2,3)
proof (induction ts arbitrary: g)
  case (Cons t ts)
  obtain ns time where t: "t = (ns, time)" by fastforce
  obtain i g' where n: "next_id mk draw ns time g = (i, g')" by fastforce
  from next_id_ok [OF assms(1) Cons.prems(1) n] Cons.IH [of g'] Cons.prems(2) show ?case
    by (auto simp: t n)
qed simp

lemma length_ids [simp]: "length (ids mk draw ts g) = length ts"
  by (induction ts arbitrary: g) (auto split: prod.splits)

lemma card_draws: "finite {v :: u32. v < 0x4ff} \<and> card {v :: u32. v < 0x4ff} \<le> 0x4ff"
proof -
  have "{v :: u32. v < 0x4ff} \<subseteq> word_of_nat ` {..<0x4ff}"
  proof
    fix v :: u32 assume "v \<in> {v. v < 0x4ff}"
    then have "v = word_of_nat (unat v)" "unat v < 0x4ff" by (simp_all add: word_less_nat_alt)
    then show "v \<in> word_of_nat ` {..<0x4ff}" by blast
  qed
  then have "card {v :: u32. v < 0x4ff} \<le> card (word_of_nat ` {..<0x4ff} :: u32 set)"
    by (intro card_mono) simp_all
  also have "\<dots> \<le> card {..<0x4ff :: nat}" by (intro card_image_le) simp
  finally show ?thesis by simp
qed

text \<open>
  The distribution is static, and the machine number takes its first value: the sequence numbers
  come from \<open>[0, 0x4ff)\<close>, not from \<open>[0, 0xfff)\<close> as the call says. So whatever the library draws,
  1280 ids made in one millisecond are never all different.
\<close>

theorem ids_collide:
  assumes "draws_inside draw" and "\<forall>(ns, time)\<in>set ts. millis_of ns = ms" and "0x4ff < length ts"
  shows "\<not> distinct (ids mk draw ts (new_uniqueid mk draw t0))"
proof
  let ?is = "ids mk draw ts (new_uniqueid mk draw t0)" and ?D = "{v :: u32. v < 0x4ff}"
  assume "distinct ?is"
  then have "length ts = card (set ?is)" by (simp add: distinct_card)
  also have "\<dots> \<le> card ((\<lambda>v. getUniqueid ms (ud_machineid (new_uniqueid mk draw t0)) v) ` ?D)"
    using ids_of_one_millisecond [OF assms(1) new_uniqueid_ok [OF assms(1)] assms(2)] card_draws
    by (intro card_mono) auto
  also have "\<dots> \<le> card ?D" using card_draws by (intro card_image_le) simp
  finally show False using card_draws assms(3) by simp
qed

subsection \<open>The timer\<close>

text \<open>\<^verbatim>\<open>common/timer.cc\<close>: the only function of the class \<open>Timer\<close> reads the system clock.\<close>

definition CurrentTimeMillis :: "int \<Rightarrow> 64 word" where
  "CurrentTimeMillis ns = word_of_int (ns sdiv 1000000)"

end
