(* ===== verification/Fmt_Int.thy ===== *)
theory Fmt_Int
  imports Prelude
begin

unbundle bit_operations_syntax

text \<open>
  Integers as text, from \<^verbatim>\<open>spdlog/fmt/bundled/format.h\<close> and \<^verbatim>\<open>format.cc\<close>: the digit
  tables, counting digits, writing them backwards into a buffer, and the layout of a
  formatted integer. A buffer holds \<open>None\<close> where nothing was written yet; a write outside
  it has no defined meaning and is \<open>None\<close>. Unsigned values are natural numbers: nothing
  here overflows, since values only shrink.
\<close>

subsection \<open>The buffer\<close>

type_synonym buffer = "char option list"

definition blit :: "nat \<Rightarrow> string \<Rightarrow> buffer \<Rightarrow> buffer option" where
  "blit i s b =
     (if i + length s \<le> length b then Some (take i b @ map Some s @ drop (i + length s) b) else None)"

definition grow_buffer :: "nat \<Rightarrow> buffer \<Rightarrow> buffer" where
  "grow_buffer n b = b @ replicate n None"

text \<open>\<open>*--p = ch\<close>\<close>

definition put_back :: "char \<Rightarrow> nat \<times> buffer \<Rightarrow> (nat \<times> buffer) option" where
  "put_back ch pb = (case pb of (p, b) \<Rightarrow>
     if 0 < p then do { b \<leftarrow> blit (p - 1) [ch] b; Some (p - 1, b) } else None)"

subsection \<open>Digits\<close>

definition DIGITS :: string where
  "DIGITS = ''0001020304050607080910111213141516171819'' @
    ''2021222324252627282930313233343536373839'' @
    ''4041424344454647484950515253545556575859'' @
    ''6061626364656667686970717273747576777879'' @
    ''8081828384858687888990919293949596979899''"

definition POWERS_OF_10_32 :: "nat list" where
  "POWERS_OF_10_32 = 0 # map (\<lambda>k. 10 ^ k) [1 ..< 10]"

definition POWERS_OF_10_64 :: "nat list" where
  "POWERS_OF_10_64 = 0 # map (\<lambda>k. 10 ^ k) [1 ..< 10] @ map (\<lambda>k. 1000000000 * 10 ^ k) [1 ..< 10] @
     [1000000000 * 1000000000 * 10]"

definition digit_char :: "nat \<Rightarrow> char" where
  "digit_char d = char_of (48 + d)"

text \<open>The loop over four digits a turn.\<close>

fun count_digits_from :: "nat \<Rightarrow> nat \<Rightarrow> nat" where
  "count_digits_from count n =
     (if n < 10 then count
      else if n < 100 then count + 1
      else if n < 1000 then count + 2
      else if n < 10000 then count + 3
      else count_digits_from (count + 4) (n div 10000))"

declare count_digits_from.simps [simp del]

definition count_digits :: "nat \<Rightarrow> nat" where
  "count_digits n = count_digits_from 1 n"

text \<open>
  The versions for compilers with \<open>__builtin_clz\<close>: \<open>bit_len\<close> is the word size less the
  number of leading zeros.
\<close>

fun bit_len :: "nat \<Rightarrow> nat" where
  "bit_len n = (if n = 0 then 0 else Suc (bit_len (n div 2)))"

declare bit_len.simps [simp del]

definition count_digits_clz64 :: "nat \<Rightarrow> nat" where
  "count_digits_clz64 n =
     (let t = bit_len (n OR 1) * 1233 div 2 ^ 12
      in t - (if n < POWERS_OF_10_64 ! t then 1 else 0) + 1)"

definition count_digits_clz32 :: "nat \<Rightarrow> nat" where
  "count_digits_clz32 n =
     (let t = bit_len (n OR 1) * 1233 div 2 ^ 12
      in t - (if n < POWERS_OF_10_32 ! t then 1 else 0) + 1)"

text \<open>
  \<open>ThousandsSep\<close>: the number of digits written so far, and the separator put after every
  third; \<open>NoThousandsSep\<close> is the empty separator.
\<close>

definition thousands_sep :: "string \<Rightarrow> nat \<times> nat \<times> buffer \<Rightarrow> (nat \<times> nat \<times> buffer) option" where
  "thousands_sep sep x = (case x of (idx, p, b) \<Rightarrow>
     if Suc idx mod 3 \<noteq> 0 then Some (Suc idx, p, b)
     else if length sep \<le> p then do { b \<leftarrow> blit (p - length sep) sep b; Some (Suc idx, p - length sep, b) }
     else None)"

definition put_digit :: "string \<Rightarrow> char \<Rightarrow> nat \<times> nat \<times> buffer \<Rightarrow> (nat \<times> nat \<times> buffer) option" where
  "put_digit sep ch x = (case x of (idx, pb) \<Rightarrow>
     do { pb \<leftarrow> put_back ch pb; thousands_sep sep (idx, pb) })"

text \<open>
  \<open>format_decimal\<close>: digits go in front of the position \<open>p\<close>, two a turn. After the last
  digit no separator follows.
\<close>

fun format_decimal :: "string \<Rightarrow> nat \<Rightarrow> nat \<times> nat \<times> buffer \<Rightarrow> buffer option" where
  "format_decimal sep value x =
     (if value \<ge> 100
      then let index = value mod 100 * 2
           in do {
             x \<leftarrow> put_digit sep (DIGITS ! (index + 1)) x;
             x \<leftarrow> put_digit sep (DIGITS ! index) x;
             format_decimal sep (value div 100) x }
      else if value < 10
      then do { (p, b) \<leftarrow> put_back (digit_char value) (snd x); Some b }
      else let index = value * 2
           in do {
             x \<leftarrow> put_digit sep (DIGITS ! (index + 1)) x;
             (p, b) \<leftarrow> put_back (DIGITS ! index) (snd x);
             Some b })"

declare format_decimal.simps [simp del]

subsection \<open>Format specifiers\<close>

datatype Alignment = ALIGN_DEFAULT | ALIGN_LEFT | ALIGN_RIGHT | ALIGN_CENTER | ALIGN_NUMERIC

record FormatSpec =
  fs_width :: nat
  fs_fill :: char
  fs_align :: Alignment
  fs_flags :: nat
  fs_precision :: int
  fs_type :: "char option"

definition SIGN_FLAG :: nat where "SIGN_FLAG = 1"
definition PLUS_FLAG :: nat where "PLUS_FLAG = 2"
definition HASH_FLAG :: nat where "HASH_FLAG = 8"

definition spec_flag :: "FormatSpec \<Rightarrow> nat \<Rightarrow> bool" where
  "spec_flag spec f = (fs_flags spec AND f \<noteq> 0)"

text \<open>\<open>AlignTypeSpec\<close>, which \<open>pad\<close> makes, and \<open>EmptySpec\<close>.\<close>

definition pad_spec :: "nat \<Rightarrow> char \<Rightarrow> FormatSpec" where
  "pad_spec width fill = \<lparr>fs_width = width, fs_fill = fill, fs_align = ALIGN_DEFAULT, fs_flags = 0,
     fs_precision = - 1, fs_type = None\<rparr>"

definition empty_spec :: FormatSpec where
  "empty_spec = pad_spec 0 CHR '' ''"

subsection \<open>Layout\<close>

text \<open>\<open>fill_padding\<close> answers where the content starts.\<close>

definition fill_padding :: "nat \<Rightarrow> nat \<Rightarrow> nat \<Rightarrow> char \<Rightarrow> buffer \<Rightarrow> (nat \<times> buffer) option" where
  "fill_padding p total_size content_size fill b =
     (let padding = total_size - content_size;
          left_padding = padding div 2
      in do {
        b \<leftarrow> blit p (replicate left_padding fill) b;
        b \<leftarrow> blit (p + left_padding + content_size) (replicate (padding - left_padding) fill) b;
        Some (p + left_padding, b) })"

text \<open>
  \<open>prepare_int_buffer\<close> when the precision does not ask for more digits, and in general.
  The result is one less than the position behind the number, and the buffer.
\<close>

definition prepare_aligned :: "nat \<Rightarrow> nat \<Rightarrow> char \<Rightarrow> Alignment \<Rightarrow> string \<Rightarrow> buffer \<Rightarrow>
    (nat \<times> buffer) option" where
  "prepare_aligned num_digits width fill align prefix b =
     (let size = length prefix + num_digits; p = length b
      in if width \<le> size
         then do { b \<leftarrow> blit p prefix (grow_buffer size b); Some (p + size - 1, b) }
         else
           let b = grow_buffer width b; end = p + width
           in case align of
                ALIGN_LEFT \<Rightarrow> do {
                  b \<leftarrow> blit p prefix b;
                  b \<leftarrow> blit (p + size) (replicate (end - (p + size)) fill) b;
                  Some (p + size - 1, b) }
              | ALIGN_CENTER \<Rightarrow> do {
                  (p, b) \<leftarrow> fill_padding p width size fill b;
                  b \<leftarrow> blit p prefix b;
                  Some (p + size - 1, b) }
              | ALIGN_NUMERIC \<Rightarrow> do {
                  b \<leftarrow> blit p prefix b;
                  b \<leftarrow> blit (p + length prefix) (replicate (end - num_digits - (p + length prefix)) fill) b;
                  Some (end - 1, b) }
              | _ \<Rightarrow> do {
                  b \<leftarrow> blit (end - size) prefix b;
                  b \<leftarrow> blit p (replicate (end - size - p) fill) b;
                  Some (end - 1, b) })"

definition prepare_int_buffer :: "nat \<Rightarrow> FormatSpec \<Rightarrow> string \<Rightarrow> buffer \<Rightarrow> (nat \<times> buffer) option" where
  "prepare_int_buffer num_digits spec prefix b =
     (if fs_precision spec > int num_digits
      then let prefix = (if prefix \<noteq> [] \<and> last prefix = CHR ''0'' then butlast prefix else prefix);
               number_size = length prefix + nat (fs_precision spec)
           in if number_size \<ge> fs_width spec
              then prepare_aligned num_digits number_size CHR ''0'' ALIGN_NUMERIC prefix b
              else
                let fill = replicate (fs_width spec - number_size) (fs_fill spec)
                in do {
                  b \<leftarrow> (if fs_align spec \<noteq> ALIGN_LEFT
                       then blit (length b) fill (grow_buffer (length fill) b) else Some b);
                  (p, b) \<leftarrow> prepare_aligned num_digits number_size CHR ''0'' ALIGN_NUMERIC prefix b;
                  b \<leftarrow> (if fs_align spec = ALIGN_LEFT
                       then blit (length b) fill (grow_buffer (length fill) b) else Some b);
                  Some (p, b) }
      else prepare_aligned num_digits (fs_width spec) (fs_fill spec) (fs_align spec) prefix b)"

text \<open>The number of digits in a base that is a power of two, and the loop that writes them.\<close>

lemma shift_shrinks [termination_simp]: "0 < k \<Longrightarrow> 0 < n div 2 ^ k \<Longrightarrow> n div 2 ^ k < (n::nat)"
  using one_less_power [of "2::nat" k] by (intro div_less_dividend) (auto intro: Nat.gr0I)

fun count_shifts :: "nat \<Rightarrow> nat \<Rightarrow> nat" where
  "count_shifts k n = (if 0 < k \<and> 0 < n div 2 ^ k then Suc (count_shifts k (n div 2 ^ k)) else 1)"

declare count_shifts.simps [simp del]

fun write_shifts :: "nat \<Rightarrow> string \<Rightarrow> nat \<Rightarrow> nat \<times> buffer \<Rightarrow> buffer option" where
  "write_shifts k digits n pb =
     (case put_back (digits ! (n mod 2 ^ k)) pb of
        None \<Rightarrow> None
      | Some (p, b) \<Rightarrow>
          if 0 < k \<and> 0 < n div 2 ^ k then write_shifts k digits (n div 2 ^ k) (p, b) else Some b)"

declare write_shifts.simps [simp del]

subsection \<open>Writing an integer\<close>

text \<open>Sign and absolute value; \<open>0 - v\<close> is taken in the unsigned type.\<close>

definition signed_parts :: "'a::len word \<Rightarrow> bool \<times> nat" where
  "signed_parts v = (sint v < 0, unat (if sint v < 0 then 0 - v else v))"

definition unsigned_parts :: "'a::len word \<Rightarrow> bool \<times> nat" where
  "unsigned_parts v = (False, unat v)"

text \<open>
  \<open>Format_Error\<close> is the exception of \<open>report_unknown_type\<close>, \<open>Overrun\<close> a write outside the
  buffer; \<open>sep\<close> is the separator of the locale.
\<close>

datatype fmt_result = Wrote buffer | Format_Error | Overrun

definition wrote :: "buffer option \<Rightarrow> fmt_result" where
  "wrote x = (case x of Some b \<Rightarrow> Wrote b | None \<Rightarrow> Overrun)"

definition int_prefix :: "FormatSpec \<Rightarrow> bool \<Rightarrow> string" where
  "int_prefix spec neg =
     (if neg then ''-''
      else if spec_flag spec SIGN_FLAG then (if spec_flag spec PLUS_FLAG then ''+'' else '' '')
      else '''')"

definition write_base :: "nat \<Rightarrow> string \<Rightarrow> FormatSpec \<Rightarrow> string \<Rightarrow> nat \<Rightarrow> buffer \<Rightarrow> buffer option" where
  "write_base k digits spec prefix n b = do {
     (p, b) \<leftarrow> prepare_int_buffer (count_shifts k n) spec prefix b;
     write_shifts k digits n (p + 1, b) }"

definition write_int :: "string \<Rightarrow> bool \<times> nat \<Rightarrow> FormatSpec \<Rightarrow> buffer \<Rightarrow> fmt_result" where
  "write_int sep v spec b =
     (case v of (neg, abs_value) \<Rightarrow>
        let prefix = int_prefix spec neg;
            hash = spec_flag spec HASH_FLAG;
            type = (case fs_type spec of None \<Rightarrow> CHR ''d'' | Some t \<Rightarrow> t)
        in if type = CHR ''d''
           then wrote (do {
             (p, b) \<leftarrow> prepare_int_buffer (count_digits abs_value) spec prefix b;
             format_decimal '''' abs_value (0, p + 1, b) })
           else if type = CHR ''x'' \<or> type = CHR ''X''
           then wrote (write_base 4 (if type = CHR ''x'' then ''0123456789abcdef'' else ''0123456789ABCDEF'')
             spec (if hash then prefix @ [CHR ''0'', type] else prefix) abs_value b)
           else if type = CHR ''b'' \<or> type = CHR ''B''
           then wrote (write_base 1 ''01'' spec (if hash then prefix @ [CHR ''0'', type] else prefix) abs_value b)
           else if type = CHR ''o''
           then wrote (write_base 3 ''01234567'' spec (if hash then prefix @ ''0'' else prefix) abs_value b)
           else if type = CHR ''n''
           then let nd = count_digits abs_value;
                    size = nd + length sep * ((nd - 1) div 3)
                in wrote (do {
                  (p, b) \<leftarrow> prepare_int_buffer size spec prefix b;
                  format_decimal sep abs_value (0, p + 1, b) })
           else Format_Error)"

text \<open>\<open>operator<<\<close> on integers: \<open>write_decimal\<close>.\<close>

definition write_unsigned_decimal :: "nat \<Rightarrow> nat \<Rightarrow> buffer \<Rightarrow> buffer option" where
  "write_unsigned_decimal value prefix_size b =
     (let num_digits = count_digits value; ptr = length b
      in format_decimal '''' value (0, ptr + prefix_size + num_digits, grow_buffer (prefix_size + num_digits) b))"

definition write_decimal :: "bool \<times> nat \<Rightarrow> buffer \<Rightarrow> buffer option" where
  "write_decimal v b =
     (case v of (neg, abs_value) \<Rightarrow>
        if neg then do { b' \<leftarrow> write_unsigned_decimal abs_value 1 b; blit (length b) ''-'' b' }
        else write_unsigned_decimal abs_value 0 b)"

text \<open>\<open>FormatInt\<close>: a buffer of 22 characters filled from its end; the text from its start.\<close>

definition FormatInt :: "bool \<times> nat \<Rightarrow> buffer option" where
  "FormatInt v =
     (case v of (neg, abs_value) \<Rightarrow> do {
        b \<leftarrow> format_decimal '''' abs_value (0, 21, replicate 21 None);
        let text = dropWhile (\<lambda>x. x = None) b;
        if neg then do { (p, b) \<leftarrow> put_back CHR ''-'' (21 - length text, b); Some (drop p b) }
        else Some text })"

end
