(* ===== verification/Fmt_Int_Properties.thy ===== *)
theory Fmt_Int_Properties
  imports Fmt_Int
begin

text \<open>
  The integer formatter against the schoolbook definition: \<open>decimal\<close> prints a number digit
  by digit, \<open>read_decimal\<close> reads it back.
\<close>

subsection \<open>Reference definitions\<close>

fun decimal :: "nat \<Rightarrow> string" where
  "decimal n = (if n < 10 then [digit_char n] else decimal (n div 10) @ [digit_char (n mod 10)])"

declare decimal.simps [simp del]

definition digit_val :: "char \<Rightarrow> nat" where
  "digit_val ch = of_char ch - 48"

definition read_decimal :: "string \<Rightarrow> nat" where
  "read_decimal s = foldl (\<lambda>v ch. 10 * v + digit_val ch) 0 s"

lemma digit_val_char [simp]: "d < 10 \<Longrightarrow> digit_val (digit_char d) = d"
  by (simp add: digit_val_def digit_char_def)

lemma read_decimal_decimal: "read_decimal (decimal n) = n"
proof (induction n rule: decimal.induct)
  case (1 n)
  then show ?case by (simp add: decimal.simps [of n] read_decimal_def)
qed

lemma decimal_nonempty [simp]: "decimal n \<noteq> []"
  by (subst decimal.simps) simp

lemma decimal_two: "10 \<le> n \<Longrightarrow> n < 100 \<Longrightarrow> decimal n = [digit_char (n div 10), digit_char (n mod 10)]"
  by (simp add: decimal.simps [of n] decimal.simps [of "n div 10"])

lemma decimal_hundreds:
  "100 \<le> n \<Longrightarrow> decimal n = decimal (n div 100) @ [digit_char (n div 10 mod 10), digit_char (n mod 10)]"
  by (simp add: decimal.simps [of n] decimal.simps [of "n div 10"] flip: div_mult2_eq)

subsection \<open>Counting digits\<close>

lemma length_decimal: "length (decimal n) = (if n < 10 then 1 else Suc (length (decimal (n div 10))))"
  by (subst decimal.simps) simp

lemma length_decimal_bounds:
  "n < 10 ^ length (decimal n) \<and> (0 < n \<longrightarrow> 10 ^ (length (decimal n) - 1) \<le> n)"
proof (induction n rule: decimal.induct)
  case (1 n)
  show ?case
  proof (cases "n < 10")
    case False
    let ?k = "length (decimal (n div 10))"
    have "n div 10 < 10 ^ ?k" "10 ^ (?k - 1) \<le> n div 10" using 1 False by auto
    moreover have "0 < ?k" by simp
    then have "10 ^ ?k = 10 * (10::nat) ^ (?k - 1)" by (simp flip: power_Suc)
    ultimately have "n < 10 * 10 ^ ?k" "10 ^ ?k \<le> n" by linarith+
    then show ?thesis using False by (simp add: length_decimal [of n])
  qed (simp add: length_decimal)
qed

lemma length_decimal_eq:
  assumes "10 ^ k \<le> n" and "n < 10 ^ Suc k"
  shows "length (decimal n) = Suc k"
proof -
  let ?d = "length (decimal n)"
  have "0 < n" using assms(1) by (auto intro: Nat.gr0I)
  then have b: "n < 10 ^ ?d" "10 ^ (?d - 1) \<le> n" using length_decimal_bounds [of n] by auto
  have "(10::nat) ^ k < 10 ^ ?d" by (rule le_less_trans [OF assms(1) b(1)])
  then have "k < ?d" by (rule power_less_imp_less_exp [rotated]) simp
  moreover have "(10::nat) ^ (?d - 1) < 10 ^ Suc k" by (rule le_less_trans [OF b(2) assms(2)])
  then have "?d - 1 < Suc k" by (rule power_less_imp_less_exp [rotated]) simp
  ultimately show ?thesis by simp
qed

lemma count_digits_from_decimal: "count_digits_from c n + 1 = c + length (decimal n)"
proof (induction c n rule: count_digits_from.induct)
  case (1 c n)
  consider "n < 10" | "10 \<le> n" "n < 100" | "100 \<le> n" "n < 1000" | "1000 \<le> n" "n < 10000" | "10000 \<le> n"
    by linarith
  then show ?case
  proof cases
    case 5
    then have "\<not> n < 10" "\<not> n div 10 < 10" "\<not> n div 100 < 10" "\<not> n div 1000 < 10" by linarith+
    then have "length (decimal n) = 4 + length (decimal (n div 10000))"
      by (simp add: length_decimal [of n] length_decimal [of "n div 10"] length_decimal [of "n div 100"]
          length_decimal [of "n div 1000"] flip: div_mult2_eq)
    then show ?thesis using 5 1 by (simp add: count_digits_from.simps [of c n])
  qed (use length_decimal_eq [of 0 n] length_decimal_eq [of 1 n] length_decimal_eq [of 2 n]
      length_decimal_eq [of 3 n] length_decimal [of n] in \<open>simp_all add: count_digits_from.simps [of c n]\<close>)
qed

lemma count_digits_decimal: "count_digits n = length (decimal n)"
  using count_digits_from_decimal [of 1 n] by (simp add: count_digits_def)

text \<open>The bit trick: \<open>1233 / 4096\<close> approximates the logarithm well enough up to 64 bits.\<close>

lemma bit_len_bounds: "0 < n \<Longrightarrow> n < 2 ^ bit_len n \<and> 2 ^ (bit_len n - 1) \<le> n"
proof (induction n rule: bit_len.induct)
  case (1 n)
  show ?case
  proof (cases "n = 1")
    case True
    then show ?thesis by (simp add: bit_len.simps)
  next
    case False
    let ?k = "bit_len (n div 2)"
    have "n div 2 < 2 ^ ?k" "2 ^ (?k - 1) \<le> n div 2" using 1 False by auto
    moreover have "0 < ?k" using 1(2) False by (simp add: bit_len.simps [of "n div 2"])
    then have "(2::nat) ^ ?k = 2 * 2 ^ (?k - 1)" by (simp flip: power_Suc)
    ultimately have "n < 2 * 2 ^ ?k" "2 ^ ?k \<le> n" by linarith+
    then show ?thesis using 1(2) by (simp add: bit_len.simps [of n])
  qed
qed

lemma or_one_half: "(n OR 1) div 2 = n div (2::nat)"
proof -
  have "(n OR 1) div 2 = drop_bit 1 (n OR 1)" by (simp add: drop_bit_eq_div)
  also have "\<dots> = drop_bit 1 n" by (simp only: drop_bit_or) (simp add: drop_bit_eq_div)
  finally show ?thesis by (simp add: drop_bit_eq_div)
qed


lemma bit_len_or_one: "bit_len (n OR 1) = (if n = 0 then 1 else bit_len n)"
proof -
  have "n OR 1 \<noteq> 0" by (simp add: or_eq_0_iff)
  then have "bit_len (n OR 1) = Suc (bit_len (n div 2))"
    by (subst bit_len.simps) (simp add: or_one_half [unfolded One_nat_def])
  then show ?thesis by (simp add: bit_len.simps [of n] bit_len.simps [of 0])
qed

lemma POWERS_OF_10_lists:
  "POWERS_OF_10_32 = [0, 10, 100, 1000, 10000, 100000, 1000000, 10000000, 100000000, 1000000000]"
  "POWERS_OF_10_64 = [0, 10, 100, 1000, 10000, 100000, 1000000, 10000000, 100000000, 1000000000,
     10000000000, 100000000000, 1000000000000, 10000000000000, 100000000000000, 1000000000000000,
     10000000000000000, 100000000000000000, 1000000000000000000, 10000000000000000000]"
  by (simp_all add: POWERS_OF_10_32_def POWERS_OF_10_64_def upt_conv_Cons)

definition clz_ok :: "nat \<Rightarrow> bool" where
  "clz_ok l = (let t = l * 1233 div 4096 in 2 ^ l \<le> (10::nat) ^ Suc t \<and>
    (t = 0 \<or> POWERS_OF_10_64 ! t = 10 ^ t \<and> 10 ^ (t - 1) \<le> (2::nat) ^ (l - 1) \<and>
      (l < 33 \<longrightarrow> POWERS_OF_10_32 ! t = 10 ^ t)))"

lemma clz_table: "list_all clz_ok [1 ..< 65]"
  by (simp add: upt_conv_Cons clz_ok_def POWERS_OF_10_lists)

lemma clz_digits:
  assumes "0 < n" "n < 2 ^ 64" and "t = bit_len n * 1233 div 4096"
  shows "length (decimal n) = t - (if n < POWERS_OF_10_64 ! t then 1 else 0) + 1"
    and "n < 2 ^ 32 \<Longrightarrow> length (decimal n) = t - (if n < POWERS_OF_10_32 ! t then 1 else 0) + 1"
proof -
  let ?l = "bit_len n"
  have l: "n < 2 ^ ?l" "2 ^ (?l - 1) \<le> n" using bit_len_bounds [OF assms(1)] by auto
  have small: "?l < Suc k" if "n < 2 ^ k" for k
  proof -
    have "(2::nat) ^ (?l - 1) < 2 ^ k" by (rule le_less_trans [OF l(2) that])
    then have "?l - 1 < k" by (rule power_less_imp_less_exp [rotated]) simp
    then show ?thesis by simp
  qed
  have pos: "0 < ?l" using l(1) assms(1) by (cases ?l) simp_all
  have "?l < 65" using small [OF assms(2)] by simp
  then have "clz_ok ?l" using clz_table pos by (simp add: list_all_iff)
  then have t: "2 ^ ?l \<le> (10::nat) ^ Suc t" "t = 0 \<or> POWERS_OF_10_64 ! t = 10 ^ t \<and>
      10 ^ (t - 1) \<le> (2::nat) ^ (?l - 1) \<and> (?l < 33 \<longrightarrow> POWERS_OF_10_32 ! t = 10 ^ t)"
    unfolding clz_ok_def Let_def assms(3) [symmetric] by simp_all
  have up: "n < 10 ^ Suc t" by (rule less_le_trans [OF l(1) t(1)])
  have digits: "length (decimal n) = t - (if n < p then 1 else 0) + 1" if "t = 0 \<and> p = 0 \<or> 0 < t \<and> p = 10 ^ t" for p
  proof (cases "t = 0")
    case True
    then show ?thesis using up that by (simp add: length_decimal)
  next
    case False
    then have "10 ^ (t - 1) \<le> n" using t(2) l(2) by (meson le_trans)
    then show ?thesis
      using False that up length_decimal_eq [of t n] length_decimal_eq [of "t - 1" n] by (auto simp: not_less)
  qed
  have z: "POWERS_OF_10_64 ! 0 = 0" "POWERS_OF_10_32 ! 0 = 0" by (simp_all add: POWERS_OF_10_lists)
  show "length (decimal n) = t - (if n < POWERS_OF_10_64 ! t then 1 else 0) + 1"
    by (rule digits) (use t(2) z in auto)
  show "length (decimal n) = t - (if n < POWERS_OF_10_32 ! t then 1 else 0) + 1" if "n < 2 ^ 32"
    by (rule digits) (use t(2) z small [OF that] in auto)
qed

text \<open>
  The three ways of counting digits agree: the loop, and the two versions that estimate
  the logarithm from the number of leading zeros and correct it with a table of powers. For
  every unsigned value of the type, each answers the number of decimal digits.
\<close>

theorem digits_counted:
  assumes "n < 2 ^ 64"
  shows "count_digits n = length (decimal n) \<and> count_digits_clz64 n = length (decimal n) \<and>
    (n < 2 ^ 32 \<longrightarrow> count_digits_clz32 n = length (decimal n))"
proof (cases "n = 0")
  case True
  then show ?thesis
    by (simp add: count_digits_decimal count_digits_clz64_def count_digits_clz32_def bit_len.simps
        POWERS_OF_10_lists length_decimal)
next
  case False
  then show ?thesis
    using clz_digits [of n, OF _ assms refl] bit_len_or_one [of n]
    by (simp add: count_digits_decimal count_digits_clz64_def count_digits_clz32_def Let_def)
qed

theorem digits_counted_witness:
  "count_digits_clz64 9999999999 = 10"
proof -
  have "length (decimal 9999999999) = 10" by (simp add: length_decimal)
  then show ?thesis using digits_counted [of 9999999999] by simp
qed

subsection \<open>Writing digits\<close>

lemma digit_chars:
  "digit_char 0 = CHR ''0''" "digit_char (Suc 0) = CHR ''1''" "digit_char 2 = CHR ''2''"
  "digit_char 3 = CHR ''3''" "digit_char 4 = CHR ''4''" "digit_char 5 = CHR ''5''"
  "digit_char 6 = CHR ''6''" "digit_char 7 = CHR ''7''" "digit_char 8 = CHR ''8''"
  "digit_char 9 = CHR ''9''"
  by code_simp+

lemma DIGITS_pairs: "DIGITS = concat (map (\<lambda>k. [digit_char (k div 10), digit_char (k mod 10)]) [0 ..< 100])"
  by (simp add: DIGITS_def upt_conv_Cons digit_chars digit_chars(3) [unfolded numeral_2_eq_2])

lemma concat_pairs:
  "k < length xs \<Longrightarrow> concat (map (\<lambda>k. [f k, g k]) xs) ! (k * 2) = f (xs ! k) \<and>
    concat (map (\<lambda>k. [f k, g k]) xs) ! Suc (k * 2) = g (xs ! k)"
proof (induction xs arbitrary: k)
  case (Cons x xs)
  then show ?case by (cases k) auto
qed simp

lemma DIGITS_nth:
  assumes "k < 100"
  shows "DIGITS ! (k * 2) = digit_char (k div 10)" "DIGITS ! Suc (k * 2) = digit_char (k mod 10)"
proof -
  have "k < length [0 ..< 100]" using assms by (simp only: length_upt)
  moreover have "[0 ..< 100] ! k = k" using assms by (simp only: nth_upt)
  ultimately show "DIGITS ! (k * 2) = digit_char (k div 10)" "DIGITS ! Suc (k * 2) = digit_char (k mod 10)"
    unfolding DIGITS_pairs
    using concat_pairs [of k "[0 ..< 100]" "\<lambda>k. digit_char (k div 10)" "\<lambda>k. digit_char (k mod 10)"]
    by (simp_all only: HOL.simp_thms)
qed

lemma blit_hole:
  "blit (length x) s (x @ replicate (length s) None @ y) = Some (x @ map Some s @ y)"
  by (simp add: blit_def)

lemma div_mod_hundred: "n mod 100 div 10 = n div 10 mod (10::nat)"
  using mod_mult2_eq [of n 10 10] by simp

text \<open>\<open>hole n\<close>: an area of \<open>n\<close> characters not written yet, between \<open>x\<close> and \<open>y\<close>.\<close>

lemma put_back_hole:
  "put_back ch (length x + Suc n, x @ replicate (Suc n) None @ y) =
    Some (length x + n, x @ replicate n None @ Some ch # y)"
proof -
  have "x @ replicate (Suc n) None @ y = (x @ replicate n None) @ None # y"
    by (simp add: replicate_append_same)
  then show ?thesis using blit_hole [of "x @ replicate n None" "[ch]" y] by (simp add: put_back_def)
qed

lemma put_digit_hole:
  "put_digit '''' ch (idx, length x + Suc n, x @ replicate (Suc n) None @ y) =
    Some (Suc idx, length x + n, x @ replicate n None @ Some ch # y)"
  unfolding put_digit_def prod.case put_back_hole by (simp add: thousands_sep_def blit_def)

lemma format_decimal_hole:
  "format_decimal '''' n (idx, length x + length (decimal n), x @ replicate (length (decimal n)) None @ y) =
    Some (x @ map Some (decimal n) @ y)"
proof (induction n arbitrary: idx y rule: less_induct)
  case (less n)
  consider "n < 10" | "10 \<le> n" "n < 100" | "100 \<le> n" by linarith
  then show ?case
  proof cases
    case 1
    then show ?thesis
      using put_back_hole [of "digit_char n" x 0 y]
      by (simp add: format_decimal.simps [of _ n] decimal.simps [of n])
  next
    case 2
    then show ?thesis
      using put_digit_hole [of "DIGITS ! Suc (n * 2)" idx x 1 y] DIGITS_nth [of n]
        put_back_hole [of "DIGITS ! (n * 2)" x 0 "Some (DIGITS ! Suc (n * 2)) # y"]
      by (simp add: format_decimal.simps [of _ n] decimal_two numeral_2_eq_2)
  next
    case 3
    let ?k = "n mod 100" and ?d = "length (decimal (n div 100))"
    let ?y = "Some (DIGITS ! (?k * 2)) # Some (DIGITS ! Suc (?k * 2)) # y"
    have len: "length (decimal n) = Suc (Suc ?d)" using 3 by (simp add: decimal_hundreds)
    have ds: "DIGITS ! (?k * 2) = digit_char (n div 10 mod 10)" "DIGITS ! Suc (?k * 2) = digit_char (n mod 10)"
      using DIGITS_nth [of ?k] by (simp_all add: mod_mod_cancel div_mod_hundred)
    have "format_decimal '''' n (idx, length x + length (decimal n), x @ replicate (length (decimal n)) None @ y) =
      format_decimal '''' (n div 100) (Suc (Suc idx), length x + ?d, x @ replicate ?d None @ ?y)"
      using 3 put_digit_hole [of "DIGITS ! Suc (?k * 2)" idx x "Suc ?d" y]
        put_digit_hole [of "DIGITS ! (?k * 2)" "Suc idx" x ?d "Some (DIGITS ! Suc (?k * 2)) # y"]
      unfolding len by (simp add: format_decimal.simps [of _ n] Let_def del: replicate_Suc)
    also have "\<dots> = Some (x @ map Some (decimal (n div 100)) @ ?y)" using 3 by (intro less) simp
    also have "\<dots> = Some (x @ map Some (decimal n) @ y)" using 3 ds by (simp add: decimal_hundreds)
    finally show ?thesis .
  qed
qed

lemma format_decimal_at_end:
  "format_decimal '''' n (idx, length x + length (decimal n), x @ replicate (length (decimal n)) None) =
    Some (x @ map Some (decimal n))"
  using format_decimal_hole [of n idx x "[]"] by simp

subsection \<open>Layout\<close>

text \<open>The text of a number with its prefix, filled up to the width.\<close>

definition layout :: "nat \<Rightarrow> char \<Rightarrow> Alignment \<Rightarrow> string \<Rightarrow> string \<Rightarrow> string" where
  "layout width fill align prefix ds =
     (let pad = width - (length prefix + length ds)
      in case align of
           ALIGN_LEFT \<Rightarrow> prefix @ ds @ replicate pad fill
         | ALIGN_CENTER \<Rightarrow> replicate (pad div 2) fill @ prefix @ ds @ replicate (pad - pad div 2) fill
         | ALIGN_NUMERIC \<Rightarrow> prefix @ replicate pad fill @ ds
         | _ \<Rightarrow> replicate pad fill @ prefix @ ds)"

lemma length_layout: "length (layout width fill align prefix ds) = max width (length prefix + length ds)"
  by (cases align) (simp_all add: layout_def Let_def)

text \<open>The number's area is left open, in the right place, and nothing before it changes.\<close>

definition prepared :: "buffer \<Rightarrow> string \<Rightarrow> nat \<Rightarrow> string \<Rightarrow> (nat \<times> buffer) option \<Rightarrow> bool" where
  "prepared b x nd y r =
     (r = Some (length b + length x + nd - 1, b @ map Some x @ replicate nd None @ map Some y))"

lemma prepare_aligned_wide:
  assumes "0 < nd" and "0 < pad" and w: "w = length prefix + nd + pad"
  shows "prepared b prefix nd (replicate pad fill) (prepare_aligned nd w fill ALIGN_LEFT prefix b)"
    and "prepared b (replicate (pad div 2) fill @ prefix) nd (replicate (pad - pad div 2) fill)
      (prepare_aligned nd w fill ALIGN_CENTER prefix b)"
    and "prepared b (prefix @ replicate pad fill) nd [] (prepare_aligned nd w fill ALIGN_NUMERIC prefix b)"
    and "prepared b (replicate pad fill @ prefix) nd [] (prepare_aligned nd w fill ALIGN_RIGHT prefix b)"
    and "prepared b (replicate pad fill @ prefix) nd [] (prepare_aligned nd w fill ALIGN_DEFAULT prefix b)"
  using assms
  by (simp_all add: prepared_def prepare_aligned_def grow_buffer_def fill_padding_def blit_def Let_def
      add.assoc min_def flip: replicate_add) linarith

lemma prepare_aligned_layout:
  assumes "0 < length ds"
  shows "\<exists>x y. prepared b x (length ds) y (prepare_aligned (length ds) width fill align prefix b) \<and>
    x @ ds @ y = layout width fill align prefix ds"
proof (cases "width \<le> length prefix + length ds")
  case True
  then have "prepared b prefix (length ds) [] (prepare_aligned (length ds) width fill align prefix b)"
    using assms by (simp add: prepared_def prepare_aligned_def grow_buffer_def blit_def Let_def add.assoc)
  moreover have "layout width fill align prefix ds = prefix @ ds @ []"
    using True by (cases align) (simp_all add: layout_def)
  ultimately show ?thesis by metis
next
  case False
  define pad where "pad = width - (length prefix + length ds)"
  have p: "0 < pad" "width = length prefix + length ds + pad" using False by (simp_all add: pad_def)
  note form = prepare_aligned_wide [OF assms p, where fill = fill and b = b]
  have lay: "layout width fill ALIGN_LEFT prefix ds = prefix @ ds @ replicate pad fill"
    "layout width fill ALIGN_CENTER prefix ds =
      (replicate (pad div 2) fill @ prefix) @ ds @ replicate (pad - pad div 2) fill"
    "layout width fill ALIGN_NUMERIC prefix ds = (prefix @ replicate pad fill) @ ds @ []"
    "layout width fill ALIGN_RIGHT prefix ds = (replicate pad fill @ prefix) @ ds @ []"
    "layout width fill ALIGN_DEFAULT prefix ds = (replicate pad fill @ prefix) @ ds @ []"
    by (simp_all add: layout_def p(2))
  show ?thesis unfolding p(2) [symmetric]
    by (cases align; simp only: lay; rule exI; rule exI; rule conjI [OF _ refl]; simp only: form)
qed

lemma format_decimal_prepared:
  assumes "prepared b x (length (decimal n)) y r" and "r = Some (p, b')"
  shows "format_decimal '''' n (idx, p + 1, b') = Some (b @ map Some (x @ decimal n @ y))"
proof -
  have "0 < length (decimal n)" by simp
  then have "p + 1 = length (b @ map Some x) + length (decimal n)"
    and "b' = (b @ map Some x) @ replicate (length (decimal n)) None @ map Some y"
    using assms by (auto simp: prepared_def)
  then show ?thesis using format_decimal_hole [of n idx "b @ map Some x" "map Some y"] by simp
qed

lemma write_int_layout:
  assumes "fs_precision spec \<le> int (length (decimal n))" and "fs_type spec \<in> {None, Some CHR ''d''}"
  shows "\<exists>text. write_int sep (neg, n) spec b = Wrote (b @ map Some text) \<and>
    text = layout (fs_width spec) (fs_fill spec) (fs_align spec) (int_prefix spec neg) (decimal n) \<and>
    length text = max (fs_width spec) (length (int_prefix spec neg) + length (decimal n))"
proof -
  let ?r = "prepare_aligned (length (decimal n)) (fs_width spec) (fs_fill spec) (fs_align spec) (int_prefix spec neg) b"
  have "0 < length (decimal n)" by simp
  then obtain x y where p: "prepared b x (length (decimal n)) y ?r"
    and l: "x @ decimal n @ y = layout (fs_width spec) (fs_fill spec) (fs_align spec) (int_prefix spec neg) (decimal n)"
    using prepare_aligned_layout by blast
  then obtain q b' where r: "?r = Some (q, b')" by (auto simp: prepared_def)
  have t: "(case fs_type spec of None \<Rightarrow> CHR ''d'' | Some t \<Rightarrow> t) = CHR ''d''" using assms(2) by auto
  have pr: "prepare_int_buffer (count_digits n) spec (int_prefix spec neg) b = Some (q, b')"
    using assms(1) r by (simp add: prepare_int_buffer_def count_digits_decimal)
  have "write_int sep (neg, n) spec b = Wrote (b @ map Some (x @ decimal n @ y))"
    unfolding write_int_def prod.case Let_def t pr
    using format_decimal_prepared [OF p r, of 0] by (simp add: wrote_def)
  then show ?thesis using l by (simp add: length_layout)
qed

text \<open>
  The layout of a formatted decimal integer. Whatever the alignment, width and fill, the
  number's sign and digits and the fill are exactly what is appended to the buffer: nothing
  before them changes, no character stays unwritten and none is written outside. The text
  is as long as the width asks for, and longer only if the number is.
\<close>

theorem decimal_layout:
  assumes "fs_precision spec \<le> int (length (decimal n))" and "fs_type spec \<in> {None, Some CHR ''d''}"
  shows "\<exists>text. write_int sep (neg, n) spec b = Wrote (b @ map Some text) \<and>
    text = layout (fs_width spec) (fs_fill spec) (fs_align spec) (int_prefix spec neg) (decimal n) \<and>
    length text = max (fs_width spec) (length (int_prefix spec neg) + length (decimal n))"
  by (rule write_int_layout [OF assms])

theorem decimal_layout_witness:
  "write_int '','' (True, 5) (pad_spec 3 CHR ''0'') [] = Wrote (map Some ''0-5'')"
proof -
  have d: "decimal 5 = ''5''" by (simp add: decimal.simps digit_chars)
  have "\<exists>text. write_int '','' (True, 5) (pad_spec 3 CHR ''0'') [] = Wrote ([] @ map Some text) \<and>
    text = layout 3 CHR ''0'' ALIGN_DEFAULT (int_prefix (pad_spec 3 CHR ''0'') True) (decimal 5) \<and>
    length text = max 3 (length (int_prefix (pad_spec 3 CHR ''0'') True) + length (decimal 5))"
    using decimal_layout [of "pad_spec 3 CHR ''0''" 5 "'',''" True "[]"] by (simp add: pad_spec_def)
  then show ?thesis by (simp add: d layout_def int_prefix_def)
qed

subsection \<open>The three ways to print an integer\<close>

definition int_text :: "bool \<times> nat \<Rightarrow> string" where
  "int_text v = (if fst v then ''-'' else '''') @ decimal (snd v)"

definition read_int :: "string \<Rightarrow> int" where
  "read_int s = (if s \<noteq> [] \<and> hd s = CHR ''-'' then - int (read_decimal (tl s)) else int (read_decimal s))"

lemma digit_char_minus: "d < 10 \<Longrightarrow> digit_char d \<noteq> CHR ''-''"
proof
  assume d: "d < 10" and eq: "digit_char d = CHR ''-''"
  have "digit_val CHR ''-'' = 0" by code_simp
  then have "d = 0" using digit_val_char [OF d] eq by simp
  then show False using eq by (simp add: digit_chars)
qed

lemma hd_decimal: "\<exists>d<10. hd (decimal n) = digit_char d"
proof (induction n rule: decimal.induct)
  case (1 n)
  then show ?case by (cases "n < 10") (auto simp: decimal.simps [of n])
qed

lemma read_int_text: "read_int (int_text (neg, n)) = (if neg then - int n else int n)"
proof -
  have "hd (decimal n) \<noteq> CHR ''-''" using hd_decimal [of n] digit_char_minus by force
  then show ?thesis by (simp add: read_int_def int_text_def read_decimal_decimal)
qed

lemma write_decimal_text: "write_decimal v b = Some (b @ map Some (int_text v))"
proof (cases v)
  case (Pair neg n)
  have u: "write_unsigned_decimal n k b = Some (b @ replicate k None @ map Some (decimal n))" for k
    using format_decimal_at_end [of n 0 "b @ replicate k None"]
    by (simp add: write_unsigned_decimal_def grow_buffer_def count_digits_decimal Let_def replicate_add add.assoc)
  show ?thesis using u [of 0] u [of 1] Pair
    by (simp add: write_decimal_def int_text_def blit_def)
qed

lemma FormatInt_text:
  assumes "length (decimal n) \<le> 20"
  shows "FormatInt (neg, n) = Some (map Some (int_text (neg, n)))"
proof -
  let ?k = "21 - length (decimal n)"
  have r: "replicate 21 None = replicate ?k None @ replicate (length (decimal n)) (None :: char option)"
    using assms by (simp flip: replicate_add)
  have b: "format_decimal '''' n (0, 21, replicate 21 None) = Some (replicate ?k None @ map Some (decimal n))"
    using format_decimal_at_end [of n 0 "replicate ?k None"] assms unfolding r by simp
  have d: "dropWhile (\<lambda>x. x = None) (replicate ?k None @ map Some (decimal n)) = map Some (decimal n)"
  proof -
    have "dropWhile (\<lambda>x. x = None) (replicate ?k None @ map Some (decimal n)) =
      dropWhile (\<lambda>x. x = None) (map Some (decimal n))"
      by (rule dropWhile_append2) simp
    then show ?thesis by (cases "decimal n") simp_all
  qed
  have p: "put_back CHR ''-'' (?k, replicate ?k None @ map Some (decimal n)) =
      Some (?k - 1, replicate (?k - 1) None @ Some CHR ''-'' # map Some (decimal n))"
  proof -
    have k: "?k = Suc (20 - length (decimal n))" using assms by simp
    show ?thesis
      using put_back_hole [of "CHR ''-''" "[]" "20 - length (decimal n)" "map Some (decimal n)"]
      unfolding k by simp
  qed
  show ?thesis using b d p assms by (simp add: FormatInt_def int_text_def Let_def)
qed

lemma signed_parts_value:
  fixes v :: "'a::len word"
  assumes "signed_parts v = (neg, n)"
  shows "sint v = (if neg then - int n else int n)" and "n < 2 ^ LENGTH('a)"
proof -
  show "n < 2 ^ LENGTH('a)"
    using assms unsigned_less [of v] unsigned_less [of "0 - v"]
    by (auto simp: signed_parts_def simp del: unsigned_less)
  show "sint v = (if neg then - int n else int n)"
  proof (cases "sint v < 0")
    case True
    have "- (2 ^ (LENGTH('a) - 1)) \<le> sint v" by (rule sint_ge)
    moreover have "(2::int) ^ (LENGTH('a) - 1) < 2 ^ LENGTH('a)" by (rule power_strict_increasing) simp_all
    ultimately have r: "0 \<le> - sint v" "- sint v < 2 ^ LENGTH('a)" using True by linarith+
    have "uint (- v) = uint (word_of_int (- sint v) :: 'a word)" by simp
    also have "\<dots> = - sint v" using r by (simp only: uint_word_of_int mod_pos_pos_trivial)
    finally show ?thesis using True assms by (auto simp: signed_parts_def)
  next
    case False
    have "sint v < 2 ^ (LENGTH('a) - 1)" by (rule sint_lt)
    moreover have "(2::int) ^ (LENGTH('a) - 1) < 2 ^ LENGTH('a)" by (rule power_strict_increasing) simp_all
    ultimately have "sint v < 2 ^ LENGTH('a)" by linarith
    then have "uint v = sint v" using False by (simp add: uint_sint take_bit_int_eq_self)
    then show ?thesis using False assms by (auto simp: signed_parts_def)
  qed
qed

lemma length_decimal_le: "n < 10 ^ k \<Longrightarrow> 0 < k \<Longrightarrow> length (decimal n) \<le> k"
proof -
  assume a: "n < 10 ^ k" "0 < k"
  show ?thesis
  proof (cases "n = 0")
    case False
    then have "(10::nat) ^ (length (decimal n) - 1) < 10 ^ k"
      using length_decimal_bounds [of n] a(1) by (meson le_less_trans neq0_conv)
    then have "length (decimal n) - 1 < k" by (rule power_less_imp_less_exp [rotated]) simp
    then show ?thesis by simp
  qed (use a in \<open>simp add: length_decimal\<close>)
qed

lemma write_int_empty: "write_int sep (neg, n) empty_spec b = Wrote (b @ map Some (int_text (neg, n)))"
proof -
  have "int_prefix empty_spec neg = (if neg then ''-'' else '''')"
    by (simp add: int_prefix_def spec_flag_def empty_spec_def pad_spec_def)
  moreover have "layout 0 CHR '' '' ALIGN_DEFAULT p ds = p @ ds" for p ds by (simp add: layout_def)
  ultimately show ?thesis
    using write_int_layout [of empty_spec n sep neg b]
    by (auto simp: empty_spec_def pad_spec_def int_text_def)
qed

text \<open>
  C17: The three ways to print a signed integer agree and are right. The stream operator,
  \<open>FormatInt\<close> and \<open>write_int\<close> with the empty format produce the same characters for every
  machine integer of up to 64 bits, the smallest included, and read as a number in decimal
  they are its value.
\<close>

theorem integers_printed:
  fixes v :: "'a::len word"
  assumes "LENGTH('a) \<le> 64"
  shows "\<exists>text. write_decimal (signed_parts v) b = Some (b @ map Some text) \<and>
    FormatInt (signed_parts v) = Some (map Some text) \<and>
    write_int sep (signed_parts v) empty_spec b = Wrote (b @ map Some text) \<and>
    read_int text = sint v"
proof -
  obtain neg n where v: "signed_parts v = (neg, n)" by fastforce
  note val = signed_parts_value [OF v]
  have "(2::nat) ^ LENGTH('a) \<le> 2 ^ 64" by (rule power_increasing [OF assms]) simp
  then have "n < 10 ^ 20" using val(2) by simp
  then have "length (decimal n) \<le> 20" by (rule length_decimal_le) simp
  then have "FormatInt (neg, n) = Some (map Some (int_text (neg, n)))" by (rule FormatInt_text)
  moreover have "write_int sep (neg, n) empty_spec b = Wrote (b @ map Some (int_text (neg, n)))"
    by (rule write_int_empty)
  ultimately show ?thesis
    using write_decimal_text [of "(neg, n)" b] read_int_text [of neg n] val(1) v by auto
qed

theorem integers_printed_witness:
  "\<exists>text. FormatInt (signed_parts (0x8000000000000000 :: 64 word)) = Some (map Some text) \<and>
    read_int text = - (2 ^ 63)"
proof -
  have "sint (0x8000000000000000 :: 64 word) = - (2 ^ 63)" by simp
  then show ?thesis
    using integers_printed [of "0x8000000000000000 :: 64 word" "[]" "''''"] by auto
qed

end
