(* ===== verification/Log_Message.thy ===== *)
theory Log_Message
  imports Fmt_Int_Properties "HOL-Library.Signed_Division"
begin

text \<open>
  The logging library under \<^verbatim>\<open>common/spdlog\<close>, that every component of the program writes
  to: levels (\<^verbatim>\<open>common.h\<close>) and messages (\<^verbatim>\<open>log_msg.h\<close>), and how values are appended to a
  message's text. Times are nanoseconds since the epoch.
\<close>

subsection \<open>Levels\<close>

datatype level_enum = trace | debug | info | warn | err | critical | off

fun level_value :: "level_enum \<Rightarrow> nat" where
  "level_value trace = 0"
| "level_value debug = 1"
| "level_value info = 2"
| "level_value warn = 3"
| "level_value err = 4"
| "level_value critical = 5"
| "level_value off = 6"

instantiation level_enum :: linorder
begin

definition less_eq_level_enum :: "level_enum \<Rightarrow> level_enum \<Rightarrow> bool" where
  "less_eq_level_enum a b = (level_value a \<le> level_value b)"

definition less_level_enum :: "level_enum \<Rightarrow> level_enum \<Rightarrow> bool" where
  "less_level_enum a b = (level_value a < level_value b)"

instance
proof
  have inj: "level_value a = level_value b \<Longrightarrow> a = b" for a b by (cases a; cases b) simp_all
  fix a b c :: level_enum
  show "a < b \<longleftrightarrow> a \<le> b \<and> \<not> b \<le> a" by (auto simp: less_eq_level_enum_def less_level_enum_def)
  show "a \<le> a" by (simp add: less_eq_level_enum_def)
  show "a \<le> b \<Longrightarrow> b \<le> c \<Longrightarrow> a \<le> c" by (simp add: less_eq_level_enum_def)
  show "a \<le> b \<Longrightarrow> b \<le> a \<Longrightarrow> a = b" by (simp add: less_eq_level_enum_def inj)
  show "a \<le> b \<or> b \<le> a" by (auto simp: less_eq_level_enum_def)
qed

end

definition level_names :: "string list" where
  "level_names = [''trace'', ''debug'', ''info'', ''warning'', ''error'', ''critical'', ''off'']"

definition short_level_names :: "string list" where
  "short_level_names = [''T'', ''D'', ''I'', ''W'', ''E'', ''C'', ''O'']"

definition to_str :: "level_enum \<Rightarrow> string" where
  "to_str l = level_names ! level_value l"

definition to_short_str :: "level_enum \<Rightarrow> string" where
  "to_short_str l = short_level_names ! level_value l"

definition from_str :: "string \<Rightarrow> level_enum" where
  "from_str name =
     (case map_of (zip level_names [trace, debug, info, warn, err, critical, off]) name of
        Some l \<Rightarrow> l | None \<Rightarrow> off)"

lemma from_str_to_str [simp]: "from_str (to_str l) = l"
  by (cases l) (simp_all add: from_str_def to_str_def level_names_def)

datatype async_overflow_policy = block_retry | discard_log_msg

datatype pattern_time_type = local | utc

subsection \<open>Messages\<close>

text \<open>A message that no logger made has a null pointer for its logger's name.\<close>

record log_msg =
  lm_logger_name :: "string option"
  lm_level :: level_enum
  lm_time :: int
  lm_thread_id :: u64
  lm_raw :: string
  lm_formatted :: string
  lm_msg_id :: u64

definition new_log_msg :: "string \<Rightarrow> level_enum \<Rightarrow> int \<Rightarrow> u64 \<Rightarrow> log_msg" where
  "new_log_msg name lvl now thread =
     \<lparr>lm_logger_name = Some name, lm_level = lvl, lm_time = now, lm_thread_id = thread, lm_raw = '''',
      lm_formatted = '''', lm_msg_id = 0\<rparr>"

subsection \<open>Numbers in a message\<close>

text \<open>What \<open>w << v\<close> and \<open>w << fmt::pad(v, width, fill)\<close> append.\<close>

definition buffer_text :: "buffer \<Rightarrow> string" where
  "buffer_text b = map the b"

definition printed :: "bool \<times> nat \<Rightarrow> string" where
  "printed v = (case write_decimal v [] of Some b \<Rightarrow> buffer_text b | None \<Rightarrow> '''')"

definition padded :: "bool \<times> nat \<Rightarrow> nat \<Rightarrow> char \<Rightarrow> string" where
  "padded v width fill =
     (case write_int '''' v (pad_spec width fill) [] of Wrote b \<Rightarrow> buffer_text b | _ \<Rightarrow> '''')"

lemma buffer_text_map [simp]: "buffer_text (map Some s) = s"
  by (simp add: buffer_text_def comp_def)

lemma printed_text [simp]: "printed v = int_text v"
  using write_decimal_text [of v "[]"] by (simp add: printed_def)

lemma padded_layout:
  "padded (neg, n) width fill =
    layout width fill ALIGN_DEFAULT (if neg then ''-'' else '''') (decimal n)"
proof -
  have "int_prefix (pad_spec width fill) neg = (if neg then ''-'' else '''')"
    by (simp add: int_prefix_def spec_flag_def pad_spec_def)
  then show ?thesis
    using write_int_layout [of "pad_spec width fill" n "''''" neg "[]"]
    by (auto simp: padded_def pad_spec_def)
qed

lemma parts_agree: "0 \<le> sint v \<Longrightarrow> signed_parts v = unsigned_parts v"
  by (simp add: signed_parts_def unsigned_parts_def)

end
