(* ===== verification/Fmt_Args.thy ===== *)
theory Fmt_Args
  imports Fmt_Int
begin

text \<open>
  The arguments of a formatting call, from \<^verbatim>\<open>spdlog/fmt/bundled/format.h\<close>: what becomes of a
  C++ value, the list in which up to 15 arguments travel as bare values with their types packed
  into one word, and the table of named arguments. \<open>'d\<close> stands for floating-point values,
  \<open>'c\<close> for values of user-defined types together with their formatting function.
\<close>

subsection \<open>Values and types\<close>

datatype Type =
    NONE | NAMED_ARG | INT_ARG | UINT | LONG_LONG | ULONG_LONG | BOOL | CHAR_ARG | DOUBLE | LONG_DOUBLE
  | CSTRING | STRING | WSTRING | POINTER | CUSTOM

definition all_Types :: "Type list" where
  "all_Types = [NONE, NAMED_ARG, INT_ARG, UINT, LONG_LONG, ULONG_LONG, BOOL, CHAR_ARG, DOUBLE, LONG_DOUBLE,
     CSTRING, STRING, WSTRING, POINTER, CUSTOM]"

text \<open>
  The number of an enumerator, and back; 15 is none. \<open>INT_ARG\<close> and \<open>CHAR_ARG\<close> are the source's
  \<open>INT\<close> and \<open>CHAR\<close>.
\<close>

fun type_code :: "Type \<Rightarrow> nat" where
  "type_code NONE = 0" | "type_code NAMED_ARG = 1" | "type_code INT_ARG = 2" | "type_code UINT = 3"
| "type_code LONG_LONG = 4" | "type_code ULONG_LONG = 5" | "type_code BOOL = 6" | "type_code CHAR_ARG = 7"
| "type_code DOUBLE = 8" | "type_code LONG_DOUBLE = 9" | "type_code CSTRING = 10" | "type_code STRING = 11"
| "type_code WSTRING = 12" | "type_code POINTER = 13" | "type_code CUSTOM = 14"

definition type_of_code :: "nat \<Rightarrow> Type option" where
  "type_of_code n = (if n < 15 then Some (all_Types ! n) else None)"

definition LAST_INTEGER_TYPE :: Type where "LAST_INTEGER_TYPE = CHAR_ARG"
definition LAST_NUMERIC_TYPE :: Type where "LAST_NUMERIC_TYPE = LONG_DOUBLE"

text \<open>
  The union, by the member last written. A string is an address and the characters there, up
  to its size or its terminator; the address of the null pointer is 0. What a named argument
  points to is its name and the argument itself.
\<close>

datatype ('d, 'c) Value =
    no_value
  | int_value i32
  | uint_value u32
  | long_long_value u64
  | ulong_long_value u64
  | double_value 'd
  | long_double_value 'd
  | pointer u64
  | string_value u64 string
  | custom 'c
  | named_value string "('d, 'c) Value" Type

record ('d, 'c) Arg =
  arg_value :: "('d, 'c) Value"
  arg_type :: Type

definition none_arg :: "('d, 'c) Arg" where
  "none_arg = \<lparr>arg_value = no_value, arg_type = NONE\<rparr>"

text \<open>C++ values by their static type, with a \<open>long\<close> of 64 bits.\<close>

datatype ('d, 'c) cxx =
    cxx_bool bool
  | cxx_short "16 word"
  | cxx_unsigned_short "16 word"
  | cxx_int i32
  | cxx_unsigned u32
  | cxx_long u64
  | cxx_unsigned_long u64
  | cxx_long_long u64
  | cxx_unsigned_long_long u64
  | cxx_double 'd
  | cxx_long_double 'd
  | cxx_signed_char byte
  | cxx_unsigned_char byte
  | cxx_char char
  | cxx_enum i32
  | cxx_c_str u64 string
  | cxx_string u64 string
  | cxx_pointer u64
  | cxx_named string "('d, 'c) cxx"
  | cxx_custom 'c

text \<open>\<open>MakeValue\<close>: the member and the type for each overload; a plain \<open>char\<close> is signed.\<close>

fun cxx_type :: "('d, 'c) cxx \<Rightarrow> Type" where
  "cxx_type (cxx_bool b) = BOOL"
| "cxx_type (cxx_short w) = INT_ARG"
| "cxx_type (cxx_unsigned_short w) = UINT"
| "cxx_type (cxx_int w) = INT_ARG"
| "cxx_type (cxx_unsigned w) = UINT"
| "cxx_type (cxx_long w) = LONG_LONG"
| "cxx_type (cxx_unsigned_long w) = ULONG_LONG"
| "cxx_type (cxx_long_long w) = LONG_LONG"
| "cxx_type (cxx_unsigned_long_long w) = ULONG_LONG"
| "cxx_type (cxx_double d) = DOUBLE"
| "cxx_type (cxx_long_double d) = LONG_DOUBLE"
| "cxx_type (cxx_signed_char w) = INT_ARG"
| "cxx_type (cxx_unsigned_char w) = UINT"
| "cxx_type (cxx_char c) = CHAR_ARG"
| "cxx_type (cxx_enum w) = INT_ARG"
| "cxx_type (cxx_c_str a s) = CSTRING"
| "cxx_type (cxx_string a s) = STRING"
| "cxx_type (cxx_pointer a) = POINTER"
| "cxx_type (cxx_named n x) = NAMED_ARG"
| "cxx_type (cxx_custom c) = CUSTOM"

definition char_value :: "char \<Rightarrow> i32" where
  "char_value c = scast (of_char c :: byte)"

fun make_value :: "('d, 'c) cxx \<Rightarrow> ('d, 'c) Value" where
  "make_value (cxx_bool b) = int_value (if b then 1 else 0)"
| "make_value (cxx_short w) = int_value (scast w)"
| "make_value (cxx_unsigned_short w) = uint_value (ucast w)"
| "make_value (cxx_int w) = int_value w"
| "make_value (cxx_unsigned w) = uint_value w"
| "make_value (cxx_long w) = long_long_value w"
| "make_value (cxx_unsigned_long w) = ulong_long_value w"
| "make_value (cxx_long_long w) = long_long_value w"
| "make_value (cxx_unsigned_long_long w) = ulong_long_value w"
| "make_value (cxx_double d) = double_value d"
| "make_value (cxx_long_double d) = long_double_value d"
| "make_value (cxx_signed_char w) = int_value (scast w)"
| "make_value (cxx_unsigned_char w) = uint_value (ucast w)"
| "make_value (cxx_char c) = int_value (char_value c)"
| "make_value (cxx_enum w) = int_value w"
| "make_value (cxx_c_str a s) = string_value a s"
| "make_value (cxx_string a s) = string_value a s"
| "make_value (cxx_pointer a) = pointer a"
| "make_value (cxx_named n x) = named_value n (make_value x) (cxx_type x)"
| "make_value (cxx_custom c) = custom c"

definition make_arg :: "('d, 'c) cxx \<Rightarrow> ('d, 'c) Arg" where
  "make_arg x = \<lparr>arg_value = make_value x, arg_type = cxx_type x\<rparr>"

subsection \<open>Argument lists\<close>

text \<open>
  \<open>packed_values\<close> and \<open>full_args\<close> share their storage: reading the member that was not written, or behind
  the end of the array, has no result.
\<close>

datatype ('d, 'c) arg_array = packed_values "('d, 'c) Value list" | full_args "('d, 'c) Arg list"

record ('d, 'c) ArgList =
  al_types :: u64
  al_array :: "('d, 'c) arg_array"

definition MAX_PACKED_ARGS :: nat where "MAX_PACKED_ARGS = 16"

definition type_at :: "u64 \<Rightarrow> nat \<Rightarrow> Type option" where
  "type_at types index =
     (let shift = index * 4; mask = (0xf :: u64)
      in type_of_code (unat (drop_bit shift (types AND push_bit shift mask))))"

fun make_type :: "Type list \<Rightarrow> u64" where
  "make_type [] = 0"
| "make_type (first # tail) = of_nat (type_code first) OR push_bit 4 (make_type tail)"

definition make_args :: "('d, 'c) cxx list \<Rightarrow> ('d, 'c) ArgList" where
  "make_args xs =
     \<lparr>al_types = make_type (map cxx_type xs),
      al_array = (if length xs < MAX_PACKED_ARGS then packed_values (map make_value xs)
                  else full_args (map make_arg xs @ [none_arg]))\<rparr>"

definition use_values :: "('d, 'c) ArgList \<Rightarrow> bool" where
  "use_values al = (type_at (al_types al) (MAX_PACKED_ARGS - 1) = Some NONE)"

fun read_value :: "bool \<Rightarrow> ('d, 'c) arg_array \<Rightarrow> nat \<Rightarrow> ('d, 'c) Value option" where
  "read_value packed (packed_values vs) i = (if packed \<and> i < length vs then Some (vs ! i) else None)"
| "read_value packed (full_args as) i = (if \<not> packed \<and> i < length as then Some (arg_value (as ! i)) else None)"

text \<open>The loop from argument 16 to argument \<open>index\<close> ends early at the end marker.\<close>

fun scan_args :: "('d, 'c) Arg list \<Rightarrow> nat \<Rightarrow> ('d, 'c) Arg option" where
  "scan_args [] k = None"
| "scan_args (a # as) k = (if arg_type a = NONE \<or> k = 0 then Some a else scan_args as (k - 1))"

definition ArgList_at :: "('d, 'c) ArgList \<Rightarrow> nat \<Rightarrow> ('d, 'c) Arg option" where
  "ArgList_at al index =
     (if index < MAX_PACKED_ARGS
      then do {
        t \<leftarrow> type_at (al_types al) index;
        if t \<noteq> NONE
        then do { v \<leftarrow> read_value (use_values al) (al_array al) index; Some \<lparr>arg_value = v, arg_type = t\<rparr> }
        else Some none_arg }
      else if use_values al then Some none_arg
      else (case al_array al of
              full_args as \<Rightarrow> scan_args (drop MAX_PACKED_ARGS as) (index - MAX_PACKED_ARGS)
            | packed_values vs \<Rightarrow> None))"

subsection \<open>Named arguments\<close>

type_synonym ('d, 'c) arg_map = "(string \<times> ('d, 'c) Arg) list"

fun named_pair :: "('d, 'c) Value \<Rightarrow> (string \<times> ('d, 'c) Arg) option" where
  "named_pair (named_value n v t) = Some (n, \<lparr>arg_value = v, arg_type = t\<rparr>)"
| "named_pair v = None"

definition push_named :: "Type \<Rightarrow> ('d, 'c) Value option \<Rightarrow> ('d, 'c) arg_map \<Rightarrow> ('d, 'c) arg_map option" where
  "push_named t v m =
     (if t = NAMED_ARG then do { v \<leftarrow> v; p \<leftarrow> named_pair v; Some (m @ [p]) } else Some m)"

text \<open>The three loops of \<open>init\<close>; the first leaves at type 15 at the latest.\<close>

fun init_values :: "('d, 'c) ArgList \<Rightarrow> nat list \<Rightarrow> ('d, 'c) arg_map \<Rightarrow> ('d, 'c) arg_map option" where
  "init_values al [] m = None"
| "init_values al (i # is) m = do {
     t \<leftarrow> type_at (al_types al) i;
     if t = NONE then Some m
     else do { m \<leftarrow> push_named t (read_value True (al_array al) i) m; init_values al is m } }"

fun init_packed :: "('d, 'c) ArgList \<Rightarrow> nat list \<Rightarrow> ('d, 'c) arg_map \<Rightarrow> ('d, 'c) arg_map option" where
  "init_packed al [] m = Some m"
| "init_packed al (i # is) m = do {
     t \<leftarrow> type_at (al_types al) i;
     m \<leftarrow> push_named t (read_value False (al_array al) i) m;
     init_packed al is m }"

fun init_rest :: "('d, 'c) Arg list \<Rightarrow> ('d, 'c) arg_map \<Rightarrow> ('d, 'c) arg_map option" where
  "init_rest [] m = None"
| "init_rest (a # as) m =
     (if arg_type a = NONE then Some m
      else do { m \<leftarrow> push_named (arg_type a) (Some (arg_value a)) m; init_rest as m })"

definition ArgMap_init :: "('d, 'c) ArgList \<Rightarrow> ('d, 'c) arg_map \<Rightarrow> ('d, 'c) arg_map option" where
  "ArgMap_init al m =
     (if m \<noteq> [] then Some m
      else if use_values al then init_values al [0 ..< MAX_PACKED_ARGS] m
      else do {
        m \<leftarrow> init_packed al [0 ..< MAX_PACKED_ARGS] m;
        (case al_array al of full_args as \<Rightarrow> init_rest (drop MAX_PACKED_ARGS as) m | packed_values vs \<Rightarrow> None) })"

definition ArgMap_find :: "('d, 'c) arg_map \<Rightarrow> string \<Rightarrow> ('d, 'c) Arg option" where
  "ArgMap_find m name = map_of m name"

end
