(* ===== verification/Fmt_Format.thy ===== *)
theory Fmt_Format
  imports Fmt_Args
begin

unbundle bit_operations_syntax

text \<open>
  Format strings, from \<^verbatim>\<open>spdlog/fmt/bundled/format.h\<close> and \<^verbatim>\<open>format.cc\<close>: strings and
  characters written with a format specifier, the choice of the argument a replacement field
  means, the parser of specifiers, and the loop over the format string. A position in the
  format string is the text from there to its terminator. A call ends normally, with the
  exception \<open>FormatError\<close>, or has no defined meaning.
\<close>

subsection \<open>Results\<close>

datatype 'a fm = Fine 'a | Format_Throw string | Undef

fun fm_bind :: "'a fm \<Rightarrow> ('a \<Rightarrow> 'b fm) \<Rightarrow> 'b fm" where
  "fm_bind (Fine x) f = f x"
| "fm_bind (Format_Throw e) f = Format_Throw e"
| "fm_bind Undef f = Undef"

lemma fm_bind_cong [fundef_cong]:
  "m = m' \<Longrightarrow> (\<And>x. m' = Fine x \<Longrightarrow> f x = f' x) \<Longrightarrow> fm_bind m f = fm_bind m' f'"
  by (cases m') auto

lemma fm_bind_Fine: "fm_bind m f = Fine y \<longleftrightarrow> (\<exists>x. m = Fine x \<and> f x = Fine y)"
  by (cases m) auto

definition fm_of :: "'a option \<Rightarrow> 'a fm" where
  "fm_of x = (case x of Some y \<Rightarrow> Fine y | None \<Rightarrow> Undef)"

lemma fm_of_simps [simp]: "fm_of (Some x) = Fine x" "fm_of None = Undef"
  by (simp_all add: fm_of_def)

lemma fm_of_Fine: "fm_of x = Fine y \<longleftrightarrow> x = Some y"
  by (cases x) simp_all

definition quoted :: "string \<Rightarrow> string" where
  "quoted s = CHR 0x27 # s @ [CHR 0x27]"

subsection \<open>Strings\<close>

text \<open>
  \<open>write_str\<close> on characters answers where they start; on a string value it checks type and
  pointer first and cuts to the precision.
\<close>

definition write_str_at :: "string \<Rightarrow> FormatSpec \<Rightarrow> buffer \<Rightarrow> (nat \<times> buffer) option" where
  "write_str_at s spec b =
     (let size = length s; width = fs_width spec; fill = fs_fill spec; out = length b
      in if width > size
         then let b = grow_buffer width b
              in case fs_align spec of
                   ALIGN_RIGHT \<Rightarrow> do {
                     b \<leftarrow> blit out (replicate (width - size) fill) b;
                     b \<leftarrow> blit (out + (width - size)) s b;
                     Some (out + (width - size), b) }
                 | ALIGN_CENTER \<Rightarrow> do {
                     (out, b) \<leftarrow> fill_padding out width size fill b;
                     b \<leftarrow> blit out s b;
                     Some (out, b) }
                 | _ \<Rightarrow> do {
                     b \<leftarrow> blit (out + size) (replicate (width - size) fill) b;
                     b \<leftarrow> blit out s b;
                     Some (out, b) }
         else do { b \<leftarrow> blit out s (grow_buffer size b); Some (out, b) })"

definition isprint :: "char \<Rightarrow> bool" where
  "isprint c = (0x20 \<le> (of_char c :: nat) \<and> (of_char c :: nat) \<le> 0x7E)"

definition report_unknown_type :: "char \<Rightarrow> string \<Rightarrow> 'a fm" where
  "report_unknown_type code type =
     (if isprint code
      then Format_Throw (''unknown format code '' @ quoted [code] @ '' for '' @ type)
      else case write_int '''' (unsigned_parts (char_value code))
             (empty_spec\<lparr>fs_width := 2, fs_fill := CHR ''0'', fs_align := ALIGN_NUMERIC, fs_type := Some CHR ''x''\<rparr>) [] of
             Wrote b \<Rightarrow> Format_Throw (''unknown format code '' @ quoted (CHR 0x5C # CHR ''x'' # map the b) @ '' for '' @ type)
           | _ \<Rightarrow> Undef)"

definition write_str :: "u64 \<Rightarrow> string \<Rightarrow> FormatSpec \<Rightarrow> buffer \<Rightarrow> buffer fm" where
  "write_str ptr s spec b =
     fm_bind
       (case fs_type spec of
          Some t \<Rightarrow> if t \<noteq> CHR ''s'' then report_unknown_type t ''string'' else Fine ()
        | None \<Rightarrow> Fine ())
       (\<lambda>_.
          if s = [] \<and> ptr = 0 then Format_Throw ''string pointer is null''
          else
            let s = (if fs_precision spec \<ge> 0 then take (nat (fs_precision spec)) s else s)
            in fm_bind (fm_of (write_str_at s spec b)) (\<lambda>(out, b). Fine b))"

subsection \<open>Formatting one argument\<close>

text \<open>
  What the code relies on: the thousands separator of the locale, the formatting of
  floating-point values, and user-defined formatting, which is given the text behind the name
  or index and answers how much of it it used.
\<close>

record ('d, 'c) formatter =
  fr_args :: "('d, 'c) ArgList"
  fr_next :: int
  fr_map :: "('d, 'c) arg_map"

record ('d, 'c) fmt_env =
  fe_sep :: string
  fe_double :: "'d \<Rightarrow> FormatSpec \<Rightarrow> buffer \<Rightarrow> buffer fm"
  fe_custom :: "'c \<Rightarrow> string \<Rightarrow> ('d, 'c) formatter \<Rightarrow> buffer \<Rightarrow> (nat \<times> ('d, 'c) formatter \<times> buffer) fm"

definition MINUS_FLAG :: nat where "MINUS_FLAG = 4"
definition CHAR_FLAG :: nat where "CHAR_FLAG = 0x10"

text \<open>\<open>write_int\<close> with the exception of \<open>report_unknown_type\<close> filled in.\<close>

definition visit_any_int :: "string \<Rightarrow> bool \<times> nat \<Rightarrow> FormatSpec \<Rightarrow> buffer \<Rightarrow> buffer fm" where
  "visit_any_int sep v spec b =
     (case write_int sep v spec b of
        Wrote b \<Rightarrow> Fine b
      | Format_Error \<Rightarrow>
          (case fs_type spec of
             Some t \<Rightarrow> report_unknown_type t (if spec_flag spec CHAR_FLAG then ''char'' else ''integer'')
           | None \<Rightarrow> Undef)
      | Overrun \<Rightarrow> Undef)"

definition write_pointer :: "string \<Rightarrow> u64 \<Rightarrow> FormatSpec \<Rightarrow> buffer \<Rightarrow> buffer fm" where
  "write_pointer sep p spec b =
     visit_any_int sep (unsigned_parts p) (spec\<lparr>fs_flags := HASH_FLAG, fs_type := Some CHR ''x''\<rparr>) b"

definition visit_bool :: "string \<Rightarrow> bool \<Rightarrow> FormatSpec \<Rightarrow> buffer \<Rightarrow> buffer fm" where
  "visit_bool sep v spec b =
     (if fs_type spec \<noteq> None then visit_any_int sep (False, if v then 1 else 0) spec b
      else write_str 1 (if v then ''true'' else ''false'') spec b)"

definition visit_char :: "string \<Rightarrow> i32 \<Rightarrow> FormatSpec \<Rightarrow> buffer \<Rightarrow> buffer fm" where
  "visit_char sep v spec b =
     (if fs_type spec \<noteq> None \<and> fs_type spec \<noteq> Some CHR ''c''
      then visit_any_int sep (signed_parts v) (spec\<lparr>fs_flags := fs_flags spec OR CHAR_FLAG\<rparr>) b
      else if fs_align spec = ALIGN_NUMERIC \<or> fs_flags spec \<noteq> 0
      then Format_Throw ''invalid format specifier for char''
      else
        let fill = fs_fill spec; width = fs_width spec; out = length b;
            ch = char_of (unat (ucast v :: byte))
        in fm_of (
          if width > 1
          then let b = grow_buffer width b
               in case fs_align spec of
                    ALIGN_RIGHT \<Rightarrow> do {
                      b \<leftarrow> blit out (replicate (width - 1) fill) b;
                      blit (out + (width - 1)) [ch] b }
                  | ALIGN_CENTER \<Rightarrow> do {
                      (out, b) \<leftarrow> fill_padding out width 1 fill b;
                      blit out [ch] b }
                  | _ \<Rightarrow> do {
                      b \<leftarrow> blit (out + 1) (replicate (width - 1) fill) b;
                      blit out [ch] b }
          else blit out [ch] (grow_buffer 1 b)))"

definition visit_cstring :: "string \<Rightarrow> u64 \<Rightarrow> string \<Rightarrow> FormatSpec \<Rightarrow> buffer \<Rightarrow> buffer fm" where
  "visit_cstring sep ptr s spec b =
     (if fs_type spec = Some CHR ''p'' then write_pointer sep ptr spec b
      else write_str ptr (takeWhile (\<lambda>c. c \<noteq> CHR 0x00) s) spec b)"

definition visit_pointer :: "string \<Rightarrow> u64 \<Rightarrow> FormatSpec \<Rightarrow> buffer \<Rightarrow> buffer fm" where
  "visit_pointer sep p spec b =
     (case fs_type spec of
        Some t \<Rightarrow> if t \<noteq> CHR ''p'' then report_unknown_type t ''pointer'' else write_pointer sep p spec b
      | None \<Rightarrow> write_pointer sep p spec b)"

text \<open>
  \<open>visit\<close>; \<open>rest\<close> is what custom formatting would see. A field of type \<open>NONE\<close> or \<open>NAMED_ARG\<close>
  fails the assertion, a wide string prints nothing.
\<close>

definition visit :: "('d, 'c) fmt_env \<Rightarrow> FormatSpec \<Rightarrow> string \<Rightarrow> ('d, 'c) Arg \<Rightarrow> ('d, 'c) formatter \<Rightarrow> buffer \<Rightarrow>
    (('d, 'c) formatter \<times> buffer) fm" where
  "visit env spec rest arg fr b =
     (let sep = fe_sep env;
          out = (\<lambda>r. fm_bind r (\<lambda>b. Fine (fr, b)))
      in case (arg_type arg, arg_value arg) of
           (INT_ARG, int_value v) \<Rightarrow> out (visit_any_int sep (signed_parts v) spec b)
         | (UINT, uint_value v) \<Rightarrow> out (visit_any_int sep (unsigned_parts v) spec b)
         | (LONG_LONG, long_long_value v) \<Rightarrow> out (visit_any_int sep (signed_parts v) spec b)
         | (ULONG_LONG, ulong_long_value v) \<Rightarrow> out (visit_any_int sep (unsigned_parts v) spec b)
         | (BOOL, int_value v) \<Rightarrow> out (visit_bool sep (v \<noteq> 0) spec b)
         | (CHAR_ARG, int_value v) \<Rightarrow> out (visit_char sep v spec b)
         | (DOUBLE, double_value d) \<Rightarrow> out (fe_double env d spec b)
         | (LONG_DOUBLE, long_double_value d) \<Rightarrow> out (fe_double env d spec b)
         | (CSTRING, string_value p s) \<Rightarrow> out (visit_cstring sep p s spec b)
         | (STRING, string_value p s) \<Rightarrow> out (write_str p s spec b)
         | (WSTRING, _) \<Rightarrow> out (Fine b)
         | (POINTER, pointer p) \<Rightarrow> out (visit_pointer sep p spec b)
         | (CUSTOM, custom c) \<Rightarrow> fm_bind (fe_custom env c rest fr b) (\<lambda>(used, fr, b). Fine (fr, b))
         | _ \<Rightarrow> Undef)"

subsection \<open>Which argument\<close>

text \<open>An error message instead of an argument is the second component.\<close>

definition new_formatter :: "('d, 'c) ArgList \<Rightarrow> ('d, 'c) formatter" where
  "new_formatter al = \<lparr>fr_args = al, fr_next = 0, fr_map = []\<rparr>"

definition do_get_arg :: "nat \<Rightarrow> ('d, 'c) formatter \<Rightarrow> (('d, 'c) Arg \<times> string option) option" where
  "do_get_arg arg_index fr = do {
     arg \<leftarrow> ArgList_at (fr_args fr) arg_index;
     (case arg_type arg of
        NONE \<Rightarrow> Some (arg, Some ''argument index out of range'')
      | NAMED_ARG \<Rightarrow> do { (name, arg) \<leftarrow> named_pair (arg_value arg); Some (arg, None) }
      | _ \<Rightarrow> Some (arg, None)) }"

definition next_arg :: "('d, 'c) formatter \<Rightarrow> (('d, 'c) Arg \<times> string option \<times> ('d, 'c) formatter) option" where
  "next_arg fr =
     (if fr_next fr \<ge> 0
      then do {
        (arg, error) \<leftarrow> do_get_arg (nat (fr_next fr)) fr;
        Some (arg, error, fr\<lparr>fr_next := fr_next fr + 1\<rparr>) }
      else Some (none_arg, Some ''cannot switch from manual to automatic argument indexing'', fr))"

definition check_no_auto_index :: "('d, 'c) formatter \<Rightarrow> string option \<times> ('d, 'c) formatter" where
  "check_no_auto_index fr =
     (if fr_next fr > 0
      then (Some ''cannot switch from automatic to manual argument indexing'', fr)
      else (None, fr\<lparr>fr_next := - 1\<rparr>))"

definition get_arg :: "nat \<Rightarrow> ('d, 'c) formatter \<Rightarrow> (('d, 'c) Arg \<times> string option \<times> ('d, 'c) formatter) option" where
  "get_arg arg_index fr =
     (case check_no_auto_index fr of
        (None, fr) \<Rightarrow> do { (arg, error) \<leftarrow> do_get_arg arg_index fr; Some (arg, error, fr) }
      | (Some e, fr) \<Rightarrow> Some (none_arg, Some e, fr))"

definition get_named_arg :: "string \<Rightarrow> ('d, 'c) formatter \<Rightarrow>
    (('d, 'c) Arg \<times> string option \<times> ('d, 'c) formatter) option" where
  "get_named_arg name fr =
     (case check_no_auto_index fr of
        (None, fr) \<Rightarrow> do {
          m \<leftarrow> ArgMap_init (fr_args fr) (fr_map fr);
          let fr = fr\<lparr>fr_map := m\<rparr>;
          (case ArgMap_find m name of
             Some arg \<Rightarrow> Some (arg, None, fr)
           | None \<Rightarrow> Some (none_arg, Some ''argument not found'', fr)) }
      | (Some e, fr) \<Rightarrow> Some (none_arg, Some e, fr))"

subsection \<open>Parsing\<close>

text \<open>The character at a position; the end of the string reads as the terminator.\<close>

definition peek :: "string \<Rightarrow> char" where
  "peek s = (case s of [] \<Rightarrow> CHR 0x00 | c # _ \<Rightarrow> c)"

definition is_name_start :: "char \<Rightarrow> bool" where
  "is_name_start c =
     ((97 \<le> (of_char c :: nat) \<and> (of_char c :: nat) \<le> 122) \<or> (65 \<le> (of_char c :: nat) \<and> (of_char c :: nat) \<le> 90) \<or>
      c = CHR ''_'')"

definition is_digit :: "char \<Rightarrow> bool" where
  "is_digit c = (48 \<le> (of_char c :: nat) \<and> (of_char c :: nat) \<le> 57)"

definition max_int :: nat where
  "max_int = 2147483647"

fun parse_digits :: "nat \<Rightarrow> string \<Rightarrow> nat \<times> string" where
  "parse_digits value [] = (value, [])"
| "parse_digits value (c # s) =
     (if is_digit c
      then if value > max_int div 10 then (max_int + 1, c # s)
           else parse_digits (value * 10 + (of_char c - 48)) s
      else (value, c # s))"

definition parse_nonnegative_int :: "string \<Rightarrow> (nat \<times> string) fm" where
  "parse_nonnegative_int s =
     (case parse_digits 0 s of (value, s) \<Rightarrow>
        if value > max_int then Format_Throw ''number is too big'' else Fine (value, s))"

definition parse_arg_index :: "string \<Rightarrow> ('d, 'c) formatter \<Rightarrow> (('d, 'c) Arg \<times> string \<times> ('d, 'c) formatter) fm" where
  "parse_arg_index s fr =
     fm_bind
       (if \<not> is_digit (peek s)
        then fm_bind (fm_of (next_arg fr)) (\<lambda>r. Fine (r, s))
        else fm_bind (parse_nonnegative_int s) (\<lambda>(n, s). fm_bind (fm_of (get_arg n fr)) (\<lambda>r. Fine (r, s))))
       (\<lambda>((arg, error, fr), s).
          case error of
            Some e \<Rightarrow> Format_Throw (if peek s \<noteq> CHR ''}'' \<and> peek s \<noteq> CHR '':'' then ''invalid format string'' else e)
          | None \<Rightarrow> Fine (arg, s, fr))"

definition name_char :: "char \<Rightarrow> bool" where
  "name_char c = (is_name_start c \<or> is_digit c)"

definition parse_arg_name :: "string \<Rightarrow> ('d, 'c) formatter \<Rightarrow> (('d, 'c) Arg \<times> string \<times> ('d, 'c) formatter) fm" where
  "parse_arg_name s fr =
     fm_bind (fm_of (get_named_arg (takeWhile name_char s) fr)) (\<lambda>(arg, error, fr).
       case error of
         Some e \<Rightarrow> Format_Throw e
       | None \<Rightarrow> Fine (arg, dropWhile name_char s, fr))"

definition parse_arg :: "string \<Rightarrow> ('d, 'c) formatter \<Rightarrow> (('d, 'c) Arg \<times> string \<times> ('d, 'c) formatter) fm" where
  "parse_arg s fr = (if is_name_start (peek s) then parse_arg_name s fr else parse_arg_index s fr)"

definition require_numeric_argument :: "('d, 'c) Arg \<Rightarrow> char \<Rightarrow> unit fm" where
  "require_numeric_argument arg ch =
     (if type_code (arg_type arg) > type_code LAST_NUMERIC_TYPE
      then Format_Throw (''format specifier '' @ quoted [ch] @ '' requires numeric argument'')
      else Fine ())"

definition check_sign :: "string \<Rightarrow> ('d, 'c) Arg \<Rightarrow> string fm" where
  "check_sign s arg =
     fm_bind (require_numeric_argument arg (peek s)) (\<lambda>_.
       if arg_type arg = UINT \<or> arg_type arg = ULONG_LONG
       then Format_Throw (''format specifier '' @ quoted [peek s] @ '' requires signed argument'')
       else Fine (tl s))"

text \<open>
  The blocks of the specifier's parser. \<open>parse_align\<close> looks at the second character first,
  wherever that is, then at the first.
\<close>

definition align_of :: "char \<Rightarrow> Alignment" where
  "align_of c =
     (if c = CHR ''<'' then ALIGN_LEFT else if c = CHR ''>'' then ALIGN_RIGHT
      else if c = CHR ''='' then ALIGN_NUMERIC else if c = CHR ''^'' then ALIGN_CENTER else ALIGN_DEFAULT)"

definition check_numeric_align :: "Alignment \<Rightarrow> ('d, 'c) Arg \<Rightarrow> unit fm" where
  "check_numeric_align a arg = (if a = ALIGN_NUMERIC then require_numeric_argument arg CHR ''='' else Fine ())"

definition parse_align :: "('d, 'c) Arg \<Rightarrow> FormatSpec \<Rightarrow> string \<Rightarrow> (FormatSpec \<times> string) fm" where
  "parse_align arg spec s =
     (let c = peek s; second = align_of (peek (tl s)); first = align_of c
      in if c = CHR 0x00 then Fine (spec, s)
         else if second \<noteq> ALIGN_DEFAULT
         then if c = CHR ''}'' then Fine (spec\<lparr>fs_align := second\<rparr>, s)
              else if c = CHR ''{'' then Format_Throw (''invalid fill character '' @ quoted ''{'')
              else fm_bind (check_numeric_align second arg)
                     (\<lambda>_. Fine (spec\<lparr>fs_align := second, fs_fill := c\<rparr>, drop 2 s))
         else if first \<noteq> ALIGN_DEFAULT
         then fm_bind (check_numeric_align first arg) (\<lambda>_. Fine (spec\<lparr>fs_align := first\<rparr>, tl s))
         else Fine (spec, s))"

definition add_flags :: "nat \<Rightarrow> FormatSpec \<Rightarrow> FormatSpec" where
  "add_flags f spec = spec\<lparr>fs_flags := fs_flags spec OR f\<rparr>"

definition parse_sign :: "('d, 'c) Arg \<Rightarrow> FormatSpec \<Rightarrow> string \<Rightarrow> (FormatSpec \<times> string) fm" where
  "parse_sign arg spec s =
     (if peek s = CHR ''+'' then fm_bind (check_sign s arg) (\<lambda>s. Fine (add_flags (SIGN_FLAG OR PLUS_FLAG) spec, s))
      else if peek s = CHR ''-'' then fm_bind (check_sign s arg) (\<lambda>s. Fine (add_flags MINUS_FLAG spec, s))
      else if peek s = CHR '' '' then fm_bind (check_sign s arg) (\<lambda>s. Fine (add_flags SIGN_FLAG spec, s))
      else Fine (spec, s))"

definition parse_hash :: "('d, 'c) Arg \<Rightarrow> FormatSpec \<Rightarrow> string \<Rightarrow> (FormatSpec \<times> string) fm" where
  "parse_hash arg spec s =
     (if peek s = CHR ''#''
      then fm_bind (require_numeric_argument arg CHR ''#'') (\<lambda>_. Fine (add_flags HASH_FLAG spec, tl s))
      else Fine (spec, s))"

definition parse_zero :: "('d, 'c) Arg \<Rightarrow> FormatSpec \<Rightarrow> string \<Rightarrow> (FormatSpec \<times> string) fm" where
  "parse_zero arg spec s =
     (if peek s = CHR ''0''
      then fm_bind (require_numeric_argument arg CHR ''0'')
             (\<lambda>_. Fine (spec\<lparr>fs_align := ALIGN_NUMERIC, fs_fill := CHR ''0''\<rparr>, tl s))
      else Fine (spec, s))"

text \<open>Width and precision may be arguments themselves; \<open>what\<close> is the word for the messages.\<close>

definition size_of_arg :: "string \<Rightarrow> ('d, 'c) Arg \<Rightarrow> nat fm" where
  "size_of_arg what arg =
     fm_bind
       (case (arg_type arg, arg_value arg) of
          (INT_ARG, int_value v) \<Rightarrow> if sint v < 0 then Format_Throw (''negative '' @ what) else Fine (unat v)
        | (UINT, uint_value v) \<Rightarrow> Fine (unat v)
        | (LONG_LONG, long_long_value v) \<Rightarrow> if sint v < 0 then Format_Throw (''negative '' @ what) else Fine (unat v)
        | (ULONG_LONG, ulong_long_value v) \<Rightarrow> Fine (unat v)
        | (t, _) \<Rightarrow>
            if t \<in> {INT_ARG, UINT, LONG_LONG, ULONG_LONG} then Undef
            else Format_Throw (what @ '' is not integer''))
       (\<lambda>value. if value > max_int then Format_Throw ''number is too big'' else Fine value)"

definition parse_dynamic :: "string \<Rightarrow> string \<Rightarrow> ('d, 'c) formatter \<Rightarrow> (nat \<times> string \<times> ('d, 'c) formatter) fm" where
  "parse_dynamic what s fr =
     fm_bind (parse_arg s fr) (\<lambda>(arg, s, fr).
       if peek s \<noteq> CHR ''}'' then Format_Throw ''invalid format string''
       else fm_bind (size_of_arg what arg) (\<lambda>n. Fine (n, tl s, fr)))"

definition parse_width :: "FormatSpec \<Rightarrow> string \<Rightarrow> ('d, 'c) formatter \<Rightarrow> (FormatSpec \<times> string \<times> ('d, 'c) formatter) fm" where
  "parse_width spec s fr =
     (if is_digit (peek s)
      then fm_bind (parse_nonnegative_int s) (\<lambda>(n, s). Fine (spec\<lparr>fs_width := n\<rparr>, s, fr))
      else if peek s = CHR ''{''
      then fm_bind (parse_dynamic ''width'' (tl s) fr) (\<lambda>(n, s, fr). Fine (spec\<lparr>fs_width := n\<rparr>, s, fr))
      else Fine (spec, s, fr))"

definition parse_precision :: "('d, 'c) Arg \<Rightarrow> FormatSpec \<Rightarrow> string \<Rightarrow> ('d, 'c) formatter \<Rightarrow>
    (FormatSpec \<times> string \<times> ('d, 'c) formatter) fm" where
  "parse_precision arg spec s fr =
     (if peek s = CHR ''.''
      then
        let s = tl s
        in fm_bind
             (if is_digit (peek s) then fm_bind (parse_nonnegative_int s) (\<lambda>(n, s). Fine (n, s, fr))
              else if peek s = CHR ''{'' then parse_dynamic ''precision'' (tl s) fr
              else Format_Throw ''missing precision specifier'')
             (\<lambda>(n, s, fr).
                if type_code (arg_type arg) \<le> type_code LAST_INTEGER_TYPE \<or> arg_type arg = POINTER
                then Format_Throw (''precision not allowed in '' @
                  (if arg_type arg = POINTER then ''pointer'' else ''integer'') @ '' format specifier'')
                else Fine (spec\<lparr>fs_precision := int n\<rparr>, s, fr))
      else Fine (spec, s, fr))"

definition parse_type :: "FormatSpec \<Rightarrow> string \<Rightarrow> FormatSpec \<times> string" where
  "parse_type spec s =
     (if peek s \<noteq> CHR ''}'' \<and> peek s \<noteq> CHR 0x00 then (spec\<lparr>fs_type := Some (peek s)\<rparr>, tl s) else (spec, s))"

definition parse_spec :: "('d, 'c) Arg \<Rightarrow> string \<Rightarrow> ('d, 'c) formatter \<Rightarrow>
    (FormatSpec \<times> string \<times> ('d, 'c) formatter) fm" where
  "parse_spec arg s fr =
     fm_bind (parse_align arg empty_spec s) (\<lambda>(spec, s).
     fm_bind (parse_sign arg spec s) (\<lambda>(spec, s).
     fm_bind (parse_hash arg spec s) (\<lambda>(spec, s).
     fm_bind (parse_zero arg spec s) (\<lambda>(spec, s).
     fm_bind (parse_width spec s fr) (\<lambda>(spec, s, fr).
     fm_bind (parse_precision arg spec s fr) (\<lambda>(spec, s, fr).
       case parse_type spec s of (spec, s) \<Rightarrow> Fine (spec, s, fr)))))))"

subsection \<open>The format string\<close>

definition finish_field :: "('d, 'c) fmt_env \<Rightarrow> FormatSpec \<Rightarrow> string \<Rightarrow> ('d, 'c) Arg \<Rightarrow> ('d, 'c) formatter \<Rightarrow> buffer \<Rightarrow>
    (string \<times> ('d, 'c) formatter \<times> buffer) fm" where
  "finish_field env spec s arg fr b =
     (if peek s \<noteq> CHR ''}''
      then Format_Throw (''missing '' @ quoted ''}'' @ '' in format string'')
      else fm_bind (visit env spec s arg fr b) (\<lambda>(fr, b). Fine (tl s, fr, b)))"

definition format_arg :: "('d, 'c) fmt_env \<Rightarrow> string \<Rightarrow> ('d, 'c) Arg \<Rightarrow> ('d, 'c) formatter \<Rightarrow> buffer \<Rightarrow>
    (string \<times> ('d, 'c) formatter \<times> buffer) fm" where
  "format_arg env s arg fr b =
     (if peek s = CHR '':''
      then case (arg_type arg, arg_value arg) of
             (CUSTOM, custom c) \<Rightarrow>
               fm_bind (fe_custom env c s fr b) (\<lambda>(used, fr, b).
                 if used \<le> length s then Fine (drop used s, fr, b) else Undef)
           | (t, _) \<Rightarrow>
               if t = CUSTOM then Undef
               else fm_bind (parse_spec arg (tl s) fr) (\<lambda>(spec, s, fr). finish_field env spec s arg fr b)
      else finish_field env empty_spec s arg fr b)"

text \<open>No part of the parser goes back, so the loop ends.\<close>

lemma parse_digits_length: "parse_digits n s = (v, s') \<Longrightarrow> length s' \<le> length s"
proof (induction n s rule: parse_digits.induct)
  case (2 n c s)
  show ?case
  proof (cases "is_digit c \<and> \<not> n > max_int div 10")
    case True
    then have "parse_digits (n * 10 + (of_char c - 48)) s = (v, s')" using 2(2) by simp
    then have "length s' \<le> length s" using 2(1) True by blast
    then show ?thesis by simp
  qed (use 2(2) in \<open>auto split: if_splits\<close>)
qed simp

lemma parse_int_length: "parse_nonnegative_int s = Fine (v, s') \<Longrightarrow> length s' \<le> length s"
  by (auto simp: parse_nonnegative_int_def split: prod.splits if_splits dest: parse_digits_length)

lemma parse_arg_length:
  assumes "parse_arg s fr = Fine (arg, s', fr')"
  shows "length s' \<le> length s"
proof (cases "is_name_start (peek s)")
  case True
  then show ?thesis
    using assms length_dropWhile_le [of name_char s]
    by (auto simp: parse_arg_def parse_arg_name_def fm_bind_Fine split: option.splits)
next
  case False
  then show ?thesis
    using assms
    by (auto simp: parse_arg_def parse_arg_index_def fm_bind_Fine split: option.splits if_splits
        dest: parse_int_length)
qed

lemma parse_align_length: "parse_align arg spec s = Fine (spec', s') \<Longrightarrow> length s' \<le> length s"
  by (auto simp: parse_align_def Let_def fm_bind_Fine split: if_splits)

lemma check_sign_length: "check_sign s arg = Fine s' \<Longrightarrow> length s' \<le> length s"
  by (auto simp: check_sign_def fm_bind_Fine split: if_splits)

lemma parse_sign_length: "parse_sign arg spec s = Fine (spec', s') \<Longrightarrow> length s' \<le> length s"
  by (auto simp: parse_sign_def fm_bind_Fine split: if_splits dest: check_sign_length)

lemma parse_hash_length: "parse_hash arg spec s = Fine (spec', s') \<Longrightarrow> length s' \<le> length s"
  by (auto simp: parse_hash_def fm_bind_Fine split: if_splits)

lemma parse_zero_length: "parse_zero arg spec s = Fine (spec', s') \<Longrightarrow> length s' \<le> length s"
  by (auto simp: parse_zero_def fm_bind_Fine split: if_splits)

lemma parse_dynamic_length:
  assumes "parse_dynamic what s fr = Fine (n, s', fr')"
  shows "length s' \<le> length s"
proof -
  obtain arg t f where p: "parse_arg s fr = Fine (arg, t, f)" and "s' = tl t"
    using assms by (auto simp: parse_dynamic_def fm_bind_Fine split: if_splits)
  then show ?thesis using parse_arg_length [OF p] by simp
qed

lemma parse_width_length:
  assumes "parse_width spec s fr = Fine (spec', s', fr')"
  shows "length s' \<le> length s"
proof -
  consider "\<exists>n. parse_nonnegative_int s = Fine (n, s')" | "\<exists>n. parse_dynamic ''width'' (tl s) fr = Fine (n, s', fr')"
    | "s' = s"
    using assms by (auto simp: parse_width_def fm_bind_Fine split: if_splits)
  then show ?thesis
    by cases (auto dest: parse_int_length parse_dynamic_length)
qed

lemma parse_precision_length:
  assumes "parse_precision arg spec s fr = Fine (spec', s', fr')"
  shows "length s' \<le> length s"
proof -
  consider "\<exists>n. parse_nonnegative_int (tl s) = Fine (n, s')"
    | "\<exists>n. parse_dynamic ''precision'' (tl (tl s)) fr = Fine (n, s', fr')" | "s' = s"
    using assms by (auto simp: parse_precision_def Let_def fm_bind_Fine split: if_splits)
  then show ?thesis
    by cases (auto dest: parse_int_length parse_dynamic_length)
qed

lemma parse_spec_length:
  assumes "parse_spec arg s fr = Fine (spec', s', fr')"
  shows "length s' \<le> length s"
proof -
  obtain sp1 s1 sp2 s2 sp3 s3 sp4 s4 sp5 s5 f5 sp6 s6
    where p: "parse_align arg empty_spec s = Fine (sp1, s1)" "parse_sign arg sp1 s1 = Fine (sp2, s2)"
      "parse_hash arg sp2 s2 = Fine (sp3, s3)" "parse_zero arg sp3 s3 = Fine (sp4, s4)"
      "parse_width sp4 s4 fr = Fine (sp5, s5, f5)" "parse_precision arg sp5 s5 f5 = Fine (sp6, s6, fr')"
      and t: "parse_type sp6 s6 = (spec', s')"
    using assms by (auto simp: parse_spec_def fm_bind_Fine split_beta prod_eq_iff)
  have "length s' \<le> length s6" using t by (auto simp: parse_type_def split: if_splits)
  then show ?thesis
    using parse_align_length [OF p(1)] parse_sign_length [OF p(2)] parse_hash_length [OF p(3)]
      parse_zero_length [OF p(4)] parse_width_length [OF p(5)] parse_precision_length [OF p(6)]
    by linarith
qed

lemma finish_field_length: "finish_field env spec s arg fr b = Fine (s', fr', b') \<Longrightarrow> length s' \<le> length s"
  by (auto simp: finish_field_def fm_bind_Fine split: if_splits)

lemma format_arg_length:
  assumes "format_arg env s arg fr b = Fine (s', fr', b')"
  shows "length s' \<le> length s"
proof -
  consider spec f b0 where "finish_field env spec s arg f b0 = Fine (s', fr', b')" | k where "s' = drop k s"
    | spec t f where "parse_spec arg (tl s) fr = Fine (spec, t, f)" "finish_field env spec t arg f b = Fine (s', fr', b')"
    using assms by (auto simp: format_arg_def fm_bind_Fine split: if_splits Type.splits Value.splits prod.splits)
  then show ?thesis
  proof cases
    case 3
    then show ?thesis using parse_spec_length [OF 3(1)] finish_field_length [OF 3(2)] by simp
  qed (auto dest: finish_field_length)
qed

text \<open>The loop over the format string; \<open>lit\<close> is the text not written yet.\<close>

function format_from :: "('d, 'c) fmt_env \<Rightarrow> string \<Rightarrow> string \<Rightarrow> ('d, 'c) formatter \<Rightarrow> buffer \<Rightarrow>
    (('d, 'c) formatter \<times> buffer) fm" where
  "format_from env lit [] fr b = Fine (fr, b @ map Some lit)"
| "format_from env lit (c # s) fr b =
     (if c \<noteq> CHR ''{'' \<and> c \<noteq> CHR ''}'' then format_from env (lit @ [c]) s fr b
      else if peek s = c then format_from env [] (tl s) fr (b @ map Some (lit @ [c]))
      else if c = CHR ''}'' then Format_Throw (''unmatched '' @ quoted ''}'' @ '' in format string'')
      else fm_bind (parse_arg s fr) (\<lambda>(arg, s, fr).
           fm_bind (format_arg env s arg fr (b @ map Some lit)) (\<lambda>(s, fr, b). format_from env [] s fr b)))"
  by pat_completeness auto

termination
proof (relation "measure (\<lambda>(env, lit, s, fr, b). length s)", goal_cases)
  case (4 env lit c s fr b x arg y s' fr' z s'' w fr'' b'')
  then have "length s' \<le> length s" "length s'' \<le> length s'"
    by (auto dest: parse_arg_length format_arg_length)
  then show ?case by simp
qed auto

declare format_from.simps(2) [simp del]

text \<open>\<open>BasicWriter::write\<close>, from a string up to its terminator and a C++ argument list.\<close>

definition c_str :: "string \<Rightarrow> string" where
  "c_str s = takeWhile (\<lambda>c. c \<noteq> CHR 0x00) s"

definition format_write :: "('d, 'c) fmt_env \<Rightarrow> string \<Rightarrow> ('d, 'c) ArgList \<Rightarrow> buffer \<Rightarrow> buffer fm" where
  "format_write env fmt al b =
     fm_bind (format_from env [] (c_str fmt) (new_formatter al) b) (\<lambda>(fr, b). Fine b)"

end
