(* ===== verification/Fmt_Layout.thy ===== *)
theory Fmt_Layout
  imports Fmt_Int_Properties Fmt_Format
begin

unbundle bit_operations_syntax

text \<open>
  The writing routines against reference texts: integers in every base and with separators,
  strings and characters, each laid out in its width.
\<close>

subsection \<open>Bases that are powers of two\<close>

fun based :: "nat \<Rightarrow> string \<Rightarrow> nat \<Rightarrow> string" where
  "based k digits n =
     (if 0 < k \<and> 0 < n div 2 ^ k then based k digits (n div 2 ^ k) else []) @ [digits ! (n mod 2 ^ k)]"

declare based.simps [simp del]

lemma based_nonempty [simp]: "based k digits n \<noteq> []"
  by (subst based.simps) simp

lemma count_shifts_based: "count_shifts k n = length (based k digits n)"
proof (induction k n rule: count_shifts.induct)
  case (1 k n)
  then show ?case by (simp add: count_shifts.simps [of k n] based.simps [of k digits n])
qed

lemma write_shifts_hole:
  "write_shifts k digits n (length x + length (based k digits n), x @ replicate (length (based k digits n)) None @ y) =
    Some (x @ map Some (based k digits n) @ y)"
proof (induction n arbitrary: y rule: less_induct)
  case (less n)
  let ?m = "length (if 0 < k \<and> 0 < n div 2 ^ k then based k digits (n div 2 ^ k) else [])"
  have l: "length (based k digits n) = Suc ?m" by (simp add: based.simps [of k digits n])
  show ?case
    unfolding l write_shifts.simps [of k digits n] put_back_hole
    using less shift_shrinks by (simp add: based.simps [of k digits n])
qed

subsection \<open>Thousands separators\<close>

text \<open>
  The digits from the last to the first, after \<open>idx\<close> digits; the first has no separator in
  front of it.
\<close>

fun grouped :: "string \<Rightarrow> nat \<Rightarrow> string \<Rightarrow> string" where
  "grouped sep idx [] = []"
| "grouped sep idx [d] = [d]"
| "grouped sep idx (d # ds) = grouped sep (Suc idx) ds @ (if Suc idx mod 3 = 0 then sep else []) @ [d]"

lemma grouped_Cons:
  "ds \<noteq> [] \<Longrightarrow> grouped sep idx (d # ds) = grouped sep (Suc idx) ds @ (if Suc idx mod 3 = 0 then sep else []) @ [d]"
  by (cases ds) simp_all

lemma length_grouped:
  "ds \<noteq> [] \<Longrightarrow> length (grouped sep idx ds) = length ds + length sep * ((idx + length ds - 1) div 3 - idx div 3)"
proof (induction sep idx ds rule: grouped.induct)
  case (3 sep idx d e ds)
  let ?n = "idx + length (e # ds)"
  have "Suc idx div 3 \<le> ?n div 3" by (intro div_le_mono) simp
  then obtain q where q: "?n div 3 = Suc idx div 3 + q" using le_Suc_ex by blast
  have "length (grouped sep (Suc idx) (e # ds)) = length (e # ds) + length sep * (?n div 3 - Suc idx div 3)"
    using 3 by simp
  moreover have "Suc idx div 3 = (if Suc idx mod 3 = 0 then Suc (idx div 3) else idx div 3)"
    by (simp add: div_Suc)
  moreover have "idx + length (d # e # ds) - 1 = ?n" by simp
  ultimately show ?case
    by (simp only: q) (auto simp: grouped_Cons)
qed simp_all

lemma put_digit_sep_hole:
  assumes "u = (if Suc idx mod 3 = 0 then sep else [])"
  shows "put_digit sep ch (idx, length x + n + Suc (length u), x @ replicate (n + Suc (length u)) None @ y) =
    Some (Suc idx, length x + n, x @ replicate n None @ map Some (u @ [ch]) @ y)"
proof -
  have "put_digit sep ch (idx, length x + n + Suc (length u), x @ replicate (n + Suc (length u)) None @ y) =
    thousands_sep sep (idx, length x + (n + length u), x @ replicate (n + length u) None @ Some ch # y)"
    using put_back_hole [of ch x "n + length u" y] by (simp add: put_digit_def add.assoc)
  also have "\<dots> = Some (Suc idx, length x + n, x @ replicate n None @ map Some (u @ [ch]) @ y)"
    using blit_hole [of "x @ replicate n None" sep "Some ch # y"]
    by (auto simp: thousands_sep_def assms replicate_add)
  finally show ?thesis .
qed

lemma format_decimal_sep_hole:
  assumes "g = grouped sep idx (rev (decimal n))"
  shows "format_decimal sep n (idx, length x + length g, x @ replicate (length g) None @ y) = Some (x @ map Some g @ y)"
  using assms
proof (induction n arbitrary: idx y g rule: less_induct)
  case (less n)
  let ?u = "\<lambda>i. if Suc i mod 3 = 0 then sep else []"
  consider "n < 10" | "10 \<le> n" "n < 100" | "100 \<le> n" by linarith
  then show ?case
  proof cases
    case 1
    then show ?thesis
      using put_back_hole [of "digit_char n" x 0 y]
      by (simp add: less.prems format_decimal.simps [of _ n] decimal.simps [of n])
  next
    case 2
    have l: "length g = 1 + Suc (length (?u idx))" using 2 by (simp add: less.prems decimal_two)
    show ?thesis
      unfolding l
      using 2 DIGITS_nth [of n]
        put_digit_sep_hole [OF refl, of sep "DIGITS ! Suc (n * 2)" idx x 1 y]
        put_back_hole [of "DIGITS ! (n * 2)" x 0 "map Some (?u idx @ [DIGITS ! Suc (n * 2)]) @ y"]
      by (simp add: less.prems format_decimal.simps [of _ n] decimal_two del: replicate_Suc replicate_add)
  next
    case 3
    let ?k = "n mod 100" and ?g = "grouped sep (Suc (Suc idx)) (rev (decimal (n div 100)))"
    let ?y1 = "map Some (?u idx @ [DIGITS ! Suc (?k * 2)]) @ y"
    let ?y = "map Some (?u (Suc idx) @ [DIGITS ! (?k * 2)]) @ ?y1"
    have ds: "DIGITS ! (?k * 2) = digit_char (n div 10 mod 10)" "DIGITS ! Suc (?k * 2) = digit_char (n mod 10)"
      using DIGITS_nth [of ?k] by (simp_all add: mod_mod_cancel div_mod_hundred)
    have g: "g = ?g @ ?u (Suc idx) @ [DIGITS ! (?k * 2)] @ ?u idx @ [DIGITS ! Suc (?k * 2)]"
      unfolding less.prems ds using 3 by (simp add: decimal_hundreds grouped_Cons)
    have l: "length g = (length ?g + Suc (length (?u (Suc idx)))) + Suc (length (?u idx))"
      unfolding g by simp
    have "format_decimal sep n (idx, length x + length g, x @ replicate (length g) None @ y) =
      format_decimal sep (n div 100) (Suc (Suc idx), length x + length ?g, x @ replicate (length ?g) None @ ?y)"
      unfolding l
      using 3 put_digit_sep_hole [OF refl, of sep "DIGITS ! Suc (?k * 2)" idx x "length ?g + Suc (length (?u (Suc idx)))" y]
        put_digit_sep_hole [OF refl, of sep "DIGITS ! (?k * 2)" "Suc idx" x "length ?g" ?y1]
      by (simp add: format_decimal.simps [of _ n] Let_def add.assoc del: replicate_Suc replicate_add)
    also have "\<dots> = Some (x @ map Some ?g @ ?y)" using 3 by (intro less) simp_all
    also have "\<dots> = Some (x @ map Some g @ y)" by (simp add: g)
    finally show ?thesis .
  qed
qed

subsection \<open>Integers\<close>

text \<open>
  A prefix, digits, and what precision and width ask for around them: a precision puts zeros in
  front of the digits, in place of a zero the prefix ends with.
\<close>

definition precise_layout :: "FormatSpec \<Rightarrow> string \<Rightarrow> string \<Rightarrow> string" where
  "precise_layout spec prefix ds =
     (if fs_precision spec > int (length ds)
      then let prefix = (if prefix \<noteq> [] \<and> last prefix = CHR ''0'' then butlast prefix else prefix);
               number = prefix @ replicate (nat (fs_precision spec) - length ds) CHR ''0'' @ ds;
               fill = replicate (fs_width spec - length number) (fs_fill spec)
           in if fs_align spec = ALIGN_LEFT then number @ fill else fill @ number
      else layout (fs_width spec) (fs_fill spec) (fs_align spec) prefix ds)"

lemma prepare_numeric:
  assumes "0 < nd" and "nd \<le> k"
  shows "prepare_aligned nd (length prefix + k) CHR ''0'' ALIGN_NUMERIC prefix b =
    Some (length b + length prefix + k - 1, b @ map Some (prefix @ replicate (k - nd) CHR ''0'') @ replicate nd None)"
  using assms
  by (cases "nd = k")
    (simp_all add: prepare_aligned_def grow_buffer_def blit_def Let_def add.assoc min_def flip: replicate_add)

lemma prepare_precise:
  assumes "0 < length ds"
  shows "\<exists>x y. prepared b x (length ds) y (prepare_int_buffer (length ds) spec prefix b) \<and>
    x @ ds @ y = precise_layout spec prefix ds"
proof (cases "fs_precision spec > int (length ds)")
  case True
  define p where "p = (if prefix \<noteq> [] \<and> last prefix = CHR ''0'' then butlast prefix else prefix)"
  define k where "k = nat (fs_precision spec)"
  define x where "x = p @ replicate (k - length ds) CHR ''0''"
  let ?n = "length p + k" and ?fill = "replicate (fs_width spec - (length p + k)) (fs_fill spec)"
  have k: "length ds \<le> k" using True by (simp add: k_def)
  have n: "length x + length ds = ?n" using k by (simp add: x_def)
  have num: "prepare_aligned (length ds) ?n CHR ''0'' ALIGN_NUMERIC p c =
      Some (length c + ?n - 1, c @ map Some x @ replicate (length ds) None)" for c
    using prepare_numeric [OF assms k, of p c] by (simp add: x_def add.assoc)
  have out: "precise_layout spec prefix ds =
      (if fs_align spec = ALIGN_LEFT then x @ ds @ ?fill else ?fill @ x @ ds)"
    using True k by (simp add: precise_layout_def x_def Let_def flip: p_def k_def)
  have prep: "prepare_int_buffer (length ds) spec prefix b =
     (if ?n \<ge> fs_width spec then prepare_aligned (length ds) ?n CHR ''0'' ALIGN_NUMERIC p b
      else do {
        b \<leftarrow> (if fs_align spec \<noteq> ALIGN_LEFT then blit (length b) ?fill (grow_buffer (length ?fill) b) else Some b);
        (q, b) \<leftarrow> prepare_aligned (length ds) ?n CHR ''0'' ALIGN_NUMERIC p b;
        b \<leftarrow> (if fs_align spec = ALIGN_LEFT then blit (length b) ?fill (grow_buffer (length ?fill) b) else Some b);
        Some (q, b) })"
    using True by (simp add: prepare_int_buffer_def Let_def flip: p_def k_def)
  have grown: "blit (length c) ?fill (grow_buffer (length ?fill) c) = Some (c @ map Some ?fill)" for c
    by (simp add: grow_buffer_def blit_def)
  show ?thesis
  proof (cases "?n \<ge> fs_width spec")
    case True
    then show ?thesis
      using num [of b] n by (intro exI [of _ x] exI [of _ "[]"]) (simp add: prep out prepared_def add.assoc)
  next
    case False
    show ?thesis
    proof (cases "fs_align spec = ALIGN_LEFT")
      case True
      then show ?thesis
        using False num [of b] n grown [of "b @ map Some x @ replicate (length ds) None"]
        by (intro exI [of _ x] exI [of _ ?fill]) (simp add: prep out prepared_def add.assoc)
    next
      case align: False
      have len: "length b + (fs_width spec - ?n) + ?n - 1 = length b + length (?fill @ x) + length ds - 1"
        using n by simp
      show ?thesis
        using False align num [of "b @ map Some ?fill"] grown [of b] len
        by (intro exI [of _ "?fill @ x"] exI [of _ "[]"]) (simp add: prep out prepared_def)
    qed
  qed
next
  case False
  then show ?thesis
    using prepare_aligned_layout [OF assms] by (simp add: prepare_int_buffer_def precise_layout_def)
qed

lemma prepared_then_written:
  assumes w: "\<And>x y. w (length x + length ds, x @ replicate (length ds) None @ y) = Some (x @ map Some ds @ y)"
    and "ds \<noteq> []"
  shows "do { (p, b) \<leftarrow> prepare_int_buffer (length ds) spec prefix b; w (p + 1, b) } =
    Some (b @ map Some (precise_layout spec prefix ds))"
proof -
  have "0 < length ds" using assms by simp
  then obtain x y where p: "prepared b x (length ds) y (prepare_int_buffer (length ds) spec prefix b)"
    and l: "x @ ds @ y = precise_layout spec prefix ds"
    using prepare_precise by blast
  have "length b + length x + length ds - 1 + 1 = length (b @ map Some x) + length ds" using assms by (cases ds) auto
  then show ?thesis
    using p w [of "b @ map Some x" "map Some y"] by (simp add: prepared_def flip: l)
qed

definition int_type :: "FormatSpec \<Rightarrow> char" where
  "int_type spec = (case fs_type spec of None \<Rightarrow> CHR ''d'' | Some t \<Rightarrow> t)"

definition int_digits :: "string \<Rightarrow> char \<Rightarrow> nat \<Rightarrow> string" where
  "int_digits sep t n =
     (if t = CHR ''x'' then based 4 ''0123456789abcdef'' n
      else if t = CHR ''X'' then based 4 ''0123456789ABCDEF'' n
      else if t = CHR ''b'' \<or> t = CHR ''B'' then based 1 ''01'' n
      else if t = CHR ''o'' then based 3 ''01234567'' n
      else if t = CHR ''n'' then grouped sep 0 (rev (decimal n))
      else decimal n)"

definition base_prefix :: "FormatSpec \<Rightarrow> string" where
  "base_prefix spec =
     (let t = int_type spec
      in if \<not> spec_flag spec HASH_FLAG then ''''
         else if t \<in> set ''xXbB'' then [CHR ''0'', t]
         else if t = CHR ''o'' then ''0'' else '''')"

definition int_shown :: "string \<Rightarrow> bool \<times> nat \<Rightarrow> FormatSpec \<Rightarrow> string" where
  "int_shown sep v spec =
     precise_layout spec (int_prefix spec (fst v) @ base_prefix spec) (int_digits sep (int_type spec) (snd v))"

definition int_types :: string where
  "int_types = ''dxXbBon''"

lemma grouped_decimal_size:
  "count_digits n + length sep * ((count_digits n - 1) div 3) = length (grouped sep 0 (rev (decimal n)))"
  by (simp add: length_grouped count_digits_decimal)

lemma grouped_nonempty: "ds \<noteq> [] \<Longrightarrow> grouped sep idx ds \<noteq> []"
  by (cases ds; cases "tl ds") (auto simp: grouped_Cons)

lemma write_base_shown:
  "write_base k digits spec prefix n b = Some (b @ map Some (precise_layout spec prefix (based k digits n)))"
  unfolding write_base_def count_shifts_based [of k n digits]
  by (rule prepared_then_written [where w = "write_shifts k digits n"]) (simp_all add: write_shifts_hole)

lemma write_int_shown:
  assumes "int_type spec \<in> set int_types"
  shows "write_int sep v spec b = Wrote (b @ map Some (int_shown sep v spec))"
proof -
  obtain neg n where v: "v = (neg, n)" by fastforce
  let ?out = "\<lambda>p ds. Some (b @ map Some (precise_layout spec p ds))"
  have dec: "do { (p, b) \<leftarrow> prepare_int_buffer (count_digits n) spec p b; format_decimal '''' n (0, p + 1, b) } =
      ?out p (decimal n)" for p
    unfolding count_digits_decimal
    by (rule prepared_then_written [where w = "\<lambda>pb. format_decimal '''' n (0, pb)"])
      (simp_all add: format_decimal_hole)
  have sep: "do { (p, b) \<leftarrow> prepare_int_buffer (count_digits n + length sep * ((count_digits n - 1) div 3)) spec p b;
      format_decimal sep n (0, p + 1, b) } = ?out p (grouped sep 0 (rev (decimal n)))" for p
    unfolding grouped_decimal_size
    by (rule prepared_then_written [where w = "\<lambda>pb. format_decimal sep n (0, pb)"])
      (simp_all add: format_decimal_sep_hole grouped_nonempty)
  have t: "(case fs_type spec of None \<Rightarrow> CHR ''d'' | Some t \<Rightarrow> t) = int_type spec" by (simp add: int_type_def)
  consider "int_type spec = CHR ''d''" | "int_type spec = CHR ''x''" | "int_type spec = CHR ''X''"
    | "int_type spec = CHR ''b''" | "int_type spec = CHR ''B''" | "int_type spec = CHR ''o''" | "int_type spec = CHR ''n''"
    using assms by (auto simp: int_types_def)
  then show ?thesis
    unfolding v write_int_def prod.case t Let_def
    by cases (simp_all add: wrote_def dec [simplified] sep [simplified] write_base_shown int_shown_def
      int_digits_def base_prefix_def Let_def)
qed

lemma write_int_refused:
  assumes "int_type spec \<notin> set int_types"
  shows "write_int sep v spec b = Format_Error"
proof -
  have "(case fs_type spec of None \<Rightarrow> CHR ''d'' | Some t \<Rightarrow> t) = int_type spec" by (simp add: int_type_def)
  then show ?thesis using assms by (simp add: write_int_def int_types_def split: prod.split)
qed

subsection \<open>Strings and characters\<close>

definition text_layout :: "nat \<Rightarrow> char \<Rightarrow> Alignment \<Rightarrow> string \<Rightarrow> string" where
  "text_layout width fill align s =
     (let pad = width - length s
      in case align of
           ALIGN_RIGHT \<Rightarrow> replicate pad fill @ s
         | ALIGN_CENTER \<Rightarrow> replicate (pad div 2) fill @ s @ replicate (pad - pad div 2) fill
         | _ \<Rightarrow> s @ replicate pad fill)"

definition spec_layout :: "FormatSpec \<Rightarrow> string \<Rightarrow> string" where
  "spec_layout spec s = text_layout (fs_width spec) (fs_fill spec) (fs_align spec) s"

lemma length_text_layout: "length (text_layout width fill align s) = max width (length s)"
  by (cases align) (simp_all add: text_layout_def Let_def)

lemma blit_last: "i = length x \<Longrightarrow> j = length s \<Longrightarrow> blit i s (x @ replicate j None) = Some (x @ map Some s)"
  using blit_hole [of x s "[]"] by simp

lemma write_str_at_layout:
  "\<exists>out. write_str_at s spec b = Some (out, b @ map Some (spec_layout spec s))"
proof (cases "fs_width spec > length s")
  case True
  define pad where "pad = fs_width spec - length s"
  then have w: "fs_width spec = length s + pad" using True by simp
  note defs = write_str_at_def spec_layout_def text_layout_def grow_buffer_def fill_padding_def blit_def w Let_def
  show ?thesis
    using True by (cases "fs_align spec") (simp_all add: defs min_def add.assoc trans_le_add2 flip: replicate_add)
next
  case False
  then show ?thesis
    by (cases "fs_align spec")
      (simp_all add: write_str_at_def spec_layout_def text_layout_def grow_buffer_def blit_def Let_def)
qed

definition cut :: "FormatSpec \<Rightarrow> string \<Rightarrow> string" where
  "cut spec s = (if fs_precision spec \<ge> 0 then take (nat (fs_precision spec)) s else s)"

lemma write_str_layout:
  assumes "fs_type spec \<in> {None, Some CHR ''s''}" and "p \<noteq> 0"
  shows "write_str p s spec b = Fine (b @ map Some (spec_layout spec (cut spec s)))"
  using assms write_str_at_layout [of "cut spec s" spec b]
  by (auto simp: write_str_def cut_def Let_def)

lemma visit_char_layout:
  assumes "fs_type spec \<in> {None, Some CHR ''c''}" and "fs_align spec \<noteq> ALIGN_NUMERIC" and "fs_flags spec = 0"
  shows "visit_char sep v spec b = Fine (b @ map Some (spec_layout spec [char_of (unat (ucast v :: byte))]))"
proof -
  let ?ch = "char_of (unat (ucast v :: byte)) :: char"
  have "visit_char sep v spec b = fm_of (map_option snd (write_str_at [?ch] spec b))"
    using assms
    by (cases "fs_align spec")
      (auto simp: visit_char_def write_str_at_def Let_def map_option_bind o_def intro!: arg_cong [of _ _ fm_of]
        Option.bind_cong split: prod.split)
  then show ?thesis using write_str_at_layout [of "[?ch]" spec b] by auto
qed

end
