(* ===== verification/Fmt_Args_Properties.thy ===== *)
theory Fmt_Args_Properties
  imports Fmt_Args
begin

unbundle bit_operations_syntax

text \<open>
  What the packed argument list stands for: the plain list of the arguments, however many
  there are.
\<close>

subsection \<open>Packed types\<close>

lemma type_code_less: "type_code t < 15"
  by (cases t) simp_all

lemma type_of_type_code [simp]: "type_of_code (type_code t) = Some t"
  by (cases t) (simp_all add: type_of_code_def all_Types_def)

definition nibble :: "u64 \<Rightarrow> nat \<Rightarrow> u64" where
  "nibble w i = drop_bit (i * 4) (w AND push_bit (i * 4) 0xf)"

lemma bit_nibble: "i < 16 \<Longrightarrow> bit (nibble w i) n \<longleftrightarrow> n < 4 \<and> bit w (i * 4 + n)"
proof -
  have m: "(0xf :: u64) = mask 4" by (simp add: mask_eq_exp_minus_1)
  show "i < 16 \<Longrightarrow> ?thesis"
    unfolding nibble_def m
    by (auto simp: bit_drop_bit_eq bit_and_iff bit_push_bit_iff bit_mask_iff)
qed

lemma bit_type_code: "bit (of_nat (type_code t) :: u64) n \<Longrightarrow> n < 4"
proof (rule ccontr)
  assume b: "bit (of_nat (type_code t) :: u64) n" and "\<not> n < 4"
  then have "bit (type_code t) n" by (simp add: bit_simps)
  then have "type_code t div 2 ^ n mod 2 = 1" by (simp add: bit_iff_odd odd_iff_mod_2_eq_one)
  moreover have "type_code t < 2 ^ n"
    using type_code_less [of t] power_increasing [of 4 n "2::nat"] \<open>\<not> n < 4\<close> by simp
  ultimately show False by simp
qed

lemma nibble_first: "nibble (of_nat (type_code t) OR push_bit 4 w) 0 = of_nat (type_code t)"
  by (rule bit_eqI) (auto simp: bit_nibble bit_or_iff bit_push_bit_iff dest: bit_type_code)

lemma nibble_next:
  "Suc i < 16 \<Longrightarrow> nibble (of_nat (type_code t) OR push_bit 4 w) (Suc i) = nibble w i"
  by (rule bit_eqI) (auto simp: bit_nibble bit_or_iff bit_push_bit_iff dest: bit_type_code)

lemma nibble_make_type:
  "i < 16 \<Longrightarrow> nibble (make_type ts) i = (if i < length ts then of_nat (type_code (ts ! i)) else 0)"
proof (induction ts arbitrary: i)
  case Nil
  then show ?case by (simp add: nibble_def)
next
  case (Cons t ts)
  then show ?case by (cases i) (simp_all add: nibble_first nibble_next)
qed

lemma unat_type_code: "unat (of_nat (type_code t) :: u64) = type_code t"
  using type_code_less [of t] by (simp add: unat_of_nat)

lemma type_at_make_type:
  "i < 16 \<Longrightarrow> type_at (make_type ts) i = Some (if i < length ts then ts ! i else NONE)"
  using nibble_make_type [of i ts]
  by (simp add: type_at_def nibble_def unat_type_code type_of_code_def [of 0] all_Types_def)

subsection \<open>The list\<close>

lemma cxx_type_not_NONE [simp]: "cxx_type x \<noteq> NONE"
  by (cases x) simp_all

lemma use_values_make_args: "use_values (make_args xs) \<longleftrightarrow> length xs < 16"
  by (auto simp: use_values_def make_args_def MAX_PACKED_ARGS_def type_at_make_type)

lemma scan_args_make:
  "scan_args (map make_arg xs @ [none_arg]) k = Some (if k < length xs then make_arg (xs ! k) else none_arg)"
proof (induction xs arbitrary: k)
  case Nil
  then show ?case by (simp add: none_arg_def)
next
  case (Cons x xs)
  then show ?case by (cases k) (simp_all add: make_arg_def)
qed

text \<open>
  An argument list is the list of its arguments. For any number of arguments of any types,
  few enough for the packed form or not, the argument at an index is the one the call had there,
  with its type, and the argument behind the last one is the one of type \<open>NONE\<close>; no index leads
  to a read outside the arrays.
\<close>

theorem packed_arguments:
  "ArgList_at (make_args xs) i = Some (if i < length xs then make_arg (xs ! i) else none_arg)"
proof (cases "i < 16")
  case True
  have t: "type_at (al_types (make_args xs)) i = Some (if i < length xs then cxx_type (xs ! i) else NONE)"
    using type_at_make_type [OF True, of "map cxx_type xs"] by (simp add: make_args_def)
  show ?thesis
    using True
    by (simp add: ArgList_at_def MAX_PACKED_ARGS_def t use_values_make_args)
      (auto simp: make_args_def MAX_PACKED_ARGS_def make_arg_def nth_append)
next
  case False
  show ?thesis
  proof (cases "length xs < 16")
    case True
    then show ?thesis using False by (simp add: ArgList_at_def MAX_PACKED_ARGS_def use_values_make_args)
  next
    case l: False
    then have "ArgList_at (make_args xs) i = scan_args (map make_arg (drop 16 xs) @ [none_arg]) (i - 16)"
      using False
      by (simp add: ArgList_at_def MAX_PACKED_ARGS_def use_values_make_args)
        (simp add: make_args_def MAX_PACKED_ARGS_def drop_map)
    then show ?thesis using False l by (auto simp: scan_args_make)
  qed
qed

subsection \<open>Named arguments\<close>

fun named_args :: "('d, 'c) cxx list \<Rightarrow> ('d, 'c) arg_map" where
  "named_args [] = []"
| "named_args (cxx_named n x # xs) = (n, make_arg x) # named_args xs"
| "named_args (x # xs) = named_args xs"

lemma named_args_append: "named_args (xs @ ys) = named_args xs @ named_args ys"
  by (induction xs rule: named_args.induct) simp_all

lemma push_named_make:
  "push_named (cxx_type x) (Some (make_value x)) m = Some (m @ named_args [x])"
  by (cases x) (simp_all add: push_named_def make_arg_def)

lemma init_values_make:
  assumes "length xs < 16"
  shows "i \<le> length xs \<Longrightarrow> init_values (make_args xs) [i ..< 16] m = Some (m @ named_args (drop i xs))"
proof (induction "length xs - i" arbitrary: i m)
  case 0
  then have i: "i = length xs" "[i ..< 16] = i # [Suc i ..< 16]" using assms by (simp_all add: upt_rec)
  then show ?case using assms by (simp add: make_args_def type_at_make_type)
next
  case (Suc k)
  then have i: "i < length xs" and u: "[i ..< 16] = i # [Suc i ..< 16]" using assms by (simp_all add: upt_rec)
  have "type_at (al_types (make_args xs)) i = Some (cxx_type (xs ! i))"
    using i assms by (simp add: make_args_def type_at_make_type)
  moreover have "read_value True (al_array (make_args xs)) i = Some (make_value (xs ! i))"
    using i assms by (simp add: make_args_def MAX_PACKED_ARGS_def)
  ultimately show ?case
    using Suc i by (simp add: u push_named_make Cons_nth_drop_Suc [symmetric, of i]
        named_args_append [of "[xs ! i]" "drop (Suc i) xs", simplified])
qed

lemma init_packed_make:
  assumes "16 \<le> length xs"
  shows "i \<le> 16 \<Longrightarrow> init_packed (make_args xs) [i ..< 16] m = Some (m @ named_args (drop i (take 16 xs)))"
proof (induction "16 - i" arbitrary: i m)
  case (Suc k)
  then have i: "i < length xs" "i < 16" and u: "[i ..< 16] = i # [Suc i ..< 16]"
    using assms by (simp_all add: upt_rec)
  have "type_at (al_types (make_args xs)) i = Some (cxx_type (xs ! i))"
    using i assms by (simp add: make_args_def type_at_make_type)
  moreover have "read_value False (al_array (make_args xs)) i = Some (make_value (xs ! i))"
    using i assms by (simp add: make_args_def MAX_PACKED_ARGS_def nth_append make_arg_def)
  moreover have "drop i (take 16 xs) = xs ! i # drop (Suc i) (take 16 xs)"
    using i by (simp add: Cons_nth_drop_Suc [symmetric])
  ultimately show ?case
    using Suc i by (simp add: u push_named_make
        named_args_append [of "[xs ! i]" "drop (Suc i) (take 16 xs)", simplified])
qed (use assms in simp)

lemma init_rest_make: "init_rest (map make_arg xs @ [none_arg]) m = Some (m @ named_args xs)"
proof (induction xs arbitrary: m)
  case Nil
  then show ?case by (simp add: none_arg_def)
next
  case (Cons x xs)
  then show ?case
    using named_args_append [of "[x]" xs]
    by (simp add: make_arg_def push_named_make)
qed

theorem named_arguments: "ArgMap_init (make_args xs) [] = Some (named_args xs)"
proof (cases "length xs < 16")
  case True
  then show ?thesis using init_values_make [of xs 0] by (simp add: ArgMap_init_def use_values_make_args MAX_PACKED_ARGS_def)
next
  case False
  then have "named_args (take 16 xs) @ named_args (drop 16 xs) = named_args xs"
    using named_args_append [of "take 16 xs" "drop 16 xs"] by simp
  moreover have "drop 16 (map make_arg xs @ [none_arg]) = map make_arg (drop 16 xs) @ [none_arg]"
    using False by (simp add: drop_map)
  ultimately show ?thesis
    using False init_packed_make [of xs 0]
    by (simp add: ArgMap_init_def use_values_make_args MAX_PACKED_ARGS_def)
      (simp add: make_args_def MAX_PACKED_ARGS_def init_rest_make)
qed

end
