(* ===== verification/Fmt_Template.thy ===== *)
theory Fmt_Template
  imports Fmt_Layout Fmt_Args_Properties
begin

unbundle bit_operations_syntax

text \<open>
  What a formatting call means: the text of one argument under a specifier, the syntax of
  format strings as data with its printer, and the text of a whole template, computed on
  the plain list of the arguments.
\<close>

subsection \<open>One argument\<close>

text \<open>Sign and absolute value of the integer types, after promotion.\<close>

fun int_parts :: "('d, 'c) cxx \<Rightarrow> bool \<times> nat" where
  "int_parts (cxx_bool b) = (False, if b then 1 else 0)"
| "int_parts (cxx_short w) = signed_parts w"
| "int_parts (cxx_unsigned_short w) = unsigned_parts w"
| "int_parts (cxx_int w) = signed_parts w"
| "int_parts (cxx_unsigned w) = unsigned_parts w"
| "int_parts (cxx_long w) = signed_parts w"
| "int_parts (cxx_unsigned_long w) = unsigned_parts w"
| "int_parts (cxx_long_long w) = signed_parts w"
| "int_parts (cxx_unsigned_long_long w) = unsigned_parts w"
| "int_parts (cxx_signed_char w) = signed_parts w"
| "int_parts (cxx_unsigned_char w) = unsigned_parts w"
| "int_parts (cxx_char c) = signed_parts (of_char c :: byte)"
| "int_parts (cxx_enum w) = signed_parts w"
| "int_parts (cxx_c_str a s) = unsigned_parts a"
| "int_parts (cxx_pointer a) = unsigned_parts a"
| "int_parts x = (False, 0)"

fun str_text :: "('d, 'c) cxx \<Rightarrow> string" where
  "str_text (cxx_bool b) = (if b then ''true'' else ''false'')"
| "str_text (cxx_char c) = [c]"
| "str_text (cxx_c_str a s) = c_str s"
| "str_text (cxx_string a s) = s"
| "str_text x = ''''"

fun not_null :: "('d, 'c) cxx \<Rightarrow> bool" where
  "not_null (cxx_c_str a s) = (a \<noteq> 0)"
| "not_null (cxx_string a s) = (a \<noteq> 0)"
| "not_null x = True"

text \<open>As a string or as a number, and which specifiers an argument takes.\<close>

definition stringy :: "FormatSpec \<Rightarrow> Type \<Rightarrow> bool" where
  "stringy spec t =
     ((t = BOOL \<and> fs_type spec = None) \<or>
      (t = CHAR_ARG \<and> fs_type spec \<in> {None, Some CHR ''c''}) \<or>
      (t \<in> {CSTRING, STRING} \<and> fs_type spec \<in> {None, Some CHR ''s''}))"

definition pointerlike :: "FormatSpec \<Rightarrow> Type \<Rightarrow> bool" where
  "pointerlike spec t =
     ((t = POINTER \<and> fs_type spec \<in> {None, Some CHR ''p''}) \<or> (t = CSTRING \<and> fs_type spec = Some CHR ''p''))"

definition fits :: "FormatSpec \<Rightarrow> Type \<Rightarrow> bool" where
  "fits spec t =
     (if stringy spec t then t = CHAR_ARG \<longrightarrow> fs_align spec \<noteq> ALIGN_NUMERIC \<and> fs_flags spec = 0
      else pointerlike spec t \<or> t \<in> {INT_ARG, UINT, LONG_LONG, ULONG_LONG, BOOL, CHAR_ARG} \<and> int_type spec \<in> set int_types)"

definition arg_shown :: "string \<Rightarrow> FormatSpec \<Rightarrow> ('d, 'c) cxx \<Rightarrow> string" where
  "arg_shown sep spec x =
     (if stringy spec (cxx_type x)
      then spec_layout spec (if cxx_type x = CHAR_ARG then str_text x else cut spec (str_text x))
      else int_shown sep (int_parts x)
        (if pointerlike spec (cxx_type x) then spec\<lparr>fs_flags := HASH_FLAG, fs_type := Some CHR ''x''\<rparr> else spec))"

text \<open>Promotion keeps the value.\<close>

lemma signed_parts_int: "signed_parts v = (sint v < 0, nat \<bar>sint v\<bar>)"
proof -
  obtain neg n where v: "signed_parts v = (neg, n)" by fastforce
  then have "neg = (sint v < 0)" by (simp add: signed_parts_def)
  then show ?thesis using signed_parts_value [OF v] v by auto
qed

lemma unsigned_parts_int: "unsigned_parts v = (False, nat (uint v))"
  by (simp add: unsigned_parts_def nat_uint_eq)

lemma sint_up: "LENGTH('a) \<le> LENGTH('b) \<Longrightarrow> sint (scast (w :: 'a::len word) :: 'b::len word) = sint w"
  by (simp add: sint_up_scast is_up)

lemma uint_up: "LENGTH('a) \<le> LENGTH('b) \<Longrightarrow> uint (ucast (w :: 'a::len word) :: 'b::len word) = uint w"
  by (simp add: uint_up_ucast is_up)

lemma promoted [simp]:
  "signed_parts (scast (w :: 16 word) :: i32) = signed_parts w"
  "signed_parts (scast (v :: byte) :: i32) = signed_parts v"
  "unsigned_parts (ucast (w :: 16 word) :: u32) = unsigned_parts w"
  "unsigned_parts (ucast (v :: byte) :: u32) = unsigned_parts v"
  by (simp_all add: signed_parts_int unsigned_parts_int sint_up uint_up)

lemma char_value_back: "char_of (unat (ucast (char_value c) :: byte)) = c"
proof -
  have "(ucast (scast (of_char c :: byte) :: i32) :: byte) = of_char c"
    by (rule bit_word_eqI) (simp add: bit_simps)
  moreover have "unat (of_nat (of_char c) :: byte) = of_char c"
    using nat_of_char_less_256 [of c] by (subst unat_of_nat) (simp add: take_bit_nat_eq_self)
  then have "unat (of_char c :: byte) = of_char c" by (simp only: of_nat_of_char)
  ultimately show ?thesis by (simp add: char_value_def)
qed

lemma nat_or_and: "(f OR g) AND m = (f AND m) OR (g AND (m :: nat))"
  by (rule bit_eqI) (auto simp: bit_simps)

lemma flag_char_flag:
  "spec_flag (spec\<lparr>fs_flags := fs_flags spec OR CHAR_FLAG\<rparr>) SIGN_FLAG = spec_flag spec SIGN_FLAG"
  "spec_flag (spec\<lparr>fs_flags := fs_flags spec OR CHAR_FLAG\<rparr>) PLUS_FLAG = spec_flag spec PLUS_FLAG"
  "spec_flag (spec\<lparr>fs_flags := fs_flags spec OR CHAR_FLAG\<rparr>) HASH_FLAG = spec_flag spec HASH_FLAG"
proof -
  have "(0x10 AND 1 :: nat) = 0" "(0x10 AND 2 :: nat) = 0" "(0x10 AND 8 :: nat) = 0" by simp_all
  moreover have "fs_flags (spec\<lparr>fs_flags := fs_flags spec OR 0x10\<rparr>) = fs_flags spec OR 0x10" by simp
  ultimately show "spec_flag (spec\<lparr>fs_flags := fs_flags spec OR CHAR_FLAG\<rparr>) SIGN_FLAG = spec_flag spec SIGN_FLAG"
    "spec_flag (spec\<lparr>fs_flags := fs_flags spec OR CHAR_FLAG\<rparr>) PLUS_FLAG = spec_flag spec PLUS_FLAG"
    "spec_flag (spec\<lparr>fs_flags := fs_flags spec OR CHAR_FLAG\<rparr>) HASH_FLAG = spec_flag spec HASH_FLAG"
    by (simp_all only: spec_flag_def CHAR_FLAG_def SIGN_FLAG_def PLUS_FLAG_def HASH_FLAG_def nat_or_and
        or.right_neutral)
qed

text \<open>\<open>visit\<close> writes the text of the argument.\<close>

lemma visit_any_int_shown:
  assumes "int_type spec \<in> set int_types"
  shows "visit_any_int sep v spec b = Fine (b @ map Some (int_shown sep v spec))"
  by (simp add: visit_any_int_def write_int_shown assms)

lemma int_shown_char_flag:
  "int_shown sep v (spec\<lparr>fs_flags := fs_flags spec OR CHAR_FLAG\<rparr>) = int_shown sep v spec"
  by (simp add: int_shown_def precise_layout_def int_prefix_def base_prefix_def int_type_def flag_char_flag)

lemma int_type_x: "int_type (spec\<lparr>fs_flags := f, fs_type := Some CHR ''x''\<rparr>) \<in> set int_types"
  by (simp add: int_type_def int_types_def)

lemma visit_pointer_shown:
  "write_pointer sep p spec b =
    Fine (b @ map Some (int_shown sep (unsigned_parts p) (spec\<lparr>fs_flags := HASH_FLAG, fs_type := Some CHR ''x''\<rparr>)))"
  by (simp add: write_pointer_def visit_any_int_shown int_type_x)

lemma visit_shown:
  assumes "fits spec (cxx_type x)" and "not_null x"
  shows "visit env spec rest (make_arg x) fr b = Fine (fr, b @ map Some (arg_shown (fe_sep env) spec x))"
proof (cases "cxx_type x")
  case NAMED_ARG
  then show ?thesis using assms(1) by (simp add: fits_def stringy_def pointerlike_def)
next
  case BOOL
  then obtain v where x: "x = cxx_bool v" by (cases x) simp_all
  show ?thesis
    using assms(1)
    by (auto simp: x fits_def stringy_def pointerlike_def visit_def make_arg_def visit_bool_def arg_shown_def
        write_str_layout visit_any_int_shown split: if_splits)
next
  case CHAR_ARG
  then obtain c where x: "x = cxx_char c" by (cases x) simp_all
  have i: "signed_parts (char_value c) = signed_parts (of_char c :: byte)" by (simp add: char_value_def)
  have t: "int_type (spec\<lparr>fs_flags := f\<rparr>) = int_type spec" for f by (simp add: int_type_def)
  show ?thesis
  proof (cases "fs_type spec \<in> {None, Some CHR ''c''}")
    case True
    then show ?thesis
      using assms(1) visit_char_layout [of spec]
      by (simp add: x fits_def stringy_def visit_def make_arg_def arg_shown_def char_value_back)
  next
    case False
    then show ?thesis
      using assms(1)
      by (auto simp: x fits_def stringy_def pointerlike_def visit_def make_arg_def arg_shown_def visit_char_def
          visit_any_int_shown t i int_shown_char_flag)
  qed
next
  case CSTRING
  then obtain p s where x: "x = cxx_c_str p s" by (cases x) simp_all
  show ?thesis
    using assms
    by (auto simp: x fits_def stringy_def pointerlike_def visit_def make_arg_def visit_cstring_def arg_shown_def
        write_str_layout visit_pointer_shown c_str_def split: if_splits)
next
  case STRING
  then obtain p s where x: "x = cxx_string p s" by (cases x) simp_all
  show ?thesis
    using assms
    by (auto simp: x fits_def stringy_def pointerlike_def visit_def make_arg_def arg_shown_def write_str_layout
        split: if_splits)
next
  case POINTER
  then obtain p where x: "x = cxx_pointer p" by (cases x) simp_all
  show ?thesis
    using assms
    by (auto simp: x fits_def stringy_def pointerlike_def visit_def make_arg_def arg_shown_def visit_pointer_def
        visit_pointer_shown split: if_splits)
qed (use assms in \<open>cases x; simp add: fits_def stringy_def pointerlike_def visit_def make_arg_def arg_shown_def
        visit_any_int_shown\<close>)+

subsection \<open>The syntax of format strings\<close>

datatype arg_ref = Next | Index nat | Named string

datatype size_ref = No_Size | Fixed nat | From_Arg arg_ref

record spec_syntax =
  y_align :: "(char option \<times> Alignment) option"
  y_sign :: "char option"
  y_hash :: bool
  y_zero :: bool
  y_width :: size_ref
  y_precision :: size_ref
  y_type :: "char option"

datatype piece = Text string | Field arg_ref "spec_syntax option"

fun show_ref :: "arg_ref \<Rightarrow> string" where
  "show_ref Next = ''''"
| "show_ref (Index i) = decimal i"
| "show_ref (Named s) = s"

fun show_size :: "size_ref \<Rightarrow> string" where
  "show_size No_Size = ''''"
| "show_size (Fixed n) = decimal n"
| "show_size (From_Arg r) = CHR ''{'' # show_ref r @ ''}''"

fun align_char :: "Alignment \<Rightarrow> char" where
  "align_char ALIGN_LEFT = CHR ''<''"
| "align_char ALIGN_RIGHT = CHR ''>''"
| "align_char ALIGN_CENTER = CHR ''^''"
| "align_char a = CHR ''=''"

fun show_option :: "char option \<Rightarrow> string" where
  "show_option None = ''''"
| "show_option (Some c) = [c]"

fun show_align :: "(char option \<times> Alignment) option \<Rightarrow> string" where
  "show_align None = ''''"
| "show_align (Some (f, a)) = show_option f @ [align_char a]"

definition show_precision :: "size_ref \<Rightarrow> string" where
  "show_precision p = (if p = No_Size then '''' else CHR ''.'' # show_size p)"

definition show_spec :: "spec_syntax \<Rightarrow> string" where
  "show_spec y =
     show_align (y_align y) @ show_option (y_sign y) @ (if y_hash y then ''#'' else '''') @
     (if y_zero y then ''0'' else '''') @ show_size (y_width y) @ show_precision (y_precision y) @
     show_option (y_type y)"

definition brace :: "char \<Rightarrow> bool" where
  "brace c = (c = CHR ''{'' \<or> c = CHR ''}'')"

definition show_text :: "string \<Rightarrow> string" where
  "show_text s = concat (map (\<lambda>c. if brace c then [c, c] else [c]) s)"

fun show_piece :: "piece \<Rightarrow> string" where
  "show_piece (Text s) = show_text s"
| "show_piece (Field r None) = CHR ''{'' # show_ref r @ ''}''"
| "show_piece (Field r (Some y)) = CHR ''{'' # show_ref r @ CHR '':'' # show_spec y @ ''}''"

definition show_template :: "piece list \<Rightarrow> string" where
  "show_template ps = concat (map show_piece ps)"

text \<open>
  Which data is syntax: names are identifiers, numbers fit an \<open>int\<close>, a width is not written
  as 0, the fill is no brace, a type is a letter, and a colon is followed by something.
\<close>

fun wf_ref :: "arg_ref \<Rightarrow> bool" where
  "wf_ref Next = True"
| "wf_ref (Index i) = (i \<le> max_int)"
| "wf_ref (Named s) = (s \<noteq> [] \<and> is_name_start (hd s) \<and> list_all name_char s)"

fun wf_size :: "size_ref \<Rightarrow> bool" where
  "wf_size No_Size = True"
| "wf_size (Fixed n) = (n \<le> max_int)"
| "wf_size (From_Arg r) = wf_ref r"

fun wf_align :: "(char option \<times> Alignment) option \<Rightarrow> bool" where
  "wf_align None = True"
| "wf_align (Some (None, a)) = (a \<noteq> ALIGN_DEFAULT)"
| "wf_align (Some (Some c, a)) = (a \<noteq> ALIGN_DEFAULT \<and> c \<noteq> CHR 0x00 \<and> \<not> brace c)"

definition wf_spec :: "spec_syntax \<Rightarrow> bool" where
  "wf_spec y =
     (wf_align (y_align y) \<and> (case y_sign y of None \<Rightarrow> True | Some c \<Rightarrow> c \<in> set ''+- '') \<and>
      wf_size (y_width y) \<and> y_width y \<noteq> Fixed 0 \<and> wf_size (y_precision y) \<and>
      (case y_type y of None \<Rightarrow> True | Some c \<Rightarrow> is_name_start c) \<and> show_spec y \<noteq> [])"

fun wf_piece :: "piece \<Rightarrow> bool" where
  "wf_piece (Text s) = (CHR 0x00 \<notin> set s)"
| "wf_piece (Field r None) = wf_ref r"
| "wf_piece (Field r (Some y)) = (wf_ref r \<and> wf_spec y)"

subsection \<open>The text of a template\<close>

text \<open>
  \<open>n\<close> counts the automatic arguments so far, and is \<open>- 1\<close> once an argument was named or numbered.
  \<open>None\<close>: the call is refused.
\<close>

fun plain :: "('d, 'c) cxx \<Rightarrow> ('d, 'c) cxx" where
  "plain (cxx_named s x) = x"
| "plain x = x"

fun named_of :: "('d, 'c) cxx list \<Rightarrow> string \<Rightarrow> ('d, 'c) cxx option" where
  "named_of [] s = None"
| "named_of (cxx_named t x # xs) s = (if t = s then Some x else named_of xs s)"
| "named_of (x # xs) s = named_of xs s"

fun lookup_ref :: "('d, 'c) cxx list \<Rightarrow> int \<Rightarrow> arg_ref \<Rightarrow> (('d, 'c) cxx \<times> int) option" where
  "lookup_ref xs n Next = (if 0 \<le> n \<and> nat n < length xs then Some (plain (xs ! nat n), n + 1) else None)"
| "lookup_ref xs n (Index i) = (if n \<le> 0 \<and> i < length xs then Some (plain (xs ! i), - 1) else None)"
| "lookup_ref xs n (Named s) = (if n \<le> 0 then do { x \<leftarrow> named_of xs s; Some (x, - 1) } else None)"

definition size_of_cxx :: "('d, 'c) cxx \<Rightarrow> nat option" where
  "size_of_cxx x =
     (if cxx_type x \<in> {INT_ARG, UINT, LONG_LONG, ULONG_LONG} \<and> \<not> fst (int_parts x) \<and> snd (int_parts x) \<le> max_int
      then Some (snd (int_parts x)) else None)"

fun size_text :: "('d, 'c) cxx list \<Rightarrow> int \<Rightarrow> int \<Rightarrow> size_ref \<Rightarrow> (int \<times> int) option" where
  "size_text xs n absent No_Size = Some (absent, n)"
| "size_text xs n absent (Fixed k) = Some (int k, n)"
| "size_text xs n absent (From_Arg r) = do { (x, n) \<leftarrow> lookup_ref xs n r; k \<leftarrow> size_of_cxx x; Some (int k, n) }"

definition numeric :: "Type \<Rightarrow> bool" where
  "numeric t = (type_code t \<le> type_code LAST_NUMERIC_TYPE)"

definition admits :: "spec_syntax \<Rightarrow> Type \<Rightarrow> bool" where
  "admits y t =
     ((\<forall>f. y_align y = Some (f, ALIGN_NUMERIC) \<longrightarrow> numeric t) \<and>
      (y_sign y \<noteq> None \<longrightarrow> numeric t \<and> t \<noteq> UINT \<and> t \<noteq> ULONG_LONG) \<and>
      (y_hash y \<longrightarrow> numeric t) \<and> (y_zero y \<longrightarrow> numeric t) \<and>
      (y_precision y \<noteq> No_Size \<longrightarrow> type_code LAST_INTEGER_TYPE < type_code t \<and> t \<noteq> POINTER))"

fun sign_flags :: "char option \<Rightarrow> nat" where
  "sign_flags None = 0"
| "sign_flags (Some c) = (if c = CHR ''+'' then 3 else if c = CHR ''-'' then 4 else 1)"

definition spec_of :: "spec_syntax \<Rightarrow> int \<Rightarrow> int \<Rightarrow> FormatSpec" where
  "spec_of y width precision =
     \<lparr>fs_width = nat width,
      fs_fill = (if y_zero y then CHR ''0''
                 else case y_align y of Some (Some c, a) \<Rightarrow> c | _ \<Rightarrow> CHR '' ''),
      fs_align = (if y_zero y then ALIGN_NUMERIC
                  else case y_align y of Some (f, a) \<Rightarrow> a | None \<Rightarrow> ALIGN_DEFAULT),
      fs_flags = sign_flags (y_sign y) + (if y_hash y then 8 else 0),
      fs_precision = precision,
      fs_type = y_type y\<rparr>"

definition arg_text :: "string \<Rightarrow> FormatSpec \<Rightarrow> ('d, 'c) cxx \<Rightarrow> string option" where
  "arg_text sep spec x = (if fits spec (cxx_type x) \<and> not_null x then Some (arg_shown sep spec x) else None)"

fun piece_text :: "string \<Rightarrow> ('d, 'c) cxx list \<Rightarrow> int \<Rightarrow> piece \<Rightarrow> (string \<times> int) option" where
  "piece_text sep xs n (Text s) = Some (s, n)"
| "piece_text sep xs n (Field r None) = do {
     (x, n) \<leftarrow> lookup_ref xs n r;
     t \<leftarrow> arg_text sep empty_spec x;
     Some (t, n) }"
| "piece_text sep xs n (Field r (Some y)) = do {
     (x, n) \<leftarrow> lookup_ref xs n r;
     (if admits y (cxx_type x) then do {
        (width, n) \<leftarrow> size_text xs n 0 (y_width y);
        (precision, n) \<leftarrow> size_text xs n (- 1) (y_precision y);
        t \<leftarrow> arg_text sep (spec_of y width precision) x;
        Some (t, n) }
      else None) }"

fun template_text :: "string \<Rightarrow> ('d, 'c) cxx list \<Rightarrow> int \<Rightarrow> piece list \<Rightarrow> string option" where
  "template_text sep xs n [] = Some ''''"
| "template_text sep xs n (p # ps) = do {
     (s, n) \<leftarrow> piece_text sep xs n p;
     t \<leftarrow> template_text sep xs n ps;
     Some (s @ t) }"

end
