(* ===== verification/Log_Pattern.thy ===== *)
theory Log_Pattern
  imports Log_Message Fmt_Template
begin

text \<open>
  \<^verbatim>\<open>spdlog/details/pattern_formatter_impl.h\<close>: one definition for the \<open>format\<close> method of
  every flag class, the compilation of a pattern into a list of flags, and the formatting
  of a message. A method answers the text that it appends; \<open>None\<close> is a table read out of
  its bounds or through a null pointer. The clock's conversions and the process id come
  from the operating system.
\<close>

subsection \<open>Time\<close>

record tm =
  tm_sec :: i32
  tm_min :: i32
  tm_hour :: i32
  tm_mday :: i32
  tm_mon :: i32
  tm_year :: i32
  tm_wday :: i32
  tm_gmtoff :: int

record log_os =
  os_localtime :: "int \<Rightarrow> tm"
  os_gmtime :: "int \<Rightarrow> tm"
  os_pid :: i32

definition table_at :: "string list \<Rightarrow> i32 \<Rightarrow> string option" where
  "table_at table i =
     (if 0 \<le> sint i \<and> nat (sint i) < length table then Some (table ! nat (sint i)) else None)"

definition i32_of_int :: "int \<Rightarrow> i32" where
  "i32_of_int i = word_of_int i"

definition pad_int :: "i32 \<Rightarrow> nat \<Rightarrow> string" where
  "pad_int v width = padded (signed_parts v) width CHR ''0''"

definition pad_unsigned :: "i32 \<Rightarrow> nat \<Rightarrow> string" where
  "pad_unsigned v width = padded (unsigned_parts v) width CHR ''0''"

definition i32_rem :: "i32 \<Rightarrow> int \<Rightarrow> i32" where
  "i32_rem v k = i32_of_int (sint v smod k)"

text \<open>\<open>duration_cast\<close> truncates; the count is reduced and cast to \<open>int\<close>.\<close>

definition time_part :: "int \<Rightarrow> int \<Rightarrow> int \<Rightarrow> i32" where
  "time_part time unit modulus = i32_of_int ((time sdiv unit) smod modulus)"

definition utc_minutes_offset :: "tm \<Rightarrow> i32" where
  "utc_minutes_offset t = i32_of_int (tm_gmtoff t sdiv 60)"

subsection \<open>Name and level\<close>

type_synonym flag_format = "log_os \<Rightarrow> log_msg \<Rightarrow> tm \<Rightarrow> string option"

definition name_format :: flag_format where
  "name_format os msg t = lm_logger_name msg"

definition level_format :: flag_format where
  "level_format os msg t = Some (to_str (lm_level msg))"

definition short_level_format :: flag_format where
  "short_level_format os msg t = Some (to_short_str (lm_level msg))"

subsection \<open>Date and time\<close>

definition ampm :: "tm \<Rightarrow> string" where
  "ampm t = (if sint (tm_hour t) \<ge> 12 then ''PM'' else ''AM'')"

definition to12h :: "tm \<Rightarrow> i32" where
  "to12h t = (if sint (tm_hour t) > 12 then tm_hour t - 12 else tm_hour t)"

definition days :: "string list" where
  "days = [''Sun'', ''Mon'', ''Tue'', ''Wed'', ''Thu'', ''Fri'', ''Sat'']"

definition a_format :: flag_format where
  "a_format os msg t = table_at days (tm_wday t)"

definition full_days :: "string list" where
  "full_days = [''Sunday'', ''Monday'', ''Tuesday'', ''Wednesday'', ''Thursday'', ''Friday'', ''Saturday'']"

definition A_format :: flag_format where
  "A_format os msg t = table_at full_days (tm_wday t)"

definition months :: "string list" where
  "months = [''Jan'', ''Feb'', ''Mar'', ''Apr'', ''May'', ''Jun'', ''Jul'', ''Aug'', ''Sept'', ''Oct'',
     ''Nov'', ''Dec'']"

definition b_format :: flag_format where
  "b_format os msg t = table_at months (tm_mon t)"

definition full_months :: "string list" where
  "full_months = [''January'', ''February'', ''March'', ''April'', ''May'', ''June'', ''July'',
     ''August'', ''September'', ''October'', ''November'', ''December'']"

definition B_format :: flag_format where
  "B_format os msg t = table_at full_months (tm_mon t)"

definition pad_n_join2 :: "i32 \<Rightarrow> i32 \<Rightarrow> char \<Rightarrow> string" where
  "pad_n_join2 v1 v2 sep = pad_int v1 2 @ [sep] @ pad_int v2 2"

definition pad_n_join3 :: "i32 \<Rightarrow> i32 \<Rightarrow> i32 \<Rightarrow> char \<Rightarrow> string" where
  "pad_n_join3 v1 v2 v3 sep = pad_int v1 2 @ [sep] @ pad_int v2 2 @ [sep] @ pad_int v3 2"

definition c_format :: flag_format where
  "c_format os msg t = do {
     day \<leftarrow> table_at days (tm_wday t);
     month \<leftarrow> table_at months (tm_mon t);
     Some (day @ '' '' @ month @ '' '' @ printed (signed_parts (tm_mday t)) @ '' '' @
       pad_n_join3 (tm_hour t) (tm_min t) (tm_sec t) CHR '':'' @ '' '' @
       printed (signed_parts (tm_year t + 1900))) }"

definition C_format :: flag_format where
  "C_format os msg t = Some (pad_int (i32_rem (tm_year t) 100) 2)"

definition D_format :: flag_format where
  "D_format os msg t =
     Some (pad_n_join3 (tm_mon t + 1) (tm_mday t) (i32_rem (tm_year t) 100) CHR ''/'')"

definition Y_format :: flag_format where
  "Y_format os msg t = Some (printed (signed_parts (tm_year t + 1900)))"

definition m_format :: flag_format where
  "m_format os msg t = Some (pad_int (tm_mon t + 1) 2)"

definition d_format :: flag_format where
  "d_format os msg t = Some (pad_int (tm_mday t) 2)"

definition H_format :: flag_format where
  "H_format os msg t = Some (pad_int (tm_hour t) 2)"

definition I_format :: flag_format where
  "I_format os msg t = Some (pad_int (to12h t) 2)"

definition M_format :: flag_format where
  "M_format os msg t = Some (pad_int (tm_min t) 2)"

definition S_format :: flag_format where
  "S_format os msg t = Some (pad_int (tm_sec t) 2)"

definition e_format :: flag_format where
  "e_format os msg t = Some (pad_int (time_part (lm_time msg) 1000000 1000) 3)"

definition f_format :: flag_format where
  "f_format os msg t = Some (pad_int (time_part (lm_time msg) 1000 1000000) 6)"

definition F_format :: flag_format where
  "F_format os msg t = Some (pad_int (time_part (lm_time msg) 1 1000000000) 9)"

definition E_format :: flag_format where
  "E_format os msg t =
     Some (printed (signed_parts (word_of_int (lm_time msg sdiv 1000000000) :: 64 word)))"

definition p_format :: flag_format where
  "p_format os msg t = Some (ampm t)"

definition r_format :: flag_format where
  "r_format os msg t = Some (pad_n_join3 (to12h t) (tm_min t) (tm_sec t) CHR '':'' @ '' '' @ ampm t)"

definition R_format :: flag_format where
  "R_format os msg t = Some (pad_n_join2 (tm_hour t) (tm_min t) CHR '':'')"

definition T_format :: flag_format where
  "T_format os msg t = Some (pad_n_join3 (tm_hour t) (tm_min t) (tm_sec t) CHR '':'')"

definition z_format :: flag_format where
  "z_format os msg t =
     (let total_minutes = utc_minutes_offset t;
          is_negative = sint total_minutes < 0;
          total_minutes = (if is_negative then - total_minutes else total_minutes);
          h = i32_of_int (sint total_minutes sdiv 60);
          m = i32_rem total_minutes 60
      in Some ((if is_negative then ''-'' else ''+'') @ pad_n_join2 h m CHR '':''))"

subsection \<open>Ids and text\<close>

definition t_format :: flag_format where
  "t_format os msg t = Some (printed (unsigned_parts (lm_thread_id msg)))"

definition pid_format :: flag_format where
  "pid_format os msg t = Some (printed (signed_parts (os_pid os)))"

definition i_format :: flag_format where
  "i_format os msg t = Some (padded (unsigned_parts (lm_msg_id msg)) 6 CHR ''0'')"

definition v_format :: flag_format where
  "v_format os msg t = Some (lm_raw msg)"

definition ch_format :: "char \<Rightarrow> flag_format" where
  "ch_format ch os msg t = Some [ch]"

definition aggregate_format :: "string \<Rightarrow> flag_format" where
  "aggregate_format str os msg t = Some str"

definition full_format :: flag_format where
  "full_format os msg t =
     (let millis = time_part (lm_time msg) 1000000 1000
      in do {
        name \<leftarrow> lm_logger_name msg;
        Some (''['' @ printed (unsigned_parts (tm_year t + 1900)) @ ''-'' @
          pad_unsigned (tm_mon t + 1) 2 @ ''-'' @ pad_unsigned (tm_mday t) 2 @ '' '' @
          pad_unsigned (tm_hour t) 2 @ '':'' @ pad_unsigned (tm_min t) 2 @ '':'' @
          pad_unsigned (tm_sec t) 2 @ ''.'' @ pad_unsigned millis 3 @ ''] '' @
          ''['' @ name @ ''] '' @
          ''['' @ to_str (lm_level msg) @ ''] '' @
          lm_raw msg) })"

subsection \<open>Patterns\<close>

text \<open>The default branch makes two single characters, the percent sign and the flag.\<close>

definition handle_flag :: "char \<Rightarrow> flag_format list" where
  "handle_flag flag =
     (if flag = CHR ''n'' then [name_format]
      else if flag = CHR ''l'' then [level_format]
      else if flag = CHR ''L'' then [short_level_format]
      else if flag = CHR ''t'' then [t_format]
      else if flag = CHR ''v'' then [v_format]
      else if flag = CHR ''a'' then [a_format]
      else if flag = CHR ''A'' then [A_format]
      else if flag = CHR ''b'' \<or> flag = CHR ''h'' then [b_format]
      else if flag = CHR ''B'' then [B_format]
      else if flag = CHR ''c'' then [c_format]
      else if flag = CHR ''C'' then [C_format]
      else if flag = CHR ''Y'' then [Y_format]
      else if flag = CHR ''D'' \<or> flag = CHR ''x'' then [D_format]
      else if flag = CHR ''m'' then [m_format]
      else if flag = CHR ''d'' then [d_format]
      else if flag = CHR ''H'' then [H_format]
      else if flag = CHR ''I'' then [I_format]
      else if flag = CHR ''M'' then [M_format]
      else if flag = CHR ''S'' then [S_format]
      else if flag = CHR ''e'' then [e_format]
      else if flag = CHR ''f'' then [f_format]
      else if flag = CHR ''F'' then [F_format]
      else if flag = CHR ''E'' then [E_format]
      else if flag = CHR ''p'' then [p_format]
      else if flag = CHR ''r'' then [r_format]
      else if flag = CHR ''R'' then [R_format]
      else if flag = CHR ''T'' \<or> flag = CHR ''X'' then [T_format]
      else if flag = CHR ''z'' then [z_format]
      else if flag = CHR ''+'' then [full_format]
      else if flag = CHR ''P'' then [pid_format]
      else if flag = CHR ''i'' then [i_format]
      else [ch_format CHR ''%'', ch_format flag])"

text \<open>
  The loop of \<open>compile_pattern\<close>: the characters collected since the last flag, the list so
  far, and the rest of the pattern. A percent sign at the end is dropped.
\<close>

definition user_chars :: "string option \<Rightarrow> flag_format list" where
  "user_chars uc = (case uc of Some s \<Rightarrow> [aggregate_format s] | None \<Rightarrow> [])"

fun compile_from :: "string option \<Rightarrow> flag_format list \<Rightarrow> string \<Rightarrow> flag_format list" where
  "compile_from uc fs [] = fs @ user_chars uc"
| "compile_from uc fs (ch # rest) =
     (if ch = CHR ''%''
      then let fs = fs @ user_chars uc
           in (case rest of [] \<Rightarrow> fs | flag # rest \<Rightarrow> compile_from None (fs @ handle_flag flag) rest)
      else compile_from (Some ((case uc of Some s \<Rightarrow> s | None \<Rightarrow> '''') @ [ch])) fs rest)"

definition compile_pattern :: "string \<Rightarrow> flag_format list" where
  "compile_pattern pattern = compile_from None [] pattern"

record pattern_formatter =
  pf_eol :: string
  pf_pattern_time :: pattern_time_type
  pf_formatters :: "flag_format list"

definition new_pattern_formatter :: "string \<Rightarrow> pattern_time_type \<Rightarrow> string \<Rightarrow> pattern_formatter" where
  "new_pattern_formatter pattern pattern_time eol =
     \<lparr>pf_eol = eol, pf_pattern_time = pattern_time, pf_formatters = compile_pattern pattern\<rparr>"

definition get_time :: "pattern_formatter \<Rightarrow> log_os \<Rightarrow> log_msg \<Rightarrow> tm" where
  "get_time pf os msg =
     (if pf_pattern_time pf = local
      then os_localtime os (lm_time msg sdiv 1000000000)
      else os_gmtime os (lm_time msg sdiv 1000000000))"

fun run_flags :: "flag_format list \<Rightarrow> log_os \<Rightarrow> log_msg \<Rightarrow> tm \<Rightarrow> string option" where
  "run_flags [] os msg t = Some ''''"
| "run_flags (f # fs) os msg t = do { s \<leftarrow> f os msg t; r \<leftarrow> run_flags fs os msg t; Some (s @ r) }"

definition pattern_format :: "pattern_formatter \<Rightarrow> log_os \<Rightarrow> log_msg \<Rightarrow> log_msg option" where
  "pattern_format pf os msg = do {
     text \<leftarrow> run_flags (pf_formatters pf) os msg (get_time pf os msg);
     Some (msg\<lparr>lm_formatted := lm_formatted msg @ text @ pf_eol pf\<rparr>) }"

subsection \<open>What a pattern means\<close>

lemma run_flags_append:
  "run_flags (fs @ gs) os msg t = do {
     s \<leftarrow> run_flags fs os msg t; r \<leftarrow> run_flags gs os msg t; Some (s @ r) }"
  by (induction fs) (auto split: Option.bind_splits)

text \<open>
  The meaning of the flags, as the documentation of the library has them: numbers as signed
  integers, in decimals with zeros in front up to a width (before the sign of a negative number),
  dates and times put together from them. A letter that is not in the table is no flag and means
  itself behind a percent sign.
\<close>

definition shown_int :: "int \<Rightarrow> string" where
  "shown_int i = (if i < 0 then ''-'' else '''') @ decimal (nat \<bar>i\<bar>)"

definition filled :: "nat \<Rightarrow> int \<Rightarrow> string" where
  "filled width i = replicate (width - length (shown_int i)) CHR ''0'' @ shown_int i"

definition hour12 :: "tm \<Rightarrow> int" where
  "hour12 t = (if 12 < sint (tm_hour t) then sint (tm_hour t) - 12 else sint (tm_hour t))"

definition half_day :: "tm \<Rightarrow> string" where
  "half_day t = (if sint (tm_hour t) < 12 then ''AM'' else ''PM'')"

definition minute_second :: "tm \<Rightarrow> string" where
  "minute_second t = '':'' @ filled 2 (sint (tm_min t)) @ '':'' @ filled 2 (sint (tm_sec t))"

definition date_text :: "tm \<Rightarrow> string" where
  "date_text t = filled 2 (sint (tm_mon t + 1)) @ ''/'' @ filled 2 (sint (tm_mday t)) @ ''/'' @
     filled 2 (sint (tm_year t) smod 100)"

definition offset_text :: "tm \<Rightarrow> string" where
  "offset_text t =
     (let m = tm_gmtoff t sdiv 60
      in (if m < 0 then ''-'' else ''+'') @ filled 2 (\<bar>m\<bar> div 60) @ '':'' @ filled 2 (\<bar>m\<bar> mod 60))"

definition flag_table :: "(char \<times> flag_format) list" where
  "flag_table =
     [(CHR ''n'', \<lambda>os msg t. lm_logger_name msg),
      (CHR ''l'', \<lambda>os msg t. Some (to_str (lm_level msg))),
      (CHR ''L'', \<lambda>os msg t. Some (to_short_str (lm_level msg))),
      (CHR ''t'', \<lambda>os msg t. Some (shown_int (uint (lm_thread_id msg)))),
      (CHR ''v'', \<lambda>os msg t. Some (lm_raw msg)),
      (CHR ''a'', \<lambda>os msg t. table_at days (tm_wday t)),
      (CHR ''A'', \<lambda>os msg t. table_at full_days (tm_wday t)),
      (CHR ''b'', \<lambda>os msg t. table_at months (tm_mon t)),
      (CHR ''h'', \<lambda>os msg t. table_at months (tm_mon t)),
      (CHR ''B'', \<lambda>os msg t. table_at full_months (tm_mon t)),
      (CHR ''c'', \<lambda>os msg t. do {
         day \<leftarrow> table_at days (tm_wday t); month \<leftarrow> table_at months (tm_mon t);
         Some (day @ '' '' @ month @ '' '' @ shown_int (sint (tm_mday t)) @ '' '' @
           filled 2 (sint (tm_hour t)) @ minute_second t @ '' '' @ shown_int (sint (tm_year t + 1900))) }),
      (CHR ''C'', \<lambda>os msg t. Some (filled 2 (sint (tm_year t) smod 100))),
      (CHR ''Y'', \<lambda>os msg t. Some (shown_int (sint (tm_year t + 1900)))),
      (CHR ''D'', \<lambda>os msg t. Some (date_text t)),
      (CHR ''x'', \<lambda>os msg t. Some (date_text t)),
      (CHR ''m'', \<lambda>os msg t. Some (filled 2 (sint (tm_mon t + 1)))),
      (CHR ''d'', \<lambda>os msg t. Some (filled 2 (sint (tm_mday t)))),
      (CHR ''H'', \<lambda>os msg t. Some (filled 2 (sint (tm_hour t)))),
      (CHR ''I'', \<lambda>os msg t. Some (filled 2 (hour12 t))),
      (CHR ''M'', \<lambda>os msg t. Some (filled 2 (sint (tm_min t)))),
      (CHR ''S'', \<lambda>os msg t. Some (filled 2 (sint (tm_sec t)))),
      (CHR ''e'', \<lambda>os msg t. Some (filled 3 ((lm_time msg sdiv 1000000) smod 1000))),
      (CHR ''f'', \<lambda>os msg t. Some (filled 6 ((lm_time msg sdiv 1000) smod 1000000))),
      (CHR ''F'', \<lambda>os msg t. Some (filled 9 (lm_time msg smod 1000000000))),
      (CHR ''E'', \<lambda>os msg t. Some (shown_int (sint (word_of_int (lm_time msg sdiv 1000000000) :: 64 word)))),
      (CHR ''p'', \<lambda>os msg t. Some (half_day t)),
      (CHR ''r'', \<lambda>os msg t. Some (filled 2 (hour12 t) @ minute_second t @ '' '' @ half_day t)),
      (CHR ''R'', \<lambda>os msg t. Some (filled 2 (sint (tm_hour t)) @ '':'' @ filled 2 (sint (tm_min t)))),
      (CHR ''T'', \<lambda>os msg t. Some (filled 2 (sint (tm_hour t)) @ minute_second t)),
      (CHR ''X'', \<lambda>os msg t. Some (filled 2 (sint (tm_hour t)) @ minute_second t)),
      (CHR ''z'', \<lambda>os msg t. Some (offset_text t)),
      (CHR ''+'', \<lambda>os msg t. do {
         name \<leftarrow> lm_logger_name msg;
         Some (''['' @ shown_int (uint (tm_year t + 1900)) @ ''-'' @ filled 2 (uint (tm_mon t + 1)) @ ''-'' @
           filled 2 (uint (tm_mday t)) @ '' '' @ filled 2 (uint (tm_hour t)) @ '':'' @ filled 2 (uint (tm_min t)) @
           '':'' @ filled 2 (uint (tm_sec t)) @ ''.'' @
           filled 3 (uint (i32_of_int ((lm_time msg sdiv 1000000) smod 1000))) @ ''] ['' @ name @ ''] ['' @
           to_str (lm_level msg) @ ''] '' @ lm_raw msg) }),
      (CHR ''P'', \<lambda>os msg t. Some (shown_int (sint (os_pid os)))),
      (CHR ''i'', \<lambda>os msg t. Some (filled 6 (uint (lm_msg_id msg))))]"

definition flag_text :: "char \<Rightarrow> flag_format" where
  "flag_text flag os msg t =
     (case map_of flag_table flag of Some f \<Rightarrow> f os msg t | None \<Rightarrow> Some [CHR ''%'', flag])"

text \<open>
  The meaning of a pattern, in one pass over it: a percent sign and a character stand for the
  meaning of that flag, every other character for itself, a percent sign at the end for nothing.
\<close>

fun expand :: "log_os \<Rightarrow> log_msg \<Rightarrow> tm \<Rightarrow> string \<Rightarrow> string option" where
  "expand os msg t [] = Some ''''"
| "expand os msg t (ch # rest) =
     (if ch = CHR ''%''
      then (case rest of [] \<Rightarrow> Some '''' | flag # rest \<Rightarrow> do {
              s \<leftarrow> flag_text flag os msg t; r \<leftarrow> expand os msg t rest; Some (s @ r) })
      else do { r \<leftarrow> expand os msg t rest; Some (ch # r) })"

text \<open>The formatters of a flag print its meaning, for an offset from UTC that fits an \<open>int\<close>.\<close>

lemma pad_int_filled: "pad_int v width = filled width (sint v)"
  by (simp add: pad_int_def signed_parts_int padded_layout layout_def filled_def shown_int_def)

lemma unsigned_filled: "padded (unsigned_parts v) width CHR ''0'' = filled width (uint v)"
  by (simp add: unsigned_parts_int padded_layout layout_def filled_def shown_int_def)

lemma pad_unsigned_filled: "pad_unsigned v width = filled width (uint v)"
  by (simp add: pad_unsigned_def unsigned_filled)

lemma int_text_signed: "int_text (signed_parts v) = shown_int (sint v)"
  by (simp add: signed_parts_int int_text_def shown_int_def)

lemma int_text_unsigned: "int_text (unsigned_parts v) = shown_int (uint v)"
  by (simp add: unsigned_parts_int int_text_def shown_int_def)

lemma smod_pos: "0 < (m :: int) \<Longrightarrow> v smod m = (if v < 0 then - (- v mod m) else v mod m)"
  by (cases "v = 0") (auto simp: signed_modulo_int_def signed_divide_int_def sgn_if
      minus_mult_div_eq_mod [symmetric] mult.commute)

lemma smod_small:
  fixes v m :: int
  assumes "0 < m" "m \<le> 2 ^ 31"
  shows "sint (i32_of_int (v smod m)) = v smod m"
proof -
  have "0 \<le> w mod m" "w mod m < m" for w using assms(1) by simp_all
  then have "\<bar>v smod m\<bar> < m" unfolding smod_pos [OF assms(1)] by simp
  then show ?thesis using assms(2) by (simp add: i32_of_int_def signed_of_int signed_take_bit_int_eq_self)
qed

lemma time_part_int:
  "0 < m \<Longrightarrow> m \<le> 2 ^ 31 \<Longrightarrow> sint (time_part time unit m) = (time sdiv unit) smod m"
  by (simp add: time_part_def smod_small)

lemma i32_rem_int: "0 < m \<Longrightarrow> m \<le> 2 ^ 31 \<Longrightarrow> sint (i32_rem v m) = sint v smod m"
  by (simp add: i32_rem_def smod_small)

lemma to12h_int: "sint (to12h t) = hour12 t"
proof (cases "sint (tm_hour t) > 12")
  case True
  have "sint (tm_hour t) < 2 ^ 31" using sint_less [of "tm_hour t"] by simp
  then have "sint (tm_hour t - 12) = sint (tm_hour t) - 12"
    using True by (simp add: sint_word_ariths(2) signed_take_bit_int_eq_self)
  then show ?thesis using True by (simp add: to12h_def hour12_def)
qed (simp add: to12h_def hour12_def)

lemma z_format_text:
  assumes "\<bar>tm_gmtoff t\<bar> < 2 ^ 31"
  shows "z_format os msg t = Some (offset_text t)"
proof -
  let ?m = "tm_gmtoff t sdiv 60"
  have "\<bar>?m\<bar> \<le> \<bar>tm_gmtoff t\<bar> div 60" by (simp add: signed_divide_int_def abs_mult sgn_if)
  moreover have "\<bar>tm_gmtoff t\<bar> div 60 < 2 ^ 30" using assms by simp
  ultimately have m: "\<bar>?m\<bar> < 2 ^ 30" by linarith
  have off: "sint (utc_minutes_offset t) = ?m"
    using m by (simp add: utc_minutes_offset_def i32_of_int_def signed_of_int signed_take_bit_int_eq_self)
  define a where "a = (if sint (utc_minutes_offset t) < 0 then - utc_minutes_offset t else utc_minutes_offset t)"
  have a: "sint a = \<bar>?m\<bar>"
    using m off by (auto simp: a_def sint_word_ariths(4) abs_if intro!: signed_take_bit_int_eq_self)
  have "sint (i32_of_int (sint a sdiv 60)) = \<bar>?m\<bar> div 60"
  proof -
    have q: "\<bar>?m\<bar> sdiv 60 = \<bar>?m\<bar> div 60" by (simp add: signed_divide_int_def sgn_if)
    have "\<bar>?m\<bar> div 60 < 2 ^ 30" using m by linarith
    then show ?thesis unfolding a q
      by (simp add: i32_of_int_def signed_of_int signed_take_bit_int_eq_self)
  qed
  moreover have "sint (i32_rem a 60) = \<bar>?m\<bar> mod 60"
    by (simp add: i32_rem_int a smod_pos)
  moreover have "z_format os msg t = Some ((if sint (utc_minutes_offset t) < 0 then ''-'' else ''+'') @
      pad_n_join2 (i32_of_int (sint a sdiv 60)) (i32_rem a 60) CHR '':'')"
    by (simp only: z_format_def Let_def a_def)
  ultimately show ?thesis by (simp add: off pad_n_join2_def pad_int_filled offset_text_def Let_def)
qed

lemmas flag_formats = name_format_def level_format_def short_level_format_def t_format_def v_format_def a_format_def
  A_format_def b_format_def B_format_def c_format_def C_format_def Y_format_def D_format_def m_format_def d_format_def
  H_format_def I_format_def M_format_def S_format_def e_format_def f_format_def F_format_def E_format_def p_format_def
  r_format_def R_format_def T_format_def full_format_def pid_format_def i_format_def

lemmas flag_texts = pad_int_filled pad_unsigned_filled printed_text int_text_signed int_text_unsigned to12h_int
  pad_n_join2_def pad_n_join3_def minute_second_def date_text_def half_day_def ampm_def unsigned_filled

lemma handle_flags:
  "handle_flag CHR ''n'' = [name_format]" "handle_flag CHR ''l'' = [level_format]"
  "handle_flag CHR ''L'' = [short_level_format]" "handle_flag CHR ''t'' = [t_format]"
  "handle_flag CHR ''v'' = [v_format]" "handle_flag CHR ''a'' = [a_format]" "handle_flag CHR ''A'' = [A_format]"
  "handle_flag CHR ''b'' = [b_format]" "handle_flag CHR ''h'' = [b_format]" "handle_flag CHR ''B'' = [B_format]"
  "handle_flag CHR ''c'' = [c_format]" "handle_flag CHR ''C'' = [C_format]" "handle_flag CHR ''Y'' = [Y_format]"
  "handle_flag CHR ''D'' = [D_format]" "handle_flag CHR ''x'' = [D_format]" "handle_flag CHR ''m'' = [m_format]"
  "handle_flag CHR ''d'' = [d_format]" "handle_flag CHR ''H'' = [H_format]" "handle_flag CHR ''I'' = [I_format]"
  "handle_flag CHR ''M'' = [M_format]" "handle_flag CHR ''S'' = [S_format]" "handle_flag CHR ''e'' = [e_format]"
  "handle_flag CHR ''f'' = [f_format]" "handle_flag CHR ''F'' = [F_format]" "handle_flag CHR ''E'' = [E_format]"
  "handle_flag CHR ''p'' = [p_format]" "handle_flag CHR ''r'' = [r_format]" "handle_flag CHR ''R'' = [R_format]"
  "handle_flag CHR ''T'' = [T_format]" "handle_flag CHR ''X'' = [T_format]" "handle_flag CHR ''z'' = [z_format]"
  "handle_flag CHR ''+'' = [full_format]" "handle_flag CHR ''P'' = [pid_format]"
  "handle_flag CHR ''i'' = [i_format]"
  by (simp_all add: handle_flag_def)

lemma run_flag: "run_flags [f] os msg t = f os msg t"
  by simp

lemma known_flag:
  assumes "\<bar>tm_gmtoff t\<bar> < 2 ^ 31"
  shows "list_all (\<lambda>(flag, f). run_flags (handle_flag flag) os msg t = f os msg t) flag_table"
  unfolding flag_table_def list.pred_inject prod.case handle_flags run_flag flag_formats flag_texts
    z_format_text [OF assms]
  by (simp add: Let_def not_less i32_rem_int time_part_def smod_small split: Option.bind_split)

lemma unknown_flag:
  assumes "flag \<notin> fst ` set flag_table"
  shows "run_flags (handle_flag flag) os msg t = Some [CHR ''%'', flag]"
  using assms by (simp add: flag_table_def handle_flag_def ch_format_def)

lemma handle_flag_text:
  assumes "\<bar>tm_gmtoff t\<bar> < 2 ^ 31"
  shows "run_flags (handle_flag flag) os msg t = flag_text flag os msg t"
proof (cases "map_of flag_table flag")
  case None
  then have "flag \<notin> fst ` set flag_table" by (simp add: map_of_eq_None_iff)
  then show ?thesis unfolding flag_text_def None option.case by (rule unknown_flag)
next
  case (Some f)
  then show ?thesis
    using known_flag [OF assms, of os msg] by (auto simp: flag_text_def list_all_iff dest!: map_of_SomeD)
qed

lemma run_user_chars:
  "run_flags (user_chars uc) os msg t = Some (case uc of Some s \<Rightarrow> s | None \<Rightarrow> '''')"
  by (simp add: user_chars_def aggregate_format_def split: option.split)

lemma run_compile_from:
  assumes "\<bar>tm_gmtoff t\<bar> < 2 ^ 31"
  shows "run_flags (compile_from uc fs p) os msg t = do {
     s \<leftarrow> run_flags fs os msg t; r \<leftarrow> expand os msg t p;
     Some (s @ (case uc of Some u \<Rightarrow> u | None \<Rightarrow> '''') @ r) }"
proof (induction uc fs p rule: compile_from.induct)
  case (2 uc fs ch rest)
  show ?case
  proof (cases "ch = CHR ''%''")
    case True
    then show ?thesis
      using 2(1) [OF True refl] by (cases rest)
        (auto simp: run_flags_append run_user_chars handle_flag_text [OF assms] split: Option.bind_splits)
  next
    case False
    then show ?thesis using 2(2) by (auto split: Option.bind_splits option.splits)
  qed
qed (auto simp: run_flags_append run_user_chars split: Option.bind_splits)


text \<open>Fields as the conversions of the C library give them, and a time after the epoch.\<close>

definition tm_valid :: "tm \<Rightarrow> bool" where
  "tm_valid t = (0 \<le> sint (tm_sec t) \<and> 0 \<le> sint (tm_min t) \<and> 0 \<le> sint (tm_hour t) \<and>
     0 \<le> sint (tm_mday t) \<and> 0 \<le> sint (tm_mon t + 1) \<and> 0 \<le> sint (tm_year t + 1900))"

lemma time_part_nonneg:
  assumes "0 \<le> time" "0 < unit" "0 < modulus" "modulus < 2 ^ 31"
  shows "sint (time_part time unit modulus) = time div unit mod modulus"
proof -
  have "0 \<le> time div unit" using assms by (simp add: pos_imp_zdiv_nonneg_iff)
  then have "0 < time div unit \<or> time div unit = 0" by linarith
  then have "(time sdiv unit) smod modulus = time div unit mod modulus"
    using assms by (auto simp: signed_divide_int_def signed_modulo_int_def sgn_if modulo_int_def pos_imp_zdiv_nonneg_iff)
  moreover have "0 \<le> time div unit mod modulus" "time div unit mod modulus < 2 ^ 31"
    using assms pos_mod_bound [of modulus "time div unit"] by (simp, linarith)
  ultimately show ?thesis
    by (simp add: time_part_def i32_of_int_def signed_of_int signed_take_bit_int_eq_self)
qed

text \<open>
  The default format is the pattern its comment names: formatting with \<open>%+\<close>, a hand
  written routine on unsigned numbers, and with the pattern
  \<^verbatim>\<open>[%Y-%m-%d %H:%M:%S.%e] [%n] [%l] %v\<close> give the same text for every message and
  every valid calendar time.
\<close>

theorem default_format_is_pattern:
  assumes "tm_valid t" and "0 \<le> lm_time msg"
  shows "run_flags (compile_pattern ''%+'') os msg t =
    run_flags (compile_pattern ''[%Y-%m-%d %H:%M:%S.%e] [%n] [%l] %v'') os msg t"
proof -
  have millis: "0 \<le> sint (time_part (lm_time msg) 1000000 1000)"
    using assms(2) by (simp add: time_part_nonneg)
  have "run_flags (compile_pattern ''%+'') os msg t = full_format os msg t"
    by (simp add: compile_pattern_def handle_flag_def user_chars_def)
  moreover have "run_flags (compile_pattern ''[%Y-%m-%d %H:%M:%S.%e] [%n] [%l] %v'') os msg t = full_format os msg t"
    using assms(1) millis
    by (simp add: compile_pattern_def handle_flag_def user_chars_def aggregate_format_def Y_format_def
        m_format_def d_format_def H_format_def M_format_def S_format_def e_format_def name_format_def
        level_format_def v_format_def full_format_def pad_int_def pad_unsigned_def parts_agree tm_valid_def
        Let_def split: Option.bind_split)
  ultimately show ?thesis by simp
qed

definition sample_tm :: tm where
  "sample_tm = \<lparr>tm_sec = 5, tm_min = 7, tm_hour = 0, tm_mday = 9, tm_mon = 0, tm_year = 118,
     tm_wday = 2, tm_gmtoff = - 3600\<rparr>"

definition sample_msg :: log_msg where
  "sample_msg = (new_log_msg ''node'' err 1234567890 7)\<lparr>lm_raw := ''up''\<rparr>"

definition sample_os :: log_os where
  "sample_os = \<lparr>os_localtime = (\<lambda>_. sample_tm), os_gmtime = (\<lambda>_. sample_tm), os_pid = 1\<rparr>"


theorem default_format_is_pattern_witness:
  "run_flags (compile_pattern ''[%Y-%m-%d %H:%M:%S.%e] [%n] [%l] %v'') sample_os sample_msg sample_tm =
    Some ''[2018-01-09 00:07:05.234] [node] [error] up''"
proof -
  have "tm_valid sample_tm" by (simp add: tm_valid_def sample_tm_def)
  moreover have "0 \<le> lm_time sample_msg" by (simp add: sample_msg_def new_log_msg_def)
  moreover have "run_flags (compile_pattern ''%+'') sample_os sample_msg sample_tm =
    Some ''[2018-01-09 00:07:05.234] [node] [error] up''"
    by code_simp
  ultimately show ?thesis using default_format_is_pattern [of sample_tm sample_msg sample_os] by simp
qed

text \<open>
  The comment of the flag \<open>%I\<close> promises hours from 1 to 12; the hour after midnight is
  printed as 00, by \<open>%I\<close> and by \<open>%r\<close>.
\<close>

lemma twelve_hour_midnight:
  "I_format os msg (t\<lparr>tm_hour := 0\<rparr>) = Some ''00''"
proof -
  have "pad_int 0 2 = ''00''" by code_simp
  then show ?thesis by (simp add: I_format_def to12h_def)
qed

lemma twelve_hour_range:
  assumes "0 \<le> sint (tm_hour t)" "sint (tm_hour t) \<le> 23"
  shows "0 \<le> sint (to12h t) \<and> sint (to12h t) \<le> 12 \<and> (sint (to12h t) = 0 \<longleftrightarrow> tm_hour t = 0)"
proof (cases "sint (tm_hour t) > 12")
  case True
  have "sint (tm_hour t - 12) = sint (tm_hour t) - 12"
    using assms True by (simp add: sint_word_ariths(2) signed_take_bit_int_eq_self)
  then show ?thesis using assms True by (auto simp: to12h_def)
qed (use assms in \<open>auto simp: to12h_def signed_eq_0_iff\<close>)

end
