(* ===== verification/Log_Queue.thy ===== *)
theory Log_Queue
  imports Interfaces
begin

unbundle bit_operations_syntax

text \<open>
  \<^verbatim>\<open>spdlog/details/mpmc_bounded_q.h\<close>: the lock-free bounded queue between the logging
  threads and the thread that writes. Every atomic access is a step of its own and the
  steps of any number of threads interleave; the memory is sequentially consistent. A cell
  has a sequence number and a value. Ghost lists record the values in the order of their
  positions and what was read from which position.
\<close>

subsection \<open>The queue\<close>

record 'a mpmc =
  q_cells :: "(u64 \<times> 'a option) list"
  q_mask :: u64
  q_enq :: u64
  q_deq :: u64

text \<open>\<open>None\<close> is the exception about the size.\<close>

definition new_mpmc :: "u64 \<Rightarrow> 'a mpmc option" where
  "new_mpmc buffer_size =
     (if \<not> (buffer_size \<ge> 2 \<and> buffer_size AND (buffer_size - 1) = 0) then None
      else Some \<lparr>q_cells = map (\<lambda>i. (of_nat i, None)) [0 ..< unat buffer_size],
        q_mask = buffer_size - 1, q_enq = 0, q_deq = 0\<rparr>)"

definition cell_index :: "'a mpmc \<Rightarrow> u64 \<Rightarrow> nat" where
  "cell_index q pos = unat (pos AND q_mask q)"

definition cell_seq :: "'a mpmc \<Rightarrow> u64 \<Rightarrow> u64" where
  "cell_seq q pos = fst (q_cells q ! cell_index q pos)"

definition cell_data :: "'a mpmc \<Rightarrow> u64 \<Rightarrow> 'a option" where
  "cell_data q pos = snd (q_cells q ! cell_index q pos)"

definition set_seq :: "u64 \<Rightarrow> u64 \<Rightarrow> 'a mpmc \<Rightarrow> 'a mpmc" where
  "set_seq pos sq q = q\<lparr>q_cells := (q_cells q)[cell_index q pos := (sq, cell_data q pos)]\<rparr>"

definition set_data :: "u64 \<Rightarrow> 'a option \<Rightarrow> 'a mpmc \<Rightarrow> 'a mpmc" where
  "set_data pos d q = q\<lparr>q_cells := (q_cells q)[cell_index q pos := (cell_seq q pos, d)]\<rparr>"

text \<open>\<open>dif\<close>: both numbers are cast to a signed type before they are subtracted.\<close>

definition seq_dif :: "u64 \<Rightarrow> u64 \<Rightarrow> int" where
  "seq_dif sq pos = sint sq - sint pos"

definition mpmc_is_empty :: "'a mpmc \<Rightarrow> bool" where
  "mpmc_is_empty q = (q_deq q = q_enq q)"

subsection \<open>Threads\<close>

text \<open>
  Where a thread is: before the load of a position, with a position before the load of the
  cell's sequence number, before the exchange, and so on. A call that returns leaves its
  thread \<open>Idle\<close>.
\<close>

datatype 'a pc =
    Idle
  | EnqLoad 'a | EnqPos 'a u64 | EnqCas 'a u64 | EnqWrite 'a u64 | EnqPublish u64
  | DeqLoad | DeqPos u64 | DeqCas u64 | DeqRead u64 | DeqPublish u64 "'a option"

record 'a qsys =
  s_q :: "'a mpmc"
  s_pc :: "nat \<Rightarrow> 'a pc"
  s_in :: "'a list"
  s_out :: "(u64 \<times> 'a option) list"

definition goto :: "nat \<Rightarrow> 'a pc \<Rightarrow> 'a qsys \<Rightarrow> 'a qsys" where
  "goto t p s = s\<lparr>s_pc := (s_pc s)(t := p)\<rparr>"

text \<open>One atomic access of \<open>enqueue\<close>; \<open>cas_ok\<close> is false when the weak exchange fails for no reason.\<close>

definition enqueue_step :: "bool \<Rightarrow> nat \<Rightarrow> 'a qsys \<Rightarrow> 'a qsys" where
  "enqueue_step cas_ok t s =
     (let q = s_q s
      in case s_pc s t of
           EnqLoad x \<Rightarrow> goto t (EnqPos x (q_enq q)) s
         | EnqPos x pos \<Rightarrow>
             (let dif = seq_dif (cell_seq q pos) pos
              in if dif = 0 then goto t (EnqCas x pos) s
                 else if dif < 0 then goto t Idle s
                 else goto t (EnqLoad x) s)
         | EnqCas x pos \<Rightarrow>
             (if cas_ok \<and> q_enq q = pos
              then goto t (EnqWrite x pos) (s\<lparr>s_q := q\<lparr>q_enq := pos + 1\<rparr>, s_in := s_in s @ [x]\<rparr>)
              else goto t (EnqPos x (q_enq q)) s)
         | EnqWrite x pos \<Rightarrow> goto t (EnqPublish pos) (s\<lparr>s_q := set_data pos (Some x) q\<rparr>)
         | EnqPublish pos \<Rightarrow> goto t Idle (s\<lparr>s_q := set_seq pos (pos + 1) q\<rparr>)
         | _ \<Rightarrow> s)"

definition dequeue_step :: "bool \<Rightarrow> nat \<Rightarrow> 'a qsys \<Rightarrow> 'a qsys" where
  "dequeue_step cas_ok t s =
     (let q = s_q s
      in case s_pc s t of
           DeqLoad \<Rightarrow> goto t (DeqPos (q_deq q)) s
         | DeqPos pos \<Rightarrow>
             (let dif = seq_dif (cell_seq q pos) (pos + 1)
              in if dif = 0 then goto t (DeqCas pos) s
                 else if dif < 0 then goto t Idle s
                 else goto t DeqLoad s)
         | DeqCas pos \<Rightarrow>
             (if cas_ok \<and> q_deq q = pos
              then goto t (DeqRead pos) (s\<lparr>s_q := q\<lparr>q_deq := pos + 1\<rparr>\<rparr>)
              else goto t (DeqPos (q_deq q)) s)
         | DeqRead pos \<Rightarrow>
             goto t (DeqPublish pos (cell_data q pos)) (s\<lparr>s_out := s_out s @ [(pos, cell_data q pos)]\<rparr>)
         | DeqPublish pos d \<Rightarrow> goto t Idle (s\<lparr>s_q := set_seq pos (pos + q_mask q + 1) q\<rparr>)
         | _ \<Rightarrow> s)"

datatype 'a qevent = CallEnq nat 'a | CallDeq nat | Access nat bool

definition qstep :: "'a qevent \<Rightarrow> 'a qsys \<Rightarrow> 'a qsys" where
  "qstep e s =
     (case e of
        CallEnq t x \<Rightarrow> (if s_pc s t = Idle then goto t (EnqLoad x) s else s)
      | CallDeq t \<Rightarrow> (if s_pc s t = Idle then goto t DeqLoad s else s)
      | Access t cas_ok \<Rightarrow> dequeue_step cas_ok t (enqueue_step cas_ok t s))"

end
