(* ===== verification/Log_Queue_Properties.thy ===== *)
theory Log_Queue_Properties
  imports Log_Queue
begin

text \<open>
  The bounded queue under any interleaving of any number of threads: an invariant of the
  cells and of every thread, and from it that the queue is first-in first-out, delivers
  every value at most once and never holds more than its size.
\<close>

subsection \<open>Powers of two\<close>

lemma and_pred_power:
  "0 < n \<Longrightarrow> n AND (n - 1) = 0 \<Longrightarrow> \<exists>k. n = (2::nat) ^ k"
proof (induction n rule: less_induct)
  case (less n)
  show ?case
  proof (cases "even n")
    case True
    then obtain m where m: "n = 2 * m" by blast
    have pos: "0 < m" using less(2) m by simp
    then have half: "(2 * m - 1) div 2 = m - 1" by (cases m) simp_all
    have "(2 * m) AND (2 * m - 1) = 2 * (m AND (m - 1))"
      by (subst and_nat_rec) (simp add: half [unfolded One_nat_def])
    then have "\<exists>k. m = 2 ^ k" using less m pos by auto
    then show ?thesis using m by (metis power_Suc)
  next
    case False
    then obtain m where m: "n = 2 * m + 1" by (auto elim: oddE)
    have "n AND (n - 1) = 2 * m" unfolding m by (subst and_nat_rec) simp
    then show ?thesis using less m by (intro exI [of _ 0]) simp
  qed
qed

lemma suc_mod_neq: "2 \<le> N \<Longrightarrow> Suc p mod N \<noteq> p mod N"
  by (simp add: mod_Suc)

lemma mod_window: "p mod N = q mod N \<Longrightarrow> p < q + N \<Longrightarrow> q < p + N \<Longrightarrow> p = (q::nat)"
proof (induction p q rule: linorder_wlog)
  case (le p q)
  then have "N dvd q - p" by (metis mod_eq_dvd_iff_nat)
  moreover have "q - p < N" using le by linarith
  ultimately show ?case using le(1) dvd_imp_le [of N "q - p"] by (cases "q = p") auto
qed metis

subsection \<open>The invariant\<close>

text \<open>
  With \<open>N\<close> cells, \<open>E\<close> positions given to enqueuers and \<open>D\<close> to dequeuers: the cell \<open>i\<close> either
  waits for the value of a position \<open>p\<close> (its number is \<open>p\<close>), or holds it (\<open>p + 1\<close>).
\<close>

definition cell_ok :: "nat \<Rightarrow> nat \<Rightarrow> nat \<Rightarrow> 'a list \<Rightarrow> nat \<Rightarrow> nat \<Rightarrow> 'a option \<Rightarrow> bool" where
  "cell_ok N E D ins i sq d \<longleftrightarrow> (\<exists>p. p mod N = i \<and>
     (sq = p \<and> D \<le> p \<and> p < D + N \<or>
      sq = Suc p \<and> p < E \<and> E \<le> p + N \<and> (D \<le> p \<longrightarrow> d = Some (ins ! p))))"

text \<open>What a thread relies on, where it is.\<close>

fun pc_ok :: "nat \<Rightarrow> nat \<Rightarrow> nat \<Rightarrow> 'a list \<Rightarrow> (u64 \<times> 'a option) list \<Rightarrow> (nat \<Rightarrow> nat) \<Rightarrow> (nat \<Rightarrow> 'a option) \<Rightarrow>
    'a pc \<Rightarrow> bool" where
  "pc_ok N E D ins outs sq d (EnqPos x pos) = (unat pos \<le> E)"
| "pc_ok N E D ins outs sq d (EnqCas x pos) = (unat pos \<le> E \<and> (unat pos = E \<longrightarrow> sq (E mod N) = E))"
| "pc_ok N E D ins outs sq d (EnqWrite x pos) =
    (D \<le> unat pos \<and> unat pos < E \<and> sq (unat pos mod N) = unat pos \<and> x = ins ! unat pos)"
| "pc_ok N E D ins outs sq d (EnqPublish pos) =
    (D \<le> unat pos \<and> unat pos < E \<and> sq (unat pos mod N) = unat pos \<and>
     d (unat pos mod N) = Some (ins ! unat pos))"
| "pc_ok N E D ins outs sq d (DeqPos pos) = (unat pos \<le> D)"
| "pc_ok N E D ins outs sq d (DeqCas pos) = (unat pos \<le> D \<and> (unat pos = D \<longrightarrow> sq (D mod N) = Suc D))"
| "pc_ok N E D ins outs sq d (DeqRead pos) =
    (unat pos < D \<and> E \<le> unat pos + N \<and> sq (unat pos mod N) = Suc (unat pos) \<and>
     d (unat pos mod N) = Some (ins ! unat pos) \<and> pos \<notin> fst ` set outs)"
| "pc_ok N E D ins outs sq d (DeqPublish pos v) =
    (unat pos < D \<and> E \<le> unat pos + N \<and> sq (unat pos mod N) = Suc (unat pos))"
| "pc_ok N E D ins outs sq d _ = True"

text \<open>The position that a thread owns, and whether for writing.\<close>

fun owns :: "'a pc \<Rightarrow> (bool \<times> u64) option" where
  "owns (EnqWrite x pos) = Some (True, pos)"
| "owns (EnqPublish pos) = Some (True, pos)"
| "owns (DeqRead pos) = Some (False, pos)"
| "owns (DeqPublish pos v) = Some (False, pos)"
| "owns _ = None"

definition owners_ok :: "(nat \<Rightarrow> 'a pc) \<Rightarrow> bool" where
  "owners_ok pcs = (\<forall>t u. t \<noteq> u \<longrightarrow> owns (pcs t) \<noteq> None \<longrightarrow> owns (pcs t) \<noteq> owns (pcs u))"

lemma owners_ok_fresh:
  "owners_ok pcs \<Longrightarrow> (\<And>u. u \<noteq> t \<Longrightarrow> owns p \<noteq> None \<Longrightarrow> owns (pcs u) \<noteq> owns p) \<Longrightarrow> owners_ok (pcs(t := p))"
  unfolding owners_ok_def
proof (intro allI impI)
  fix a b
  assume old: "\<forall>t u. t \<noteq> u \<longrightarrow> owns (pcs t) \<noteq> None \<longrightarrow> owns (pcs t) \<noteq> owns (pcs u)"
    and fresh: "\<And>u. u \<noteq> t \<Longrightarrow> owns p \<noteq> None \<Longrightarrow> owns (pcs u) \<noteq> owns p"
    and ab: "a \<noteq> b" "owns ((pcs(t := p)) a) \<noteq> None"
  show "owns ((pcs(t := p)) a) \<noteq> owns ((pcs(t := p)) b)"
  proof (cases "a = t")
    case True
    then show ?thesis using ab fresh [of b] by (simp add: eq_commute)
  next
    case False
    then have "owns (pcs a) \<noteq> owns p" using ab fresh [of a] by (cases "owns p") simp_all
    then show ?thesis using False ab old by simp
  qed
qed

lemma owners_ok_same:
  "owners_ok pcs \<Longrightarrow> owns p = None \<or> owns p = owns (pcs t) \<Longrightarrow> owners_ok (pcs(t := p))"
  unfolding owners_ok_def by (rule owners_ok_fresh [unfolded owners_ok_def], blast) (metis option.distinct(1))

definition nseq :: "'a mpmc \<Rightarrow> nat \<Rightarrow> nat" where
  "nseq q i = unat (fst (q_cells q ! i))"

definition ndata :: "'a mpmc \<Rightarrow> nat \<Rightarrow> 'a option" where
  "ndata q i = snd (q_cells q ! i)"

definition qinv :: "'a qsys \<Rightarrow> bool" where
  "qinv s = (let q = s_q s; N = length (q_cells q); E = length (s_in s); D = unat (q_deq q)
     in 2 \<le> N \<and> (\<exists>k. N = 2 ^ k) \<and> unat (q_mask q) = N - 1 \<and> unat (q_enq q) = E \<and> D \<le> E \<and> E \<le> D + N \<and>
        (\<forall>i<N. cell_ok N E D (s_in s) i (nseq q i) (ndata q i)) \<and>
        (\<forall>t. pc_ok N E D (s_in s) (s_out s) (nseq q) (ndata q) (s_pc s t)) \<and>
        owners_ok (s_pc s) \<and>
        distinct (map fst (s_out s)) \<and>
        (\<forall>(pos, v) \<in> set (s_out s). unat pos < D \<and> v = Some (s_in s ! unat pos)))"

text \<open>Far from the wrap-around of the counters.\<close>

definition few :: "'a qsys \<Rightarrow> bool" where
  "few s = (length (s_in s) + length (q_cells (s_q s)) < 2 ^ 62)"

lemma cell_index_mod:
  assumes "unat (q_mask q) = N - 1" and "N = 2 ^ k"
  shows "cell_index q pos = unat pos mod N"
proof -
  have "unat (pos AND q_mask q) = unat pos AND (2 ^ k - 1)" using assms by (simp add: unsigned_and_eq)
  also have "\<dots> = unat pos mod 2 ^ k" by (simp add: take_bit_eq_mask mask_eq_exp_minus_1 flip: take_bit_eq_mod)
  finally show ?thesis using assms by (simp add: cell_index_def)
qed

subsection \<open>Preservation\<close>

lemma qinv_facts:
  assumes "qinv s" and "N = length (q_cells (s_q s))" and "E = length (s_in s)" and "D = unat (q_deq (s_q s))"
  shows "2 \<le> N" and "unat (q_enq (s_q s)) = E" and "D \<le> E" and "E \<le> D + N"
    and "cell_index (s_q s) pos = unat pos mod N" and "unat (q_mask (s_q s)) = N - 1"
    and "i < N \<Longrightarrow> cell_ok N E D (s_in s) i (nseq (s_q s) i) (ndata (s_q s) i)"
    and "pc_ok N E D (s_in s) (s_out s) (nseq (s_q s)) (ndata (s_q s)) (s_pc s t)"
    and "owners_ok (s_pc s)"
    and "distinct (map fst (s_out s))"
    and "(pos, v) \<in> set (s_out s) \<Longrightarrow> unat pos < D \<and> v = Some (s_in s ! unat pos)"
  using assms cell_index_mod [of "s_q s" N] unfolding qinv_def Let_def by auto

lemma qinvI:
  assumes "N = length (q_cells (s_q s))" "E = length (s_in s)" "D = unat (q_deq (s_q s))"
    and "2 \<le> N" "\<exists>k. N = 2 ^ k" "unat (q_mask (s_q s)) = N - 1" "unat (q_enq (s_q s)) = E" "D \<le> E" "E \<le> D + N"
    and "\<And>i. i < N \<Longrightarrow> cell_ok N E D (s_in s) i (nseq (s_q s) i) (ndata (s_q s) i)"
    and "\<And>t. pc_ok N E D (s_in s) (s_out s) (nseq (s_q s)) (ndata (s_q s)) (s_pc s t)"
    and "owners_ok (s_pc s)"
    and "distinct (map fst (s_out s))"
    and "\<And>pos v. (pos, v) \<in> set (s_out s) \<Longrightarrow> unat pos < D \<and> v = Some (s_in s ! unat pos)"
  shows "qinv s"
  unfolding qinv_def Let_def using assms(4-14) unfolding assms(1-3) by blast

lemma qinv_power: "qinv s \<Longrightarrow> \<exists>k. length (q_cells (s_q s)) = 2 ^ k"
  by (simp add: qinv_def Let_def)

lemma goto_sel [simp]:
  "s_q (goto t p s) = s_q s" "s_in (goto t p s) = s_in s" "s_out (goto t p s) = s_out s"
  "s_pc (goto t p s) = (s_pc s)(t := p)"
  by (simp_all add: goto_def)

text \<open>A step that only moves the thread.\<close>

lemma goto_qinv:
  assumes "qinv s"
    and "pc_ok (length (q_cells (s_q s))) (length (s_in s)) (unat (q_deq (s_q s))) (s_in s) (s_out s)
      (nseq (s_q s)) (ndata (s_q s)) p"
    and "owns p = None \<or> owns p = owns (s_pc s t)"
  shows "qinv (goto t p s)"
proof -
  note f = qinv_facts [OF assms(1) refl refl refl]
  show ?thesis
    by (rule qinvI [OF refl refl refl]) (use f assms(2) owners_ok_same [OF f(9) assms(3)] qinv_power [OF assms(1)] in \<open>auto split: if_splits\<close>)
qed

lemma nseq_set [simp]:
  assumes "cell_index q pos < length (q_cells q)"
  shows "nseq (set_seq pos v q) = (nseq q)(cell_index q pos := unat v)" "ndata (set_seq pos v q) = ndata q"
    "nseq (set_data pos d q) = nseq q" "ndata (set_data pos d q) = (ndata q)(cell_index q pos := d)"
  using assms
  by (auto simp: set_seq_def set_data_def nseq_def ndata_def cell_data_def cell_seq_def nth_list_update fun_eq_iff)

lemma set_sel [simp]:
  "length (q_cells (set_seq pos v q)) = length (q_cells q)" "length (q_cells (set_data pos d q)) = length (q_cells q)"
  "q_mask (set_seq pos v q) = q_mask q" "q_mask (set_data pos d q) = q_mask q"
  "q_enq (set_seq pos v q) = q_enq q" "q_enq (set_data pos d q) = q_enq q"
  "q_deq (set_seq pos v q) = q_deq q" "q_deq (set_data pos d q) = q_deq q"
  by (simp_all add: set_seq_def set_data_def)

lemma cell_seq_nat: "cell_seq q pos = w \<Longrightarrow> nseq q (cell_index q pos) = unat w"
  by (auto simp: cell_seq_def nseq_def)

lemma sint_small: "unat (w :: u64) < 2 ^ 63 \<Longrightarrow> sint w = int (unat w)"
proof -
  assume "unat w < 2 ^ 63"
  then have "int (unat w) < int (2 ^ 63)" by (simp only: of_nat_less_iff)
  then have "uint w < 2 ^ 63" by simp
  moreover have "- (2 ^ 63) \<le> uint w" by (rule order_trans [OF _ uint_ge_0]) simp
  ultimately show "sint w = int (unat w)" by (simp add: sint_uint signed_take_bit_int_eq_self)
qed

text \<open>Every sequence number is small, so the signed difference is the real one.\<close>

lemma nseq_small:
  assumes "qinv s" "few s" "i < length (q_cells (s_q s))"
  shows "nseq (s_q s) i < 2 ^ 63"
proof -
  obtain p where p: "nseq (s_q s) i = p \<and> p < unat (q_deq (s_q s)) + length (q_cells (s_q s)) \<or>
      nseq (s_q s) i = Suc p \<and> p < length (s_in s)"
    using qinv_facts(7) [OF assms(1) refl refl refl assms(3)] unfolding cell_ok_def by blast
  then show ?thesis
    using qinv_facts(3) [OF assms(1) refl refl refl] assms(2) by (auto simp: few_def)
qed

lemma seq_dif_nat:
  assumes "qinv s" "few s" "unat pos < 2 ^ 63"
  shows "seq_dif (cell_seq (s_q s) p) pos = int (nseq (s_q s) (cell_index (s_q s) p)) - int (unat pos)"
proof -
  have "cell_index (s_q s) p < length (q_cells (s_q s))"
    using qinv_facts(1) [OF assms(1) refl refl refl] qinv_facts(5) [OF assms(1) refl refl refl, of p]
    by (auto intro: mod_less_divisor)
  then have "nseq (s_q s) (cell_index (s_q s) p) < 2 ^ 63" by (rule nseq_small [OF assms(1,2)])
  then have "unat (cell_seq (s_q s) p) < 2 ^ 63" using cell_seq_nat [OF refl, of "s_q s" p] by simp
  then show ?thesis using assms(3) cell_seq_nat [OF refl, of "s_q s" p] by (simp add: seq_dif_def sint_small)
qed

lemma unat_suc: "unat (w :: u64) < 2 ^ 63 \<Longrightarrow> unat (w + 1) = Suc (unat w)"
proof (rule less_plus_one_unat)
  assume a: "unat w < 2 ^ 63"
  show "w + 1 \<noteq> 0"
  proof
    assume "w + 1 = 0"
    then have "w = - 1" by (simp add: eq_neg_iff_add_eq_0)
    then show False using a by (simp add: unsigned_minus_1_eq_mask mask_eq_exp_minus_1)
  qed
qed

lemma few_bounds:
  assumes "qinv s" "few s"
  shows "length (s_in s) < 2 ^ 62" "length (q_cells (s_q s)) < 2 ^ 62" "unat (q_deq (s_q s)) < 2 ^ 62"
  using assms(2) qinv_facts(3) [OF assms(1) refl refl refl] by (simp_all add: few_def)

lemma cell_cases:
  assumes "cell_ok N E D ins i sq d"
  obtains (waits) "sq mod N = i" "D \<le> sq" "sq < D + N"
  | (holds) p where "sq = Suc p" "p mod N = i" "p < E" "E \<le> p + N" "D \<le> p \<Longrightarrow> d = Some (ins ! p)"
  using assms unfolding cell_ok_def by blast

lemma cell_waits: "sq mod N = i \<Longrightarrow> D \<le> sq \<Longrightarrow> sq < D + N \<Longrightarrow> cell_ok N E D ins i sq d"
  unfolding cell_ok_def by blast

lemma cell_holds:
  "p mod N = i \<Longrightarrow> p < E \<Longrightarrow> E \<le> p + N \<Longrightarrow> (D \<le> p \<Longrightarrow> d = Some (ins ! p)) \<Longrightarrow> cell_ok N E D ins i (Suc p) d"
  unfolding cell_ok_def by blast

lemma owner_facts:
  assumes "pc_ok N E D ins outs sq d p"
  shows "owns p = Some (True, pos) \<Longrightarrow> D \<le> unat pos \<and> unat pos < E \<and> sq (unat pos mod N) = unat pos"
    and "owns p = Some (False, pos) \<Longrightarrow> unat pos < D \<and> E \<le> unat pos + N \<and> sq (unat pos mod N) = Suc (unat pos)"
  using assms by (cases p; simp)+

lemma not_full:
  assumes "2 \<le> N" "sq (E mod N) = E" "sq (p mod N) = Suc p" "E \<le> p + N"
  shows "Suc E \<le> p + N"
proof (rule ccontr)
  assume "\<not> Suc E \<le> p + N"
  then have "E = p + N" using assms(4) by simp
  then have "E mod N = p mod N" by simp
  then have "Suc p = E" using assms(2,3) by simp
  then show False using \<open>E mod N = p mod N\<close> suc_mod_neq [OF assms(1), of p] by simp
qed

lemma pc_ok_enq:
  assumes "pc_ok N E D ins outs sq d p" "2 \<le> N" "D \<le> E" "E = length ins" "sq (E mod N) = E"
  shows "pc_ok N (Suc E) D (ins @ [x]) outs sq d p"
  using assms(1,3,4) not_full [of N sq E, OF assms(2,5)]
  by (cases p) (auto simp: nth_append)

text \<open>An enqueuer that wins the exchange gets the next position.\<close>

lemma enq_cas_qinv:
  assumes "qinv s" "few s" and pc: "s_pc s t = EnqCas x pos" and pos: "q_enq (s_q s) = pos"
  shows "qinv (goto t (EnqWrite x pos) (s\<lparr>s_q := (s_q s)\<lparr>q_enq := pos + 1\<rparr>, s_in := s_in s @ [x]\<rparr>))"
proof -
  let ?q = "s_q s" and ?N = "length (q_cells (s_q s))" and ?E = "length (s_in s)" and ?D = "unat (q_deq (s_q s))"
  note f = qinv_facts [OF assms(1) refl refl refl]
  have E: "unat pos = ?E" using f(2) pos by simp
  have seq: "nseq ?q (?E mod ?N) = ?E" using f(8) [of t] pc E by simp
  have cell: "cell_ok ?N ?E ?D (s_in s) (?E mod ?N) (nseq ?q (?E mod ?N)) (ndata ?q (?E mod ?N))"
    using f(1) by (intro f(7) mod_less_divisor) linarith
  then have room: "?E < ?D + ?N"
    using seq suc_mod_neq [OF f(1)] by (cases rule: cell_cases) (auto, metis)
  show ?thesis
  proof (rule qinvI [OF refl refl refl], goal_cases)
    case (7 i)
    then have "cell_ok ?N ?E ?D (s_in s) i (nseq ?q i) (ndata ?q i)" using f(7) by simp
    then have "cell_ok ?N (Suc ?E) ?D (s_in s @ [x]) i (nseq ?q i) (ndata ?q i)"
    proof (cases rule: cell_cases)
      case waits
      then show ?thesis by (rule cell_waits)
    next
      case (holds p)
      have "Suc ?E \<le> p + ?N"
        by (rule not_full [where sq = "nseq ?q"]) (use f(1) seq holds in auto)
      then show ?thesis unfolding holds(1) using holds by (intro cell_holds) (simp_all add: nth_append)
    qed
    then show ?case by (simp add: nseq_def ndata_def)
  next
    case (8 u)
    show ?case
    proof (cases "u = t")
      case True
      then show ?thesis using f(3) seq E by (simp add: nseq_def nth_append)
    next
      case False
      then show ?thesis using pc_ok_enq [OF f(8) [of u] f(1,3) refl seq]
        by (simp add: nseq_def [abs_def] ndata_def [abs_def])
    qed
  next
    case 9
    have "owns (s_pc s u) \<noteq> Some (True, pos)" for u using owner_facts(1) [OF f(8) [of u]] E by auto
    then show ?case using owners_ok_fresh [OF f(9), of t "EnqWrite x pos"] by simp
  next
    case (11 p v)
    then show ?case using f(11) [of p v] f(3) by (simp add: nth_append)
  qed (use f(1-6,10) room assms(2) qinv_power [OF assms(1)] unat_suc [of pos] few_bounds [OF assms(1,2)] E in \<open>auto simp: nth_append\<close>)
qed

text \<open>The value is stored, then the cell's number says so.\<close>

lemma pc_ok_data:
  assumes "pc_ok N E D ins outs sq d p" "2 \<le> N" "sq (w mod N) = w" "owns p \<noteq> Some (True, of_nat w)"
  shows "pc_ok N E D ins outs sq (d(w mod N := v)) p"
proof (cases p)
  case (EnqPublish pos)
  have "unat pos mod N \<noteq> w mod N"
  proof
    assume eq: "unat pos mod N = w mod N"
    have "sq (unat pos mod N) = unat pos" using assms(1) EnqPublish by simp
    then have "w = unat pos" unfolding eq assms(3) .
    then show False using assms(4) EnqPublish by simp
  qed
  then show ?thesis using assms(1) EnqPublish by simp
next
  case (DeqRead pos)
  then have "sq (unat pos mod N) = Suc (unat pos)" using assms(1) by simp
  have "unat pos mod N \<noteq> w mod N"
  proof
    assume eq: "unat pos mod N = w mod N"
    have "w = Suc (unat pos)" using \<open>sq (unat pos mod N) = Suc (unat pos)\<close> unfolding eq assms(3) .
    then show False using eq suc_mod_neq [OF assms(2), of "unat pos"] by simp
  qed
  then show ?thesis using assms(1) DeqRead by simp
qed (use assms(1) in simp_all)

lemma enq_write_qinv:
  assumes "qinv s" "few s" and pc: "s_pc s t = EnqWrite x pos"
  shows "qinv (goto t (EnqPublish pos) (s\<lparr>s_q := set_data pos (Some x) (s_q s)\<rparr>))"
proof -
  let ?q = "s_q s" and ?N = "length (q_cells (s_q s))" and ?E = "length (s_in s)" and ?D = "unat (q_deq (s_q s))"
  let ?i = "unat pos mod ?N"
  note f = qinv_facts [OF assms(1) refl refl refl]
  have me: "?D \<le> unat pos" "unat pos < ?E" "nseq ?q ?i = unat pos" "x = s_in s ! unat pos"
    using f(8) [of t] pc by simp_all
  have i: "cell_index ?q pos = ?i" "?i < ?N" using f(1,5) by (simp, intro mod_less_divisor, linarith)
  note upd = nseq_set [of ?q pos, unfolded i(1), OF i(2)]
  show ?thesis
  proof (rule qinvI [OF refl refl refl], goal_cases)
    case (7 j)
    then have c: "cell_ok ?N ?E ?D (s_in s) j (nseq ?q j) (ndata ?q j)" using f(7) by simp
    have "cell_ok ?N ?E ?D (s_in s) j (nseq ?q j) (((ndata ?q)(?i := Some x)) j)"
    proof (cases "j = ?i")
      case True
      then show ?thesis using me f(4) by (auto intro: cell_waits)
    qed (use c in simp)
    then show ?case by (simp add: upd)
  next
    case (8 u)
    have "owns (s_pc s u) \<noteq> Some (True, pos)" if "u \<noteq> t"
      using f(9) pc that unfolding owners_ok_def by (metis option.distinct(1) owns.simps(1))
    then have "u \<noteq> t \<Longrightarrow> pc_ok ?N ?E ?D (s_in s) (s_out s) (nseq ?q) ((ndata ?q)(?i := Some x)) (s_pc s u)"
      using pc_ok_data [OF f(8) [of u] f(1) me(3)] by simp
    then show ?case using me by (simp add: upd)
  next
    case 9
    show ?case using owners_ok_same [OF f(9), of "EnqPublish pos" t] pc by simp
  qed (use f qinv_power [OF assms(1)] in auto)
qed

lemma other_cell: "sq (c mod N) = a \<Longrightarrow> sq (w mod N) = b \<Longrightarrow> a \<noteq> b \<Longrightarrow> c mod N \<noteq> (w mod N :: nat)"
  by (rule notI) simp

lemma pc_ok_publish:
  assumes "pc_ok N E D ins outs sq d p" "2 \<le> N" "sq (w mod N) = w" "w < E" "owns p \<noteq> Some (True, of_nat w)"
  shows "pc_ok N E D ins outs (sq(w mod N := v)) d p"
proof -
  have suc: "c mod N \<noteq> w mod N" if "sq (c mod N) = Suc c" for c
    using suc_mod_neq [OF assms(2), of c] other_cell [OF that assms(3)] by (cases "Suc c = w") auto
  have own: "unat pos mod N \<noteq> w mod N" if "sq (unat pos mod N) = unat pos" "pos \<noteq> of_nat w" for pos :: u64
  proof -
    have "unat pos \<noteq> w" using that(2) by (auto simp del: unat_of_nat)
    then show ?thesis by (rule other_cell [OF that(1) assms(3)])
  qed
  show ?thesis
  proof (cases p)
    case (EnqCas x pos)
    then show ?thesis using assms(1,4) other_cell [of sq E N E w w] assms(3) by auto
  next
    case (EnqWrite x pos)
    then show ?thesis using assms(1,5) own [of pos] by simp
  next
    case (EnqPublish pos)
    then show ?thesis using assms(1,5) own [of pos] by simp
  next
    case (DeqCas pos)
    then show ?thesis using assms(1) suc [of D] by auto
  next
    case (DeqRead pos)
    then show ?thesis using assms(1) suc [of "unat pos"] by simp
  next
    case (DeqPublish pos v)
    then show ?thesis using assms(1) suc [of "unat pos"] by simp
  qed (use assms(1) in simp_all)
qed

lemma pc_ok_release:
  assumes "pc_ok N E D ins outs sq d p" "2 \<le> N" "sq (w mod N) = Suc w" "w < D" "owns p \<noteq> Some (False, of_nat w)"
  shows "pc_ok N E D ins outs (sq(w mod N := v)) d p"
proof -
  have same: "c mod N \<noteq> w mod N" if "sq (c mod N) = c" for c
    using suc_mod_neq [OF assms(2), of w] other_cell [OF that assms(3)] by (cases "c = Suc w") auto
  have own: "unat pos mod N \<noteq> w mod N" if "sq (unat pos mod N) = Suc (unat pos)" "pos \<noteq> of_nat w" for pos :: u64
  proof -
    have "Suc (unat pos) \<noteq> Suc w" using that(2) by (auto simp del: unat_of_nat)
    then show ?thesis by (rule other_cell [OF that(1) assms(3)])
  qed
  show ?thesis
  proof (cases p)
    case (EnqCas x pos)
    then show ?thesis using assms(1) same [of E] by auto
  next
    case (EnqWrite x pos)
    then show ?thesis using assms(1) same [of "unat pos"] by simp
  next
    case (EnqPublish pos)
    then show ?thesis using assms(1) same [of "unat pos"] by simp
  next
    case (DeqCas pos)
    then show ?thesis using assms(1,4) other_cell [of sq D N "Suc D" w "Suc w"] assms(3) by auto
  next
    case (DeqRead pos)
    then show ?thesis using assms(1,5) own [of pos] by simp
  next
    case (DeqPublish pos v)
    then show ?thesis using assms(1,5) own [of pos] by simp
  qed (use assms(1) in simp_all)
qed

lemma other_owner: "owners_ok pcs \<Longrightarrow> owns (pcs t) = Some x \<Longrightarrow> u \<noteq> t \<Longrightarrow> owns (pcs u) \<noteq> Some x"
  unfolding owners_ok_def by (metis option.distinct(1))

lemma enq_publish_qinv:
  assumes "qinv s" "few s" and pc: "s_pc s t = EnqPublish pos"
  shows "qinv (goto t Idle (s\<lparr>s_q := set_seq pos (pos + 1) (s_q s)\<rparr>))"
proof -
  let ?q = "s_q s" and ?N = "length (q_cells (s_q s))" and ?E = "length (s_in s)" and ?D = "unat (q_deq (s_q s))"
  let ?i = "unat pos mod ?N"
  note f = qinv_facts [OF assms(1) refl refl refl]
  have me: "?D \<le> unat pos" "unat pos < ?E" "nseq ?q ?i = unat pos" "ndata ?q ?i = Some (s_in s ! unat pos)"
    using f(8) [of t] pc by simp_all
  have i: "cell_index ?q pos = ?i" "?i < ?N" using f(1,5) by (simp, intro mod_less_divisor, linarith)
  note upd = nseq_set [of ?q pos, unfolded i(1), OF i(2)]
  have next_pos: "unat (pos + 1) = Suc (unat pos)"
    by (rule unat_suc) (use me(2) few_bounds [OF assms(1,2)] in simp)
  show ?thesis
  proof (rule qinvI [OF refl refl refl], goal_cases)
    case (7 j)
    then have c: "cell_ok ?N ?E ?D (s_in s) j (nseq ?q j) (ndata ?q j)" using f(7) by simp
    have "cell_ok ?N ?E ?D (s_in s) j (((nseq ?q)(?i := Suc (unat pos))) j) (ndata ?q j)"
    proof (cases "j = ?i")
      case True
      have "cell_ok ?N ?E ?D (s_in s) ?i (Suc (unat pos)) (ndata ?q ?i)"
        by (rule cell_holds) (use me f(4) in auto)
      then show ?thesis using True by simp
    qed (use c in simp)
    then show ?case using next_pos by (simp add: upd)
  next
    case (8 u)
    have "u \<noteq> t \<Longrightarrow> owns (s_pc s u) \<noteq> Some (True, of_nat (unat pos))"
      using other_owner [OF f(9), of t "(True, pos)" u] pc by simp
    then show ?case
      using pc_ok_publish [OF f(8) [of u] f(1) me(3,2)] next_pos by (simp add: upd)
  next
    case 9
    show ?case using owners_ok_same [OF f(9), of Idle t] by simp
  qed (use f(1-6,10,11) qinv_power [OF assms(1)] in auto)
qed

text \<open>A dequeuer that wins the exchange gets the next position, whose value is there.\<close>

lemma pc_ok_deq:
  assumes "pc_ok N E D ins outs sq d p" "2 \<le> N" "sq (D mod N) = Suc D"
  shows "pc_ok N E (Suc D) ins outs sq d p"
proof -
  have ne: "unat pos \<noteq> D" if "sq (unat pos mod N) = unat pos" for pos :: u64
    using that assms(3) by auto
  show ?thesis
    using assms(1) ne by (cases p) (auto simp: Suc_le_eq less_le)
qed

lemma deq_cas_qinv:
  assumes "qinv s" "few s" and pc: "s_pc s t = DeqCas pos" and pos: "q_deq (s_q s) = pos"
  shows "qinv (goto t (DeqRead pos) (s\<lparr>s_q := (s_q s)\<lparr>q_deq := pos + 1\<rparr>\<rparr>))"
proof -
  let ?q = "s_q s" and ?N = "length (q_cells (s_q s))" and ?E = "length (s_in s)" and ?D = "unat pos"
  note f = qinv_facts [OF assms(1) refl refl refl, unfolded pos]
  have seq: "nseq ?q (?D mod ?N) = Suc ?D" using f(8) [of t] pc by simp
  have next_pos: "unat (pos + 1) = Suc ?D"
    by (rule unat_suc) (use few_bounds [OF assms(1,2)] pos in simp)
  have "cell_ok ?N ?E ?D (s_in s) (?D mod ?N) (nseq ?q (?D mod ?N)) (ndata ?q (?D mod ?N))"
    using f(1) by (intro f(7) mod_less_divisor) linarith
  then have mine: "?D < ?E" "ndata ?q (?D mod ?N) = Some (s_in s ! ?D)"
    using seq suc_mod_neq [OF f(1), of ?D] by (cases rule: cell_cases; simp)+
  have fresh: "pos \<notin> fst ` set (s_out s)" using f(11) [of pos] by fastforce
  show ?thesis
  proof (rule qinvI [OF refl refl refl], goal_cases)
    case (7 j)
    then have "cell_ok ?N ?E ?D (s_in s) j (nseq ?q j) (ndata ?q j)" using f(7) by simp
    then have "cell_ok ?N ?E (Suc ?D) (s_in s) j (nseq ?q j) (ndata ?q j)"
    proof (cases rule: cell_cases)
      case waits
      then have "nseq ?q j \<noteq> ?D" using seq by auto
      then show ?thesis using waits by (intro cell_waits) simp_all
    next
      case (holds p)
      then show ?thesis unfolding holds(1) by (intro cell_holds) simp_all
    qed
    then show ?case using next_pos by (simp add: nseq_def ndata_def)
  next
    case (8 u)
    show ?case
      using pc_ok_deq [OF f(8) [of u] f(1) seq] mine fresh seq f(4) next_pos
      by (simp add: nseq_def [abs_def] ndata_def [abs_def])
  next
    case 9
    have "owns (s_pc s u) \<noteq> Some (False, pos)" for u using owner_facts(2) [OF f(8) [of u], of pos] by auto
    then show ?case using owners_ok_fresh [OF f(9), of t "DeqRead pos"] by simp
  next
    case (11 p v)
    then show ?case using f(11) [of p v] next_pos by simp
  qed (use f(1-4,6,10) mine qinv_power [OF assms(1)] next_pos in auto)
qed

lemma pc_ok_out:
  "pc_ok N E D ins outs sq d p \<Longrightarrow> owns p \<noteq> Some (False, pos) \<Longrightarrow> pc_ok N E D ins (outs @ [(pos, v)]) sq d p"
  by (cases p) auto

lemma deq_read_qinv:
  assumes "qinv s" and pc: "s_pc s t = DeqRead pos"
  shows "qinv (goto t (DeqPublish pos (cell_data (s_q s) pos)) (s\<lparr>s_out := s_out s @ [(pos, cell_data (s_q s) pos)]\<rparr>))"
proof -
  note f = qinv_facts [OF assms(1) refl refl refl]
  have d: "cell_data (s_q s) pos = Some (s_in s ! unat pos)" "pos \<notin> fst ` set (s_out s)"
    and me: "unat pos < unat (q_deq (s_q s))" "length (s_in s) \<le> unat pos + length (q_cells (s_q s))"
      "nseq (s_q s) (unat pos mod length (q_cells (s_q s))) = Suc (unat pos)"
    using f(8) [of t] f(5) [of pos] pc by (simp_all add: cell_data_def ndata_def)
  show ?thesis
  proof (rule qinvI [OF refl refl refl], goal_cases)
    case (8 u)
    show ?case
      using pc_ok_out [OF f(8) [of u], of pos] other_owner [OF f(9), of t "(False, pos)" u] pc me by simp
  next
    case 9
    show ?case using owners_ok_same [OF f(9), of "DeqPublish pos (cell_data (s_q s) pos)" t] pc by simp
  next
    case (11 p v)
    then show ?case using f(11) [of p v] me(1) d(1) by auto
  qed (use f(1-7,10) d(2) qinv_power [OF assms(1)] in auto)
qed

lemma deq_publish_qinv:
  assumes "qinv s" "few s" and pc: "s_pc s t = DeqPublish pos v"
  shows "qinv (goto t Idle (s\<lparr>s_q := set_seq pos (pos + q_mask (s_q s) + 1) (s_q s)\<rparr>))"
proof -
  let ?q = "s_q s" and ?N = "length (q_cells (s_q s))" and ?E = "length (s_in s)" and ?D = "unat (q_deq (s_q s))"
  let ?i = "unat pos mod ?N"
  note f = qinv_facts [OF assms(1) refl refl refl]
  have me: "unat pos < ?D" "?E \<le> unat pos + ?N" "nseq ?q ?i = Suc (unat pos)"
    using f(8) [of t] pc by simp_all
  have i: "cell_index ?q pos = ?i" "?i < ?N" using f(1,5) by (simp, intro mod_less_divisor, linarith)
  note upd = nseq_set [of ?q pos, unfolded i(1), OF i(2)]
  note small = few_bounds [OF assms(1,2)]
  have sum: "unat (pos + q_mask ?q) = unat pos + unat (q_mask ?q)"
    by (rule unat_add_lem [THEN iffD1]) (use me(1) f(6) small in simp)
  have freed: "unat (pos + q_mask ?q + 1) = unat pos + ?N"
  proof -
    have "unat (pos + q_mask ?q + 1) = Suc (unat (pos + q_mask ?q))"
      by (rule unat_suc) (use sum me(1) f(6) small in simp)
    then show ?thesis using sum f(1,6) by simp
  qed
  show ?thesis
  proof (rule qinvI [OF refl refl refl], goal_cases)
    case (7 j)
    then have c: "cell_ok ?N ?E ?D (s_in s) j (nseq ?q j) (ndata ?q j)" using f(7) by simp
    have "cell_ok ?N ?E ?D (s_in s) j (((nseq ?q)(?i := unat pos + ?N)) j) (ndata ?q j)"
    proof (cases "j = ?i")
      case True
      then show ?thesis using me f(3) by (auto intro: cell_waits)
    qed (use c in simp)
    then show ?case using freed by (simp add: upd)
  next
    case (8 u)
    have "u \<noteq> t \<Longrightarrow> owns (s_pc s u) \<noteq> Some (False, of_nat (unat pos))"
      using other_owner [OF f(9), of t "(False, pos)" u] pc by simp
    then show ?case
      using pc_ok_release [OF f(8) [of u] f(1) me(3,1)] freed by (simp add: upd)
  next
    case 9
    show ?case using owners_ok_same [OF f(9), of Idle t] by simp
  qed (use f(1-6,10,11) qinv_power [OF assms(1)] in auto)
qed

lemma enqueue_step_qinv:
  assumes "qinv s" "few s"
  shows "qinv (enqueue_step cas_ok t s)"
proof -
  note f = qinv_facts [OF assms(1) refl refl refl]
  note small = few_bounds [OF assms]
  show ?thesis
  proof (cases "s_pc s t")
    case (EnqLoad x)
    then show ?thesis using f(2) by (auto simp: enqueue_step_def intro!: goto_qinv [OF assms(1)])
  next
    case (EnqPos x pos)
    then have p: "unat pos \<le> length (s_in s)" using f(8) [of t] by simp
    then have "unat pos < 2 ^ 63" using small by simp
    from seq_dif_nat [OF assms this, of pos]
    have "seq_dif (cell_seq (s_q s) pos) pos = 0 \<Longrightarrow> nseq (s_q s) (unat pos mod length (q_cells (s_q s))) = unat pos"
      unfolding f(5) by linarith
    then show ?thesis using EnqPos p
      by (auto simp: enqueue_step_def Let_def intro!: goto_qinv [OF assms(1)])
  next
    case (EnqCas x pos)
    then show ?thesis using f(2) enq_cas_qinv [OF assms EnqCas]
      by (auto simp: enqueue_step_def Let_def intro!: goto_qinv [OF assms(1)])
  next
    case (EnqWrite x pos)
    then show ?thesis using enq_write_qinv [OF assms EnqWrite] by (simp add: enqueue_step_def Let_def)
  next
    case (EnqPublish pos)
    then show ?thesis using enq_publish_qinv [OF assms EnqPublish] by (simp add: enqueue_step_def Let_def)
  qed (use assms in \<open>simp_all add: enqueue_step_def\<close>)
qed

lemma dequeue_step_qinv:
  assumes "qinv s" "few s"
  shows "qinv (dequeue_step cas_ok t s)"
proof -
  note f = qinv_facts [OF assms(1) refl refl refl]
  note small = few_bounds [OF assms]
  show ?thesis
  proof (cases "s_pc s t")
    case DeqLoad
    then show ?thesis by (auto simp: dequeue_step_def intro!: goto_qinv [OF assms(1)])
  next
    case (DeqPos pos)
    then have p: "unat pos \<le> unat (q_deq (s_q s))" using f(8) [of t] by simp
    then have n: "unat (pos + 1) = Suc (unat pos)" by (intro unat_suc) (use small in simp)
    then have "unat (pos + 1) < 2 ^ 63" using p small by simp
    from seq_dif_nat [OF assms this, of pos]
    have "seq_dif (cell_seq (s_q s) pos) (pos + 1) = 0 \<Longrightarrow>
        nseq (s_q s) (unat pos mod length (q_cells (s_q s))) = Suc (unat pos)"
      unfolding f(5) n by linarith
    then show ?thesis using DeqPos p
      by (auto simp: dequeue_step_def Let_def intro!: goto_qinv [OF assms(1)])
  next
    case (DeqCas pos)
    then show ?thesis using deq_cas_qinv [OF assms DeqCas]
      by (auto simp: dequeue_step_def Let_def intro!: goto_qinv [OF assms(1)])
  next
    case (DeqRead pos)
    then show ?thesis using deq_read_qinv [OF assms(1) DeqRead] by (simp add: dequeue_step_def Let_def)
  next
    case (DeqPublish pos v)
    then show ?thesis using deq_publish_qinv [OF assms DeqPublish] by (simp add: dequeue_step_def Let_def)
  qed (use assms in \<open>simp_all add: dequeue_step_def\<close>)
qed

lemma step_grows:
  "\<exists>xs. s_in (enqueue_step c t s) = s_in s @ xs" "s_in (dequeue_step c t s) = s_in s"
  "length (q_cells (s_q (enqueue_step c t s))) = length (q_cells (s_q s))"
  "length (q_cells (s_q (dequeue_step c t s))) = length (q_cells (s_q s))"
  by (auto simp: enqueue_step_def dequeue_step_def Let_def split: pc.split)

lemma qstep_grows:
  "\<exists>xs. s_in (qstep e s) = s_in s @ xs" "length (q_cells (s_q (qstep e s))) = length (q_cells (s_q s))"
  using step_grows(1) by (cases e; auto simp: qstep_def step_grows(2-4))+

lemma qstep_qinv:
  assumes "qinv s" "few (qstep e s)"
  shows "qinv (qstep e s)"
proof -
  obtain xs where "s_in (qstep e s) = s_in s @ xs" using qstep_grows(1) by blast
  then have few: "few s" using assms(2) qstep_grows(2) [of e s] by (simp add: few_def)
  show ?thesis
  proof (cases e)
    case (Access t c)
    have "few (enqueue_step c t s)" using assms(2) Access by (simp add: few_def qstep_def step_grows(2,4))
    then show ?thesis
      using Access dequeue_step_qinv [OF enqueue_step_qinv [OF assms(1) few]] by (simp add: qstep_def)
  qed (use assms(1) in \<open>auto simp: qstep_def intro!: goto_qinv\<close>)
qed

subsection \<open>Runs\<close>

definition start :: "'a mpmc \<Rightarrow> 'a qsys" where
  "start q = \<lparr>s_q = q, s_pc = (\<lambda>_. Idle), s_in = [], s_out = []\<rparr>"

lemma start_qinv:
  assumes "new_mpmc n = Some q"
  shows "qinv (start q)" "length (q_cells q) = unat n"
proof -
  have n: "2 \<le> n" "n AND (n - 1) = 0" and q: "q = \<lparr>q_cells = map (\<lambda>i. (of_nat i, None)) [0 ..< unat n],
      q_mask = n - 1, q_enq = 0, q_deq = 0\<rparr>"
    using assms by (auto simp: new_mpmc_def split: if_splits)
  have two: "2 \<le> unat n" using n(1) by (simp add: word_le_nat_alt)
  have pred: "unat (n - 1) = unat n - 1"
    using n(1) by (subst unat_sub) (simp_all add: word_le_nat_alt)
  have "unat (n AND (n - 1)) = unat n AND (unat n - 1)" by (simp add: unsigned_and_eq pred)
  then have "unat n AND (unat n - 1) = 0" using n(2) by simp
  then have pow: "\<exists>k. unat n = 2 ^ k" using two by (intro and_pred_power) simp_all
  have lim: "unat n < 2 ^ LENGTH(64)" by (rule unsigned_less)
  show len: "length (q_cells q) = unat n" by (simp add: q)
  show "qinv (start q)"
  proof (rule qinvI [OF refl refl refl], goal_cases)
    case (7 i)
    then have "i < unat n" by (simp add: start_def len)
    then have "nseq q i = i" using lim by (simp add: nseq_def q unat_of_nat)
    then show ?case using \<open>i < unat n\<close> by (auto simp: start_def q intro: cell_waits)
  qed (use two pow pred in \<open>simp_all add: start_def q owners_ok_def\<close>)
qed

lemma run_qinv:
  "qinv s \<Longrightarrow> few (fold qstep es s) \<Longrightarrow> qinv (fold qstep es s) \<and>
    length (q_cells (s_q (fold qstep es s))) = length (q_cells (s_q s))"
proof (induction es rule: rev_induct)
  case (snoc e es)
  let ?s = "fold qstep es s"
  obtain xs where "s_in (qstep e ?s) = s_in ?s @ xs" using qstep_grows(1) by blast
  then have "few ?s" using snoc.prems(2) qstep_grows(2) [of e ?s] by (simp add: few_def)
  then show ?case using snoc qstep_qinv [of ?s e] qstep_grows(2) [of e ?s] by simp
qed simp

text \<open>
  C7: The logging queue is a bounded FIFO queue for any number of threads. Values get
  positions in the order in which their enqueuers win the exchange; whatever the
  interleaving, what a dequeuer reads at a position is exactly the value that got that
  position, no position is read twice, positions are read only after they were given
  out, and at most as many values as the queue has cells are in it. The counters must stay
  below \<open>2 ^ 62\<close>.
\<close>

theorem queue_is_fifo:
  assumes "new_mpmc n = Some q" and "s = fold qstep es (start q)"
    and "length (s_in s) + unat n < 2 ^ 62"
  shows "distinct (map fst (s_out s)) \<and>
    (\<forall>(pos, v) \<in> set (s_out s). unat pos < length (s_in s) \<and> v = Some (s_in s ! unat pos)) \<and>
    unat (q_enq (s_q s)) = length (s_in s) \<and> unat (q_deq (s_q s)) \<le> length (s_in s) \<and>
    length (s_in s) \<le> unat (q_deq (s_q s)) + unat n"
proof -
  note st = start_qinv [OF assms(1)]
  have len: "length (q_cells (s_q (start q))) = unat n" using st(2) by (simp add: start_def)
  have size: "length (q_cells (s_q (fold qstep es' (start q)))) = unat n" for es'
    by (induction es' rule: rev_induct) (simp_all add: len qstep_grows(2))
  have "few s" using assms(2,3) size by (simp add: few_def)
  then have inv: "qinv s" using run_qinv [OF st(1)] assms(2) by blast
  note f = qinv_facts [OF inv refl refl refl]
  have "unat pos < length (s_in s) \<and> v = Some (s_in s ! unat pos)" if "(pos, v) \<in> set (s_out s)" for pos v
    using f(11) [OF that] f(3) by simp
  then show ?thesis using f(2,3,4,10) size assms(2) by auto
qed

theorem queue_is_fifo_witness:
  "\<exists>q. new_mpmc 2 = Some q \<and>
    (let s = fold qstep ([CallEnq 0 ''a'', CallEnq 1 ''b'', CallDeq 2] @
       concat (replicate 6 [Access 1 True, Access 0 True, Access 2 True])) (start q)
     in s_in s = [''b'', ''a''] \<and> unat (q_deq (s_q s)) \<le> 2)"
proof -
  let ?es = "[CallEnq 0 ''a'', CallEnq 1 ''b'', CallDeq 2] @
    concat (replicate 6 [Access 1 True, Access 0 True, Access 2 True])"
  obtain q :: "string mpmc" where q: "new_mpmc 2 = Some q"
    and ins: "s_in (fold qstep ?es (start q)) = [''b'', ''a'']"
  proof -
    have "case new_mpmc 2 :: string mpmc option of Some q \<Rightarrow> s_in (fold qstep ?es (start q)) = [''b'', ''a''] | None \<Rightarrow> False"
      by code_simp
    then show thesis using that by (auto split: option.splits)
  qed
  have "unat (q_deq (s_q (fold qstep ?es (start q)))) \<le> length (s_in (fold qstep ?es (start q)))"
    using queue_is_fifo [OF q refl, of ?es] ins by simp
  then show ?thesis using q ins by (auto simp: Let_def)
qed

end
