(* ===== verification/Log_Files.thy ===== *)
theory Log_Files
  imports Log_Pattern
begin

text \<open>
  \<^verbatim>\<open>spdlog/details/file_helper.h\<close> and \<^verbatim>\<open>spdlog/sinks/file_sinks.h\<close>: a log file, and the
  sinks that write to one file, rotate files by size, or begin a new one every day. The
  C library's file operations work on a \<open>disk\<close>: a map from names to contents, where any
  operation may fail.
\<close>

subsection \<open>Files\<close>

text \<open>
  \<open>dk_fault n\<close> says how the operation number \<open>n\<close> fails, if it does: \<open>Some k\<close> is a failure,
  which lets a write put \<open>k\<close> characters before it stops. The contents of a file include
  what the library still buffers.
\<close>

record disk =
  dk_files :: "string \<Rightarrow> string option"
  dk_fault :: "nat \<Rightarrow> nat option"
  dk_count :: nat

definition attempt :: "disk \<Rightarrow> nat option \<times> disk" where
  "attempt d = (dk_fault d (dk_count d), d\<lparr>dk_count := Suc (dk_count d)\<rparr>)"

definition old_text :: "string \<Rightarrow> disk \<Rightarrow> string" where
  "old_text fname d = (case dk_files d fname of Some s \<Rightarrow> s | None \<Rightarrow> '''')"

text \<open>\<open>fopen_s\<close> answers true on failure.\<close>

definition fopen_s :: "string \<Rightarrow> bool \<Rightarrow> disk \<Rightarrow> bool \<times> disk" where
  "fopen_s fname trunc d =
     (let (e, d) = attempt d
      in if e \<noteq> None then (True, d)
         else (False, d\<lparr>dk_files := (dk_files d)(fname \<mapsto> if trunc then '''' else old_text fname d)\<rparr>))"

definition fwrite :: "string \<Rightarrow> string \<Rightarrow> disk \<Rightarrow> nat \<times> disk" where
  "fwrite fname text d =
     (let (e, d) = attempt d;
          written = (case e of None \<Rightarrow> text | Some k \<Rightarrow> take k text)
      in (length written, d\<lparr>dk_files := (dk_files d)(fname \<mapsto> old_text fname d @ written)\<rparr>))"

definition filesize :: "string \<Rightarrow> disk \<Rightarrow> u64 option \<times> disk" where
  "filesize fname d =
     (let (e, d) = attempt d
      in (if e \<noteq> None then None else Some (of_nat (length (old_text fname d))), d))"

definition file_exists :: "string \<Rightarrow> disk \<Rightarrow> bool" where
  "file_exists fname d = (dk_files d fname \<noteq> None)"

text \<open>\<open>remove\<close> and \<open>rename\<close> answer whether they succeeded.\<close>

definition remove_file :: "string \<Rightarrow> disk \<Rightarrow> bool \<times> disk" where
  "remove_file fname d =
     (let (e, d) = attempt d
      in if e \<noteq> None then (False, d) else (True, d\<lparr>dk_files := (dk_files d)(fname := None)\<rparr>))"

definition rename_file :: "string \<Rightarrow> string \<Rightarrow> disk \<Rightarrow> bool \<times> disk" where
  "rename_file src target d =
     (let (e, d) = attempt d
      in if e \<noteq> None then (False, d)
         else (True, d\<lparr>dk_files := (dk_files d)(src := None, target := dk_files d src)\<rparr>))"

subsection \<open>\<open>file_helper\<close>\<close>

datatype spdlog_ex =
    Failed_opening string | Failed_reopening | Failed_writing string | Closed_file string
  | Failed_size | Failed_removing string | Failed_renaming string string | Invalid_rotation_time
  | Bad_format string

text \<open>A call returns, throws, or has no defined meaning (a null \<open>FILE*\<close>, a null pointer); the
  state it leaves stands beside.\<close>

datatype 'a io = Returns 'a | Throws spdlog_ex | Crashes

record file_helper =
  fh_fd :: bool
  fh_filename :: string

definition new_file_helper :: file_helper where
  "new_file_helper = \<lparr>fh_fd = False, fh_filename = ''''\<rparr>"

definition fh_close :: "file_helper \<Rightarrow> file_helper" where
  "fh_close h = h\<lparr>fh_fd := False\<rparr>"

fun fh_try_open :: "nat \<Rightarrow> string \<Rightarrow> bool \<Rightarrow> disk \<Rightarrow> bool \<times> disk" where
  "fh_try_open 0 fname trunc d = (False, d)"
| "fh_try_open (Suc tries) fname trunc d =
     (let (failed, d) = fopen_s fname trunc d
      in if \<not> failed then (True, d) else fh_try_open tries fname trunc d)"

definition open_tries :: nat where
  "open_tries = 5"

definition fh_open :: "string \<Rightarrow> bool \<Rightarrow> file_helper \<Rightarrow> disk \<Rightarrow> unit io \<times> file_helper \<times> disk" where
  "fh_open fname trunc h d =
     (let h = (fh_close h)\<lparr>fh_filename := fname\<rparr>;
          (ok, d) = fh_try_open open_tries fname trunc d
      in if ok then (Returns (), h\<lparr>fh_fd := True\<rparr>, d) else (Throws (Failed_opening fname), h, d))"

definition fh_reopen :: "bool \<Rightarrow> file_helper \<Rightarrow> disk \<Rightarrow> unit io \<times> file_helper \<times> disk" where
  "fh_reopen trunc h d =
     (if fh_filename h = '''' then (Throws Failed_reopening, h, d)
      else fh_open (fh_filename h) trunc h d)"

definition fh_write :: "string \<Rightarrow> file_helper \<Rightarrow> disk \<Rightarrow> unit io \<times> disk" where
  "fh_write text h d =
     (if \<not> fh_fd h then (Crashes, d)
      else let (n, d) = fwrite (fh_filename h) text d
           in (if n \<noteq> length text then Throws (Failed_writing (fh_filename h)) else Returns (), d))"

definition fh_size :: "file_helper \<Rightarrow> disk \<Rightarrow> u64 io \<times> disk" where
  "fh_size h d =
     (if \<not> fh_fd h then (Throws (Closed_file (fh_filename h)), d)
      else let (n, d) = filesize (fh_filename h) d
           in (case n of Some n \<Rightarrow> Returns n | None \<Rightarrow> Throws Failed_size, d))"

text \<open>The last position of a character.\<close>

fun rfind :: "char \<Rightarrow> string \<Rightarrow> nat option" where
  "rfind ch [] = None"
| "rfind ch (x # s) =
     (case rfind ch s of Some i \<Rightarrow> Some (Suc i) | None \<Rightarrow> if x = ch then Some 0 else None)"

definition split_by_extenstion :: "string \<Rightarrow> string \<times> string" where
  "split_by_extenstion fname =
     (case rfind CHR ''.'' fname of
        None \<Rightarrow> (fname, '''')
      | Some ext_index \<Rightarrow>
          if ext_index = 0 \<or> ext_index = length fname - 1 then (fname, '''')
          else (case rfind CHR ''/'' fname of
                  Some folder_index \<Rightarrow>
                    if folder_index \<ge> ext_index - 1 then (fname, '''')
                    else (take ext_index fname, drop ext_index fname)
                | None \<Rightarrow> (take ext_index fname, drop ext_index fname)))"

subsection \<open>One file\<close>

record simple_file_sink =
  sf_file :: file_helper
  sf_force_flush :: bool

definition new_simple_file_sink :: "string \<Rightarrow> bool \<Rightarrow> disk \<Rightarrow> unit io \<times> simple_file_sink \<times> disk" where
  "new_simple_file_sink fname trunc d =
     (let (x, h, d) = fh_open fname trunc new_file_helper d
      in (x, \<lparr>sf_file = h, sf_force_flush = False\<rparr>, d))"

definition set_force_flush :: "bool \<Rightarrow> simple_file_sink \<Rightarrow> simple_file_sink" where
  "set_force_flush force_flush s = s\<lparr>sf_force_flush := force_flush\<rparr>"

text \<open>Flushing moves buffered text, which the contents include already.\<close>

definition simple_sink_it :: "string \<Rightarrow> simple_file_sink \<Rightarrow> disk \<Rightarrow> unit io \<times> disk" where
  "simple_sink_it formatted s d = fh_write formatted (sf_file s) d"

subsection \<open>Files rotated by size\<close>

definition calc_filename :: "string \<Rightarrow> u64 \<Rightarrow> string" where
  "calc_filename fname index =
     (if index \<noteq> 0
      then let (basename, ext) = split_by_extenstion fname
           in basename @ ''.'' @ printed (unsigned_parts index) @ ext
      else fname)"

record rotating_file_sink =
  rs_base_filename :: string
  rs_max_size :: u64
  rs_max_files :: u64
  rs_current_size :: u64
  rs_file :: file_helper

definition new_rotating_file_sink :: "string \<Rightarrow> u64 \<Rightarrow> u64 \<Rightarrow> disk \<Rightarrow>
    unit io \<times> rotating_file_sink \<times> disk" where
  "new_rotating_file_sink base max_size max_files d =
     (let s = \<lparr>rs_base_filename = base, rs_max_size = max_size, rs_max_files = max_files,
            rs_current_size = 0, rs_file = new_file_helper\<rparr>;
          (x, h, d) = fh_open (calc_filename base 0) False (rs_file s) d;
          s = s\<lparr>rs_file := h\<rparr>
      in case x of
           Returns _ \<Rightarrow>
             (let (n, d) = fh_size h d
              in case n of
                   Returns n \<Rightarrow> (Returns (), s\<lparr>rs_current_size := n\<rparr>, d)
                 | Throws e \<Rightarrow> (Throws e, s, d)
                 | Crashes \<Rightarrow> (Crashes, s, d))
         | _ \<Rightarrow> (x, s, d))"

text \<open>One turn of the loop of \<open>_rotate\<close> and the loop, from \<open>i\<close> down to 1.\<close>

definition rotate_one :: "string \<Rightarrow> u64 \<Rightarrow> disk \<Rightarrow> unit io \<times> disk" where
  "rotate_one base i d =
     (let src = calc_filename base (i - 1);
          target = calc_filename base i;
          (removed, d) = (if file_exists target d then remove_file target d else (True, d))
      in if \<not> removed then (Throws (Failed_removing target), d)
         else if file_exists src d
         then let (renamed, d) = rename_file src target d
              in (if renamed then Returns () else Throws (Failed_renaming src target), d)
         else (Returns (), d))"

fun rotate_from :: "string \<Rightarrow> nat \<Rightarrow> disk \<Rightarrow> unit io \<times> disk" where
  "rotate_from base 0 d = (Returns (), d)"
| "rotate_from base (Suc i) d =
     (let (x, d) = rotate_one base (of_nat (Suc i)) d
      in case x of Returns _ \<Rightarrow> rotate_from base i d | _ \<Rightarrow> (x, d))"

definition rotate_files :: "rotating_file_sink \<Rightarrow> disk \<Rightarrow> unit io \<times> rotating_file_sink \<times> disk" where
  "rotate_files s d =
     (let s = s\<lparr>rs_file := fh_close (rs_file s)\<rparr>;
          (x, d) = rotate_from (rs_base_filename s) (unat (rs_max_files s)) d
      in case x of
           Returns _ \<Rightarrow> (let (x, h, d) = fh_reopen True (rs_file s) d in (x, s\<lparr>rs_file := h\<rparr>, d))
         | _ \<Rightarrow> (x, s, d))"

definition rotating_sink_it :: "string \<Rightarrow> rotating_file_sink \<Rightarrow> disk \<Rightarrow>
    unit io \<times> rotating_file_sink \<times> disk" where
  "rotating_sink_it formatted s d =
     (let n = of_nat (length formatted);
          s = s\<lparr>rs_current_size := rs_current_size s + n\<rparr>;
          (x, s, d) = (if rs_current_size s > rs_max_size s
                       then let (x, s, d) = rotate_files s d
                            in case x of Returns _ \<Rightarrow> (x, s\<lparr>rs_current_size := n\<rparr>, d) | _ \<Rightarrow> (x, s, d)
                       else (Returns (), s, d))
      in case x of
           Returns _ \<Rightarrow> (let (x, d) = fh_write formatted (rs_file s) d in (x, s, d))
         | _ \<Rightarrow> (x, s, d))"

subsection \<open>A file for every day\<close>

text \<open>
  The clock: the time now, what \<open>localtime\<close> makes of it, and \<open>mktime\<close>.
\<close>

record day_clock =
  dc_now :: int
  dc_local :: tm
  dc_mktime :: "tm \<Rightarrow> int"

text \<open>\<open>{:02d}\<close> and \<open>{:04d}\<close>: zeros between the sign and the digits.\<close>

definition zero_filled :: "nat \<Rightarrow> i32 \<Rightarrow> string" where
  "zero_filled width v =
     (case write_int '''' (signed_parts v) ((pad_spec width CHR ''0'')\<lparr>fs_align := ALIGN_NUMERIC\<rparr>) [] of
        Wrote b \<Rightarrow> buffer_text b | _ \<Rightarrow> '''')"

text \<open>The two generators of file names.\<close>

definition default_daily_file_name :: "tm \<Rightarrow> string \<Rightarrow> string" where
  "default_daily_file_name t fname =
     (let (basename, ext) = split_by_extenstion fname
      in basename @ ''_'' @ zero_filled 4 (tm_year t + 1900) @ ''-'' @ zero_filled 2 (tm_mon t + 1) @ ''-'' @
         zero_filled 2 (tm_mday t) @ ''_'' @ zero_filled 2 (tm_hour t) @ ''-'' @ zero_filled 2 (tm_min t) @ ext)"

definition dateonly_daily_file_name :: "tm \<Rightarrow> string \<Rightarrow> string" where
  "dateonly_daily_file_name t fname =
     (let (basename, ext) = split_by_extenstion fname
      in basename @ ''_'' @ zero_filled 4 (tm_year t + 1900) @ ''-'' @ zero_filled 2 (tm_mon t + 1) @ ''-'' @
         zero_filled 2 (tm_mday t) @ ext)"

record daily_file_sink =
  ds_base_filename :: string
  ds_rotation_h :: i32
  ds_rotation_m :: i32
  ds_rotation_tp :: int
  ds_file :: file_helper

definition day_length :: int where
  "day_length = 24 * 60 * 60 * 1000000000"

definition next_rotation_tp :: "day_clock \<Rightarrow> i32 \<Rightarrow> i32 \<Rightarrow> int" where
  "next_rotation_tp c h m =
     (let rotation_time = dc_mktime c ((dc_local c)\<lparr>tm_hour := h, tm_min := m, tm_sec := 0\<rparr>)
      in if rotation_time > dc_now c then rotation_time else rotation_time + day_length)"

definition new_daily_file_sink :: "(tm \<Rightarrow> string \<Rightarrow> string) \<Rightarrow> day_clock \<Rightarrow> string \<Rightarrow> i32 \<Rightarrow>
    i32 \<Rightarrow> disk \<Rightarrow> unit io \<times> daily_file_sink \<times> disk" where
  "new_daily_file_sink calc c base h m d =
     (let s = \<lparr>ds_base_filename = base, ds_rotation_h = h, ds_rotation_m = m, ds_rotation_tp = 0,
            ds_file = new_file_helper\<rparr>
      in if sint h < 0 \<or> sint h > 23 \<or> sint m < 0 \<or> sint m > 59
         then (Throws Invalid_rotation_time, s, d)
         else let s = s\<lparr>ds_rotation_tp := next_rotation_tp c h m\<rparr>;
                  (x, f, d) = fh_open (calc (dc_local c) base) False (ds_file s) d
              in (x, s\<lparr>ds_file := f\<rparr>, d))"

definition daily_sink_it :: "(tm \<Rightarrow> string \<Rightarrow> string) \<Rightarrow> day_clock \<Rightarrow> string \<Rightarrow> daily_file_sink \<Rightarrow>
    disk \<Rightarrow> unit io \<times> daily_file_sink \<times> disk" where
  "daily_sink_it calc c formatted s d =
     (let (x, s, d) =
        (if dc_now c \<ge> ds_rotation_tp s
         then let (x, f, d) = fh_open (calc (dc_local c) (ds_base_filename s)) False (ds_file s) d;
                  s = s\<lparr>ds_file := f\<rparr>
              in case x of
                   Returns _ \<Rightarrow> (x, s\<lparr>ds_rotation_tp := next_rotation_tp c (ds_rotation_h s) (ds_rotation_m s)\<rparr>, d)
                 | _ \<Rightarrow> (x, s, d)
         else (Returns (), s, d))
      in case x of
           Returns _ \<Rightarrow> (let (x, d) = fh_write formatted (ds_file s) d in (x, s, d))
         | _ \<Rightarrow> (x, s, d))"

end
