(* ===== verification/Log_Files_Properties.thy ===== *)
theory Log_Files_Properties
  imports Log_Files
begin

text \<open>
  What the rotating log keeps: on a disk without failures the base file and \<open>log.1.txt\<close>,
  \<open>log.2.txt\<close>, ... are what the simple function \<open>roll\<close> on lists of files says, line by line, and
  after a rotation that failed the sink goes on trying and never writes through a closed file.
\<close>

subsection \<open>Names\<close>

lemma rfind_Some:
  "rfind ch s = Some i \<Longrightarrow> i < length s \<and> s ! i = ch \<and> ch \<notin> set (drop (Suc i) s)"
proof (induction s arbitrary: i)
  case (Cons x s)
  have n: "rfind ch s = None \<Longrightarrow> ch \<notin> set s" for s by (induction s) (auto split: option.splits if_splits)
  show ?case
    using Cons.prems Cons.IH n by (auto split: option.splits if_splits)
qed simp

lemma rfind_None: "rfind ch s = None \<longleftrightarrow> ch \<notin> set s"
  by (induction s) (auto split: option.splits if_splits)

text \<open>
  The parts of a file name make it up again, and an extension that is not empty is a dot
  and more, without another dot or a folder separator, after a name that is not empty and
  does not end in a separator.
\<close>

theorem split_parts:
  "split_by_extenstion fname = (basename, ext) \<Longrightarrow>
    basename @ ext = fname \<and>
    (ext \<noteq> '''' \<longrightarrow> hd ext = CHR ''.'' \<and> tl ext \<noteq> '''' \<and> CHR ''.'' \<notin> set (tl ext) \<and>
      CHR ''/'' \<notin> set ext \<and> basename \<noteq> '''' \<and> last basename \<noteq> CHR ''/'')"
proof -
  assume a: "split_by_extenstion fname = (basename, ext)"
  show ?thesis
  proof (cases "ext = ''''")
    case True
    then show ?thesis using a
      by (auto simp: split_by_extenstion_def split: option.splits if_splits dest: rfind_Some)
  next
    case False
    then obtain i where i: "rfind CHR ''.'' fname = Some i" "i \<noteq> 0" "i \<noteq> length fname - 1"
      and e: "basename = take i fname" "ext = drop i fname"
      and f: "\<And>k. rfind CHR ''/'' fname = Some k \<Longrightarrow> k < i - 1"
      using a by (auto simp: split_by_extenstion_def split: option.splits if_splits)
    note r = rfind_Some [OF i(1)]
    have d: "ext = fname ! i # drop (Suc i) fname" using e(2) r by (simp add: Cons_nth_drop_Suc [symmetric])
    have sl: "fname ! j \<noteq> CHR ''/''" if "i - 1 \<le> j" "j < length fname" for j
    proof (cases "rfind CHR ''/'' fname")
      case None
      then show ?thesis using that by (auto simp: rfind_None dest: nth_mem)
    next
      case (Some k)
      then have "CHR ''/'' \<notin> set (drop (Suc k) fname)" and "k < i - 1"
        using rfind_Some [OF Some] f [OF Some] by auto
      moreover have "drop (Suc k) fname ! (j - Suc k) = fname ! j" and "j - Suc k < length (drop (Suc k) fname)"
        using that calculation by auto
      ultimately show ?thesis by (metis nth_mem)
    qed
    have "CHR ''/'' \<notin> set ext" unfolding e(2) using sl by (auto simp: in_set_conv_nth)
    moreover have "last basename \<noteq> CHR ''/''"
    proof -
      have "i - 1 < length fname" using r by linarith
      then show ?thesis using sl [of "i - 1"] r i(2) unfolding e(1) by (subst last_conv_nth) auto
    qed
    moreover have "basename @ ext = fname" by (simp add: e)
    ultimately show ?thesis using r i d e(1) by auto
  qed
qed

lemma calc_filename_parts:
  "index \<noteq> 0 \<Longrightarrow> \<exists>basename ext. calc_filename fname index =
     basename @ ''.'' @ decimal (unat index) @ ext \<and> split_by_extenstion fname = (basename, ext)"
  by (simp add: calc_filename_def unsigned_parts_def int_text_def split: prod.splits)

lemma calc_filename_inj:
  assumes "calc_filename fname i = calc_filename fname j"
  shows "i = j"
proof -
  obtain b x where s: "split_by_extenstion fname = (b, x)" by (cases "split_by_extenstion fname")
  have l: "length fname = length b + length x" using split_parts [OF s] by auto
  have c: "calc_filename fname k = (if k = 0 then fname else b @ ''.'' @ decimal (unat k) @ x)" for k
    using calc_filename_parts [of k fname] s by (auto simp: calc_filename_def)
  have same: "i = j" if "decimal (unat i) = decimal (unat j)"
  proof -
    have "unat i = unat j" by (metis that read_decimal_decimal)
    then show ?thesis by (rule unsigned_word_eqI)
  qed
  then show ?thesis using assms l unfolding c by (auto dest: arg_cong [where f = length] split: if_splits)
qed

lemma calc_filename_eq [simp]: "calc_filename fname i = calc_filename fname j \<longleftrightarrow> i = j"
  by (auto dest: calc_filename_inj)

lemma calc_filename_0 [simp]: "calc_filename fname 0 = fname"
  by (simp add: calc_filename_def)

text \<open>The file number \<open>k\<close>, for numbers below \<open>2 ^ 64\<close>.\<close>

definition backup :: "string \<Rightarrow> nat \<Rightarrow> string" where
  "backup base k = calc_filename base (of_nat k)"

lemma backup_0 [simp]: "backup base 0 = base"
  by (simp add: backup_def)

lemma backup_eq: "j < 2 ^ 64 \<Longrightarrow> k < 2 ^ 64 \<Longrightarrow> backup base j = backup base k \<longleftrightarrow> j = k"
  by (auto simp: backup_def of_nat_inverse dest!: arg_cong [where f = unat and x = "of_nat j :: u64"])

subsection \<open>Operations on a disk without failures\<close>

definition sound :: "disk \<Rightarrow> bool" where
  "sound d = (\<forall>n. dk_fault d n = None)"

text \<open>The effect of a successful operation is the map it leaves.\<close>

definition becomes :: "disk \<Rightarrow> (string \<Rightarrow> string option) \<Rightarrow> disk \<Rightarrow> bool" where
  "becomes d m d' = (sound d' \<and> dk_files d' = m)"

lemma sound_attempt: "sound d \<Longrightarrow> attempt d = (None, d\<lparr>dk_count := Suc (dk_count d)\<rparr>)"
  by (simp add: attempt_def sound_def)

lemma sound_open:
  assumes "sound d"
  shows "\<exists>d'. fh_open fname trunc h d = (Returns (), \<lparr>fh_fd = True, fh_filename = fname\<rparr>, d') \<and>
    becomes d ((dk_files d)(fname \<mapsto> if trunc then '''' else old_text fname d)) d'"
  using assms
  by (simp add: fh_open_def open_tries_def eval_nat_numeral fopen_s_def sound_attempt becomes_def
      sound_def fh_close_def old_text_def)

lemma sound_write:
  assumes "sound d" and "fh_fd h"
  shows "\<exists>d'. fh_write text h d = (Returns (), d') \<and>
    becomes d ((dk_files d)(fh_filename h \<mapsto> old_text (fh_filename h) d @ text)) d'"
  using assms
  by (simp add: fh_write_def fwrite_def sound_attempt becomes_def sound_def old_text_def)

lemma sound_rotate_one:
  assumes "sound d" and "i \<noteq> 0"
  shows "\<exists>d'. rotate_one base i d = (Returns (), d') \<and>
    becomes d ((dk_files d)(calc_filename base (i - 1) := None,
      calc_filename base i := dk_files d (calc_filename base (i - 1)))) d'"
proof -
  let ?s = "calc_filename base (i - 1)" and ?t = "calc_filename base i"
  have n: "?t \<noteq> ?s" by simp
  have a: "attempt e = (None, e\<lparr>dk_count := Suc (dk_count e)\<rparr>)" if "dk_fault e = dk_fault d" for e
    using assms(1) that by (simp add: attempt_def sound_def)
  show ?thesis
    using assms n
    by (cases "dk_files d ?s"; cases "dk_files d ?t")
      (simp_all add: rotate_one_def Let_def file_exists_def remove_file_def rename_file_def a
        becomes_def sound_def fun_eq_iff)
qed

lemma sound_rotate:
  assumes "sound d" and "k < 2 ^ 64"
  shows "\<exists>d'. rotate_from base k d = (Returns (), d') \<and> sound d' \<and>
    (\<forall>i<k. dk_files d' (backup base (Suc i)) = dk_files d (backup base i)) \<and>
    (\<forall>f. f \<notin> backup base ` {0..k} \<longrightarrow> dk_files d' f = dk_files d f)"
  using assms
proof (induction k arbitrary: d)
  case 0
  then show ?case by simp
next
  case (Suc k)
  let ?i = "of_nat (Suc k) :: u64"
  have nz: "?i \<noteq> 0" using of_nat_inverse [of "Suc k" ?i] Suc.prems(2) by (simp del: of_nat_Suc) force
  have pred: "?i - 1 = of_nat k" by simp
  obtain d1 where r: "rotate_one base ?i d = (Returns (), d1)"
    and m: "sound d1" "dk_files d1 = (dk_files d)(backup base k := None,
      backup base (Suc k) := dk_files d (backup base k))"
    using sound_rotate_one [OF Suc.prems(1) nz, of base] unfolding becomes_def pred backup_def by blast
  have k: "k < 2 ^ 64" using Suc.prems(2) by simp
  obtain d2 where r2: "rotate_from base k d1 = (Returns (), d2)" "sound d2"
    "\<And>i. i < k \<Longrightarrow> dk_files d2 (backup base (Suc i)) = dk_files d1 (backup base i)"
    "\<And>f. f \<notin> backup base ` {0..k} \<Longrightarrow> dk_files d2 f = dk_files d1 f"
    using Suc.IH [OF m(1) k] by blast
  have ne: "backup base i \<noteq> backup base j" if "i \<noteq> j" "i \<le> Suc k" "j \<le> Suc k" for i j
    using that Suc.prems(2) by (simp add: backup_eq)
  have last: "backup base (Suc k) \<notin> backup base ` {0..k}"
    using ne [of "Suc k"] by (metis atLeastAtMost_iff image_iff le_Suc_eq not_less_eq_eq order_refl)
  have "dk_files d2 (backup base (Suc i)) = dk_files d (backup base i)" if "i < Suc k" for i
  proof (cases "i = k")
    case True
    then show ?thesis using r2(4) [OF last] m(2) by simp
  next
    case False
    then have "i < k" using that by simp
    then show ?thesis using r2(3) [of i] m(2) ne [of i k] ne [of i "Suc k"] by simp
  qed
  moreover have "dk_files d2 f = dk_files d f" if "f \<notin> backup base ` {0..Suc k}" for f
  proof -
    have "f \<notin> backup base ` {0..k}" "f \<noteq> backup base k" "f \<noteq> backup base (Suc k)" using that by auto
    then show ?thesis using r2(4) [of f] m(2) by simp
  qed
  ultimately show ?case using r r2(1,2) by (auto simp del: of_nat_Suc)
qed

subsection \<open>Rotation\<close>

text \<open>The file in use and its backups, newest first, and the text they hold, oldest first.\<close>

definition chain :: "string \<Rightarrow> nat \<Rightarrow> disk \<Rightarrow> string option list" where
  "chain base n d = map (\<lambda>k. dk_files d (backup base k)) [0 ..< Suc n]"

definition file_text :: "string option \<Rightarrow> string" where
  "file_text x = (case x of Some t \<Rightarrow> t | None \<Rightarrow> '''')"

definition chain_text :: "string option list \<Rightarrow> string" where
  "chain_text c = concat (map file_text (rev c))"

text \<open>
  The log as the documentation of the sink has it. A line that still fits goes to the end of the
  file in use. One that does not begins a new file: every file moves one place and only the
  oldest is lost. Opening the log makes the base file when there is none.
\<close>

definition rolls :: "nat \<Rightarrow> string \<Rightarrow> string option list \<Rightarrow> bool" where
  "rolls m line c = (m < length (file_text (hd c)) + length line)"

definition roll :: "nat \<Rightarrow> string \<Rightarrow> string option list \<Rightarrow> string option list" where
  "roll m line c = (if rolls m line c then Some line # butlast c else Some (file_text (hd c) @ line) # tl c)"

definition opened :: "string option list \<Rightarrow> string option list" where
  "opened c = Some (file_text (hd c)) # tl c"

text \<open>What the rotations for these lines have lost: one oldest file for each line that did not fit.\<close>

fun dropped :: "nat \<Rightarrow> string list \<Rightarrow> string option list \<Rightarrow> string" where
  "dropped m [] c = ''''"
| "dropped m (line # lines) c = (if rolls m line c then file_text (last c) else '''') @ dropped m lines (roll m line c)"

lemma roll_nonempty [simp]: "roll m line c \<noteq> []"
  by (simp add: roll_def)

lemma opened_text: "c \<noteq> [] \<Longrightarrow> chain_text (opened c) = chain_text c"
  by (cases c) (simp_all add: opened_def chain_text_def file_text_def)

lemma roll_text:
  "c \<noteq> [] \<Longrightarrow> chain_text c @ line = (if rolls m line c then file_text (last c) else '''') @ chain_text (roll m line c)"
proof -
  assume c: "c \<noteq> []"
  have "chain_text c = file_text (last c) @ chain_text (butlast c)"
    using c by (cases c rule: rev_cases) (simp_all add: chain_text_def)
  moreover have "chain_text c = chain_text (tl c) @ file_text (hd c)"
    using c by (cases c) (simp_all add: chain_text_def)
  ultimately show ?thesis by (simp add: roll_def chain_text_def file_text_def)
qed

lemma rolls_text:
  "c \<noteq> [] \<Longrightarrow> chain_text c @ concat lines = dropped m lines c @ chain_text (fold (roll m) lines c)"
proof (induction lines arbitrary: c)
  case (Cons line lines)
  have "chain_text c @ concat (line # lines) = (chain_text c @ line) @ concat lines" by simp
  also have "\<dots> = (if rolls m line c then file_text (last c) else '''') @ chain_text (roll m line c) @ concat lines"
    by (subst roll_text [OF Cons.prems, of line m]) simp
  finally show ?case using Cons.IH [of "roll m line c"] by simp
qed simp

definition files_within :: "nat \<Rightarrow> string option list \<Rightarrow> bool" where
  "files_within m c = (\<forall>x \<in> set c. length (file_text x) \<le> m)"

lemma roll_within: "c \<noteq> [] \<Longrightarrow> files_within m c \<Longrightarrow> length line \<le> m \<Longrightarrow> files_within m (roll m line c)"
  by (cases c) (auto simp: roll_def rolls_def files_within_def file_text_def dest: in_set_butlastD)

lemma rolls_within:
  "c \<noteq> [] \<Longrightarrow> files_within m c \<Longrightarrow> list_all (\<lambda>line. length line \<le> m) lines \<Longrightarrow> files_within m (fold (roll m) lines c)"
  by (induction lines arbitrary: c) (simp_all add: roll_within)

lemma opened_within: "c \<noteq> [] \<Longrightarrow> files_within m c \<Longrightarrow> files_within m (opened c)"
  by (cases c) (auto simp: opened_def files_within_def file_text_def)

text \<open>The sink has its base file open and knows its size.\<close>

definition writing :: "rotating_file_sink \<Rightarrow> disk \<Rightarrow> bool" where
  "writing s d =
     (fh_fd (rs_file s) \<and> fh_filename (rs_file s) = rs_base_filename s \<and> rs_base_filename s \<noteq> '''' \<and>
      (\<exists>t. dk_files d (rs_base_filename s) = Some t \<and> unat (rs_current_size s) = length t))"

lemma chain_upd:
  assumes "dk_files d' base = x"
    and "\<And>k. 0 < k \<Longrightarrow> k \<le> n \<Longrightarrow> dk_files d' (backup base k) = dk_files d (backup base k)"
  shows "chain base n d' = x # tl (chain base n d)"
  using assms by (auto simp: chain_def upt_conv_Cons simp del: upt_Suc)

lemma chain_shift:
  assumes "dk_files d' base = x"
    and "\<And>k. k < n \<Longrightarrow> dk_files d' (backup base (Suc k)) = dk_files d (backup base k)"
  shows "chain base n d' = x # butlast (chain base n d)"
proof -
  have u: "[0 ..< Suc n] = 0 # map Suc [0 ..< n]" by (simp add: upt_conv_Cons map_Suc_upt del: upt_Suc)
  have "chain base n d' = x # map (\<lambda>k. dk_files d (backup base k)) [0 ..< n]"
    using assms unfolding chain_def u by simp
  then show ?thesis by (simp add: chain_def butlast_append)
qed

text \<open>
  One message on a disk without failures. It is added to the file in use, unless the file
  would grow over the limit: then every file moves one place, the oldest is gone, and
  the message begins a new file. No other file changes.
\<close>

lemma rotating_step:
  assumes "sound d" and "writing s d" and "dk_files d (rs_base_filename s) = Some t"
    and "length t + length msg < 2 ^ 64" and "n = unat (rs_max_files s)" "base = rs_base_filename s"
  shows "\<exists>s' d'. rotating_sink_it msg s d = (Returns (), s', d') \<and> sound d' \<and> writing s' d' \<and>
    rs_base_filename s' = base \<and> rs_max_size s' = rs_max_size s \<and> rs_max_files s' = rs_max_files s \<and>
    chain base n d' = (if unat (rs_max_size s) < length t + length msg
                       then Some msg # butlast (chain base n d)
                       else Some (t @ msg) # tl (chain base n d)) \<and>
    (\<forall>f. f \<notin> backup base ` {0..n} \<longrightarrow> dk_files d' f = dk_files d f)"
proof -
  let ?h = "rs_file s"
  have w: "fh_fd ?h" "fh_filename ?h = base" "base \<noteq> ''''" "unat (rs_current_size s) = length t"
    and t: "dk_files d base = Some t"
    using assms(2,3,6) by (auto simp: writing_def)
  have "unat (rs_max_files s) < 2 ^ LENGTH(64)" by (rule unsigned_less)
  then have nb: "n < 2 ^ 64" using assms(5) by simp
  have sum: "unat (rs_current_size s + of_nat (length msg)) = length t + length msg"
    using w(4) assms(4) by (simp add: unat_word_ariths of_nat_inverse unat_of_nat)
  have len: "unat (of_nat (length msg) :: u64) = length msg" using assms(4) by (simp add: of_nat_inverse)
  have over: "rs_max_size s < rs_current_size s + of_nat (length msg) \<longleftrightarrow>
      unat (rs_max_size s) < length t + length msg"
    by (simp add: word_less_nat_alt sum)
  show ?thesis
  proof (cases "unat (rs_max_size s) < length t + length msg")
    case True
    obtain d1 where r: "rotate_from base n d = (Returns (), d1)" "sound d1"
      "\<And>i. i < n \<Longrightarrow> dk_files d1 (backup base (Suc i)) = dk_files d (backup base i)"
      "\<And>f. f \<notin> backup base ` {0..n} \<Longrightarrow> dk_files d1 f = dk_files d f"
      using sound_rotate [OF assms(1) nb] by blast
    obtain d2 where o: "fh_open base True (fh_close ?h) d1 = (Returns (), \<lparr>fh_fd = True, fh_filename = base\<rparr>, d2)"
      "sound d2" "dk_files d2 = (dk_files d1)(base \<mapsto> '''')"
      using sound_open [OF r(2), of base True "fh_close ?h"] by (auto simp: becomes_def)
    let ?h' = "\<lparr>fh_fd = True, fh_filename = base\<rparr>"
    obtain d3 where f: "fh_write msg ?h' d2 = (Returns (), d3)" "sound d3" "dk_files d3 = (dk_files d2)(base \<mapsto> msg)"
      using sound_write [OF o(2), of ?h' msg] o(3) by (auto simp: becomes_def old_text_def)
    have nm: "backup base (Suc i) \<noteq> base" if "i < n" for i
      using that nb backup_eq [of "Suc i" 0 base] by simp
    have "chain base n d3 = Some msg # butlast (chain base n d)"
      by (rule chain_shift) (simp_all add: f(3) o(3) nm r(3))
    moreover have "dk_files d3 g = dk_files d g" if "g \<notin> backup base ` {0..n}" for g
    proof -
      have "g \<noteq> base" using that by force
      then show ?thesis using r(4) [OF that] by (simp add: f(3) o(3))
    qed
    ultimately show ?thesis
      using True w over r(1) o(1) f len assms(5,6)
      by (simp add: rotating_sink_it_def Let_def rotate_files_def fh_reopen_def fh_close_def writing_def)
  next
    case False
    obtain d1 where f: "fh_write msg ?h d = (Returns (), d1)" "sound d1" "dk_files d1 = (dk_files d)(base \<mapsto> t @ msg)"
      using sound_write [OF assms(1) w(1), of msg] w(2) t by (auto simp: becomes_def old_text_def)
    have nm: "backup base k \<noteq> base" if "0 < k" "k \<le> n" for k
      using that nb backup_eq [of k 0 base] by simp
    have "chain base n d1 = Some (t @ msg) # tl (chain base n d)"
      by (rule chain_upd) (simp_all add: f(3) nm)
    moreover have "dk_files d1 g = dk_files d g" if "g \<notin> backup base ` {0..n}" for g
      using that by (force simp: f(3))
    ultimately show ?thesis
      using False w over f sum assms(5,6)
      by (simp add: rotating_sink_it_def Let_def writing_def)
  qed
qed

subsection \<open>The log as a whole\<close>

text \<open>All messages, as long as no call throws.\<close>

fun log_all :: "string list \<Rightarrow> rotating_file_sink \<Rightarrow> disk \<Rightarrow> (rotating_file_sink \<times> disk) option" where
  "log_all [] s d = Some (s, d)"
| "log_all (msg # msgs) s d =
     (case rotating_sink_it msg s d of (Returns _, s, d) \<Rightarrow> log_all msgs s d | _ \<Rightarrow> None)"

lemma chain_nonempty [simp]: "chain base n d \<noteq> []"
  by (simp add: chain_def)

lemma hd_chain: "hd (chain base n d) = dk_files d base"
  by (simp add: chain_def upt_conv_Cons del: upt_Suc)

lemma new_rotating_writing:
  assumes "sound d" and "new_rotating_file_sink base max_size max_files d = (x, s, d')" and "base \<noteq> ''''"
    and "length (old_text base d) < 2 ^ 64"
  shows "x = Returns () \<and> sound d' \<and> writing s d' \<and> rs_base_filename s = base \<and> rs_max_size s = max_size \<and>
    rs_max_files s = max_files \<and> dk_files d' = (dk_files d)(base \<mapsto> old_text base d)"
  using sound_open [OF assms(1), of base False new_file_helper] assms
  by (auto simp: new_rotating_file_sink_def Let_def fh_size_def filesize_def becomes_def writing_def
      sound_attempt sound_def old_text_def of_nat_inverse split: prod.splits)

text \<open>On a disk without failures the code does to its files what \<open>roll\<close> says, line by line.\<close>

lemma log_run:
  assumes "sound d" and "writing s d" and "dk_files d base = Some t"
    and "length t + length (concat msgs) < 2 ^ 64" and "n = unat (rs_max_files s)" "base = rs_base_filename s"
  shows "\<exists>s' d'. log_all msgs s d = Some (s', d') \<and>
    chain base n d' = fold (roll (unat (rs_max_size s))) msgs (chain base n d) \<and>
    (\<forall>f. f \<notin> backup base ` {0..n} \<longrightarrow> dk_files d' f = dk_files d f)"
  using assms
proof (induction msgs arbitrary: s d t)
  case Nil
  then show ?case by simp
next
  case (Cons msg msgs)
  let ?c = "chain base n d"
  have t: "dk_files d (rs_base_filename s) = Some t" using Cons.prems(3,6) by simp
  have l: "length t + length msg < 2 ^ 64" using Cons.prems(4) by simp
  have hc: "file_text (hd ?c) = t" using Cons.prems(3) by (simp add: hd_chain file_text_def)
  obtain s1 d1 where r: "rotating_sink_it msg s d = (Returns (), s1, d1)" "sound d1" "writing s1 d1"
    "rs_base_filename s1 = base" "rs_max_size s1 = rs_max_size s" "rs_max_files s1 = rs_max_files s"
    and c: "chain base n d1 = roll (unat (rs_max_size s)) msg ?c"
    and o: "\<And>f. f \<notin> backup base ` {0..n} \<Longrightarrow> dk_files d1 f = dk_files d f"
    using rotating_step [OF Cons.prems(1,2) t l Cons.prems(5,6)] unfolding roll_def rolls_def hc by blast
  obtain t1 where t1: "dk_files d1 base = Some t1" "length t1 \<le> length t + length msg"
  proof -
    have "dk_files d1 base = hd (roll (unat (rs_max_size s)) msg ?c)" using hd_chain [of base n d1] c by simp
    then show ?thesis using hc by (auto simp: roll_def intro: that split: if_splits)
  qed
  have l1: "length t1 + length (concat msgs) < 2 ^ 64" using t1(2) Cons.prems(4) by simp
  obtain s2 d2 where "log_all msgs s1 d1 = Some (s2, d2)"
    "chain base n d2 = fold (roll (unat (rs_max_size s))) msgs (chain base n d1)"
    "\<And>f. f \<notin> backup base ` {0..n} \<Longrightarrow> dk_files d2 f = dk_files d1 f"
    using Cons.IH [OF r(2,3) t1(1) l1] unfolding r(4-6) using Cons.prems(5) by blast
  then show ?case using r(1) c o by simp
qed

text \<open>A new sink and its log.\<close>

lemma rotating_sink_rolls:
  assumes "sound d" and "new_rotating_file_sink base max_size max_files d = (x, s, d1)" and "base \<noteq> ''''"
    and "length (old_text base d) + length (concat msgs) < 2 ^ 64" and "n = unat max_files"
  shows "\<exists>s' d'. log_all msgs s d1 = Some (s', d') \<and>
    chain base n d' = fold (roll (unat max_size)) msgs (opened (chain base n d)) \<and>
    (\<forall>f. f \<notin> backup base ` {0..n} \<longrightarrow> dk_files d' f = dk_files d f)"
proof -
  let ?o = "old_text base d"
  have w: "sound d1" "writing s d1" "rs_base_filename s = base" "rs_max_size s = max_size"
    "rs_max_files s = max_files" "dk_files d1 = (dk_files d)(base \<mapsto> ?o)"
    using new_rotating_writing [OF assms(1-3)] assms(4) by auto
  have "unat max_files < 2 ^ LENGTH(64)" by (rule unsigned_less)
  then have nm: "backup base k \<noteq> base" if "0 < k" "k \<le> n" for k
    using that backup_eq [of k 0 base] assms(5) by simp
  have "chain base n d1 = Some ?o # tl (chain base n d)"
    by (rule chain_upd) (simp_all add: w(6) nm)
  then have c: "chain base n d1 = opened (chain base n d)"
    by (simp add: opened_def hd_chain file_text_def old_text_def)
  have g: "dk_files d1 k = dk_files d k" if "k \<notin> backup base ` {0..n}" for k
    using that by (force simp: w(6))
  have e: "dk_files d1 base = Some ?o" by (simp add: w(6))
  show ?thesis
    using log_run [OF w(1,2) e assms(4)] assms(5) w(3-5) c g by metis
qed

subsection \<open>Failures\<close>

text \<open>The sink has its file open, or will rotate before it writes again.\<close>

definition armed :: "rotating_file_sink \<Rightarrow> bool" where
  "armed s = (fh_fd (rs_file s) \<or> rs_max_size s < rs_current_size s)"

lemma fh_open_outcome: "fh_open f trunc h d = (x, h', d') \<Longrightarrow>
    x = Returns () \<and> fh_fd h' \<or> x = Throws (Failed_opening f) \<and> \<not> fh_fd h'"
  by (auto simp: fh_open_def fh_close_def Let_def split: prod.splits if_splits)

lemma rotate_one_outcome: "fst (rotate_one base i d) \<noteq> Crashes"
  by (auto simp: rotate_one_def Let_def split: prod.splits)

lemma rotate_from_outcome: "fst (rotate_from base k d) \<noteq> Crashes"
proof (induction k arbitrary: d)
  case (Suc k)
  then show ?case using rotate_one_outcome [of base "of_nat (Suc k)" d]
    by (auto simp del: of_nat_Suc split: prod.splits io.splits)
qed simp

lemma rotate_files_outcome:
  assumes "rotate_files s d = (x, s', d')"
  shows "x \<noteq> Crashes \<and> (x = Returns () \<longrightarrow> fh_fd (rs_file s')) \<and>
    rs_max_size s' = rs_max_size s \<and> rs_current_size s' = rs_current_size s"
  using assms rotate_from_outcome [of "rs_base_filename s" "unat (rs_max_files s)" d]
  by (auto simp: rotate_files_def Let_def fh_reopen_def split: prod.splits io.splits if_splits
      dest: fh_open_outcome)

text \<open>
  A rotation that failed is tried again. Whatever the disk refuses, a sink that has
  its file open or is over its limit never writes through a null \<open>FILE*\<close>, is such a sink
  afterwards, and has its file open whenever a call returned: after a failed rotation the
  size stays over the limit, so the next message rotates before it writes.
\<close>

theorem failed_rotation_retried:
  assumes "armed s" and "unat (rs_current_size s) + length msg < 2 ^ 64"
    and "rotating_sink_it msg s d = (x, s', d')"
  shows "x \<noteq> Crashes \<and> armed s' \<and> (x = Returns () \<longrightarrow> fh_fd (rs_file s'))"
proof -
  let ?s = "s\<lparr>rs_current_size := rs_current_size s + of_nat (length msg)\<rparr>"
  have "unat (rs_current_size ?s) = unat (rs_current_size s) + length msg"
    using assms(2) by (simp add: unat_word_ariths unat_of_nat)
  then have a: "armed ?s" using assms(1) by (auto simp: armed_def word_less_nat_alt)
  have w: "fh_fd h \<Longrightarrow> fst (fh_write msg h e) \<noteq> Crashes" for h e
    by (simp add: fh_write_def split: prod.splits)
  show ?thesis
  proof (cases "rs_max_size ?s < rs_current_size ?s")
    case True
    obtain y s1 d1 where r: "rotate_files ?s d = (y, s1, d1)" by (cases "rotate_files ?s d")
    note o = rotate_files_outcome [OF r]
    show ?thesis
      using assms(3) True r o w [of "rs_file s1" d1]
      by (cases y) (auto simp: rotating_sink_it_def armed_def Let_def split: prod.splits)
  next
    case False
    then have "fh_fd (rs_file s)" using a by (simp add: armed_def)
    then show ?thesis using assms(3) False w [of "rs_file s" d]
      by (auto simp: rotating_sink_it_def armed_def Let_def split: prod.splits)
  qed
qed

theorem failed_rotation_retried_witness:
  "\<exists>x s' d'. rotating_sink_it ''ab'' \<lparr>rs_base_filename = ''a'', rs_max_size = 1, rs_max_files = 1,
      rs_current_size = 1, rs_file = \<lparr>fh_fd = True, fh_filename = ''a''\<rparr>\<rparr>
      \<lparr>dk_files = [''a'' \<mapsto> ''x''], dk_fault = (\<lambda>_. Some 0), dk_count = 0\<rparr> = (x, s', d') \<and>
    x = Throws (Failed_renaming ''a'' ''a.1'') \<and> x \<noteq> Crashes \<and> armed s'"
proof -
  let ?s = "\<lparr>rs_base_filename = ''a'', rs_max_size = 1, rs_max_files = 1,
      rs_current_size = 1, rs_file = \<lparr>fh_fd = True, fh_filename = ''a''\<rparr>\<rparr>"
  let ?d = "\<lparr>dk_files = [''a'' \<mapsto> ''x''], dk_fault = (\<lambda>_. Some 0), dk_count = 0\<rparr>"
  obtain x s' d' where r: "rotating_sink_it ''ab'' ?s ?d = (x, s', d')"
    by (cases "rotating_sink_it ''ab'' ?s ?d")
  have "fst (rotating_sink_it ''ab'' ?s ?d) = Throws (Failed_renaming ''a'' ''a.1'')" by code_simp
  then show ?thesis using failed_rotation_retried [OF _ _ r] r by (simp add: armed_def)
qed

end
