(* ===== verification/Log_Logger.thy ===== *)
theory Log_Logger
  imports Log_Files Interfaces
begin

text \<open>
  \<^verbatim>\<open>spdlog/logger.h\<close>, \<^verbatim>\<open>details/logger_impl.h\<close>, \<^verbatim>\<open>details/async_log_helper.h\<close>,
  \<^verbatim>\<open>details/async_logger_impl.h\<close> and \<^verbatim>\<open>details/registry.h\<close>: loggers that write to sinks at
  once, the worker that writes what other threads queued, and the table of all loggers.
  Sinks are shared between loggers: they are numbers, and their methods work on a state
  \<open>'s\<close> of all sinks.
\<close>

subsection \<open>Sinks\<close>

record 's sink_ops =
  k_level :: "nat \<Rightarrow> 's \<Rightarrow> level_enum"
  k_log :: "nat \<Rightarrow> log_msg \<Rightarrow> 's \<Rightarrow> unit io \<times> 's"
  k_flush :: "nat \<Rightarrow> 's \<Rightarrow> unit io \<times> 's"

definition sink_should_log :: "'s sink_ops \<Rightarrow> nat \<Rightarrow> level_enum \<Rightarrow> 's \<Rightarrow> bool" where
  "sink_should_log K k msg_level s = (msg_level \<ge> k_level K k s)"

text \<open>The loops over the sinks; an exception leaves the loop.\<close>

fun log_sinks :: "'s sink_ops \<Rightarrow> log_msg \<Rightarrow> nat list \<Rightarrow> 's \<Rightarrow> unit io \<times> 's" where
  "log_sinks K msg [] s = (Returns (), s)"
| "log_sinks K msg (k # ks) s =
     (if sink_should_log K k (lm_level msg) s
      then case k_log K k msg s of
             (Returns _, s) \<Rightarrow> log_sinks K msg ks s
           | (x, s) \<Rightarrow> (x, s)
      else log_sinks K msg ks s)"

fun flush_sinks :: "'s sink_ops \<Rightarrow> nat list \<Rightarrow> 's \<Rightarrow> unit io \<times> 's" where
  "flush_sinks K [] s = (Returns (), s)"
| "flush_sinks K (k # ks) s =
     (case k_flush K k s of
        (Returns _, s) \<Rightarrow> flush_sinks K ks s
      | (x, s) \<Rightarrow> (x, s))"

text \<open>Formatting a message and handing it to the sinks.\<close>

definition format_and_log :: "'s sink_ops \<Rightarrow> log_os \<Rightarrow> pattern_formatter \<Rightarrow> nat list \<Rightarrow> log_msg \<Rightarrow> 's \<Rightarrow>
    unit io \<times> 's" where
  "format_and_log K os pf sinks msg s =
     (case pattern_format pf os msg of
        Some msg \<Rightarrow> log_sinks K msg sinks s
      | None \<Rightarrow> (Crashes, s))"

subsection \<open>Loggers\<close>

text \<open>
  The error handler is the logger's own or a function of the program, by number.
  \<open>lg_errors\<close> are the exceptions that were handed to it.
\<close>

datatype err_handler = Default_Handler | User_Handler nat

record logger =
  lg_name :: string
  lg_sinks :: "nat list"
  lg_formatter :: pattern_formatter
  lg_level :: level_enum
  lg_flush_level :: level_enum
  lg_err_handler :: err_handler
  lg_errors :: "spdlog_ex list"

definition default_eol :: string where
  "default_eol = [CHR 0x0A]"

definition new_logger :: "string \<Rightarrow> nat list \<Rightarrow> logger" where
  "new_logger name sinks =
     \<lparr>lg_name = name, lg_sinks = sinks, lg_formatter = new_pattern_formatter ''%+'' local default_eol,
      lg_level = info, lg_flush_level = off, lg_err_handler = Default_Handler, lg_errors = []\<rparr>"

definition logger_set_formatter :: "pattern_formatter \<Rightarrow> logger \<Rightarrow> logger" where
  "logger_set_formatter pf l = l\<lparr>lg_formatter := pf\<rparr>"

definition logger_set_pattern :: "string \<Rightarrow> pattern_time_type \<Rightarrow> logger \<Rightarrow> logger" where
  "logger_set_pattern pattern pattern_time l =
     l\<lparr>lg_formatter := new_pattern_formatter pattern pattern_time default_eol\<rparr>"

definition logger_set_level :: "level_enum \<Rightarrow> logger \<Rightarrow> logger" where
  "logger_set_level lvl l = l\<lparr>lg_level := lvl\<rparr>"

definition logger_flush_on :: "level_enum \<Rightarrow> logger \<Rightarrow> logger" where
  "logger_flush_on lvl l = l\<lparr>lg_flush_level := lvl\<rparr>"

definition logger_set_error_handler :: "err_handler \<Rightarrow> logger \<Rightarrow> logger" where
  "logger_set_error_handler handler l = l\<lparr>lg_err_handler := handler\<rparr>"

definition should_log :: "level_enum \<Rightarrow> logger \<Rightarrow> bool" where
  "should_log msg_level l = (msg_level \<ge> lg_level l)"

definition should_flush_on :: "log_msg \<Rightarrow> logger \<Rightarrow> bool" where
  "should_flush_on msg l = (lm_level msg \<ge> lg_flush_level l \<and> lm_level msg \<noteq> off)"

definition logger_sink_it :: "'s sink_ops \<Rightarrow> log_os \<Rightarrow> log_msg \<Rightarrow> logger \<Rightarrow> 's \<Rightarrow> unit io \<times> 's" where
  "logger_sink_it K os msg l s =
     (case format_and_log K os (lg_formatter l) (lg_sinks l) msg s of
        (Returns _, s) \<Rightarrow> if should_flush_on msg l then flush_sinks K (lg_sinks l) s else (Returns (), s)
      | (x, s) \<Rightarrow> (x, s))"

text \<open>An exception goes to the error handler and not to the caller.\<close>

definition catch_errors :: "unit io \<times> 's \<Rightarrow> logger \<Rightarrow> unit io \<times> logger \<times> 's" where
  "catch_errors xs l =
     (case xs of
        (Throws e, s) \<Rightarrow> (Returns (), l\<lparr>lg_errors := lg_errors l @ [e]\<rparr>, s)
      | (x, s) \<Rightarrow> (x, l, s))"

definition logger_log :: "'s sink_ops \<Rightarrow> log_os \<Rightarrow> int \<Rightarrow> u64 \<Rightarrow> level_enum \<Rightarrow> string \<Rightarrow> logger \<Rightarrow> 's \<Rightarrow>
    unit io \<times> logger \<times> 's" where
  "logger_log K os now thread lvl msg l s =
     (if \<not> should_log lvl l then (Returns (), l, s)
      else catch_errors
             (logger_sink_it K os ((new_log_msg (lg_name l) lvl now thread)\<lparr>lm_raw := msg\<rparr>) l s) l)"

subsection \<open>Queued messages\<close>

datatype async_msg_type = async_log | async_flush | async_terminate

record async_msg =
  am_logger_name :: string
  am_level :: level_enum
  am_time :: int
  am_thread_id :: u64
  am_txt :: string
  am_msg_type :: async_msg_type
  am_msg_id :: u64

text \<open>Control messages; the time of one is not set, and nothing reads it.\<close>

definition control_msg :: "async_msg_type \<Rightarrow> async_msg" where
  "control_msg m_type =
     \<lparr>am_logger_name = '''', am_level = info, am_time = 0, am_thread_id = 0, am_txt = '''',
      am_msg_type = m_type, am_msg_id = 0\<rparr>"

text \<open>From a message, which has to know its logger's name, and back into a new one.\<close>

definition async_of_msg :: "log_msg \<Rightarrow> async_msg option" where
  "async_of_msg m = do {
     name \<leftarrow> lm_logger_name m;
     Some \<lparr>am_logger_name = name, am_level = lm_level m, am_time = lm_time m,
       am_thread_id = lm_thread_id m, am_txt = lm_raw m, am_msg_type = async_log, am_msg_id = lm_msg_id m\<rparr> }"

definition fill_log_msg :: "async_msg \<Rightarrow> log_msg" where
  "fill_log_msg a =
     \<lparr>lm_logger_name = Some (am_logger_name a), lm_level = am_level a, lm_time = am_time a,
      lm_thread_id = am_thread_id a, lm_raw = am_txt a, lm_formatted = '''', lm_msg_id = am_msg_id a\<rparr>"

subsection \<open>The helper of an asynchronous logger\<close>

text \<open>
  The queue is the one of \<open>Log_Queue\<close>, here as the list of what is in it, up to \<open>ah_size\<close>
  messages.
\<close>

record async_helper =
  ah_formatter :: pattern_formatter
  ah_sinks :: "nat list"
  ah_q :: "async_msg list"
  ah_size :: nat
  ah_flush_requested :: bool
  ah_terminate_requested :: bool
  ah_overflow_policy :: async_overflow_policy
  ah_flush_interval_ms :: int
  ah_err_handler :: err_handler
  ah_errors :: "spdlog_ex list"

definition new_async_helper :: "pattern_formatter \<Rightarrow> nat list \<Rightarrow> nat \<Rightarrow> err_handler \<Rightarrow> async_overflow_policy \<Rightarrow> int \<Rightarrow>
    async_helper" where
  "new_async_helper pf sinks queue_size handler policy flush_interval_ms =
     \<lparr>ah_formatter = pf, ah_sinks = sinks, ah_q = [], ah_size = queue_size, ah_flush_requested = False,
      ah_terminate_requested = False, ah_overflow_policy = policy,
      ah_flush_interval_ms = flush_interval_ms, ah_err_handler = handler, ah_errors = []\<rparr>"

definition async_helper_set_formatter :: "pattern_formatter \<Rightarrow> async_helper \<Rightarrow> async_helper" where
  "async_helper_set_formatter pf h = h\<lparr>ah_formatter := pf\<rparr>"

definition async_helper_set_error_handler :: "err_handler \<Rightarrow> async_helper \<Rightarrow> async_helper" where
  "async_helper_set_error_handler handler h = h\<lparr>ah_err_handler := handler\<rparr>"

text \<open>How a thread passes the time between two tries, \<open>now\<close> and \<open>last_op_time\<close> in nanoseconds.\<close>

datatype pause = Spin | Yield | Sleep_millis nat

definition sleep_or_yield :: "int \<Rightarrow> int \<Rightarrow> pause" where
  "sleep_or_yield now last_op_time =
     (let time_since_op = now - last_op_time
      in if time_since_op \<le> 50 * 1000 then Spin
         else if time_since_op \<le> 100 * 1000 then Yield
         else if time_since_op \<le> 200 * 1000000 then Sleep_millis 20
         else Sleep_millis 500)"

text \<open>\<open>None\<close>: the call keeps trying, until the worker has made room.\<close>

definition push_msg :: "async_msg \<Rightarrow> async_helper \<Rightarrow> async_helper option" where
  "push_msg m h =
     (if length (ah_q h) < ah_size h then Some (h\<lparr>ah_q := ah_q h @ [m]\<rparr>)
      else if ah_overflow_policy h \<noteq> discard_log_msg then None
      else Some h)"

definition async_helper_log :: "log_msg \<Rightarrow> async_helper \<Rightarrow> async_helper option" where
  "async_helper_log msg h = (case async_of_msg msg of Some a \<Rightarrow> push_msg a h | None \<Rightarrow> None)"

definition async_helper_flush :: "async_helper \<Rightarrow> async_helper option" where
  "async_helper_flush h = push_msg (control_msg async_flush) h"

text \<open>A call that also waits returns in a state in which the worker has emptied the queue.\<close>

definition wait_empty_q :: "async_helper \<Rightarrow> async_helper option" where
  "wait_empty_q h = (if ah_q h = [] then Some h else None)"

text \<open>The worker: \<open>now\<close> and \<open>last_flush\<close> are times in nanoseconds.\<close>

definition handle_flush_interval :: "'s sink_ops \<Rightarrow> int \<Rightarrow> int \<Rightarrow> async_helper \<Rightarrow> 's \<Rightarrow>
    unit io \<times> int \<times> async_helper \<times> 's" where
  "handle_flush_interval K now last_flush h s =
     (if ah_flush_requested h \<or>
         (ah_flush_interval_ms h \<noteq> 0 \<and> now - last_flush \<ge> ah_flush_interval_ms h * 1000000)
      then case flush_sinks K (ah_sinks h) s of
             (Returns _, s) \<Rightarrow> (Returns (), now, h\<lparr>ah_flush_requested := False\<rparr>, s)
           | (x, s) \<Rightarrow> (x, last_flush, h, s)
      else (Returns (), last_flush, h, s))"

definition process_next_msg :: "'s sink_ops \<Rightarrow> log_os \<Rightarrow> int \<Rightarrow> int \<Rightarrow> async_helper \<Rightarrow> 's \<Rightarrow>
    bool io \<times> int \<times> async_helper \<times> 's" where
  "process_next_msg K os now last_flush h s =
     (case ah_q h of
        m # q \<Rightarrow>
          (let h = h\<lparr>ah_q := q\<rparr>
           in case am_msg_type m of
                async_flush \<Rightarrow> (Returns True, last_flush, h\<lparr>ah_flush_requested := True\<rparr>, s)
              | async_terminate \<Rightarrow>
                  (Returns True, last_flush, h\<lparr>ah_flush_requested := True, ah_terminate_requested := True\<rparr>, s)
              | async_log \<Rightarrow>
                  (case format_and_log K os (ah_formatter h) (ah_sinks h) (fill_log_msg m) s of
                     (Returns _, s) \<Rightarrow> (Returns True, last_flush, h, s)
                   | (Throws e, s) \<Rightarrow> (Throws e, last_flush, h, s)
                   | (Crashes, s) \<Rightarrow> (Crashes, last_flush, h, s)))
      | [] \<Rightarrow>
          (case handle_flush_interval K now last_flush h s of
             (Returns _, last_flush, h, s) \<Rightarrow> (Returns (\<not> ah_terminate_requested h), last_flush, h, s)
           | (Throws e, last_flush, h, s) \<Rightarrow> (Throws e, last_flush, h, s)
           | (Crashes, last_flush, h, s) \<Rightarrow> (Crashes, last_flush, h, s)))"

text \<open>
  The worker's loop; \<open>clock n\<close> is the time of turn \<open>n\<close>. The result is \<open>Returns True\<close> when the
  loop ended, \<open>Returns False\<close> when \<open>k\<close> turns were not enough.
\<close>

fun worker_loop :: "'s sink_ops \<Rightarrow> log_os \<Rightarrow> (nat \<Rightarrow> int) \<Rightarrow> nat \<Rightarrow> int \<Rightarrow> async_helper \<Rightarrow> 's \<Rightarrow>
    bool io \<times> async_helper \<times> 's" where
  "worker_loop K os clock 0 last_flush h s = (Returns False, h, s)"
| "worker_loop K os clock (Suc k) last_flush h s =
     (case process_next_msg K os (clock k) last_flush h s of
        (Returns True, last_flush, h, s) \<Rightarrow> worker_loop K os clock k last_flush h s
      | (Returns False, last_flush, h, s) \<Rightarrow> (Returns True, h, s)
      | (Throws e, last_flush, h, s) \<Rightarrow>
          worker_loop K os clock k last_flush (h\<lparr>ah_errors := ah_errors h @ [e]\<rparr>) s
      | (Crashes, last_flush, h, s) \<Rightarrow> (Crashes, h, s))"

subsection \<open>Asynchronous loggers\<close>

text \<open>
  A logger whose messages go to a helper of its own, which has copies of the formatter and
  the sinks. A call that cannot finish yet is \<open>None\<close>.
\<close>

record async_logger = logger +
  al_helper :: async_helper

definition new_async_logger :: "string \<Rightarrow> nat list \<Rightarrow> nat \<Rightarrow> async_overflow_policy \<Rightarrow> int \<Rightarrow> async_logger" where
  "new_async_logger name sinks queue_size policy flush_interval_ms =
     (let l = new_logger name sinks
      in logger.extend l \<lparr>al_helper = new_async_helper (lg_formatter l) (lg_sinks l) queue_size
           (lg_err_handler l) policy flush_interval_ms\<rparr>)"

definition async_set_formatter :: "pattern_formatter \<Rightarrow> async_logger \<Rightarrow> async_logger" where
  "async_set_formatter pf l =
     l\<lparr>lg_formatter := pf, al_helper := async_helper_set_formatter pf (al_helper l)\<rparr>"

definition async_set_pattern :: "string \<Rightarrow> pattern_time_type \<Rightarrow> async_logger \<Rightarrow> async_logger" where
  "async_set_pattern pattern pattern_time l =
     async_set_formatter (new_pattern_formatter pattern pattern_time default_eol) l"

definition async_set_error_handler :: "err_handler \<Rightarrow> async_logger \<Rightarrow> async_logger" where
  "async_set_error_handler handler l =
     l\<lparr>lg_err_handler := handler, al_helper := async_helper_set_error_handler handler (al_helper l)\<rparr>"

definition async_logger_sink_it :: "log_msg \<Rightarrow> async_logger \<Rightarrow> async_logger option" where
  "async_logger_sink_it msg l = do {
     h \<leftarrow> async_helper_log msg (al_helper l);
     h \<leftarrow> (if lm_level msg \<ge> lg_flush_level l \<and> lm_level msg \<noteq> off then async_helper_flush h else Some h);
     Some (l\<lparr>al_helper := h\<rparr>) }"

text \<open>The destructor of the helper queues the message that ends the worker, and joins it.\<close>

definition async_helper_stop :: "async_helper \<Rightarrow> async_helper option" where
  "async_helper_stop h = push_msg (control_msg async_terminate) h"

end
