(* ===== verification/Log_Logger_Properties.thy ===== *)
theory Log_Logger_Properties
  imports Log_Logger
begin

text \<open>
  Loggers: a synchronous logger contains its errors, and an asynchronous one writes what a
  synchronous one would have written.
\<close>

subsection \<open>Copies of messages\<close>

lemma fill_async_of_msg:
  "async_of_msg m = Some a \<Longrightarrow> fill_log_msg a = m\<lparr>lm_formatted := ''''\<rparr>"
  by (cases m) (auto simp: async_of_msg_def fill_log_msg_def split: bind_splits)

subsection \<open>The worker\<close>

text \<open>The messages that are logged, and what a synchronous logger does with a list of messages.\<close>

definition logged :: "async_msg list \<Rightarrow> log_msg list" where
  "logged q = map fill_log_msg (filter (\<lambda>m. am_msg_type m = async_log) q)"

fun sync_log :: "'s sink_ops \<Rightarrow> log_os \<Rightarrow> log_msg list \<Rightarrow> logger \<Rightarrow> 's \<Rightarrow> unit io \<times> logger \<times> 's" where
  "sync_log K os [] l s = (Returns (), l, s)"
| "sync_log K os (m # ms) l s =
     (case catch_errors (logger_sink_it K os m l s) l of
        (Returns _, l, s) \<Rightarrow> sync_log K os ms l s
      | (x, l, s) \<Rightarrow> (x, l, s))"

lemma logged_simps [simp]:
  "logged [] = []"
  "logged (m # q) = (if am_msg_type m = async_log then fill_log_msg m # logged q else logged q)"
  by (simp_all add: logged_def)

text \<open>A logger and a helper that write the same way.\<close>

definition same_output :: "logger \<Rightarrow> async_helper \<Rightarrow> bool" where
  "same_output l h =
     (lg_formatter l = ah_formatter h \<and> lg_sinks l = ah_sinks h \<and> lg_flush_level l = off \<and>
      lg_errors l = ah_errors h)"

lemma sink_it_without_flush:
  "lg_flush_level l = off \<Longrightarrow>
    logger_sink_it K os m l s = format_and_log K os (lg_formatter l) (lg_sinks l) m s"
  by (cases "lm_level m") (auto simp: logger_sink_it_def should_flush_on_def less_eq_level_enum_def
      split: prod.splits io.splits)

lemma worker_drains:
  assumes "same_output l h" and "sync_log K os (logged (ah_q h)) l s = (Returns (), l1, s1)"
    and "flush_sinks K (ah_sinks h) s1 = (Returns (), s2)"
    and "ah_terminate_requested h \<or> (\<exists>m \<in> set (ah_q h). am_msg_type m = async_terminate)"
    and "ah_terminate_requested h \<longrightarrow> ah_flush_requested h" and "length (ah_q h) < k"
  shows "\<exists>h'. worker_loop K os clock k last_flush h s = (Returns True, h', s2) \<and> ah_q h' = [] \<and>
    ah_errors h' = lg_errors l1"
  using assms
proof (induction k arbitrary: l h s last_flush)
  case (Suc k)
  show ?case
  proof (cases "ah_q h")
    case Nil
    then show ?thesis using Suc.prems
      by (auto simp: process_next_msg_def handle_flush_interval_def same_output_def)
  next
    case (Cons m q)
    let ?h = "h\<lparr>ah_q := q\<rparr>"
    have len: "length q < k" using Suc.prems(6) Cons by simp
    show ?thesis
    proof (cases "am_msg_type m")
      case async_log
      let ?x = "format_and_log K os (ah_formatter h) (ah_sinks h) (fill_log_msg m) s"
      have eq: "logger_sink_it K os (fill_log_msg m) l s = ?x"
        using Suc.prems(1) by (simp add: sink_it_without_flush same_output_def)
      obtain y t where x: "?x = (y, t)" by (cases ?x)
      show ?thesis
      proof (cases y)
        case (Returns u)
        have "sync_log K os (logged q) l t = (Returns (), l1, s1)"
          using Suc.prems(2) by (simp add: Cons async_log eq x Returns catch_errors_def)
        then show ?thesis
          using Suc.IH [of l ?h t last_flush] Suc.prems len x Returns Cons async_log
          by (simp add: process_next_msg_def same_output_def)
      next
        case (Throws e)
        let ?l = "l\<lparr>lg_errors := lg_errors l @ [e]\<rparr>"
        have "sync_log K os (logged q) ?l t = (Returns (), l1, s1)"
          using Suc.prems(2) by (simp add: Cons async_log eq x Throws catch_errors_def)
        then show ?thesis
          using Suc.IH [of ?l "?h\<lparr>ah_errors := ah_errors h @ [e]\<rparr>" t last_flush] Suc.prems len x Throws Cons async_log
          by (simp add: process_next_msg_def same_output_def)
      next
        case Crashes
        then show ?thesis using Suc.prems(2) by (simp add: Cons async_log eq x catch_errors_def)
      qed
    next
      case async_flush
      then show ?thesis using Suc.IH [of l "?h\<lparr>ah_flush_requested := True\<rparr>" s last_flush] Suc.prems len Cons
        by (simp add: process_next_msg_def same_output_def)
    next
      case async_terminate
      then show ?thesis
        using Suc.IH [of l "?h\<lparr>ah_flush_requested := True, ah_terminate_requested := True\<rparr>" s last_flush]
          Suc.prems len Cons
        by (simp add: process_next_msg_def same_output_def)
    qed
  qed
qed simp

text \<open>
  C8: An asynchronous logger writes what a synchronous one writes. Once the message that
  ends the worker is in the queue, among any others, and the queue had room for it: if a
  synchronous logger with the same formatter and sinks, the flush level off and the same errors
  so far gets through the queued messages, and the sinks can then be flushed, the worker ends
  within one turn more than there are messages, the sinks are as that logger and one flush
  leave them, the same exceptions were handled in the same order and no message is left.
\<close>

theorem async_equals_sync:
  assumes "same_output l h" and "\<not> ah_terminate_requested h"
    and "async_helper_stop h = Some g" and "length (ah_q h) < ah_size h"
    and "sync_log K os (logged (ah_q h)) l s = (Returns (), l1, s1)"
    and "flush_sinks K (lg_sinks l) s1 = (Returns (), s2)"
  shows "\<exists>h'. worker_loop K os clock (length (ah_q h) + 2) last_flush g s = (Returns True, h', s2) \<and>
    ah_q h' = [] \<and> ah_errors h' = lg_errors l1"
proof -
  let ?t = "control_msg async_terminate"
  have g: "g = h\<lparr>ah_q := ah_q h @ [?t]\<rparr>" using assms(3,4) by (auto simp: async_helper_stop_def push_msg_def)
  have t: "am_msg_type ?t = async_terminate" by (simp add: control_msg_def)
  have "logged (ah_q g) = logged (ah_q h)" by (simp add: g logged_def t)
  then show ?thesis
    using assms(1,2,5,6) t by (intro worker_drains [of l g]) (simp_all add: g same_output_def)
qed

text \<open>Sinks that keep the text they got, for the examples; sink 2 refuses every message.\<close>

definition sample_sinks :: "(nat \<Rightarrow> string list) sink_ops" where
  "sample_sinks =
     \<lparr>k_level = (\<lambda>k s. trace),
      k_log = (\<lambda>k m s. if k = 2 then (Throws (Failed_writing ''full''), s)
                       else (Returns (), s(k := s k @ [lm_formatted m]))),
      k_flush = (\<lambda>k s. (Returns (), s))\<rparr>"

definition sample_logger :: "nat list \<Rightarrow> logger" where
  "sample_logger sinks = logger_set_pattern ''%l: %v'' local (new_logger ''log'' sinks)"

definition text_msg :: "string \<Rightarrow> log_msg" where
  "text_msg txt = (new_log_msg ''log'' err 0 0)\<lparr>lm_raw := txt\<rparr>"

definition sample_helper :: "nat list \<Rightarrow> async_helper" where
  "sample_helper sinks = (new_async_helper (lg_formatter (sample_logger sinks)) sinks 4 Default_Handler block_retry 0)
     \<lparr>ah_q := [the (async_of_msg (text_msg ''a'')), control_msg async_flush,
        the (async_of_msg (text_msg ''b''))]\<rparr>"

lemma sample_sync:
  "sync_log sample_sinks sample_os (logged (ah_q (sample_helper [1, 2, 3]))) (sample_logger [1, 2, 3]) (\<lambda>_. []) =
    (Returns (), (sample_logger [1, 2, 3])\<lparr>lg_errors := [Failed_writing ''full'', Failed_writing ''full'']\<rparr>,
     (\<lambda>_. [])(1 := [''error: a'' @ default_eol, ''error: b'' @ default_eol]))"
proof -
  have c: "compile_pattern ''%l: %v'' = [level_format, aggregate_format '': '', v_format]"
    by (simp add: compile_pattern_def handle_flag_def user_chars_def)
  have q: "logged (ah_q (sample_helper [1, 2, 3])) =
      [(text_msg ''a'')\<lparr>lm_formatted := ''''\<rparr>, (text_msg ''b'')\<lparr>lm_formatted := ''''\<rparr>]"
    by (simp add: sample_helper_def text_msg_def new_log_msg_def async_of_msg_def control_msg_def fill_log_msg_def)
  show ?thesis
    unfolding q
    by (simp add: sample_logger_def logger_set_pattern_def new_logger_def new_pattern_formatter_def c
        logger_sink_it_def format_and_log_def pattern_format_def level_format_def aggregate_format_def
        v_format_def text_msg_def new_log_msg_def to_str_def level_names_def sample_sinks_def
        sink_should_log_def less_eq_level_enum_def should_flush_on_def catch_errors_def fun_eq_iff)
qed

theorem async_equals_sync_witness:
  "\<exists>g h'. async_helper_stop (sample_helper [1, 2, 3]) = Some g \<and>
    worker_loop sample_sinks sample_os (\<lambda>_. 0) 5 0 g (\<lambda>_. []) =
      (Returns True, h', (\<lambda>_. [])(1 := [''error: a'' @ default_eol, ''error: b'' @ default_eol])) \<and>
    ah_q h' = [] \<and> ah_errors h' = [Failed_writing ''full'', Failed_writing ''full'']"
proof -
  let ?h = "sample_helper [1, 2, 3]" and ?l = "sample_logger [1, 2, 3]"
  have so: "same_output ?l ?h" "\<not> ah_terminate_requested ?h" "length (ah_q ?h) < ah_size ?h"
    "length (ah_q ?h) + 2 = 5" "lg_sinks ?l = [1, 2, 3]"
    by (simp_all add: same_output_def sample_helper_def sample_logger_def new_async_helper_def
        logger_set_pattern_def new_logger_def)
  obtain g where g: "async_helper_stop ?h = Some g"
    using so(3) by (auto simp: async_helper_stop_def push_msg_def)
  have fl: "flush_sinks sample_sinks (lg_sinks ?l) s = (Returns (), s)" for s
    unfolding so(5) by (simp add: sample_sinks_def)
  show ?thesis
    using async_equals_sync [OF so(1,2) g so(3) sample_sync fl, of "\<lambda>_. 0" 0] g
    unfolding so(4) by simp
qed

subsection \<open>Waiting for the queue\<close>

text \<open>
  A turn of the worker takes one message, so a thread that waits for the queue goes on after as
  many turns as there are messages, when nobody adds any and no formatter crashes. Then the last
  request to flush may still be waiting: the sinks are flushed by the turn that finds no message.
\<close>

lemma turn_takes_message:
  assumes "process_next_msg K os now last_flush h s = (x, lf, h', s')" and "x \<noteq> Crashes" and "ah_q h = m # q"
  shows "ah_q h' = q"
  using assms by (auto simp: process_next_msg_def Let_def split: async_msg_type.splits io.splits prod.splits)

lemma flush_request_pending:
  assumes "ah_q h = [control_msg async_flush]"
  shows "\<exists>h'. process_next_msg K os now last_flush h s = (Returns True, last_flush, h', s) \<and>
    wait_empty_q h' = Some h' \<and> ah_flush_requested h'"
  using assms by (simp add: process_next_msg_def control_msg_def wait_empty_q_def)

text \<open>The longer a thread waits, the longer it sleeps.\<close>

fun pause_millis :: "pause \<Rightarrow> nat" where
  "pause_millis (Sleep_millis n) = n"
| "pause_millis p = 0"

lemma pause_grows: "now \<le> now' \<Longrightarrow> pause_millis (sleep_or_yield now t) \<le> pause_millis (sleep_or_yield now' t)"
  by (simp add: sleep_or_yield_def Let_def)

subsection \<open>Errors of a synchronous logger\<close>

lemma log_sinks_append:
  "log_sinks K m (ks @ rest) s =
    (case log_sinks K m ks s of (Returns _, t) \<Rightarrow> log_sinks K m rest t | r \<Rightarrow> r)"
  by (induction ks arbitrary: s) (auto split: prod.splits io.splits)

text \<open>
  The sinks behind one that throws get nothing of the message, the caller sees no
  exception, and the error handler is told once.
\<close>

lemma logger_contains_errors:
  assumes "logger_log K os now thread lvl msg l s = (x, l', s')"
  shows "(\<forall>e. x \<noteq> Throws e) \<and> (lvl < lg_level l \<longrightarrow> l' = l \<and> s' = s) \<and>
    (\<exists>es. lg_errors l' = lg_errors l @ es \<and> length es \<le> 1)"
  using assms by (auto simp: logger_log_def catch_errors_def should_log_def
      split: prod.splits io.splits if_splits)

end
