(* ===== verification/Log_Registry.thy ===== *)
theory Log_Registry
  imports Log_Logger Log_Queue
begin

text \<open>
  \<^verbatim>\<open>spdlog/details/registry.h\<close>: the table of all loggers by name, and the loggers that the
  constructors of the program put into it. Loggers are shared: the table holds addresses
  in \<open>rg_heap\<close>, which a logger keeps after it was dropped.
\<close>

subsection \<open>The registry\<close>

datatype logger_obj = Sync logger | Async async_logger

fun obj_name :: "logger_obj \<Rightarrow> string" where
  "obj_name (Sync l) = lg_name l"
| "obj_name (Async l) = lg_name l"

fun obj_set_formatter :: "pattern_formatter \<Rightarrow> logger_obj \<Rightarrow> logger_obj" where
  "obj_set_formatter pf (Sync l) = Sync (logger_set_formatter pf l)"
| "obj_set_formatter pf (Async l) = Async (async_set_formatter pf l)"

fun obj_set_level :: "level_enum \<Rightarrow> logger_obj \<Rightarrow> logger_obj" where
  "obj_set_level lvl (Sync l) = Sync (logger_set_level lvl l)"
| "obj_set_level lvl (Async l) = Async (l\<lparr>lg_level := lvl\<rparr>)"

fun obj_set_error_handler :: "err_handler \<Rightarrow> logger_obj \<Rightarrow> logger_obj" where
  "obj_set_error_handler handler (Sync l) = Sync (logger_set_error_handler handler l)"
| "obj_set_error_handler handler (Async l) = Async (async_set_error_handler handler l)"

fun obj_flush_on :: "level_enum \<Rightarrow> logger_obj \<Rightarrow> logger_obj" where
  "obj_flush_on lvl (Sync l) = Sync (logger_flush_on lvl l)"
| "obj_flush_on lvl (Async l) = Async (l\<lparr>lg_flush_level := lvl\<rparr>)"

record registry =
  rg_loggers :: "(string, nat) umap"
  rg_heap :: "logger_obj list"
  rg_formatter :: "pattern_formatter option"
  rg_level :: level_enum
  rg_flush_level :: level_enum
  rg_err_handler :: "err_handler option"
  rg_async_mode :: bool
  rg_async_q_size :: u64
  rg_overflow_policy :: async_overflow_policy
  rg_flush_interval_ms :: int

definition new_registry :: registry where
  "new_registry = \<lparr>rg_loggers = [], rg_heap = [], rg_formatter = None, rg_level = info,
     rg_flush_level = off, rg_err_handler = None, rg_async_mode = False, rg_async_q_size = 0, rg_overflow_policy = block_retry,
     rg_flush_interval_ms = 0\<rparr>"

text \<open>The test of \<open>throw_if_exists\<close>; the operations below are \<open>None\<close> when it throws.\<close>

definition throws_if_exists :: "string \<Rightarrow> registry \<Rightarrow> bool" where
  "throws_if_exists logger_name r = umap_has logger_name (rg_loggers r)"

definition register_logger :: "nat \<Rightarrow> registry \<Rightarrow> registry option" where
  "register_logger a r =
     (let logger_name = obj_name (rg_heap r ! a)
      in if throws_if_exists logger_name r then None
         else Some (r\<lparr>rg_loggers := umap_set logger_name a (rg_loggers r)\<rparr>))"

definition get_logger :: "string \<Rightarrow> registry \<Rightarrow> nat option" where
  "get_logger logger_name r = map_of (rg_loggers r) logger_name"

text \<open>What both kinds of creation do with the new object.\<close>

definition adopt :: "string \<Rightarrow> logger_obj \<Rightarrow> registry \<Rightarrow> nat \<times> registry" where
  "adopt logger_name l r =
     (let l = (case rg_formatter r of Some pf \<Rightarrow> obj_set_formatter pf l | None \<Rightarrow> l);
          l = (case rg_err_handler r of Some handler \<Rightarrow> obj_set_error_handler handler l | None \<Rightarrow> l);
          l = obj_set_level (rg_level r) l;
          l = obj_flush_on (rg_flush_level r) l;
          a = length (rg_heap r)
      in (a, r\<lparr>rg_heap := rg_heap r @ [l], rg_loggers := umap_set logger_name a (rg_loggers r)\<rparr>))"

text \<open>An asynchronous logger's queue refuses some sizes.\<close>

definition make_async :: "string \<Rightarrow> nat list \<Rightarrow> u64 \<Rightarrow> async_overflow_policy \<Rightarrow> int \<Rightarrow> logger_obj option" where
  "make_async logger_name sinks queue_size policy flush_interval_ms =
     (case (new_mpmc queue_size :: async_msg mpmc option) of
        None \<Rightarrow> None
      | Some q \<Rightarrow> Some (Async (new_async_logger logger_name sinks (unat queue_size) policy flush_interval_ms)))"

definition create :: "string \<Rightarrow> nat list \<Rightarrow> registry \<Rightarrow> (nat \<times> registry) option" where
  "create logger_name sinks r =
     (if throws_if_exists logger_name r then None
      else do {
        l \<leftarrow> (if rg_async_mode r
             then make_async logger_name sinks (rg_async_q_size r) (rg_overflow_policy r) (rg_flush_interval_ms r)
             else Some (Sync (new_logger logger_name sinks)));
        Some (adopt logger_name l r) })"

definition create_async :: "string \<Rightarrow> u64 \<Rightarrow> async_overflow_policy \<Rightarrow> int \<Rightarrow> nat list \<Rightarrow> registry \<Rightarrow>
    (nat \<times> registry) option" where
  "create_async logger_name queue_size policy flush_interval_ms sinks r =
     (if throws_if_exists logger_name r then None
      else do {
        l \<leftarrow> make_async logger_name sinks queue_size policy flush_interval_ms;
        Some (adopt logger_name l r) })"

text \<open>A function on every logger of the table.\<close>

definition apply_all :: "(logger_obj \<Rightarrow> logger_obj) \<Rightarrow> registry \<Rightarrow> registry" where
  "apply_all f r =
     r\<lparr>rg_heap := fold (\<lambda>(n, a) h. h[a := f (h ! a)]) (rg_loggers r) (rg_heap r)\<rparr>"

definition drop_logger :: "string \<Rightarrow> registry \<Rightarrow> registry" where
  "drop_logger logger_name r = r\<lparr>rg_loggers := umap_erase logger_name (rg_loggers r)\<rparr>"

definition drop_all :: "registry \<Rightarrow> registry" where
  "drop_all r = r\<lparr>rg_loggers := []\<rparr>"

definition registry_formatter :: "pattern_formatter \<Rightarrow> registry \<Rightarrow> registry" where
  "registry_formatter pf r = apply_all (obj_set_formatter pf) (r\<lparr>rg_formatter := Some pf\<rparr>)"

definition registry_set_pattern :: "string \<Rightarrow> registry \<Rightarrow> registry" where
  "registry_set_pattern pattern r =
     (let pf = new_pattern_formatter pattern local default_eol
      in apply_all (obj_set_formatter pf) (r\<lparr>rg_formatter := Some pf\<rparr>))"

definition registry_set_level :: "level_enum \<Rightarrow> registry \<Rightarrow> registry" where
  "registry_set_level lvl r = (apply_all (obj_set_level lvl) r)\<lparr>rg_level := lvl\<rparr>"

definition registry_flush_on :: "level_enum \<Rightarrow> registry \<Rightarrow> registry" where
  "registry_flush_on lvl r = (apply_all (obj_flush_on lvl) r)\<lparr>rg_flush_level := lvl\<rparr>"

definition registry_set_error_handler :: "err_handler \<Rightarrow> registry \<Rightarrow> registry" where
  "registry_set_error_handler handler r =
     (apply_all (obj_set_error_handler handler) r)\<lparr>rg_err_handler := Some handler\<rparr>"

definition set_async_mode :: "u64 \<Rightarrow> async_overflow_policy \<Rightarrow> int \<Rightarrow> registry \<Rightarrow> registry" where
  "set_async_mode q_size policy flush_interval_ms r =
     r\<lparr>rg_async_mode := True, rg_async_q_size := q_size, rg_overflow_policy := policy,
       rg_flush_interval_ms := flush_interval_ms\<rparr>"

definition set_sync_mode :: "registry \<Rightarrow> registry" where
  "set_sync_mode r = r\<lparr>rg_async_mode := False\<rparr>"

subsection \<open>Names are unique\<close>

text \<open>Every entry of the table is a logger of that name, and no name stands twice.\<close>

definition registry_ok :: "registry \<Rightarrow> bool" where
  "registry_ok r =
     (umap_ok (rg_loggers r) \<and>
      (\<forall>(n, a) \<in> set (rg_loggers r). a < length (rg_heap r) \<and> obj_name (rg_heap r ! a) = n))"

lemma obj_names [simp]:
  "obj_name (obj_set_formatter pf l) = obj_name l" "obj_name (obj_set_level lvl l) = obj_name l"
  "obj_name (obj_flush_on lvl l) = obj_name l" "obj_name (obj_set_error_handler handler l) = obj_name l"
  by (cases l; simp add: logger_set_formatter_def async_set_formatter_def logger_set_level_def
      logger_flush_on_def logger_set_error_handler_def async_set_error_handler_def)+

lemma new_logger_name [simp]: "lg_name (new_logger n ks) = n"
  by (simp add: new_logger_def)

lemma make_async_name: "make_async n ks q p i = Some l \<Longrightarrow> obj_name l = n"
  by (auto simp: make_async_def new_async_logger_def new_logger_def logger.defs split: option.splits)

lemma registry_ok_set:
  assumes "registry_ok r" and "a < length h" and "obj_name (h ! a) = n"
    and "length (rg_heap r) \<le> length h" and "\<And>b. b < length (rg_heap r) \<Longrightarrow> obj_name (h ! b) = obj_name (rg_heap r ! b)"
  shows "registry_ok (r\<lparr>rg_heap := h, rg_loggers := umap_set n a (rg_loggers r)\<rparr>)"
  using assms by (auto simp: registry_ok_def umap_ok_set dest!: umap_set_in)

lemma adopt_ok:
  assumes "registry_ok r" and "obj_name l = n"
  shows "registry_ok (snd (adopt n l r)) \<and> get_logger n (snd (adopt n l r)) = Some (fst (adopt n l r)) \<and>
    fst (adopt n l r) < length (rg_heap (snd (adopt n l r)))"
proof -
  have "registry_ok (snd (adopt n l r))"
    unfolding adopt_def Let_def snd_conv
    by (rule registry_ok_set [OF assms(1)]) (auto simp: nth_append assms(2) split: option.splits)
  then show ?thesis by (simp add: adopt_def Let_def get_logger_def map_of_umap_set)
qed

lemma create_ok:
  assumes "registry_ok r" and "create n ks r = Some (a, r')"
  shows "registry_ok r' \<and> get_logger n r' = Some a \<and> a < length (rg_heap r')"
proof -
  have "\<exists>l. obj_name l = n \<and> adopt n l r = (a, r')"
  proof (cases "rg_async_mode r")
    case True
    then show ?thesis
      using assms(2) by (auto simp: create_def dest: make_async_name split: if_splits bind_splits)
  next
    case False
    then show ?thesis
      using assms(2) by (intro exI [of _ "Sync (new_logger n ks)"]) (auto simp: create_def split: if_splits)
  qed
  then obtain l where l: "obj_name l = n" "adopt n l r = (a, r')" by blast
  show ?thesis using adopt_ok [OF assms(1) l(1)] unfolding l(2) by simp
qed

lemma create_async_ok:
  assumes "registry_ok r" and "create_async n q p i ks r = Some (a, r')"
  shows "registry_ok r' \<and> get_logger n r' = Some a \<and> a < length (rg_heap r')"
proof -
  obtain l where l: "obj_name l = n" "adopt n l r = (a, r')"
    using assms(2) by (auto simp: create_async_def dest: make_async_name split: if_splits bind_splits)
  show ?thesis using adopt_ok [OF assms(1) l(1)] unfolding l(2) by simp
qed

lemma apply_heap:
  assumes "\<And>l. obj_name (f l) = obj_name l"
  shows "length (fold (\<lambda>(n, a) h. h[a := f (h ! a)]) xs h) = length h \<and>
    (\<forall>b < length h. obj_name (fold (\<lambda>(n, a) h. h[a := f (h ! a)]) xs h ! b) = obj_name (h ! b))"
proof (induction xs arbitrary: h)
  case (Cons x xs)
  obtain n a where x: "x = (n, a)" by (cases x)
  have "obj_name (h[a := f (h ! a)] ! b) = obj_name (h ! b)" for b
    using assms by (cases "a < length h") (simp_all add: nth_list_update list_update_beyond)
  then show ?case using Cons.IH [of "h[a := f (h ! a)]"] by (simp add: x)
qed simp

lemma apply_all_ok:
  assumes "registry_ok r" and "\<And>l. obj_name (f l) = obj_name l"
  shows "registry_ok (apply_all f r)"
  using assms(1) apply_heap [OF assms(2), of "rg_loggers r" "rg_heap r"]
  by (auto simp: registry_ok_def apply_all_def)

lemma register_ok:
  assumes "registry_ok r" and "a < length (rg_heap r)" and "register_logger a r = Some r'"
  shows "registry_ok r'"
  using registry_ok_set [OF assms(1,2) refl] assms(3)
  by (auto simp: register_logger_def Let_def split: if_splits)

lemma drop_ok: "registry_ok r \<Longrightarrow> registry_ok (drop_logger n r)"
  by (auto simp: registry_ok_def drop_logger_def umap_erase_def AList.delete_eq umap_ok_def distinct_map_filter)

text \<open>
  Any sequence of operations, as the functions of \<^verbatim>\<open>details/spdlog_impl.h\<close> pass them on; one that
  throws leaves the registry as it was.
\<close>

datatype reg_op =
    Create string "nat list" | Create_async string u64 async_overflow_policy int "nat list" | Register nat
  | Drop string | Drop_all | Set_formatter pattern_formatter | Set_pattern string | Set_level level_enum
  | Flush_on level_enum | Set_error_handler err_handler | Async_mode u64 async_overflow_policy int | Sync_mode

fun reg_step :: "reg_op \<Rightarrow> registry \<Rightarrow> registry" where
  "reg_step (Create n ks) r = (case create n ks r of Some (a, r) \<Rightarrow> r | None \<Rightarrow> r)"
| "reg_step (Create_async n q p i ks) r = (case create_async n q p i ks r of Some (a, r) \<Rightarrow> r | None \<Rightarrow> r)"
| "reg_step (Register a) r =
     (if a < length (rg_heap r) then case register_logger a r of Some r \<Rightarrow> r | None \<Rightarrow> r else r)"
| "reg_step (Drop n) r = drop_logger n r"
| "reg_step Drop_all r = drop_all r"
| "reg_step (Set_formatter pf) r = registry_formatter pf r"
| "reg_step (Set_pattern p) r = registry_set_pattern p r"
| "reg_step (Set_level lvl) r = registry_set_level lvl r"
| "reg_step (Flush_on lvl) r = registry_flush_on lvl r"
| "reg_step (Set_error_handler handler) r = registry_set_error_handler handler r"
| "reg_step (Async_mode q p i) r = set_async_mode q p i r"
| "reg_step Sync_mode r = set_sync_mode r"

lemma registry_ok_fields [simp]:
  "registry_ok (r\<lparr>rg_formatter := x\<rparr>) = registry_ok r" "registry_ok (r\<lparr>rg_level := y\<rparr>) = registry_ok r"
  "registry_ok (r\<lparr>rg_flush_level := y\<rparr>) = registry_ok r" "registry_ok (set_async_mode q p i r) = registry_ok r"
  "registry_ok (set_sync_mode r) = registry_ok r" "registry_ok (r\<lparr>rg_err_handler := z\<rparr>) = registry_ok r"
  by (simp_all add: registry_ok_def set_async_mode_def set_sync_mode_def)

lemma reg_step_ok: "registry_ok r \<Longrightarrow> registry_ok (reg_step op r)"
  by (cases op)
    (auto simp: registry_formatter_def registry_set_pattern_def registry_set_level_def registry_flush_on_def
      registry_set_error_handler_def drop_all_def Let_def registry_ok_def [of "r\<lparr>rg_loggers := []\<rparr>"] umap_ok_def
      intro: apply_all_ok drop_ok dest: create_ok create_async_ok register_ok split: option.splits)

interpretation registry_steps: invariant_system "\<lambda>r r'. \<exists>op. r' = reg_step op r" registry_ok
  by unfold_locales (auto intro: reg_step_ok)

lemma reg_run_ok: "registry_ok (fold reg_step ops new_registry)"
proof -
  have "(\<lambda>r r'. \<exists>op. r' = reg_step op r)\<^sup>*\<^sup>* r (fold reg_step ops r)" for r
  proof (induction ops arbitrary: r)
    case (Cons op ops)
    have "(\<lambda>r r'. \<exists>op. r' = reg_step op r) r (reg_step op r)" by blast
    then show ?case using Cons.IH [of "reg_step op r"] by (simp add: converse_rtranclp_into_rtranclp)
  qed simp
  then show ?thesis by (rule registry_steps.keeps_star) (simp add: registry_ok_def new_registry_def umap_ok_def)
qed

text \<open>
  C26: Names are unique. After any sequence of operations, the logger found under a name
  has that name, so no logger is found under two names, and while a name is taken no
  logger can be created under it, and no logger that has the name can be registered, be it the
  one found, one that was dropped, or one made outside the registry (the heap \<open>h\<close> may hold any
  other loggers).
\<close>

theorem registry_names_unique:
  assumes "r = fold reg_step ops new_registry" and "get_logger n r = Some a"
  shows "a < length (rg_heap r) \<and> obj_name (rg_heap r ! a) = n \<and> (\<forall>m. get_logger m r = Some a \<longrightarrow> m = n) \<and>
    create n ks r = None \<and> create_async n q p i ks r = None \<and> register_logger a r = None \<and>
    (\<forall>h b. obj_name (h ! b) = n \<longrightarrow> register_logger b (r\<lparr>rg_heap := h\<rparr>) = None)"
proof -
  have ok: "registry_ok r" unfolding assms(1) by (rule reg_run_ok)
  have e: "b < length (rg_heap r) \<and> obj_name (rg_heap r ! b) = m" if "get_logger m r = Some b" for m b
    using ok that by (auto simp: registry_ok_def get_logger_def dest!: map_of_SomeD)
  have "throws_if_exists n r" and "throws_if_exists n (r\<lparr>rg_heap := h\<rparr>)" for h
    using assms(2) by (simp_all add: throws_if_exists_def get_logger_def umap_has_def)
  then show ?thesis using e [OF assms(2)] e
    by (auto simp: create_def create_async_def register_logger_def)
qed

theorem registry_names_unique_witness:
  "get_logger ''a'' (fold reg_step [Create ''a'' [0], Create ''b'' [1], Drop ''a'', Create ''a'' [2]] new_registry) = Some 2 \<and>
   create ''a'' [] (fold reg_step [Create ''a'' [0], Create ''b'' [1], Drop ''a'', Create ''a'' [2]] new_registry) = None \<and>
   register_logger 0 (fold reg_step [Create ''a'' [0], Create ''b'' [1], Drop ''a'', Create ''a'' [2]] new_registry) = None"
proof -
  let ?r = "fold reg_step [Create ''a'' [0], Create ''b'' [1], Drop ''a'', Create ''a'' [2]] new_registry"
  have a: "get_logger ''a'' ?r = Some 2" by code_simp
  have "obj_name (rg_heap ?r ! 0) = ''a''" by code_simp
  moreover have "?r\<lparr>rg_heap := rg_heap ?r\<rparr> = ?r" by simp
  ultimately have "register_logger 0 ?r = None" using registry_names_unique [OF refl a] by metis
  then show ?thesis using registry_names_unique [OF refl a] a by blast
qed

subsection \<open>The loggers of the program\<close>

locale unique_names =
  fixes lookup :: "'n \<Rightarrow> 's \<Rightarrow> 'a option"
    and add :: "'n \<Rightarrow> 's \<Rightarrow> ('a \<times> 's) option"
    and remove :: "'n \<Rightarrow> 's \<Rightarrow> 's"
  assumes add_taken: "lookup n s = Some b \<Longrightarrow> add n s = None"
    and lookup_added: "add n s = Some (a, t) \<Longrightarrow> lookup m t = (if m = n then Some a else lookup m s)"
    and lookup_removed: "lookup m (remove n s) = (if m = n then None else lookup m s)"
begin

lemma add_twice: "add n s = Some (a, t) \<Longrightarrow> add n t = None"
  by (rule add_taken) (simp add: lookup_added)

lemma add_keeps: "lookup m s = Some b \<Longrightarrow> add n s = Some (a, t) \<Longrightarrow> lookup m t = Some b"
  using add_taken [of n s] by (auto simp: lookup_added)

end

lemma adopt_lookup: "get_logger m (snd (adopt n l r)) = (if m = n then Some (fst (adopt n l r)) else get_logger m r)"
  by (simp add: adopt_def Let_def get_logger_def map_of_umap_set)

interpretation registry_names: unique_names get_logger "\<lambda>n. create n ks" drop_logger
proof
  fix n m :: string and r r' :: registry and a b :: nat
  show "get_logger n r = Some b \<Longrightarrow> create n ks r = None"
    by (simp add: create_def throws_if_exists_def umap_has_def get_logger_def)
  show "create n ks r = Some (a, r') \<Longrightarrow> get_logger m r' = (if m = n then Some a else get_logger m r)"
    using adopt_lookup [of m n _ r] by (auto simp: create_def split: if_splits bind_splits) (metis fst_conv snd_conv)+
  show "get_logger m (drop_logger n r) = (if m = n then None else get_logger m r)"
    by (simp add: get_logger_def drop_logger_def umap_erase_def delete_conv')
qed

text \<open>
  What the constructors of a node do with the registry. The event loop creates its logger
  (\<open>kq_name\<close>) and swallows an exception; the node creates the next one, and an exception
  there ends the constructor before the \<open>Raft\<close> object is made; \<open>Raft\<close> creates the last one
  and swallows an exception again, before its storage is opened. Every logger has a sink
  of its own.
\<close>

record node_objects =
  no_event_loop_logged :: bool
  no_raft_made :: bool
  no_storage_opened :: bool

definition try_create :: "string \<Rightarrow> registry \<Rightarrow> bool \<times> registry" where
  "try_create n r =
     (case create n [length (rg_heap r)] r of Some (a, r) \<Rightarrow> (True, r) | None \<Rightarrow> (False, r))"

definition node_loggers :: "string \<Rightarrow> registry \<Rightarrow> node_objects \<times> registry" where
  "node_loggers kq_name r =
     (let (kq, r) = try_create kq_name r;
          (nd, r) = try_create ''node_console'' r
      in if \<not> nd then (\<lparr>no_event_loop_logged = kq, no_raft_made = False, no_storage_opened = False\<rparr>, r)
         else let (rf, r) = try_create ''raft_console'' r
              in (\<lparr>no_event_loop_logged = kq, no_raft_made = True, no_storage_opened = rf\<rparr>, r))"

definition taken :: "string \<Rightarrow> registry \<Rightarrow> bool" where
  "taken n r = (get_logger n r \<noteq> None)"

lemma try_create_taken: "taken n r \<Longrightarrow> try_create n r = (False, r)"
  using registry_names.add_taken by (force simp: try_create_def taken_def)

lemma try_create_frees: "\<not> rg_async_mode r \<Longrightarrow> \<not> taken n r \<Longrightarrow>
    \<exists>r'. try_create n r = (True, r') \<and> \<not> rg_async_mode r' \<and> (\<forall>m. taken m r' \<longleftrightarrow> m = n \<or> taken m r)"
  by (auto simp: try_create_def create_def throws_if_exists_def umap_has_def taken_def get_logger_def
      adopt_def Let_def map_of_umap_set)

text \<open>
  C25: One node a process. When none of the three names is taken, the constructors make all
  objects; a second node, made while the first is there, has an event loop without a
  logger and no \<open>Raft\<close> object, and changes nothing in the registry. After a destructor
  has dropped all loggers a node can be made again.
\<close>

theorem second_node_fails:
  assumes "\<not> rg_async_mode r" and "\<not> taken kq_name r" "\<not> taken ''node_console'' r" "\<not> taken ''raft_console'' r"
    and "kq_name \<noteq> ''node_console''" "kq_name \<noteq> ''raft_console''"
  shows "\<exists>r1. node_loggers kq_name r =
      (\<lparr>no_event_loop_logged = True, no_raft_made = True, no_storage_opened = True\<rparr>, r1) \<and>
    node_loggers kq_name r1 =
      (\<lparr>no_event_loop_logged = False, no_raft_made = False, no_storage_opened = False\<rparr>, r1) \<and>
    fst (node_loggers kq_name (drop_all r1)) =
      \<lparr>no_event_loop_logged = True, no_raft_made = True, no_storage_opened = True\<rparr>"
proof -
  have all: "\<exists>r1. node_loggers kq_name s =
      (\<lparr>no_event_loop_logged = True, no_raft_made = True, no_storage_opened = True\<rparr>, r1) \<and>
      \<not> rg_async_mode r1 \<and> taken kq_name r1 \<and> taken ''node_console'' r1"
    if s: "\<not> rg_async_mode s" "\<not> taken kq_name s" "\<not> taken ''node_console'' s" "\<not> taken ''raft_console'' s" for s
  proof -
    obtain s1 where 1: "try_create kq_name s = (True, s1)" "\<not> rg_async_mode s1"
      "\<And>m. taken m s1 \<longleftrightarrow> m = kq_name \<or> taken m s"
      using try_create_frees [OF s(1,2)] by blast
    have n1: "\<not> taken ''node_console'' s1" using 1(3) s(3) assms(5) by auto
    obtain s2 where 2: "try_create ''node_console'' s1 = (True, s2)" "\<not> rg_async_mode s2"
      "\<And>m. taken m s2 \<longleftrightarrow> m = ''node_console'' \<or> taken m s1"
      using try_create_frees [OF 1(2) n1] by blast
    have n2: "\<not> taken ''raft_console'' s2" using 1(3) 2(3) s(4) assms(6) by auto
    obtain s3 where 3: "try_create ''raft_console'' s2 = (True, s3)" "\<not> rg_async_mode s3"
      "\<And>m. taken m s3 \<longleftrightarrow> m = ''raft_console'' \<or> taken m s2"
      using try_create_frees [OF 2(2) n2] by blast
    show ?thesis using 1(1) 2(1) 3 1(3) 2(3) by (simp add: node_loggers_def)
  qed
  obtain r1 where r1: "node_loggers kq_name r =
      (\<lparr>no_event_loop_logged = True, no_raft_made = True, no_storage_opened = True\<rparr>, r1)"
    "\<not> rg_async_mode r1" "taken kq_name r1" "taken ''node_console'' r1"
    using all [OF assms(1-4)] by blast
  have "\<not> rg_async_mode (drop_all r1)" "\<not> taken m (drop_all r1)" for m
    using r1(2) by (simp_all add: drop_all_def taken_def get_logger_def)
  then obtain r2 where "node_loggers kq_name (drop_all r1) =
      (\<lparr>no_event_loop_logged = True, no_raft_made = True, no_storage_opened = True\<rparr>, r2)"
    using all [of "drop_all r1"] by blast
  moreover have "node_loggers kq_name r1 =
      (\<lparr>no_event_loop_logged = False, no_raft_made = False, no_storage_opened = False\<rparr>, r1)"
    using r1(3,4) by (simp add: node_loggers_def try_create_taken)
  ultimately show ?thesis using r1(1) by simp
qed

theorem second_node_fails_witness:
  "\<exists>r1. node_loggers ''epoll_console'' new_registry =
      (\<lparr>no_event_loop_logged = True, no_raft_made = True, no_storage_opened = True\<rparr>, r1) \<and>
    node_loggers ''epoll_console'' r1 =
      (\<lparr>no_event_loop_logged = False, no_raft_made = False, no_storage_opened = False\<rparr>, r1)"
  using second_node_fails [of new_registry "''epoll_console''"]
  by (auto simp: new_registry_def taken_def get_logger_def)

end
