(* ===== verification/Fmt_Format_Properties.thy ===== *)
theory Fmt_Format_Properties
  imports Fmt_Template
begin

unbundle bit_operations_syntax

text \<open>
  The parser and the loop over a format string against the meaning of templates.
\<close>

subsection \<open>Characters\<close>

named_theorems char_simps \<open>the character classes of the parser\<close>

lemma peek_simps [simp]: "peek (c # s) = c" "peek [] = CHR 0x00"
  by (simp_all add: peek_def)

lemma digit_classes:
  assumes "is_digit c"
  shows "\<not> is_name_start c" "name_char c" "align_of c = ALIGN_DEFAULT" "c \<notin> set ''+- #{}.:''" "c \<noteq> CHR 0x00"
  using assms by (auto simp: is_digit_def is_name_start_def name_char_def align_of_def)

lemma letter_classes:
  assumes "is_name_start c"
  shows "\<not> is_digit c" "name_char c" "align_of c = ALIGN_DEFAULT" "c \<notin> set ''+- #{}.:''" "c \<noteq> CHR 0x00"
  using assms by (auto simp: is_digit_def is_name_start_def name_char_def align_of_def)

lemma special_classes [simp]:
  "\<not> is_digit CHR ''}''" "\<not> is_digit CHR '':''" "\<not> is_digit CHR ''{''" "\<not> is_digit CHR ''.''" "\<not> is_digit CHR ''+''"
  "\<not> is_digit CHR ''-''" "\<not> is_digit CHR '' ''" "\<not> is_digit CHR ''#''" "\<not> is_digit CHR 0x00"
  "\<not> is_name_start CHR ''}''" "\<not> is_name_start CHR '':''" "\<not> is_name_start CHR ''{''" "\<not> is_name_start CHR ''.''"
  "\<not> is_name_start CHR 0x00" "is_digit CHR ''0''"
  by (simp_all add: is_digit_def is_name_start_def)

subsection \<open>Numbers\<close>

lemma is_digit_decimal: "c \<in> set (decimal n) \<Longrightarrow> is_digit c"
proof (induction n rule: decimal.induct)
  case (1 n)
  have "d < 10 \<Longrightarrow> is_digit (digit_char d)" for d by (simp add: is_digit_def digit_char_def)
  then show ?case using 1 by (cases "n < 10") (auto simp: decimal.simps [of n])
qed

lemma read_decimal_foldl: "foldl (\<lambda>v c. v * 10 + (of_char c - 48)) 0 s = read_decimal s"
  by (simp add: read_decimal_def digit_val_def mult.commute)

lemma foldl_digits_ge: "v * 10 ^ length s \<le> foldl (\<lambda>v c. v * 10 + (of_char c - 48)) (v :: nat) (s :: string)"
proof (induction s arbitrary: v)
  case (Cons c s)
  have "v * 10 ^ length (c # s) \<le> (v * 10 + (of_char c - 48)) * 10 ^ length s" by (simp add: algebra_simps)
  also have "\<dots> \<le> foldl (\<lambda>v c. v * 10 + (of_char c - 48)) v (c # s)"
    using Cons [of "v * 10 + (of_char c - 48)"] by simp
  finally show ?case .
qed simp

lemma parse_digits_all:
  assumes "\<And>c. c \<in> set ds \<Longrightarrow> is_digit c" and "\<not> is_digit (peek t)"
    and "foldl (\<lambda>v c. v * 10 + (of_char c - 48)) v ds \<le> max_int"
  shows "parse_digits v (ds @ t) = (foldl (\<lambda>v c. v * 10 + (of_char c - 48)) v ds, t)"
  using assms
proof (induction ds arbitrary: v)
  case Nil
  then show ?case by (cases t) simp_all
next
  case (Cons d ds)
  let ?v = "v * 10 + (of_char d - 48)"
  have "?v \<le> ?v * 10 ^ length ds" by simp
  also have "\<dots> \<le> max_int" using foldl_digits_ge [of ?v ds] Cons.prems(3) by simp
  finally have "v * 10 \<le> max_int" by simp
  then have "\<not> v > max_int div 10" by simp
  then show ?case using Cons by simp
qed

lemma parse_int_decimal:
  "n \<le> max_int \<Longrightarrow> \<not> is_digit (peek t) \<Longrightarrow> parse_nonnegative_int (decimal n @ t) = Fine (n, t)"
  using parse_digits_all [of "decimal n" t 0] is_digit_decimal
  by (simp add: parse_nonnegative_int_def read_decimal_foldl read_decimal_decimal)

lemma peek_decimal: "is_digit (peek (decimal n @ t))"
  using is_digit_decimal [of "hd (decimal n)" n] by (cases "decimal n") auto

lemma peek_decimal_pos: "0 < n \<Longrightarrow> peek (decimal n @ t) \<noteq> CHR ''0''"
proof (induction n arbitrary: t rule: decimal.induct)
  case (1 n)
  show ?case
  proof (cases "n < 10")
    case True
    then have "digit_val (digit_char n) \<noteq> digit_val CHR ''0''" using 1(2) by (simp add: digit_val_def [of "CHR ''0''"])
    then have "digit_char n \<noteq> CHR ''0''" by metis
    then show ?thesis using True by (simp add: decimal.simps [of n])
  next
    case False
    then show ?thesis using 1(1) [of "[digit_char (n mod 10)] @ t"] by (simp add: decimal.simps [of n])
  qed
qed

subsection \<open>References to arguments\<close>

text \<open>A formatter that is at \<open>n\<close> on the arguments \<open>xs\<close>.\<close>

definition stands :: "('d, 'c) formatter \<Rightarrow> ('d, 'c) cxx list \<Rightarrow> int \<Rightarrow> bool" where
  "stands fr xs n =
     (fr_args fr = make_args xs \<and> fr_next fr = n \<and> (fr_map fr = [] \<or> fr_map fr = named_args xs))"

lemma do_get_arg_make:
  assumes "fr_args fr = make_args xs" and "i < length xs"
  shows "do_get_arg i fr = Some (make_arg (plain (xs ! i)), None)"
  using assms
  by (cases "xs ! i") (simp_all add: do_get_arg_def packed_arguments, simp_all add: make_arg_def)

lemma named_of_find: "named_of xs s = Some x \<Longrightarrow> map_of (named_args xs) s = Some (make_arg x)"
  by (induction xs s rule: named_of.induct) (auto split: if_splits)

lemma map_init:
  assumes "stands fr xs n"
  shows "ArgMap_init (fr_args fr) (fr_map fr) = Some (named_args xs)"
  using assms named_arguments [of xs] by (auto simp: stands_def ArgMap_init_def)

lemma takeWhile_name:
  assumes "list_all name_char s" and "\<not> name_char (peek t)"
  shows "takeWhile name_char (s @ t) = s" and "dropWhile name_char (s @ t) = t"
  using assms by (cases t; simp add: list_all_iff takeWhile_append dropWhile_append)+

lemma next_arg_stands:
  assumes "stands fr xs n" and "lookup_ref xs n Next = Some (x, n')"
  shows "\<exists>fr'. next_arg fr = Some (make_arg x, None, fr') \<and> stands fr' xs n'"
proof -
  have n: "0 \<le> n" "nat n < length xs" "x = plain (xs ! nat n)" "n' = n + 1"
    using assms(2) by (auto split: if_splits)
  then have "next_arg fr = Some (make_arg x, None, fr\<lparr>fr_next := n + 1\<rparr>)"
    using assms(1) do_get_arg_make [of fr xs "nat n"] by (simp add: next_arg_def stands_def)
  moreover have "stands (fr\<lparr>fr_next := n + 1\<rparr>) xs n'" using assms(1) n by (simp add: stands_def)
  ultimately show ?thesis by blast
qed

lemma get_arg_stands:
  assumes "stands fr xs n" and "lookup_ref xs n (Index i) = Some (x, n')"
  shows "\<exists>fr'. get_arg i fr = Some (make_arg x, None, fr') \<and> stands fr' xs n'"
proof -
  let ?fr = "fr\<lparr>fr_next := - 1\<rparr>"
  have n: "n \<le> 0" "i < length xs" "x = plain (xs ! i)" "n' = - 1"
    using assms(2) by (auto split: if_splits)
  then have "get_arg i fr = Some (make_arg x, None, ?fr)"
    using assms(1) do_get_arg_make [of ?fr xs i] by (simp add: get_arg_def check_no_auto_index_def stands_def)
  moreover have "stands ?fr xs n'" using assms(1) n by (simp add: stands_def)
  ultimately show ?thesis by blast
qed

lemma parse_ref:
  assumes "wf_ref r" and "peek t \<in> {CHR ''}'', CHR '':''}" and "stands fr xs n"
    and "lookup_ref xs n r = Some (x, n')"
  shows "\<exists>fr'. parse_arg (show_ref r @ t) fr = Fine (make_arg x, t, fr') \<and> stands fr' xs n'"
proof (cases r)
  case Next
  obtain fr' where "next_arg fr = Some (make_arg x, None, fr')" "stands fr' xs n'"
    using next_arg_stands assms(3,4) Next by blast
  moreover have "\<not> is_digit (peek t)" "\<not> is_name_start (peek t)" using assms(2) by auto
  ultimately show ?thesis using Next by (simp add: parse_arg_def parse_arg_index_def)
next
  case (Index i)
  obtain fr' where "get_arg i fr = Some (make_arg x, None, fr')" "stands fr' xs n'"
    using get_arg_stands assms(3,4) Index by blast
  moreover have "parse_nonnegative_int (decimal i @ t) = Fine (i, t)"
    using assms(1,2) Index by (intro parse_int_decimal) auto
  ultimately show ?thesis
    using Index peek_decimal [of i t] digit_classes(1) [OF peek_decimal [of i t]]
    by (simp add: parse_arg_def parse_arg_index_def)
next
  case (Named s)
  then have n: "n \<le> 0" "named_of xs s = Some x" "n' = - 1"
    using assms(4) by (auto split: if_splits Option.bind_splits)
  let ?fr = "fr\<lparr>fr_next := - 1, fr_map := named_args xs\<rparr>"
  have "stands (fr\<lparr>fr_next := - 1\<rparr>) xs (- 1)" using assms(3) by (simp add: stands_def)
  then have "get_named_arg s fr = Some (make_arg x, None, ?fr)"
    using map_init [of "fr\<lparr>fr_next := - 1\<rparr>" xs] assms(3) n named_of_find [of xs s x]
    by (simp add: get_named_arg_def check_no_auto_index_def stands_def ArgMap_find_def)
  moreover have "\<not> name_char (peek t)" using assms(2) by (auto simp: name_char_def)
  then have "takeWhile name_char (s @ t) = s" "dropWhile name_char (s @ t) = t"
    using takeWhile_name [of s t] assms(1) Named by auto
  moreover have "is_name_start (peek (s @ t))" using assms(1) Named by (cases s) auto
  moreover have "stands ?fr xs n'" using assms(3) n by (simp add: stands_def)
  ultimately show ?thesis using Named by (simp add: parse_arg_def parse_arg_name_def)
qed

subsection \<open>Sizes\<close>

lemma signed_parts_nonneg: "signed_parts v = (False, k) \<Longrightarrow> \<not> sint v < 0 \<and> unat v = k"
  by (auto simp: signed_parts_def split: if_splits)

lemma promoted_nonneg:
  "signed_parts (w :: 16 word) = (False, k) \<Longrightarrow> \<not> sint (scast w :: i32) < 0 \<and> unat (scast w :: i32) = k"
  "signed_parts (v :: byte) = (False, k) \<Longrightarrow> \<not> sint (scast v :: i32) < 0 \<and> unat (scast v :: i32) = k"
  by (rule signed_parts_nonneg; simp)+

lemma size_of_make_arg:
  assumes "size_of_cxx x = Some k"
  shows "size_of_arg what (make_arg x) = Fine k"
proof -
  have p: "int_parts x = (False, k)" "k \<le> max_int" "cxx_type x \<in> {INT_ARG, UINT, LONG_LONG, ULONG_LONG}"
    using assms by (auto simp: size_of_cxx_def prod_eq_iff split: if_splits)
  show ?thesis
    using p promoted
    by (cases x)
      (auto simp: size_of_arg_def make_arg_def unsigned_parts_def max_int_def dest: signed_parts_nonneg promoted_nonneg)
qed

lemma parse_dynamic_ref:
  assumes "wf_ref r" and "stands fr xs n" and "lookup_ref xs n r = Some (x, n')" and "size_of_cxx x = Some k"
  shows "\<exists>fr'. parse_dynamic what (show_ref r @ CHR ''}'' # t) fr = Fine (k, t, fr') \<and> stands fr' xs n'"
proof -
  obtain fr' where "parse_arg (show_ref r @ CHR ''}'' # t) fr = Fine (make_arg x, CHR ''}'' # t, fr')" "stands fr' xs n'"
    using parse_ref [OF assms(1) _ assms(2,3), of "CHR ''}'' # t"] by auto
  then show ?thesis by (simp add: parse_dynamic_def size_of_make_arg [OF assms(4)])
qed

subsection \<open>The blocks of a specifier\<close>

text \<open>What each block leaves to the next starts with none of its own characters.\<close>

definition after_precision :: "char \<Rightarrow> bool" where
  "after_precision c = (is_name_start c \<or> c = CHR ''}'')"

definition after_width :: "char \<Rightarrow> bool" where
  "after_width c = (c = CHR ''.'' \<or> after_precision c)"

definition after_zero :: "char \<Rightarrow> bool" where
  "after_zero c = (c = CHR ''{'' \<or> (is_digit c \<and> c \<noteq> CHR ''0'') \<or> after_width c)"

definition after_hash :: "char \<Rightarrow> bool" where
  "after_hash c = (c = CHR ''0'' \<or> after_zero c)"

definition after_sign :: "char \<Rightarrow> bool" where
  "after_sign c = (c = CHR ''#'' \<or> after_hash c)"

lemmas after_defs = after_precision_def after_width_def after_zero_def after_hash_def after_sign_def

lemma after_classes:
  "after_precision c \<Longrightarrow> \<not> is_digit c \<and> c \<notin> set ''.{''"
  "after_width c \<Longrightarrow> \<not> is_digit c \<and> c \<noteq> CHR ''{''"
  "after_zero c \<Longrightarrow> c \<noteq> CHR ''0''"
  "after_hash c \<Longrightarrow> c \<noteq> CHR ''#''"
  "after_sign c \<Longrightarrow> c \<notin> set ''+- ''"
  by (auto simp: after_defs dest: digit_classes letter_classes)

lemma require_numeric: "numeric (cxx_type x) \<Longrightarrow> require_numeric_argument (make_arg x) c = Fine ()"
  by (simp add: require_numeric_argument_def numeric_def make_arg_def)

lemma parse_type_shown:
  assumes "case ty of None \<Rightarrow> True | Some c \<Rightarrow> is_name_start c" and "fs_type sp = None"
  shows "parse_type sp (show_option ty @ CHR ''}'' # t) = (sp\<lparr>fs_type := ty\<rparr>, CHR ''}'' # t)"
  using assms letter_classes by (cases ty) (auto simp: parse_type_def)

lemma parse_precision_shown:
  assumes "wf_size p" and "after_precision (peek t)" and "stands fr xs n" and "size_text xs n (- 1) p = Some (k, n')"
    and "p \<noteq> No_Size \<longrightarrow> type_code LAST_INTEGER_TYPE < type_code (cxx_type x) \<and> cxx_type x \<noteq> POINTER"
    and "fs_precision sp = - 1"
  shows "\<exists>fr'. parse_precision (make_arg x) sp (show_precision p @ t) fr = Fine (sp\<lparr>fs_precision := k\<rparr>, t, fr') \<and>
    stands fr' xs n'"
proof (cases p)
  case No_Size
  then show ?thesis
    using assms after_classes(1) by (auto simp: show_precision_def parse_precision_def)
next
  case (Fixed m)
  then show ?thesis
    using assms after_classes(1) peek_decimal [of m t] parse_int_decimal [of m t]
    by (auto simp: show_precision_def parse_precision_def make_arg_def)
next
  case (From_Arg r)
  then obtain y j where l: "lookup_ref xs n r = Some (y, n')" "size_of_cxx y = Some j" "k = int j"
    using assms(4) by (auto split: Option.bind_splits)
  obtain fr' where "parse_dynamic ''precision'' (show_ref r @ CHR ''}'' # t) fr = Fine (j, t, fr')" "stands fr' xs n'"
    using parse_dynamic_ref [OF _ assms(3) l(1,2)] assms(1) From_Arg by force
  then show ?thesis
    using assms(5) From_Arg l(3) by (auto simp: show_precision_def parse_precision_def make_arg_def)
qed

lemma parse_width_shown:
  assumes "wf_size w" and "after_width (peek t)" and "stands fr xs n" and "size_text xs n 0 w = Some (k, n')"
    and "fs_width sp = 0"
  shows "\<exists>fr'. parse_width sp (show_size w @ t) fr = Fine (sp\<lparr>fs_width := nat k\<rparr>, t, fr') \<and> stands fr' xs n'"
proof (cases w)
  case No_Size
  then show ?thesis using assms after_classes(2) by (auto simp: parse_width_def)
next
  case (Fixed m)
  then show ?thesis
    using assms after_classes(2) peek_decimal [of m t] parse_int_decimal [of m t] by (auto simp: parse_width_def)
next
  case (From_Arg r)
  then obtain y j where l: "lookup_ref xs n r = Some (y, n')" "size_of_cxx y = Some j" "k = int j"
    using assms(4) by (auto split: Option.bind_splits)
  obtain fr' where "parse_dynamic ''width'' (show_ref r @ CHR ''}'' # t) fr = Fine (j, t, fr')" "stands fr' xs n'"
    using parse_dynamic_ref [OF _ assms(3) l(1,2)] assms(1) From_Arg by force
  then show ?thesis using From_Arg l(3) by (auto simp: parse_width_def)
qed

lemma parse_zero_shown:
  assumes "after_zero (peek t)" and "z \<longrightarrow> numeric (cxx_type x)"
  shows "parse_zero (make_arg x) sp ((if z then ''0'' else '''') @ t) =
    Fine (if z then sp\<lparr>fs_align := ALIGN_NUMERIC, fs_fill := CHR ''0''\<rparr> else sp, t)"
  using assms after_classes(3) by (auto simp: parse_zero_def require_numeric)

lemma parse_hash_shown:
  assumes "after_hash (peek t)" and "h \<longrightarrow> numeric (cxx_type x)"
  shows "parse_hash (make_arg x) sp ((if h then ''#'' else '''') @ t) =
    Fine (if h then add_flags HASH_FLAG sp else sp, t)"
  using assms after_classes(4) by (auto simp: parse_hash_def require_numeric)

lemma parse_sign_shown:
  assumes "after_sign (peek t)" and "case sg of None \<Rightarrow> True | Some c \<Rightarrow> c \<in> set ''+- ''"
    and "sg \<noteq> None \<longrightarrow> numeric (cxx_type x) \<and> cxx_type x \<noteq> UINT \<and> cxx_type x \<noteq> ULONG_LONG"
  shows "parse_sign (make_arg x) sp (show_option sg @ t) =
    Fine (if sg = None then sp else add_flags (sign_flags sg) sp, t)"
proof (cases sg)
  case None
  then show ?thesis using assms(1) after_classes(5) by (auto simp: parse_sign_def)
next
  case (Some c)
  have "check_sign (c # t) (make_arg x) = Fine t"
    using assms(3) Some by (simp add: check_sign_def require_numeric) (simp add: make_arg_def)
  moreover have "(SIGN_FLAG OR PLUS_FLAG) = 3" by (simp add: SIGN_FLAG_def PLUS_FLAG_def)
  ultimately show ?thesis
    using assms(2) Some by (auto simp: parse_sign_def MINUS_FLAG_def SIGN_FLAG_def)
qed

definition no_align :: "string \<Rightarrow> bool" where
  "no_align s = (\<forall>c\<in>set s. align_of c = ALIGN_DEFAULT \<and> c \<noteq> CHR 0x00)"

lemma align_of_char [simp]: "a \<noteq> ALIGN_DEFAULT \<Longrightarrow> align_of (align_char a) = a"
  by (cases a) (simp_all add: align_of_def)

lemma align_of_brace [simp]: "align_of CHR ''}'' = ALIGN_DEFAULT" "align_of CHR 0x00 = ALIGN_DEFAULT"
  by (simp_all add: align_of_def)

lemma align_char_not: "align_char a \<noteq> CHR 0x00" "align_char a \<noteq> CHR ''}''" "align_char a \<noteq> CHR ''{''"
  by (cases a; simp)+

lemma parse_align_shown:
  assumes "wf_align al" and "no_align w" and "al = None \<longrightarrow> w \<noteq> []"
    and "\<forall>f. al = Some (f, ALIGN_NUMERIC) \<longrightarrow> numeric (cxx_type x)"
  shows "parse_align (make_arg x) sp (show_align al @ w @ CHR ''}'' # t) =
    Fine (case al of None \<Rightarrow> sp | Some (None, a) \<Rightarrow> sp\<lparr>fs_align := a\<rparr>
          | Some (Some c, a) \<Rightarrow> sp\<lparr>fs_align := a, fs_fill := c\<rparr>, w @ CHR ''}'' # t)"
proof -
  have p: "align_of (peek (w @ CHR ''}'' # t)) = ALIGN_DEFAULT"
    using assms(2) by (cases w) (simp_all add: no_align_def)
  have n: "check_numeric_align a (make_arg x) = Fine ()" if "al = Some (f, a)" for f a
    using assms(4) that by (simp add: check_numeric_align_def require_numeric)
  consider "al = None" | a where "al = Some (None, a)" | c a where "al = Some (Some c, a)"
    by (metis option.exhaust surj_pair)
  then show ?thesis
  proof cases
    case 1
    then obtain c v where w: "w = c # v" using assms(3) by (cases w) auto
    have "align_of (peek (v @ CHR ''}'' # t)) = ALIGN_DEFAULT"
      using assms(2) w by (cases v) (simp_all add: no_align_def)
    then show ?thesis using assms(2) 1 by (simp add: w parse_align_def no_align_def)
  next
    case 2
    then show ?thesis using assms(1) p n by (simp add: parse_align_def align_char_not Let_def)
  next
    case 3
    then show ?thesis using assms(1) n by (simp add: parse_align_def brace_def Let_def)
  qed
qed

subsection \<open>A whole specifier\<close>

text \<open>The heads of the remaining blocks.\<close>

lemma head_type:
  "case ty of None \<Rightarrow> True | Some c \<Rightarrow> is_name_start c \<Longrightarrow> after_precision (peek (show_option ty @ CHR ''}'' # t))"
  by (cases ty) (simp_all add: after_precision_def)

lemma head_precision: "after_precision (peek t) \<Longrightarrow> after_width (peek (show_precision p @ t))"
  by (simp add: show_precision_def after_width_def)

lemma head_width:
  assumes "w \<noteq> Fixed 0" and "after_width (peek t)"
  shows "after_zero (peek (show_size w @ t))"
proof (cases w)
  case (Fixed n)
  then show ?thesis using assms peek_decimal [of n t] peek_decimal_pos [of n t] by (simp add: after_zero_def)
qed (use assms in \<open>simp_all add: after_zero_def\<close>)

lemma head_zero: "after_zero (peek t) \<Longrightarrow> after_hash (peek ((if z then ''0'' else '''') @ t))"
  by (simp add: after_hash_def)

lemma head_hash: "after_hash (peek t) \<Longrightarrow> after_sign (peek ((if h then ''#'' else '''') @ t))"
  by (simp add: after_sign_def)

lemma no_align_append [simp]: "no_align (s @ t) \<longleftrightarrow> no_align s \<and> no_align t"
  by (auto simp: no_align_def)

lemma no_align_class: "\<forall>c\<in>set s. name_char c \<Longrightarrow> no_align s"
  using digit_classes letter_classes by (auto simp: no_align_def name_char_def)

lemma no_align_ref: "wf_ref r \<Longrightarrow> no_align (show_ref r)"
proof (cases r)
  case (Index i)
  then show ?thesis using is_digit_decimal by (auto intro!: no_align_class simp: name_char_def)
next
  case (Named s)
  then show "wf_ref r \<Longrightarrow> ?thesis" by (auto intro!: no_align_class simp: list_all_iff)
qed (simp add: no_align_def)

lemma no_align_size: "wf_size w \<Longrightarrow> no_align (show_size w)"
proof (cases w)
  case (Fixed n)
  then show ?thesis using is_digit_decimal by (auto intro!: no_align_class simp: name_char_def)
next
  case (From_Arg r)
  then show "wf_size w \<Longrightarrow> ?thesis" using no_align_ref by (auto simp: no_align_def align_of_def)
qed (simp add: no_align_def)

lemma no_align_rest:
  assumes "wf_spec y"
  shows "no_align (show_option (y_sign y) @ (if y_hash y then ''#'' else '''') @ (if y_zero y then ''0'' else '''') @
    show_size (y_width y) @ show_precision (y_precision y) @ show_option (y_type y))"
proof -
  have "no_align (show_option (y_sign y))"
    using assms by (auto simp: wf_spec_def no_align_def align_of_def split: option.splits)
  moreover have "no_align (show_option (y_type y))"
    using assms letter_classes(3,5) by (auto simp: wf_spec_def no_align_def split: option.splits)
  moreover have "no_align (if y_hash y then ''#'' else '''')" "no_align (if y_zero y then ''0'' else '''')" "no_align ''.''"
    by (simp_all add: no_align_def align_of_def)
  ultimately show ?thesis
    using assms no_align_size no_align_append [of "''.''"]
    by (auto simp: wf_spec_def show_precision_def no_align_def)
qed

lemma sign_flags_or: "case sg of None \<Rightarrow> True | Some c \<Rightarrow> c \<in> set ''+- '' \<Longrightarrow> sign_flags sg OR 8 = sign_flags sg + 8"
  by (cases sg) auto

lemma spec_of_blocks:
  assumes "case y_sign y of None \<Rightarrow> True | Some c \<Rightarrow> c \<in> set ''+- ''"
    and "sp1 = (case y_align y of None \<Rightarrow> empty_spec | Some (None, a) \<Rightarrow> empty_spec\<lparr>fs_align := a\<rparr>
      | Some (Some c, a) \<Rightarrow> empty_spec\<lparr>fs_align := a, fs_fill := c\<rparr>)"
    and "sp2 = (if y_sign y = None then sp1 else add_flags (sign_flags (y_sign y)) sp1)"
    and "sp3 = (if y_hash y then add_flags HASH_FLAG sp2 else sp2)"
    and "sp4 = (if y_zero y then sp3\<lparr>fs_align := ALIGN_NUMERIC, fs_fill := CHR ''0''\<rparr> else sp3)"
  shows "sp4\<lparr>fs_width := nat w, fs_precision := p, fs_type := y_type y\<rparr> = spec_of y w p"
    and "fs_width sp4 = 0" and "fs_precision sp4 = - 1" and "fs_type sp4 = None"
proof -
  have one: "fs_width sp1 = 0" "fs_precision sp1 = - 1" "fs_type sp1 = None" "fs_flags sp1 = 0"
    "fs_fill sp1 = (case y_align y of Some (Some c, a) \<Rightarrow> c | _ \<Rightarrow> CHR '' '')"
    "fs_align sp1 = (case y_align y of Some (f, a) \<Rightarrow> a | None \<Rightarrow> ALIGN_DEFAULT)"
    unfolding assms(2) by (simp_all add: empty_spec_def pad_spec_def split: option.split prod.split)
  have "fs_flags sp3 = sign_flags (y_sign y) + (if y_hash y then 8 else 0)"
    using one(4) sign_flags_or [OF assms(1)] by (auto simp: assms(3,4) add_flags_def HASH_FLAG_def)
  then show "sp4\<lparr>fs_width := nat w, fs_precision := p, fs_type := y_type y\<rparr> = spec_of y w p"
    and "fs_width sp4 = 0" and "fs_precision sp4 = - 1" and "fs_type sp4 = None"
    using one by (auto simp: spec_of_def assms(3-5) add_flags_def intro!: FormatSpec.equality)
qed

lemma parse_spec_shown:
  assumes wf: "wf_spec y" and ad: "admits y (cxx_type x)" and st: "stands fr xs n"
    and w: "size_text xs n 0 (y_width y) = Some (w, n1)"
    and p: "size_text xs n1 (- 1) (y_precision y) = Some (p, n2)"
  shows "\<exists>fr'. parse_spec (make_arg x) (show_spec y @ CHR ''}'' # t) fr = Fine (spec_of y w p, CHR ''}'' # t, fr') \<and>
    stands fr' xs n2"
proof -
  define t5 where "t5 = show_option (y_type y) @ CHR ''}'' # t"
  define t4 where "t4 = show_precision (y_precision y) @ t5"
  define t3 where "t3 = show_size (y_width y) @ t4"
  define t2 where "t2 = (if y_zero y then ''0'' else '''') @ t3"
  define t1 where "t1 = (if y_hash y then ''#'' else '''') @ t2"
  note wfs = wf [unfolded wf_spec_def]
  have h5: "after_precision (peek t5)" unfolding t5_def using wfs by (intro head_type) simp
  have h4: "after_width (peek t4)" unfolding t4_def by (rule head_precision [OF h5])
  have h3: "after_zero (peek t3)" unfolding t3_def using wfs h4 by (intro head_width) simp_all
  have h2: "after_hash (peek t2)" unfolding t2_def by (rule head_zero [OF h3])
  have h1: "after_sign (peek t1)" unfolding t1_def by (rule head_hash [OF h2])
  define sp1 where "sp1 = (case y_align y of None \<Rightarrow> empty_spec | Some (None, a) \<Rightarrow> empty_spec\<lparr>fs_align := a\<rparr>
      | Some (Some c, a) \<Rightarrow> empty_spec\<lparr>fs_align := a, fs_fill := c\<rparr>)"
  define sp2 where "sp2 = (if y_sign y = None then sp1 else add_flags (sign_flags (y_sign y)) sp1)"
  define sp3 where "sp3 = (if y_hash y then add_flags HASH_FLAG sp2 else sp2)"
  define sp4 where "sp4 = (if y_zero y then sp3\<lparr>fs_align := ALIGN_NUMERIC, fs_fill := CHR ''0''\<rparr> else sp3)"
  note blocks = spec_of_blocks [OF _ sp1_def sp2_def sp3_def sp4_def]
  have sg: "case y_sign y of None \<Rightarrow> True | Some c \<Rightarrow> c \<in> set ''+- ''" using wfs by simp
  have "show_spec y @ CHR ''}'' # t = show_align (y_align y) @ (show_option (y_sign y) @
      (if y_hash y then ''#'' else '''') @ (if y_zero y then ''0'' else '''') @ show_size (y_width y) @
      show_precision (y_precision y) @ show_option (y_type y)) @ CHR ''}'' # t"
    by (simp add: show_spec_def)
  then have "parse_align (make_arg x) empty_spec (show_spec y @ CHR ''}'' # t) = Fine (sp1, show_option (y_sign y) @ t1)"
    using parse_align_shown [OF _ no_align_rest [OF wf], of "y_align y" x empty_spec t] wfs ad
    by (simp add: sp1_def t1_def t2_def t3_def t4_def t5_def admits_def show_spec_def [of y])
  moreover have "parse_sign (make_arg x) sp1 (show_option (y_sign y) @ t1) = Fine (sp2, t1)"
    unfolding sp2_def by (rule parse_sign_shown [OF h1 sg]) (use ad in \<open>simp add: admits_def\<close>)
  moreover have "parse_hash (make_arg x) sp2 t1 = Fine (sp3, t2)"
    unfolding sp3_def t1_def by (rule parse_hash_shown [OF h2]) (use ad in \<open>simp add: admits_def\<close>)
  moreover have "parse_zero (make_arg x) sp3 t2 = Fine (sp4, t3)"
    unfolding sp4_def t2_def by (rule parse_zero_shown [OF h3]) (use ad in \<open>simp add: admits_def\<close>)
  moreover obtain fr1 where "parse_width sp4 t3 fr = Fine (sp4\<lparr>fs_width := nat w\<rparr>, t4, fr1)" and st1: "stands fr1 xs n1"
    using parse_width_shown [OF _ h4 st w] wfs blocks(2) sg unfolding t3_def by blast
  moreover obtain fr2 where "parse_precision (make_arg x) (sp4\<lparr>fs_width := nat w\<rparr>) t4 fr1 =
      Fine (sp4\<lparr>fs_width := nat w, fs_precision := p\<rparr>, t5, fr2)" and st2: "stands fr2 xs n2"
    using parse_precision_shown [OF _ h5 st1 p, of x "sp4\<lparr>fs_width := nat w\<rparr>"] wfs ad blocks(3) sg
    unfolding t4_def by (auto simp: admits_def)
  moreover have "parse_type (sp4\<lparr>fs_width := nat w, fs_precision := p\<rparr>) t5 = (spec_of y w p, CHR ''}'' # t)"
    using parse_type_shown [of "y_type y" "sp4\<lparr>fs_width := nat w, fs_precision := p\<rparr>" t] wfs blocks(1,4) sg
    unfolding t5_def by simp
  ultimately show ?thesis by (simp add: parse_spec_def)
qed

subsection \<open>Templates\<close>

lemma format_text:
  "\<exists>lit' b'. b' @ map Some lit' = b @ map Some (lit @ s) \<and>
    format_from env lit (show_text s @ t) fr b = format_from env lit' t fr b'"
proof (induction s arbitrary: lit b)
  case Nil
  then show ?case by (auto simp: show_text_def)
next
  case (Cons c s)
  show ?case
  proof (cases "brace c")
    case True
    have "format_from env lit (show_text (c # s) @ t) fr b = format_from env [] (show_text s @ t) fr (b @ map Some (lit @ [c]))"
      using True by (auto simp: show_text_def format_from.simps(2) [of env lit c] brace_def)
    then show ?thesis using Cons.IH [of "b @ map Some (lit @ [c])" "[]"] by simp
  next
    case False
    have "format_from env lit (show_text (c # s) @ t) fr b = format_from env (lit @ [c]) (show_text s @ t) fr b"
      using False by (auto simp: show_text_def format_from.simps(2) [of env lit c] brace_def)
    then show ?thesis using Cons.IH [of b "lit @ [c]"] by simp
  qed
qed

lemma peek_ref:
  assumes "wf_ref r" and "peek t \<in> {CHR ''}'', CHR '':''}"
  shows "peek (show_ref r @ t) \<noteq> CHR ''{''"
proof (cases r)
  case (Index i)
  then show ?thesis using peek_decimal [of i t] by auto
next
  case (Named s)
  then show ?thesis using assms by (cases s) auto
qed (use assms in auto)

lemma format_open:
  assumes "wf_ref r" and "peek t \<in> {CHR ''}'', CHR '':''}" and "stands fr xs n" and "lookup_ref xs n r = Some (x, n1)"
  shows "\<exists>fr1. stands fr1 xs n1 \<and> format_from env lit (CHR ''{'' # show_ref r @ t) fr b =
    fm_bind (format_arg env t (make_arg x) fr1 (b @ map Some lit)) (\<lambda>(s, fr, b). format_from env [] s fr b)"
  using parse_ref [OF assms] peek_ref [OF assms(1,2)] by (auto simp: format_from.simps(2))

lemma format_arg_field:
  assumes "fits spec (cxx_type x)" and "not_null x"
  shows "finish_field env spec (CHR ''}'' # t) (make_arg x) fr b = Fine (t, fr, b @ map Some (arg_shown (fe_sep env) spec x))"
  by (simp add: finish_field_def visit_shown [OF assms])

lemma fits_not_custom: "fits spec t \<Longrightarrow> t \<noteq> CUSTOM"
  by (auto simp: fits_def stringy_def pointerlike_def)

lemma format_field:
  assumes "wf_piece (Field r yo)" and st: "stands fr xs n"
    and "piece_text (fe_sep env) xs n (Field r yo) = Some (s, n')"
  shows "\<exists>fr'. stands fr' xs n' \<and>
    format_from env lit (show_piece (Field r yo) @ t) fr b = format_from env [] t fr' (b @ map Some (lit @ s))"
proof (cases yo)
  case None
  then obtain x where x: "lookup_ref xs n r = Some (x, n')" and a: "arg_text (fe_sep env) empty_spec x = Some s"
    using assms(3) by (auto split: Option.bind_splits)
  obtain fr1 where "stands fr1 xs n'" "format_from env lit (CHR ''{'' # show_ref r @ CHR ''}'' # t) fr b =
      fm_bind (format_arg env (CHR ''}'' # t) (make_arg x) fr1 (b @ map Some lit)) (\<lambda>(s, fr, b). format_from env [] s fr b)"
    using format_open [OF _ _ st x, of "CHR ''}'' # t" env lit b] assms(1) None by auto
  moreover have "format_arg env (CHR ''}'' # t) (make_arg x) fr1 (b @ map Some lit) = Fine (t, fr1, b @ map Some (lit @ s))"
    using a by (auto simp: format_arg_def arg_text_def format_arg_field split: if_splits)
  ultimately show ?thesis using None by (intro exI [of _ fr1]) simp
next
  case (Some y)
  then obtain x n1 w n2 p where x: "lookup_ref xs n r = Some (x, n1)" and ad: "admits y (cxx_type x)"
    and w: "size_text xs n1 0 (y_width y) = Some (w, n2)"
    and p: "size_text xs n2 (- 1) (y_precision y) = Some (p, n')"
    and a: "arg_text (fe_sep env) (spec_of y w p) x = Some s"
    using assms(3) by (auto split: Option.bind_splits if_splits)
  let ?t = "CHR '':'' # show_spec y @ CHR ''}'' # t"
  obtain fr1 where st1: "stands fr1 xs n1" and f: "format_from env lit (CHR ''{'' # show_ref r @ ?t) fr b =
      fm_bind (format_arg env ?t (make_arg x) fr1 (b @ map Some lit)) (\<lambda>(s, fr, b). format_from env [] s fr b)"
    using format_open [OF _ _ st x, of ?t env lit b] assms(1) Some by auto
  obtain fr2 where st2: "stands fr2 xs n'"
    and ps: "parse_spec (make_arg x) (show_spec y @ CHR ''}'' # t) fr1 = Fine (spec_of y w p, CHR ''}'' # t, fr2)"
    using parse_spec_shown [OF _ ad st1 w p] assms(1) Some by auto
  have ok: "fits (spec_of y w p) (cxx_type x)" "not_null x" "s = arg_shown (fe_sep env) (spec_of y w p) x"
    using a by (auto simp: arg_text_def split: if_splits)
  have "format_arg env ?t (make_arg x) fr1 (b @ map Some lit) = Fine (t, fr2, b @ map Some (lit @ s))"
    using ps ok fits_not_custom [OF ok(1)] format_arg_field [OF ok(1,2)]
    by (cases x) (simp_all add: format_arg_def, simp_all add: make_arg_def)
  then show ?thesis using f st2 Some by (intro exI [of _ fr2]) simp
qed

lemma format_template:
  assumes "list_all wf_piece ps" and "stands fr xs n" and "template_text (fe_sep env) xs n ps = Some s"
  shows "\<exists>fr'. format_from env lit (show_template ps) fr b = Fine (fr', b @ map Some (lit @ s))"
  using assms
proof (induction ps arbitrary: lit fr b n s)
  case Nil
  then show ?case by (simp add: show_template_def)
next
  case (Cons p ps)
  then obtain s1 n1 s2 where p: "piece_text (fe_sep env) xs n p = Some (s1, n1)"
    and ps: "template_text (fe_sep env) xs n1 ps = Some s2" and s: "s = s1 @ s2"
    by (auto split: Option.bind_splits)
  show ?case
  proof (cases p)
    case (Text u)
    then have "u = s1" "n = n1" using p by auto
    then obtain lit' b' where "b' @ map Some lit' = b @ map Some (lit @ s1)"
      and "format_from env lit (show_template (p # ps)) fr b = format_from env lit' (show_template ps) fr b'"
      using format_text [of b lit u env "show_template ps" fr] Text by (auto simp: show_template_def)
    moreover obtain fr' where "format_from env lit' (show_template ps) fr b' = Fine (fr', b' @ map Some (lit' @ s2))"
      using Cons.IH [OF _ Cons.prems(2) ps [folded \<open>n = n1\<close>], of lit' b'] Cons.prems(1) by auto
    ultimately show ?thesis by (simp add: s)
  next
    case (Field r yo)
    then obtain fr1 where st1: "stands fr1 xs n1" and "format_from env lit (show_template (p # ps)) fr b =
        format_from env [] (show_template ps) fr1 (b @ map Some (lit @ s1))"
      using format_field [of r yo fr xs n env s1 n1 lit "show_template ps" b] p Cons.prems
      by (auto simp: show_template_def)
    moreover obtain fr' where "format_from env [] (show_template ps) fr1 (b @ map Some (lit @ s1)) =
        Fine (fr', (b @ map Some (lit @ s1)) @ map Some ([] @ s2))"
      using Cons.IH [OF _ st1 ps, of "[]" "b @ map Some (lit @ s1)"] Cons.prems(1) by auto
    ultimately show ?thesis by (simp add: s)
  qed
qed

text \<open>A printed template has no terminator inside.\<close>

lemma no_nul_align: "wf_align al \<Longrightarrow> CHR 0x00 \<notin> set (show_align al)"
  using align_char_not(1) by (induction al rule: wf_align.induct) (auto dest: sym)

lemma no_nul_aligned: "no_align s \<Longrightarrow> CHR 0x00 \<notin> set s"
  by (auto simp: no_align_def)

lemma no_nul_piece: "wf_piece p \<Longrightarrow> CHR 0x00 \<notin> set (show_piece p)"
proof (induction p rule: wf_piece.induct)
  case (1 s)
  then show ?case by (auto simp: show_text_def split: if_splits)
next
  case (2 r)
  then show ?case using no_nul_aligned [OF no_align_ref] by auto
next
  case (3 r y)
  then show ?case
    using no_nul_aligned [OF no_align_ref] no_nul_aligned [OF no_align_rest, of y] no_nul_align [of "y_align y"]
    by (auto simp: show_spec_def wf_spec_def)
qed

lemma c_str_template: "list_all wf_piece ps \<Longrightarrow> c_str (show_template ps) = show_template ps"
proof -
  assume "list_all wf_piece ps"
  then have "\<forall>c\<in>set (show_template ps). c \<noteq> CHR 0x00"
    using no_nul_piece by (fastforce simp: show_template_def list_all_iff)
  then show ?thesis by (simp add: c_str_def takeWhile_eq_all_conv)
qed

lemma template_means:
  assumes "list_all wf_piece ps" and "template_text (fe_sep env) xs 0 ps = Some s"
  shows "format_write env (show_template ps) (make_args xs) b = Fine (b @ map Some s)"
proof -
  have "stands (new_formatter (make_args xs)) xs 0" by (simp add: stands_def new_formatter_def)
  then obtain fr' where "format_from env [] (show_template ps) (new_formatter (make_args xs)) b =
      Fine (fr', b @ map Some ([] @ s))"
    using format_template [OF assms(1) _ assms(2)] by blast
  then show ?thesis by (simp add: format_write_def c_str_template [OF assms(1)])
qed

text \<open>
  C14: A format string means its template. Take any list of texts and replacement fields, with
  automatic, numbered or named arguments, and any fill, alignment, sign, form, zero flag, width,
  precision (each a number or an argument) and type. When the meaning of the template on the
  arguments is a text, the call of \<open>write\<close> with the printed template, parser and packed
  argument list included, appends that text: braces are unescaped, every field is the text of
  its argument, and nothing is thrown. The meaning covers integers, characters, strings, booleans
  and pointers; a floating-point or user-defined argument has none here, so a template that
  prints one is not covered.
\<close>

theorem template_meaning:
  assumes "list_all wf_piece ps" and "template_text (fe_sep env) xs 0 ps = Some s"
  shows "format_write env (show_template ps) (make_args xs) b = Fine (b @ map Some s)"
  by (rule template_means [OF assms])

text \<open>Parameters and arguments for an example.\<close>

definition sample_fmt_env :: "(unit, unit) fmt_env" where
  "sample_fmt_env = \<lparr>fe_sep = '','', fe_double = (\<lambda>_ _ b. Fine b), fe_custom = (\<lambda>_ s fr b. Fine (0, fr, b))\<rparr>"

definition plain_spec :: spec_syntax where
  "plain_spec = \<lparr>y_align = None, y_sign = None, y_hash = False, y_zero = False, y_width = No_Size,
     y_precision = No_Size, y_type = None\<rparr>"

definition sample_template :: "piece list" where
  "sample_template =
     [Text ''{'', Field Next (Some (plain_spec\<lparr>y_align := Some (Some CHR ''*'', ALIGN_CENTER), y_width := Fixed 5\<rparr>)),
      Text ''} '', Field Next (Some (plain_spec\<lparr>y_hash := True, y_type := Some CHR ''x''\<rparr>))]"

definition sample_args :: "(unit, unit) cxx list" where
  "sample_args = [cxx_char CHR ''k'', cxx_unsigned 255]"

lemma sample_template_wf: "list_all wf_piece sample_template"
  by (simp add: sample_template_def plain_spec_def wf_spec_def brace_def show_spec_def show_precision_def max_int_def
      is_name_start_def)

lemma sample_template_shown: "show_template sample_template = ''{{{:*^5}}} {:#x}''"
  by code_simp

lemma sample_template_text: "template_text '','' sample_args 0 sample_template = Some ''{**k**} 0xff''"
  by code_simp

theorem template_meaning_witness:
  "format_write sample_fmt_env ''{{{:*^5}}} {:#x}'' (make_args sample_args) [] = Fine (map Some ''{**k**} 0xff'')"
  using template_meaning [OF sample_template_wf, of sample_fmt_env sample_args "''{**k**} 0xff''" "[]"]
  by (simp add: sample_template_text sample_template_shown sample_fmt_env_def)

end
