(* ===== verification/Fmt_Types.thy ===== *)
theory Fmt_Types
  imports Fmt_Format_Properties
begin

text \<open>
  A type system for format strings: which templates accept all arguments of given types. It
  is decided on the types alone, so a call can be checked once for all its executions.
\<close>

subsection \<open>Checking\<close>

text \<open>An argument in a signature: its name, if it has one, and its type.\<close>

type_synonym arg_sig = "string option \<times> Type"

fun sig_of :: "('d, 'c) cxx \<Rightarrow> arg_sig" where
  "sig_of (cxx_named s x) = (Some s, cxx_type x)"
| "sig_of x = (None, cxx_type x)"

fun sig_ref :: "arg_sig list \<Rightarrow> int \<Rightarrow> arg_ref \<Rightarrow> (Type \<times> int) option" where
  "sig_ref ts n Next = (if 0 \<le> n \<and> nat n < length ts then Some (snd (ts ! nat n), n + 1) else None)"
| "sig_ref ts n (Index i) = (if n \<le> 0 \<and> i < length ts then Some (snd (ts ! i), - 1) else None)"
| "sig_ref ts n (Named s) = (if n \<le> 0 then do { t \<leftarrow> map_of ts (Some s); Some (t, - 1) } else None)"

text \<open>A width or precision that is an argument may be refused for its value.\<close>

fun static_size :: "int \<Rightarrow> size_ref \<Rightarrow> int option" where
  "static_size absent No_Size = Some absent"
| "static_size absent (Fixed k) = Some (int k)"
| "static_size absent (From_Arg r) = None"

fun check_piece :: "arg_sig list \<Rightarrow> int \<Rightarrow> piece \<Rightarrow> int option" where
  "check_piece ts n (Text s) = Some n"
| "check_piece ts n (Field r None) = do {
     (t, n) \<leftarrow> sig_ref ts n r;
     (if fits empty_spec t then Some n else None) }"
| "check_piece ts n (Field r (Some y)) = do {
     (t, n) \<leftarrow> sig_ref ts n r;
     width \<leftarrow> static_size 0 (y_width y);
     precision \<leftarrow> static_size (- 1) (y_precision y);
     (if admits y t \<and> fits (spec_of y width precision) t then Some n else None) }"

text \<open>The result counts the automatic arguments the template used.\<close>

fun check_template :: "arg_sig list \<Rightarrow> int \<Rightarrow> piece list \<Rightarrow> int option" where
  "check_template ts n [] = Some n"
| "check_template ts n (p # ps) = do { n \<leftarrow> check_piece ts n p; check_template ts n ps }"

subsection \<open>Soundness\<close>

lemma snd_sig_of [simp]: "snd (sig_of x) = cxx_type (plain x)"
  by (cases x) simp_all

lemma sig_named: "map_of (map sig_of xs) (Some s) = Some t \<Longrightarrow> \<exists>x. named_of xs s = Some x \<and> cxx_type x = t"
  by (induction xs s rule: named_of.induct) (auto split: if_splits)

lemma named_of_mem: "named_of xs s = Some x \<Longrightarrow> cxx_named s x \<in> set xs"
  by (induction xs s rule: named_of.induct) (auto split: if_splits)

lemma sig_ref_sound:
  assumes "sig_ref (map sig_of xs) n r = Some (t, n')" and "\<forall>x\<in>set xs. not_null (plain x)"
  shows "\<exists>x. lookup_ref xs n r = Some (x, n') \<and> cxx_type x = t \<and> not_null x"
proof (cases r)
  case (Named s)
  then have "n \<le> 0" "n' = - 1" "map_of (map sig_of xs) (Some s) = Some t"
    using assms(1) by (auto split: if_splits Option.bind_splits)
  then show ?thesis
    using sig_named [of xs s t] named_of_mem [of xs s] assms(2) Named by force
qed (use assms in \<open>auto split: if_splits\<close>)

lemma static_size_text: "static_size absent w = Some k \<Longrightarrow> size_text xs n absent w = Some (k, n)"
  by (cases w) simp_all

lemma check_piece_sound:
  assumes "check_piece (map sig_of xs) n p = Some n'" and "\<forall>x\<in>set xs. not_null (plain x)"
  shows "\<exists>s. piece_text sep xs n p = Some (s, n')"
proof (cases p)
  case (Field r yo)
  then obtain t where t: "sig_ref (map sig_of xs) n r = Some (t, n')"
    using assms(1) by (cases yo) (auto split: Option.bind_splits if_splits)
  obtain x where "lookup_ref xs n r = Some (x, n')" "cxx_type x = t" "not_null x"
    using sig_ref_sound [OF t assms(2)] by blast
  then show ?thesis
    using assms(1) Field t
    by (cases yo) (auto simp: arg_text_def static_size_text split: Option.bind_splits if_splits)
qed (use assms in simp)

lemma check_template_sound:
  assumes "check_template (map sig_of xs) n ps = Some n'" and "\<forall>x\<in>set xs. not_null (plain x)"
  shows "\<exists>s. template_text sep xs n ps = Some s"
  using assms(1)
proof (induction ps arbitrary: n)
  case (Cons p ps)
  then obtain n1 where p: "check_piece (map sig_of xs) n p = Some n1"
    and ps: "check_template (map sig_of xs) n1 ps = Some n'"
    by (auto split: Option.bind_splits)
  show ?case using check_piece_sound [OF p assms(2), of sep] Cons.IH [OF ps] by auto
qed simp

text \<open>
  C15: Well-typed calls succeed. When a template passes the check for the types of the arguments,
  formatting it with any arguments of these types, strings not null, throws nothing, overruns
  nothing and keeps what the buffer held.
\<close>

theorem well_typed_calls_succeed:
  assumes "list_all wf_piece ps" and "check_template (map sig_of xs) 0 ps = Some n"
    and "\<forall>x\<in>set xs. not_null (plain x)"
  shows "\<exists>s. format_write env (show_template ps) (make_args xs) b = Fine (b @ map Some s)"
proof -
  obtain s where "template_text (fe_sep env) xs 0 ps = Some s"
    using check_template_sound [OF assms(2,3)] by blast
  then show ?thesis using template_means [OF assms(1), of env xs s b] by blast
qed

theorem well_typed_calls_succeed_witness:
  "\<exists>s. format_write sample_fmt_env ''{{{:*^5}}} {:#x}'' (make_args sample_args) [] = Fine (map Some s)"
proof -
  have "check_template (map sig_of sample_args) 0 sample_template = Some 2" by code_simp
  moreover have "\<forall>x\<in>set sample_args. not_null (plain x)" by (simp add: sample_args_def)
  ultimately show ?thesis
    using well_typed_calls_succeed [OF sample_template_wf, of sample_args 2 sample_fmt_env "[]"]
    by (simp add: sample_template_shown)
qed

subsection \<open>A look past the closing brace\<close>

text \<open>
  The search for an alignment looks behind the field. \<open>{}\<close> and \<open>{:}\<close> both have no
  specifier, and print a character as it is. But when the text after \<open>{:}\<close> starts with an equals
  sign, the parser takes that for the alignment of the field it has just read to its end, and a
  character argument is refused.
\<close>

theorem empty_spec_reads_past_brace:
  fixes env :: "('d, 'c) fmt_env"
  assumes "\<forall>d\<in>set t. \<not> brace d \<and> d \<noteq> CHR 0x00"
  shows "format_write env (''{}='' @ t) (make_args [cxx_char c]) b = Fine (b @ map Some ([c] @ ''='' @ t))"
    and "format_write env (''{:}='' @ t) (make_args [cxx_char c]) b =
      Format_Throw ''invalid format specifier for char''"
proof -
  let ?ps = "[Field Next None, Text (CHR ''='' # t)]"
  have "concat (map (\<lambda>c. if brace c then [c, c] else [c]) t) = t"
    using assms by (induction t) auto
  then have "show_template ?ps = ''{}='' @ t"
    by (simp add: show_template_def show_text_def brace_def)
  moreover have "template_text (fe_sep env) [cxx_char c] 0 ?ps = Some ([c] @ ''='' @ t)"
    by (simp add: arg_text_def fits_def stringy_def arg_shown_def spec_layout_def text_layout_def empty_spec_def
        pad_spec_def)
  ultimately show "format_write env (''{}='' @ t) (make_args [cxx_char c]) b = Fine (b @ map Some ([c] @ ''='' @ t))"
    using template_means [of ?ps env "[cxx_char c]" "[c] @ ''='' @ t" b] assms by auto
next
  let ?x = "cxx_char c :: ('d, 'c) cxx"
  have "stands (new_formatter (make_args [?x])) [?x] 0" by (simp add: stands_def new_formatter_def)
  then obtain fr where a: "parse_arg ('':}='' @ t) (new_formatter (make_args [?x])) =
      Fine (make_arg ?x, '':}='' @ t, fr)"
    using parse_ref [of Next "'':}='' @ t" _ "[?x]" 0 ?x 1] by auto
  have s: "parse_spec (make_arg ?x) (''}='' @ t) fr = Fine (empty_spec\<lparr>fs_align := ALIGN_NUMERIC\<rparr>, ''}='' @ t, fr)"
    by (simp add: parse_spec_def parse_align_def align_of_def parse_sign_def parse_hash_def parse_zero_def
        parse_width_def parse_precision_def parse_type_def)
  have "format_arg env ('':}='' @ t) (make_arg ?x) fr b = Format_Throw ''invalid format specifier for char''"
    for b
    using s by (simp add: format_arg_def empty_spec_def pad_spec_def make_arg_def)
      (simp add: finish_field_def visit_def visit_char_def)
  moreover have "c_str (''{:}='' @ t) = ''{:}='' @ t"
    using assms by (simp add: c_str_def takeWhile_eq_all_conv)
  ultimately show "format_write env (''{:}='' @ t) (make_args [cxx_char c]) b =
      Format_Throw ''invalid format specifier for char''"
    using a by (simp add: format_write_def format_from.simps(2))
qed

end
