(* ===== verification/Log_Calls.thy ===== *)
theory Log_Calls
  imports Log_Logger Fmt_Types
begin

text \<open>
  Logging with arguments, and the default error handler, from \<^verbatim>\<open>spdlog/logger.h\<close> and
  \<^verbatim>\<open>details/logger_impl.h\<close>: a call formats its text with the format string engine, and an
  exception from the format or from a sink goes to the error handler.
\<close>

subsection \<open>Calls with arguments\<close>

text \<open>A character of the buffer that was never written has no value to read.\<close>

definition logger_log_args :: "'s sink_ops \<Rightarrow> log_os \<Rightarrow> ('d, 'c) fmt_env \<Rightarrow> int \<Rightarrow> u64 \<Rightarrow> level_enum \<Rightarrow> string \<Rightarrow>
    ('d, 'c) cxx list \<Rightarrow> logger \<Rightarrow> 's \<Rightarrow> unit io \<times> logger \<times> 's" where
  "logger_log_args K os env now thread lvl fmt args l s =
     (if \<not> should_log lvl l then (Returns (), l, s)
      else catch_errors
             (case format_write env fmt (make_args args) [] of
                Fine b \<Rightarrow>
                  (case those b of
                     Some raw \<Rightarrow> logger_sink_it K os ((new_log_msg (lg_name l) lvl now thread)\<lparr>lm_raw := raw\<rparr>) l s
                   | None \<Rightarrow> (Crashes, s))
              | Format_Throw e \<Rightarrow> (Throws (Bad_format e), s)
              | Undef \<Rightarrow> (Crashes, s))
             l)"

lemma those_map_Some [simp]: "those (map Some s) = Some s"
  by (induction s) simp_all

lemma log_args_text:
  "format_write env fmt (make_args args) [] = Fine (map Some t) \<Longrightarrow>
    logger_log_args K os env now thread lvl fmt args l s = logger_log K os now thread lvl t l s"
  by (simp add: logger_log_args_def logger_log_def)

text \<open>A call whose format fails reaches no sink, and leaves one error for the handler.\<close>

lemma log_args_refused:
  "format_write env fmt (make_args args) [] = Format_Throw e \<Longrightarrow> should_log lvl l \<Longrightarrow>
    logger_log_args K os env now thread lvl fmt args l s =
      (Returns (), l\<lparr>lg_errors := lg_errors l @ [Bad_format e]\<rparr>, s)"
  by (simp add: logger_log_args_def catch_errors_def)

subsection \<open>The default error handler\<close>

text \<open>
  \<open>es_reports\<close> is what was written to the error stream. \<open>date\<close> is the local time as text, which
  \<open>strftime\<close> makes; times are in seconds. The address of a C++ string is never null.
\<close>

record err_state =
  es_last_err_time :: int
  es_reports :: "(int \<times> string) list"

definition err_format :: string where
  "err_format = ''[*** LOG ERROR ***] [{}] [{}] [{}]{}''"

definition default_err_handler :: "('d, 'c) fmt_env \<Rightarrow> (int \<Rightarrow> string) \<Rightarrow> string \<Rightarrow> int \<Rightarrow> string \<Rightarrow> err_state \<Rightarrow>
    err_state fm" where
  "default_err_handler env date name now msg es =
     (if now - es_last_err_time es < 60 then Fine es
      else fm_bind
             (format_write env err_format
                (make_args [cxx_string 1 name, cxx_string 1 msg, cxx_c_str 1 (date now), cxx_c_str 1 default_eol]) [])
             (\<lambda>b. case those b of
                Some t \<Rightarrow> Fine (es\<lparr>es_last_err_time := now, es_reports := es_reports es @ [(now, t)]\<rparr>)
              | None \<Rightarrow> Undef))"

definition err_template :: "piece list" where
  "err_template =
     [Text ''[*** LOG ERROR ***] ['', Field Next None, Text ''] ['', Field Next None, Text ''] ['', Field Next None,
      Text '']'', Field Next None]"

definition err_text :: "string \<Rightarrow> string \<Rightarrow> string \<Rightarrow> string" where
  "err_text name msg when =
     ''[*** LOG ERROR ***] ['' @ name @ ''] ['' @ msg @ ''] ['' @ c_str when @ '']'' @ default_eol"

lemma show_err_template: "show_template err_template = err_format"
  by code_simp

lemma err_template_text:
  "template_text sep [cxx_string 1 name, cxx_string 1 msg, cxx_c_str 1 when, cxx_c_str 1 default_eol] 0 err_template =
    Some (err_text name msg when)"
  by (simp add: err_template_def err_text_def arg_text_def fits_def stringy_def arg_shown_def spec_layout_def
      text_layout_def cut_def empty_spec_def pad_spec_def default_eol_def c_str_def)

lemma err_format_write:
  "format_write env err_format
      (make_args [cxx_string 1 name, cxx_string 1 msg, cxx_c_str 1 when, cxx_c_str 1 default_eol]) [] =
    Fine (map Some (err_text name msg when))"
proof -
  have "list_all wf_piece err_template" by (simp add: err_template_def)
  from template_means [OF this err_template_text, of env name msg "when" "[]"]
  show ?thesis by (simp add: show_err_template)
qed

lemma default_err_handler_writes:
  "default_err_handler env date name now msg es =
    Fine (if now - es_last_err_time es < 60 then es
          else es\<lparr>es_last_err_time := now, es_reports := es_reports es @ [(now, err_text name msg (date now))]\<rparr>)"
  by (simp add: default_err_handler_def err_format_write)

text \<open>A sequence of errors, each with its time.\<close>

fun handle_errors :: "('d, 'c) fmt_env \<Rightarrow> (int \<Rightarrow> string) \<Rightarrow> string \<Rightarrow> (int \<times> string) list \<Rightarrow> err_state \<Rightarrow> err_state fm" where
  "handle_errors env date name [] es = Fine es"
| "handle_errors env date name ((now, msg) # xs) es =
     fm_bind (default_err_handler env date name now msg es) (handle_errors env date name xs)"

text \<open>
  Reports \<open>rs\<close> that are right for errors \<open>xs\<close>, when \<open>prev\<close> was the time of the last one: an error
  at \<open>t\<close> may be left out for a report in \<open>us\<close>, an earlier one when the errors are in order.
\<close>

definition excused :: "int list \<Rightarrow> int list \<Rightarrow> int \<Rightarrow> bool" where
  "excused us ts t = (\<exists>u\<in>set us. t < u + 60 \<and> (sorted ts \<longrightarrow> u \<le> t))"

definition spaced :: "(int \<Rightarrow> string) \<Rightarrow> string \<Rightarrow> int \<Rightarrow> (int \<times> string) list \<Rightarrow> (int \<times> string) list \<Rightarrow> bool" where
  "spaced date name prev xs rs =
     (sorted_wrt (\<lambda>t u. t + 60 \<le> u) (prev # map fst rs) \<and>
      (\<forall>(t, r)\<in>set rs. \<exists>m. (t, m) \<in> set xs \<and> r = err_text name m (date t)) \<and>
      (\<forall>(t, m)\<in>set xs. (t, err_text name m (date t)) \<in> set rs \<or>
        excused (prev # map fst rs) (prev # map fst xs) t))"

lemma excused_mono:
  "excused us ts t \<Longrightarrow> set us \<subseteq> set vs \<Longrightarrow> (sorted ss \<Longrightarrow> sorted ts) \<Longrightarrow> excused vs ss t"
  by (auto simp: excused_def)

lemma spaced_skip:
  assumes "now - prev < 60" and "spaced date name prev xs rs"
  shows "spaced date name prev ((now, msg) # xs) rs"
proof -
  have "excused (prev # map fst rs) (prev # map fst ((now, msg) # xs)) now"
    using assms(1) by (simp add: excused_def)
  moreover have "excused (prev # map fst rs) (prev # map fst ((now, msg) # xs)) t"
    if "excused (prev # map fst rs) (prev # map fst xs) t" for t
    by (rule excused_mono [OF that]) auto
  ultimately show ?thesis using assms(2) unfolding spaced_def by auto
qed

lemma spaced_report:
  assumes "\<not> now - prev < 60" and "spaced date name now xs rs"
  shows "spaced date name prev ((now, msg) # xs) ((now, err_text name msg (date now)) # rs)"
proof -
  let ?rs = "(now, err_text name msg (date now)) # rs"
  have "prev + 60 \<le> u" if "u \<in> set (now # map fst rs)" for u
    using assms that by (fastforce simp: spaced_def)
  moreover have "excused (prev # map fst ?rs) (prev # map fst ((now, msg) # xs)) t"
    if "excused (now # map fst rs) (now # map fst xs) t" for t
    by (rule excused_mono [OF that]) auto
  ultimately show ?thesis using assms(2) unfolding spaced_def by auto
qed

lemma handle_errors_spaced:
  "\<exists>rs es'. handle_errors env date name xs es = Fine es' \<and> es_reports es' = es_reports es @ rs \<and>
    spaced date name (es_last_err_time es) xs rs"
proof (induction xs arbitrary: es)
  case Nil
  then show ?case by (intro exI [of _ "[]"]) (simp add: spaced_def)
next
  case (Cons x xs)
  obtain now msg where x: "x = (now, msg)" by fastforce
  show ?case
  proof (cases "now - es_last_err_time es < 60")
    case True
    then show ?thesis
      using Cons [of es] spaced_skip [OF True] by (auto simp: x default_err_handler_writes)
  next
    case False
    let ?r = "(now, err_text name msg (date now))"
    obtain rs es' where "handle_errors env date name xs (es\<lparr>es_last_err_time := now, es_reports := es_reports es @ [?r]\<rparr>) = Fine es'"
      "es_reports es' = es_reports es @ ?r # rs" "spaced date name now xs rs"
      using Cons [of "es\<lparr>es_last_err_time := now, es_reports := es_reports es @ [?r]\<rparr>"] by auto
    then show ?thesis
      using False spaced_report [OF False]
      by (intro exI [of _ "?r # rs"] exI [of _ es']) (simp add: x default_err_handler_writes)
  qed
qed

text \<open>
  C27: Errors of a logger are reported, but not more than one a minute. Whatever errors come at
  whatever times, the default handler completes; its reports are at least 60 seconds apart, even
  when the clock is set back, and each is the text of one of the errors, with the name of the
  logger and the date. An error that is not reported comes less than 60 seconds after the time
  of a report (the last one before these errors included), which was made before it when the
  clock never goes back.
\<close>

theorem error_reports_spaced:
  "\<exists>rs es'. handle_errors env date name xs es = Fine es' \<and> es_reports es' = es_reports es @ rs \<and>
    sorted_wrt (\<lambda>t u. t + 60 \<le> u) (es_last_err_time es # map fst rs) \<and>
    (\<forall>(t, r)\<in>set rs. \<exists>m. (t, m) \<in> set xs \<and> r = err_text name m (date t)) \<and>
    (\<forall>(t, m)\<in>set xs. (t, err_text name m (date t)) \<in> set rs \<or>
      (\<exists>u\<in>set (es_last_err_time es # map fst rs). t < u + 60 \<and>
        (sorted (es_last_err_time es # map fst xs) \<longrightarrow> u \<le> t)))"
  using handle_errors_spaced [of env date name xs es] unfolding spaced_def excused_def .

theorem error_reports_spaced_witness:
  "\<exists>es'. handle_errors sample_fmt_env (\<lambda>_. ''now'') ''log'' [(100, ''a''), (130, ''b'')] \<lparr>es_last_err_time = 0, es_reports = []\<rparr> =
      Fine es' \<and> (100, err_text ''log'' ''a'' ''now'') \<in> set (es_reports es')"
proof -
  let ?xs = "[(100, ''a''), (130, ''b'')] :: (int \<times> string) list"
  obtain rs es' where h: "handle_errors sample_fmt_env (\<lambda>_. ''now'') ''log'' ?xs \<lparr>es_last_err_time = 0, es_reports = []\<rparr> = Fine es'"
    and e: "es_reports es' = rs"
    and r: "\<forall>(t, r)\<in>set rs. \<exists>m. (t, m) \<in> set ?xs \<and> r = err_text ''log'' m ''now''"
    and x: "\<forall>(t, m)\<in>set ?xs. (t, err_text ''log'' m ''now'') \<in> set rs \<or>
      (\<exists>u\<in>set (0 # map fst rs). t < u + 60 \<and> (sorted (0 # map fst ?xs) \<longrightarrow> u \<le> t))"
    using error_reports_spaced [of sample_fmt_env "\<lambda>_. ''now''" "''log''" ?xs "\<lparr>es_last_err_time = 0, es_reports = []\<rparr>"]
    by (elim exE conjE) (simp only: err_state.select_convs append_Nil)
  have "(100, err_text ''log'' ''a'' ''now'') \<in> set rs"
  proof (rule ccontr)
    assume n: "(100, err_text ''log'' ''a'' ''now'') \<notin> set rs"
    then obtain u where "u \<in> set (0 # map fst rs)" "100 < u + 60" "u \<le> 100" using x by auto
    then obtain s where "(u, s) \<in> set rs" by auto
    then show False using r n \<open>u \<le> 100\<close> by fastforce
  qed
  then show ?thesis using h e by blast
qed

end
