(* ===== verification/Fmt_Printf.thy ===== *)
theory Fmt_Printf
  imports Fmt_Format
begin

unbundle bit_operations_syntax

text \<open>
  The \<open>printf\<close> of the formatting library, \<^verbatim>\<open>spdlog/fmt/bundled/printf.h\<close>: directives that start
  with a percent sign, over the same argument lists and writing routines as \<open>Fmt_Format\<close>.
\<close>

subsection \<open>Integer arguments\<close>

text \<open>
  What a \<open>visit_any_int\<close> gets to know of its argument: whether its type is signed, its size,
  and the value. \<open>visit_ints\<close> is \<open>visit\<close> for a visitor with \<open>visit_any_int\<close> only.
\<close>

record any_int =
  ai_signed :: bool
  ai_bits :: nat
  ai_value :: int

definition visit_ints :: "(any_int \<Rightarrow> 'r fm) \<Rightarrow> 'r fm \<Rightarrow> ('d, 'c) Arg \<Rightarrow> 'r fm" where
  "visit_ints any_int unhandled arg =
     (case (arg_type arg, arg_value arg) of
        (INT_ARG, int_value v) \<Rightarrow> any_int \<lparr>ai_signed = True, ai_bits = 32, ai_value = sint v\<rparr>
      | (UINT, uint_value v) \<Rightarrow> any_int \<lparr>ai_signed = False, ai_bits = 32, ai_value = uint v\<rparr>
      | (LONG_LONG, long_long_value v) \<Rightarrow> any_int \<lparr>ai_signed = True, ai_bits = 64, ai_value = sint v\<rparr>
      | (ULONG_LONG, ulong_long_value v) \<Rightarrow> any_int \<lparr>ai_signed = False, ai_bits = 64, ai_value = uint v\<rparr>
      | (BOOL, int_value v) \<Rightarrow> any_int \<lparr>ai_signed = False, ai_bits = 8, ai_value = (if v \<noteq> 0 then 1 else 0)\<rparr>
      | (CHAR_ARG, int_value v) \<Rightarrow> any_int \<lparr>ai_signed = True, ai_bits = 32, ai_value = sint v\<rparr>
      | (t, _) \<Rightarrow> if type_code t \<le> type_code LAST_INTEGER_TYPE then Undef else unhandled)"

definition fits_in_int :: "any_int \<Rightarrow> bool" where
  "fits_in_int u =
     (if ai_signed u then - 2147483648 \<le> ai_value u \<and> ai_value u \<le> 2147483647 else ai_value u \<le> 2147483647)"

definition PrecisionHandler :: "('d, 'c) Arg \<Rightarrow> int fm" where
  "PrecisionHandler =
     visit_ints (\<lambda>u. if fits_in_int u then Fine (ai_value u) else Format_Throw ''number is too big'')
       (Format_Throw ''precision is not integer'')"

text \<open>A negative width means alignment to the left.\<close>

definition WidthHandler :: "FormatSpec \<Rightarrow> ('d, 'c) Arg \<Rightarrow> FormatSpec fm" where
  "WidthHandler spec =
     visit_ints
       (\<lambda>u. let spec = (if ai_value u < 0 then spec\<lparr>fs_align := ALIGN_LEFT\<rparr> else spec);
                width = nat \<bar>ai_value u\<bar>
            in if width > max_int then Format_Throw ''number is too big'' else Fine (spec\<lparr>fs_width := width\<rparr>))
       (Format_Throw ''width is not integer'')"

definition IsZeroInt :: "('d, 'c) Arg \<Rightarrow> bool fm" where
  "IsZeroInt = visit_ints (\<lambda>u. Fine (ai_value u = 0)) (Fine False)"

text \<open>The conversion for \<open>%s\<close>.\<close>

definition DefaultType :: "('d, 'c) Arg \<Rightarrow> char" where
  "DefaultType arg =
     (case arg_type arg of
        CHAR_ARG \<Rightarrow> CHR ''c''
      | BOOL \<Rightarrow> CHR ''s''
      | POINTER \<Rightarrow> CHR ''p''
      | INT_ARG \<Rightarrow> CHR ''d'' | UINT \<Rightarrow> CHR ''d'' | LONG_LONG \<Rightarrow> CHR ''d'' | ULONG_LONG \<Rightarrow> CHR ''d''
      | DOUBLE \<Rightarrow> CHR ''g'' | LONG_DOUBLE \<Rightarrow> CHR ''g''
      | _ \<Rightarrow> CHR ''s'')"

text \<open>
  The conversion of an integer to the type the directive names, by its size; \<open>None\<close> is \<open>void\<close>,
  the type the argument has.
\<close>

definition convert_int :: "nat option \<Rightarrow> char \<Rightarrow> any_int \<Rightarrow> ('d, 'c) Arg" where
  "convert_int target type u =
     (let is_signed = (if type = CHR ''s'' then ai_signed u else type = CHR ''d'' \<or> type = CHR ''i'');
          size = (case target of None \<Rightarrow> ai_bits u | Some n \<Rightarrow> n)
      in if size \<le> 32
         then let v = (case target of
                         None \<Rightarrow> ai_value u
                       | Some n \<Rightarrow> if is_signed then signed_take_bit (n - 1) (ai_value u) else take_bit n (ai_value u))
              in if is_signed then \<lparr>arg_value = int_value (word_of_int v), arg_type = INT_ARG\<rparr>
                 else \<lparr>arg_value = uint_value (word_of_int v), arg_type = UINT\<rparr>
         else if is_signed then \<lparr>arg_value = long_long_value (word_of_int (ai_value u)), arg_type = LONG_LONG\<rparr>
         else \<lparr>arg_value = ulong_long_value (word_of_int (take_bit (ai_bits u) (ai_value u))), arg_type = ULONG_LONG\<rparr>)"

definition ArgConverter :: "nat option \<Rightarrow> char \<Rightarrow> ('d, 'c) Arg \<Rightarrow> ('d, 'c) Arg fm" where
  "ArgConverter target type arg =
     (if type = CHR ''s'' \<and> (arg_type arg = BOOL \<or> arg_type arg = CHAR_ARG) then Fine arg
      else visit_ints (\<lambda>u. Fine (convert_int target type u)) (Fine arg) arg)"

definition CharConverter :: "('d, 'c) Arg \<Rightarrow> ('d, 'c) Arg fm" where
  "CharConverter arg =
     visit_ints (\<lambda>u. Fine \<lparr>arg_value = int_value (word_of_int (signed_take_bit 7 (ai_value u))), arg_type = CHAR_ARG\<rparr>)
       (Fine arg) arg"

subsection \<open>Formatting one argument\<close>

definition write_null_pointer :: "FormatSpec \<Rightarrow> buffer \<Rightarrow> buffer fm" where
  "write_null_pointer spec b = write_str 1 ''(nil)'' (spec\<lparr>fs_type := None\<rparr>) b"

definition printf_visit_bool :: "string \<Rightarrow> bool \<Rightarrow> FormatSpec \<Rightarrow> buffer \<Rightarrow> buffer fm" where
  "printf_visit_bool sep v spec b =
     (if fs_type spec \<noteq> Some CHR ''s'' then visit_any_int sep (False, if v then 1 else 0) spec b
      else write_str 1 (if v then ''true'' else ''false'') (spec\<lparr>fs_type := None\<rparr>) b)"

text \<open>Without a return after \<open>write_int\<close>, a type other than \<open>c\<close> shows number and character.\<close>

definition printf_visit_char :: "string \<Rightarrow> i32 \<Rightarrow> FormatSpec \<Rightarrow> buffer \<Rightarrow> buffer fm" where
  "printf_visit_char sep v spec b =
     fm_bind
       (if fs_type spec \<noteq> None \<and> fs_type spec \<noteq> Some CHR ''c'' then visit_any_int sep (signed_parts v) spec b else Fine b)
       (\<lambda>b.
          let width = fs_width spec; out = length b; ch = char_of (unat (ucast v :: byte))
          in fm_of (
            if width > 1
            then let b = grow_buffer width b
                 in if fs_align spec \<noteq> ALIGN_LEFT
                    then do {
                      b \<leftarrow> blit out (replicate (width - 1) CHR '' '') b;
                      blit (out + (width - 1)) [ch] b }
                    else do {
                      b \<leftarrow> blit (out + 1) (replicate (width - 1) CHR '' '') b;
                      blit out [ch] b }
            else blit out [ch] (grow_buffer 1 b)))"

definition printf_visit_cstring :: "string \<Rightarrow> u64 \<Rightarrow> string \<Rightarrow> FormatSpec \<Rightarrow> buffer \<Rightarrow> buffer fm" where
  "printf_visit_cstring sep ptr s spec b =
     (if ptr \<noteq> 0 then visit_cstring sep ptr s spec b
      else if fs_type spec = Some CHR ''p'' then write_null_pointer spec b
      else write_str 1 ''(null)'' spec b)"

definition printf_visit_pointer :: "string \<Rightarrow> u64 \<Rightarrow> FormatSpec \<Rightarrow> buffer \<Rightarrow> buffer fm" where
  "printf_visit_pointer sep p spec b = (if p \<noteq> 0 then visit_pointer sep p spec b else write_null_pointer spec b)"

definition printf_visit_custom :: "('d, 'c) fmt_env \<Rightarrow> 'c \<Rightarrow> buffer \<Rightarrow> buffer fm" where
  "printf_visit_custom env c b =
     fm_bind (fe_custom env c ''}'' (new_formatter (make_args [])) b) (\<lambda>(used, fr, b). Fine b)"

definition printf_visit :: "('d, 'c) fmt_env \<Rightarrow> FormatSpec \<Rightarrow> ('d, 'c) Arg \<Rightarrow> buffer \<Rightarrow> buffer fm" where
  "printf_visit env spec arg b =
     (let sep = fe_sep env
      in case (arg_type arg, arg_value arg) of
           (INT_ARG, int_value v) \<Rightarrow> visit_any_int sep (signed_parts v) spec b
         | (UINT, uint_value v) \<Rightarrow> visit_any_int sep (unsigned_parts v) spec b
         | (LONG_LONG, long_long_value v) \<Rightarrow> visit_any_int sep (signed_parts v) spec b
         | (ULONG_LONG, ulong_long_value v) \<Rightarrow> visit_any_int sep (unsigned_parts v) spec b
         | (BOOL, int_value v) \<Rightarrow> printf_visit_bool sep (v \<noteq> 0) spec b
         | (CHAR_ARG, int_value v) \<Rightarrow> printf_visit_char sep v spec b
         | (DOUBLE, double_value d) \<Rightarrow> fe_double env d spec b
         | (LONG_DOUBLE, long_double_value d) \<Rightarrow> fe_double env d spec b
         | (CSTRING, string_value p s) \<Rightarrow> printf_visit_cstring sep p s spec b
         | (STRING, string_value p s) \<Rightarrow> write_str p s spec b
         | (WSTRING, _) \<Rightarrow> Fine b
         | (POINTER, pointer p) \<Rightarrow> printf_visit_pointer sep p spec b
         | (CUSTOM, custom c) \<Rightarrow> printf_visit_custom env c b
         | _ \<Rightarrow> Undef)"

subsection \<open>Directives\<close>

fun parse_flags :: "FormatSpec \<Rightarrow> string \<Rightarrow> FormatSpec \<times> string" where
  "parse_flags spec [] = (spec, [])"
| "parse_flags spec (c # s) =
     (if c = CHR ''-'' then parse_flags (spec\<lparr>fs_align := ALIGN_LEFT\<rparr>) s
      else if c = CHR ''+'' then parse_flags (spec\<lparr>fs_flags := fs_flags spec OR (SIGN_FLAG OR PLUS_FLAG)\<rparr>) s
      else if c = CHR ''0'' then parse_flags (spec\<lparr>fs_fill := CHR ''0''\<rparr>) s
      else if c = CHR '' '' then parse_flags (spec\<lparr>fs_flags := fs_flags spec OR SIGN_FLAG\<rparr>) s
      else if c = CHR ''#'' then parse_flags (spec\<lparr>fs_flags := fs_flags spec OR HASH_FLAG\<rparr>) s
      else (spec, c # s))"

text \<open>
  \<open>PrintfFormatter::get_arg\<close>; \<open>None\<close> is the index that asks for the next argument. Index 0
  wraps to the largest unsigned number.
\<close>

definition printf_get_arg :: "string \<Rightarrow> nat option \<Rightarrow> ('d, 'c) formatter \<Rightarrow> (('d, 'c) Arg \<times> ('d, 'c) formatter) fm" where
  "printf_get_arg s arg_index fr =
     fm_bind
       (fm_of (case arg_index of
          None \<Rightarrow> next_arg fr
        | Some i \<Rightarrow> get_arg (unat (of_nat i - 1 :: u32)) fr))
       (\<lambda>(arg, error, fr).
          case error of
            Some e \<Rightarrow> Format_Throw (if peek s = CHR 0x00 then ''invalid format string'' else e)
          | None \<Rightarrow> Fine (arg, fr))"

text \<open>Flags and width, after the index or the leading zeros are known.\<close>

definition parse_flags_width :: "FormatSpec \<Rightarrow> string \<Rightarrow> ('d, 'c) formatter \<Rightarrow>
    (FormatSpec \<times> string \<times> ('d, 'c) formatter) fm" where
  "parse_flags_width spec s fr =
     (case parse_flags spec s of (spec, s) \<Rightarrow>
        if is_digit (peek s)
        then fm_bind (parse_nonnegative_int s) (\<lambda>(n, s). Fine (spec\<lparr>fs_width := n\<rparr>, s, fr))
        else if peek s = CHR ''*''
        then let s = tl s
             in fm_bind (printf_get_arg s None fr) (\<lambda>(arg, fr).
                fm_bind (WidthHandler spec arg) (\<lambda>spec. Fine (spec, s, fr)))
        else Fine (spec, s, fr))"

definition parse_header :: "FormatSpec \<Rightarrow> string \<Rightarrow> ('d, 'c) formatter \<Rightarrow>
    (nat option \<times> FormatSpec \<times> string \<times> ('d, 'c) formatter) fm" where
  "parse_header spec s fr =
     (let flags_width = (\<lambda>index spec s. fm_bind (parse_flags_width spec s fr) (\<lambda>(spec, s, fr). Fine (index, spec, s, fr)));
          c = peek s
      in if is_digit c
         then fm_bind (parse_nonnegative_int s) (\<lambda>(value, s).
              if peek s = CHR ''$'' then flags_width (Some value) spec (tl s)
              else let spec = (if c = CHR ''0'' then spec\<lparr>fs_fill := CHR ''0''\<rparr> else spec)
                   in if value \<noteq> 0 then Fine (None, spec\<lparr>fs_width := value\<rparr>, s, fr)
                      else flags_width None spec s)
         else flags_width None spec s)"

definition printf_precision :: "FormatSpec \<Rightarrow> string \<Rightarrow> ('d, 'c) formatter \<Rightarrow>
    (FormatSpec \<times> string \<times> ('d, 'c) formatter) fm" where
  "printf_precision spec s fr =
     (if peek s \<noteq> CHR ''.'' then Fine (spec, s, fr)
      else let s = tl s
           in if is_digit (peek s)
              then fm_bind (parse_nonnegative_int s) (\<lambda>(n, s). Fine (spec\<lparr>fs_precision := int n\<rparr>, s, fr))
              else if peek s = CHR ''*''
              then let s = tl s
                   in fm_bind (printf_get_arg s None fr) (\<lambda>(arg, fr).
                      fm_bind (PrecisionHandler arg) (\<lambda>n. Fine (spec\<lparr>fs_precision := n\<rparr>, s, fr)))
              else Fine (spec\<lparr>fs_precision := 0\<rparr>, s, fr))"

text \<open>What the argument changes in the specifier.\<close>

definition adjust_spec :: "FormatSpec \<Rightarrow> ('d, 'c) Arg \<Rightarrow> FormatSpec fm" where
  "adjust_spec spec arg =
     fm_bind (if spec_flag spec HASH_FLAG then IsZeroInt arg else Fine False) (\<lambda>zero.
       let spec = (if zero then spec\<lparr>fs_flags := fs_flags spec - (fs_flags spec AND HASH_FLAG)\<rparr> else spec)
       in Fine (if fs_fill spec = CHR ''0''
                then if type_code (arg_type arg) \<le> type_code LAST_NUMERIC_TYPE then spec\<lparr>fs_align := ALIGN_NUMERIC\<rparr>
                     else spec\<lparr>fs_fill := CHR '' ''\<rparr>
                else spec))"

text \<open>The length modifier; the types it names have 8, 16 or 64 bits.\<close>

definition parse_length :: "string \<Rightarrow> ('d, 'c) Arg \<Rightarrow> (('d, 'c) Arg \<times> string) fm" where
  "parse_length s arg =
     (let convert = (\<lambda>target s. fm_bind (ArgConverter target (peek s) arg) (\<lambda>arg. Fine (arg, s)));
          c = peek s; t = tl s
      in if c = CHR ''h'' then if peek t = CHR ''h'' then convert (Some 8) (tl t) else convert (Some 16) t
         else if c = CHR ''l'' then if peek t = CHR ''l'' then convert (Some 64) (tl t) else convert (Some 64) t
         else if c = CHR ''j'' \<or> c = CHR ''z'' \<or> c = CHR ''t'' then convert (Some 64) t
         else if c = CHR ''L'' then Fine (arg, t)
         else convert None s)"

definition printf_type :: "FormatSpec \<Rightarrow> string \<Rightarrow> ('d, 'c) Arg \<Rightarrow> (FormatSpec \<times> ('d, 'c) Arg \<times> string) fm" where
  "printf_type spec s arg =
     (if peek s = CHR 0x00 then Format_Throw ''invalid format string''
      else
        let type = (if peek s = CHR ''s'' then DefaultType arg else peek s);
            is_int = (type_code (arg_type arg) \<le> type_code LAST_INTEGER_TYPE);
            spec = spec\<lparr>fs_type := Some (if is_int \<and> (type = CHR ''i'' \<or> type = CHR ''u'') then CHR ''d'' else type)\<rparr>
        in fm_bind (if is_int \<and> type = CHR ''c'' then CharConverter arg else Fine arg) (\<lambda>arg. Fine (spec, arg, tl s)))"

definition printf_spec :: FormatSpec where
  "printf_spec = empty_spec\<lparr>fs_align := ALIGN_RIGHT\<rparr>"

text \<open>One directive, from behind its percent sign.\<close>

definition printf_directive :: "('d, 'c) fmt_env \<Rightarrow> string \<Rightarrow> ('d, 'c) formatter \<Rightarrow> buffer \<Rightarrow>
    (string \<times> ('d, 'c) formatter \<times> buffer) fm" where
  "printf_directive env s fr b =
     fm_bind (parse_header printf_spec s fr) (\<lambda>(index, spec, s, fr).
     fm_bind (printf_precision spec s fr) (\<lambda>(spec, s, fr).
     fm_bind (printf_get_arg s index fr) (\<lambda>(arg, fr).
     fm_bind (adjust_spec spec arg) (\<lambda>spec.
     fm_bind (parse_length s arg) (\<lambda>(arg, s).
     fm_bind (printf_type spec s arg) (\<lambda>(spec, arg, s).
     fm_bind (printf_visit env spec arg b) (\<lambda>b. Fine (s, fr, b))))))))"

subsection \<open>The loop\<close>

lemma parse_flags_length: "parse_flags spec s = (spec', s') \<Longrightarrow> length s' \<le> length s"
proof (induction spec s rule: parse_flags.induct)
  case (2 spec c s)
  then show ?case by (cases "c \<in> set ''-+0 #''") (auto split: if_splits intro: le_SucI)
qed simp

lemma parse_flags_width_length:
  assumes "parse_flags_width spec s fr = Fine (spec', s', fr')"
  shows "length s' \<le> length s"
proof -
  obtain sp t where p: "parse_flags spec s = (sp, t)" by fastforce
  have "length s' \<le> length t"
    using assms by (auto simp: parse_flags_width_def p fm_bind_Fine Let_def split: if_splits dest: parse_int_length)
  then show ?thesis using parse_flags_length [OF p] by simp
qed

lemma parse_header_length:
  assumes "parse_header spec s fr = Fine (index, spec', s', fr')"
  shows "length s' \<le> length s"
proof -
  have tl: "parse_flags_width sp (tl t) f = Fine r \<Longrightarrow> length (fst (snd r)) \<le> length t" for sp t f and r :: "_ \<times> _ \<times> ('a, 'b) formatter"
    using parse_flags_width_length [of sp "tl t" f "fst r" "fst (snd r)" "snd (snd r)"] by simp
  have same: "parse_flags_width sp t f = Fine r \<Longrightarrow> length (fst (snd r)) \<le> length t" for sp t f and r :: "_ \<times> _ \<times> ('a, 'b) formatter"
    using parse_flags_width_length [of sp t f "fst r" "fst (snd r)" "snd (snd r)"] by simp
  show ?thesis
    using assms
    by (auto simp: parse_header_def fm_bind_Fine Let_def split: if_splits
        dest!: parse_int_length tl same)
qed

lemma printf_precision_length: "printf_precision spec s fr = Fine (spec', s', fr') \<Longrightarrow> length s' \<le> length s"
  by (auto simp: printf_precision_def fm_bind_Fine Let_def split: if_splits dest: parse_int_length)

lemma parse_length_length: "parse_length s arg = Fine (arg', s') \<Longrightarrow> length s' \<le> length s"
  by (auto simp: parse_length_def fm_bind_Fine Let_def split: if_splits)

lemma printf_directive_length:
  fixes fr :: "('d, 'c) formatter"
  assumes "printf_directive env s fr b = Fine (s', fr', b')"
  shows "length s' \<le> length s"
proof -
  obtain i sp1 s1 f1 sp2 s2 f2 sp3 s4 sp5 and a a4 a5 :: "('d, 'c) Arg"
    where p: "parse_header printf_spec s fr = Fine (i, sp1, s1, f1)" "printf_precision sp1 s1 f1 = Fine (sp2, s2, f2)"
      "parse_length s2 a = Fine (a4, s4)" "printf_type sp3 s4 a4 = Fine (sp5, a5, s')"
    using assms by (auto simp: printf_directive_def fm_bind_Fine)
  have "s' = tl s4" using p(4) by (auto simp: printf_type_def fm_bind_Fine Let_def split: if_splits)
  then show ?thesis
    using parse_header_length [OF p(1)] printf_precision_length [OF p(2)] parse_length_length [OF p(3)] by simp
qed

text \<open>The loop over the format string; \<open>lit\<close> is the text not written yet.\<close>

function printf_from :: "('d, 'c) fmt_env \<Rightarrow> string \<Rightarrow> string \<Rightarrow> ('d, 'c) formatter \<Rightarrow> buffer \<Rightarrow> buffer fm" where
  "printf_from env lit [] fr b = Fine (b @ map Some lit)"
| "printf_from env lit (c # s) fr b =
     (if c \<noteq> CHR ''%'' then printf_from env (lit @ [c]) s fr b
      else if peek s = c then printf_from env [] (tl s) fr (b @ map Some (lit @ [c]))
      else fm_bind (printf_directive env s fr (b @ map Some lit)) (\<lambda>(s, fr, b). printf_from env [] s fr b))"
  by pat_completeness auto

termination
proof (relation "measure (\<lambda>(env, lit, s, fr, b). length s)", goal_cases)
  case (4 env lit c s fr b x s' y fr' b')
  then have "length s' \<le> length s" by (auto dest: printf_directive_length)
  then show ?case by simp
qed auto

declare printf_from.simps(2) [simp del]

definition printf_write :: "('d, 'c) fmt_env \<Rightarrow> string \<Rightarrow> ('d, 'c) ArgList \<Rightarrow> buffer \<Rightarrow> buffer fm" where
  "printf_write env fmt al b = printf_from env [] (c_str fmt) (new_formatter al) b"

text \<open>\<open>sprintf\<close>, and \<open>fprintf\<close> on a stream, whose text so far is \<open>os\<close>; it answers the size as an \<open>int\<close>.\<close>

definition sprintf_fmt :: "('d, 'c) fmt_env \<Rightarrow> string \<Rightarrow> ('d, 'c) ArgList \<Rightarrow> buffer fm" where
  "sprintf_fmt env fmt al = printf_write env fmt al []"

definition fprintf_os :: "('d, 'c) fmt_env \<Rightarrow> buffer \<Rightarrow> string \<Rightarrow> ('d, 'c) ArgList \<Rightarrow> (i32 \<times> buffer) fm" where
  "fprintf_os env os fmt al = fm_bind (printf_write env fmt al []) (\<lambda>b. Fine (of_nat (length b), os @ b))"

end
