(* ===== verification/Fmt_Printf_Properties.thy ===== *)
theory Fmt_Printf_Properties
  imports Fmt_Printf Fmt_Format_Properties
begin

unbundle bit_operations_syntax

text \<open>
  What \<open>printf\<close> prints: the directives as data with their printer, the text of a format
  string on the list of its arguments, and the engine against it.
\<close>

subsection \<open>Arguments\<close>

definition integer_types :: "Type set" where
  "integer_types = {INT_ARG, UINT, LONG_LONG, ULONG_LONG, BOOL, CHAR_ARG}"

definition int_of :: "('d, 'c) cxx \<Rightarrow> int" where
  "int_of x = (if fst (int_parts x) then - int (snd (int_parts x)) else int (snd (int_parts x)))"

definition any_of :: "('d, 'c) cxx \<Rightarrow> any_int" where
  "any_of x =
     \<lparr>ai_signed = (cxx_type x \<in> {INT_ARG, LONG_LONG, CHAR_ARG}),
      ai_bits = (if cxx_type x \<in> {LONG_LONG, ULONG_LONG} then 64 else if cxx_type x = BOOL then 8 else 32),
      ai_value = int_of x\<rparr>"

lemma int_of_signed: "int_parts x = signed_parts w \<Longrightarrow> int_of x = sint w"
  by (simp add: int_of_def signed_parts_int)

lemma int_of_unsigned: "int_parts x = unsigned_parts w \<Longrightarrow> int_of x = uint w"
  by (simp add: int_of_def unsigned_parts_int)

lemma visit_ints_make:
  assumes "cxx_type x \<in> integer_types"
  shows "visit_ints f u (make_arg x) = f (any_of x)"
  using assms
  by (cases x)
    (simp_all add: integer_types_def visit_ints_def make_arg_def any_of_def char_value_def sint_up uint_up
      int_of_signed int_of_unsigned, auto simp: int_of_def)

lemma visit_ints_other:
  assumes "cxx_type x \<notin> integer_types" and "cxx_type x \<noteq> NAMED_ARG"
  shows "visit_ints f u (make_arg x) = u"
  using assms
  by (cases x) (simp_all add: integer_types_def visit_ints_def make_arg_def LAST_INTEGER_TYPE_def)

text \<open>The value a directive shows: that of the type it names, which the argument's own cannot exceed.\<close>

definition signed_letter :: "char \<Rightarrow> ('d, 'c) cxx \<Rightarrow> bool" where
  "signed_letter type x = (if type = CHR ''s'' then ai_signed (any_of x) else type = CHR ''d'' \<or> type = CHR ''i'')"

definition shown_value :: "nat option \<Rightarrow> char \<Rightarrow> ('d, 'c) cxx \<Rightarrow> int" where
  "shown_value target type x =
     (let own = max 32 (ai_bits (any_of x)); size = (case target of None \<Rightarrow> own | Some n \<Rightarrow> n)
      in if signed_letter type x then signed_take_bit (size - 1) (int_of x)
         else take_bit (min size own) (int_of x))"

definition int_type_of :: "char \<Rightarrow> char" where
  "int_type_of type = (if type \<in> set ''siu'' then CHR ''d'' else type)"

lemma convert_int_value:
  fixes x :: "('d, 'c) cxx"
  assumes "target \<in> {None, Some 8, Some 16, Some 64}"
  shows "(\<exists>w. convert_int target type (any_of x) = (\<lparr>arg_value = int_value w, arg_type = INT_ARG\<rparr> :: ('d, 'c) Arg) \<and>
      signed_letter type x \<and> sint w = shown_value target type x) \<or>
    (\<exists>w. convert_int target type (any_of x) = (\<lparr>arg_value = uint_value w, arg_type = UINT\<rparr> :: ('d, 'c) Arg) \<and>
      \<not> signed_letter type x \<and> uint w = shown_value target type x) \<or>
    (\<exists>w. convert_int target type (any_of x) = (\<lparr>arg_value = long_long_value w, arg_type = LONG_LONG\<rparr> :: ('d, 'c) Arg) \<and>
      signed_letter type x \<and> sint w = shown_value target type x) \<or>
    (\<exists>w. convert_int target type (any_of x) = (\<lparr>arg_value = ulong_long_value w, arg_type = ULONG_LONG\<rparr> :: ('d, 'c) Arg) \<and>
      \<not> signed_letter type x \<and> uint w = shown_value target type x)"
proof -
  obtain k bits sg where a: "any_of x = \<lparr>ai_signed = sg, ai_bits = bits, ai_value = k\<rparr>" by (cases "any_of x") auto
  have k: "int_of x = k" and bits: "bits = 64 \<or> bits = 32 \<or> (bits = 8 \<and> cxx_type x = BOOL)"
    using a by (auto simp: any_of_def split: if_splits)
  have bool: "cxx_type x = BOOL \<Longrightarrow> k = 0 \<or> k = 1"
    unfolding k [symmetric] by (cases x) (auto simp: int_of_def)
  have sg: "(if type = CHR ''s'' then sg else type = CHR ''d'' \<or> type = CHR ''i'') = signed_letter type x"
    by (simp add: signed_letter_def a)
  have conv: "convert_int target type (any_of x) =
     ((let size = (case target of None \<Rightarrow> bits | Some n \<Rightarrow> n)
      in if size \<le> 32
         then let v = (case target of
                         None \<Rightarrow> k | Some n \<Rightarrow> if signed_letter type x then signed_take_bit (n - 1) k else take_bit n k)
              in if signed_letter type x then \<lparr>arg_value = int_value (word_of_int v), arg_type = INT_ARG\<rparr>
                 else \<lparr>arg_value = uint_value (word_of_int v), arg_type = UINT\<rparr>
         else if signed_letter type x then \<lparr>arg_value = long_long_value (word_of_int k), arg_type = LONG_LONG\<rparr>
         else \<lparr>arg_value = ulong_long_value (word_of_int (take_bit bits k)), arg_type = ULONG_LONG\<rparr>) :: ('d, 'c) Arg)"
    unfolding convert_int_def a any_int.simps sg by (simp only: Let_def)
  have val: "shown_value target type x =
     (let own = max 32 bits; size = (case target of None \<Rightarrow> own | Some n \<Rightarrow> n)
      in if signed_letter type x then signed_take_bit (size - 1) k else take_bit (min size own) k)"
    by (simp add: shown_value_def k a Let_def)
  show ?thesis
    unfolding conv val
    using assms bits bool by (cases "signed_letter type x"; elim insertE emptyE disjE)
      (auto simp: sint_sbintrunc' uint_word_of_int_eq)
qed

lemma printf_visit_int:
  fixes x :: "('d, 'c) cxx" and env :: "('d, 'c) fmt_env"
  assumes "int_type spec \<in> set int_types" and "target \<in> {None, Some 8, Some 16, Some 64}"
  shows "printf_visit env spec (convert_int target type (any_of x)) b = Fine (b @ map Some (int_shown (fe_sep env)
    (shown_value target type x < 0, nat \<bar>shown_value target type x\<bar>) spec))"
proof -
  have "\<not> signed_letter type x \<Longrightarrow> 0 \<le> shown_value target type x" by (simp add: shown_value_def Let_def)
  then show ?thesis
    using convert_int_value [OF assms(2), of type x]
    by (elim disjE exE conjE)
      (simp_all add: printf_visit_def visit_any_int_shown assms(1) signed_parts_int unsigned_parts_int Let_def)
qed

subsection \<open>The text of a directive\<close>

definition adjusted :: "FormatSpec \<Rightarrow> ('d, 'c) cxx \<Rightarrow> FormatSpec" where
  "adjusted spec x =
     (let spec = (if spec_flag spec HASH_FLAG \<and> cxx_type x \<in> integer_types \<and> int_of x = 0
                  then spec\<lparr>fs_flags := fs_flags spec - (fs_flags spec AND HASH_FLAG)\<rparr> else spec)
      in if fs_fill spec = CHR ''0''
         then if numeric (cxx_type x) then spec\<lparr>fs_align := ALIGN_NUMERIC\<rparr> else spec\<lparr>fs_fill := CHR '' ''\<rparr>
         else spec)"

lemma arg_type_make [simp]: "arg_type (make_arg x) = cxx_type x"
  by (simp add: make_arg_def)

lemma adjust_spec_make: "cxx_type x \<noteq> NAMED_ARG \<Longrightarrow> adjust_spec spec (make_arg x) = Fine (adjusted spec x)"
  by (cases "cxx_type x \<in> integer_types")
    (simp_all add: adjust_spec_def IsZeroInt_def visit_ints_make visit_ints_other adjusted_def any_of_def numeric_def Let_def)

definition char_shown :: "FormatSpec \<Rightarrow> char \<Rightarrow> string" where
  "char_shown spec c =
     text_layout (fs_width spec) CHR '' '' (if fs_align spec = ALIGN_LEFT then ALIGN_LEFT else ALIGN_RIGHT) [c]"

text \<open>\<open>None\<close>: the argument does not go with the letter.\<close>

definition directive_text :: "string \<Rightarrow> nat option \<Rightarrow> FormatSpec \<Rightarrow> char \<Rightarrow> ('d, 'c) cxx \<Rightarrow> string option" where
  "directive_text sep target spec type x =
     (let t = cxx_type x; spec = adjusted spec x; as_text = (\<lambda>s. spec_layout spec (cut spec s))
      in if t \<in> integer_types
         then if type = CHR ''s'' \<and> t = BOOL then Some (as_text (str_text x))
              else if type = CHR ''c'' \<or> (type = CHR ''s'' \<and> t = CHAR_ARG)
              then Some (char_shown spec (char_of (nat (take_bit 8 (int_of x)))))
              else if int_type_of type \<in> set int_types
              then let v = shown_value target type x
                   in Some (int_shown sep (v < 0, nat \<bar>v\<bar>) (spec\<lparr>fs_type := Some (int_type_of type)\<rparr>))
              else None
         else if t \<in> {CSTRING, STRING} \<and> type = CHR ''s''
         then if not_null x then Some (as_text (str_text x))
              else if t = CSTRING then Some (as_text ''(null)'') else None
         else if t = POINTER \<and> type \<in> set ''ps'' \<or> t = CSTRING \<and> type = CHR ''p''
         then if snd (int_parts x) = 0 then Some (as_text ''(nil)'')
              else Some (int_shown sep (int_parts x) (spec\<lparr>fs_flags := HASH_FLAG, fs_type := Some CHR ''x''\<rparr>))
         else None)"

lemma printf_visit_char_shown:
  assumes "fs_type spec = Some CHR ''c''"
  shows "printf_visit_char sep v spec b = Fine (b @ map Some (char_shown spec (char_of (unat (ucast v :: byte)))))"
proof (cases "fs_width spec > 1")
  case True
  define pad where "pad = fs_width spec - 1"
  then have "fs_width spec = Suc pad" using True by simp
  then show ?thesis
    by (simp add: assms printf_visit_char_def char_shown_def text_layout_def grow_buffer_def blit_def Let_def)
qed (simp add: assms printf_visit_char_def char_shown_def text_layout_def grow_buffer_def blit_def Let_def)

lemma low_byte: "unat (ucast (word_of_int (signed_take_bit 7 k) :: i32) :: byte) = nat (take_bit 8 k)"
proof -
  have "(ucast (word_of_int (signed_take_bit 7 k) :: i32) :: byte) = word_of_int k"
    by (rule bit_word_eqI) (auto simp: bit_simps min_def le_less Suc_le_eq)
  then show ?thesis by (simp add: unat_eq_nat_uint uint_word_of_int_eq)
qed

lemma CharConverter_make:
  assumes "cxx_type x \<in> integer_types"
  shows "CharConverter (make_arg x) =
    Fine \<lparr>arg_value = int_value (word_of_int (signed_take_bit 7 (int_of x))), arg_type = CHAR_ARG\<rparr>"
  using assms by (simp add: CharConverter_def visit_ints_make any_of_def)

lemma CharConverter_converted:
  fixes x :: "('d, 'c) cxx"
  assumes "target \<in> {None, Some 8, Some 16, Some 64}" and "type = CHR ''c''"
  shows "CharConverter (convert_int target type (any_of x) :: ('d, 'c) Arg) =
    Fine \<lparr>arg_value = int_value (word_of_int (signed_take_bit 7 (int_of x))), arg_type = CHAR_ARG\<rparr>"
proof -
  have s: "\<not> signed_letter type x" by (simp add: signed_letter_def assms(2))
  have "8 \<le> min (case target of None \<Rightarrow> max 32 (ai_bits (any_of x)) | Some n \<Rightarrow> n) (max 32 (ai_bits (any_of x)))"
    using assms(1) by auto
  then have "signed_take_bit 7 (shown_value target type x) = signed_take_bit 7 (int_of x)"
    by (simp add: shown_value_def s Let_def) (rule bit_eqI; auto simp: bit_simps min_def)
  then show ?thesis
    using convert_int_value [OF assms(1), of type x] s
    by (auto simp: CharConverter_def visit_ints_def)
qed

definition length_modifiers :: "string list" where
  "length_modifiers = ['''', ''h'', ''hh'', ''l'', ''ll'', ''j'', ''z'', ''t'']"

definition length_target :: "string \<Rightarrow> nat option" where
  "length_target len = (if len = '''' then None else if len = ''hh'' then Some 8 else if len = ''h'' then Some 16 else Some 64)"

definition type_letter :: "char \<Rightarrow> bool" where
  "type_letter c = (is_name_start c \<and> c \<notin> set ''hlLjzt'')"

lemma parse_length_shown:
  assumes "len \<in> set length_modifiers" and "type_letter type"
  shows "parse_length (len @ type # rest) arg =
    fm_bind (ArgConverter (length_target len) type arg) (\<lambda>arg. Fine (arg, type # rest))"
proof -
  have t: "type \<noteq> CHR ''h''" "type \<noteq> CHR ''l''" "type \<noteq> CHR ''L''" "type \<noteq> CHR ''j''" "type \<noteq> CHR ''z''" "type \<noteq> CHR ''t''"
    using assms(2) by (simp_all add: type_letter_def)
  have "len = '''' \<or> len = ''h'' \<or> len = ''hh'' \<or> len = ''l'' \<or> len = ''ll'' \<or> len = ''j'' \<or> len = ''z'' \<or> len = ''t''"
    using assms(1) by (simp add: length_modifiers_def)
  then show ?thesis by (elim disjE) (simp_all add: parse_length_def length_target_def Let_def t)
qed

lemma length_target_cases: "len \<in> set length_modifiers \<Longrightarrow> length_target len \<in> {None, Some 8, Some 16, Some 64}"
  by (auto simp: length_modifiers_def length_target_def)

lemma ArgConverter_make:
  fixes x :: "('d, 'c) cxx"
  assumes "cxx_type x \<noteq> NAMED_ARG"
  shows "ArgConverter target type (make_arg x) =
    Fine (if cxx_type x \<in> integer_types \<and> \<not> (type = CHR ''s'' \<and> cxx_type x \<in> {BOOL, CHAR_ARG})
          then convert_int target type (any_of x) else make_arg x)"
  using assms by (cases "cxx_type x \<in> integer_types") (auto simp: ArgConverter_def visit_ints_make visit_ints_other)

lemma converted_type:
  fixes x :: "('d, 'c) cxx"
  shows "arg_type (convert_int target type (any_of x) :: ('d, 'c) Arg) \<in> {INT_ARG, UINT, LONG_LONG, ULONG_LONG}"
  by (simp add: convert_int_def Let_def)

text \<open>From the argument to the output, behind the length modifier.\<close>

definition finish_directive :: "('d, 'c) fmt_env \<Rightarrow> FormatSpec \<Rightarrow> string \<Rightarrow> ('d, 'c) Arg \<Rightarrow> buffer \<Rightarrow>
    (string \<times> buffer) fm" where
  "finish_directive env spec s arg b =
     fm_bind (printf_type spec s arg) (\<lambda>(spec, arg, s). fm_bind (printf_visit env spec arg b) (\<lambda>b. Fine (s, b)))"

lemma finish_number:
  fixes x :: "('d, 'c) cxx" and env :: "('d, 'c) fmt_env"
  assumes "int_type_of type \<in> set int_types" and "target \<in> {None, Some 8, Some 16, Some 64}"
  shows "finish_directive env spec (type # rest) (convert_int target type (any_of x)) b =
    Fine (rest, b @ map Some (int_shown (fe_sep env) (shown_value target type x < 0, nat \<bar>shown_value target type x\<bar>)
      (spec\<lparr>fs_type := Some (int_type_of type)\<rparr>)))"
proof -
  let ?a = "convert_int target type (any_of x) :: ('d, 'c) Arg" and ?t = "int_type_of type"
  have t: "?t \<noteq> CHR ''c''" "type \<noteq> CHR 0x00" "type \<noteq> CHR ''c''"
    using assms(1) by (auto simp: int_types_def int_type_of_def split: if_splits)
  have d: "DefaultType (convert_int target ty (any_of x) :: ('d, 'c) Arg) = CHR ''d''"
    and i: "type_code (arg_type (convert_int target ty (any_of x) :: ('d, 'c) Arg)) \<le> type_code LAST_INTEGER_TYPE" for ty
    using converted_type [of target ty x] by (auto simp: DefaultType_def LAST_INTEGER_TYPE_def)
  have "printf_type spec (type # rest) ?a = Fine (spec\<lparr>fs_type := Some ?t\<rparr>, ?a, rest)"
    using t i by (simp add: printf_type_def d int_type_of_def Let_def)
  moreover have it: "int_type (spec\<lparr>fs_type := Some ?t\<rparr>) \<in> set int_types" using assms(1) by (simp add: int_type_def)
  ultimately show ?thesis by (simp add: finish_directive_def printf_visit_int [OF it assms(2)])
qed

lemma finish_char:
  fixes arg :: "('d, 'c) Arg" and x :: "('d, 'c) cxx"
  assumes "type_code (arg_type arg) \<le> type_code LAST_INTEGER_TYPE"
    and "type = CHR ''c'' \<or> (type = CHR ''s'' \<and> arg_type arg = CHAR_ARG)"
    and "CharConverter arg =
      Fine \<lparr>arg_value = int_value (word_of_int (signed_take_bit 7 (int_of x))), arg_type = CHAR_ARG\<rparr>"
  shows "finish_directive env spec (type # rest) arg b =
    Fine (rest, b @ map Some (char_shown spec (char_of (nat (take_bit 8 (int_of x))))))"
proof -
  have "char_shown (spec\<lparr>fs_type := t\<rparr>) c = char_shown spec c" for t c by (simp add: char_shown_def)
  then show ?thesis
    using assms
    by (auto simp: finish_directive_def printf_type_def DefaultType_def printf_visit_def printf_visit_char_shown low_byte Let_def)
qed

lemma spec_text_type [simp]: "spec_layout (spec\<lparr>fs_type := t\<rparr>) s = spec_layout spec s" "cut (spec\<lparr>fs_type := t\<rparr>) s = cut spec s"
  by (simp_all add: spec_layout_def cut_def)

lemma finish_bool:
  "finish_directive env spec (CHR ''s'' # rest) (make_arg (cxx_bool v)) b =
    Fine (rest, b @ map Some (spec_layout spec (cut spec (if v then ''true'' else ''false''))))"
  by (simp add: finish_directive_def printf_type_def DefaultType_def printf_visit_def printf_visit_bool_def
      make_arg_def write_str_layout Let_def)

lemma finish_string:
  assumes "cxx_type x \<in> {CSTRING, STRING}" and "not_null x \<or> cxx_type x = CSTRING"
  shows "finish_directive env spec (CHR ''s'' # rest) (make_arg x) b =
    Fine (rest, b @ map Some (spec_layout spec (cut spec (if not_null x then str_text x else ''(null)''))))"
  using assms
  by (cases x) (simp_all add: finish_directive_def printf_type_def DefaultType_def printf_visit_def printf_visit_cstring_def
      visit_cstring_def make_arg_def write_str_layout c_str_def LAST_INTEGER_TYPE_def Let_def)

lemma finish_pointer:
  assumes "cxx_type x = POINTER \<and> type \<in> set ''ps'' \<or> cxx_type x = CSTRING \<and> type = CHR ''p''"
  shows "finish_directive env spec (type # rest) (make_arg x) b = Fine (rest, b @ map Some
    (if snd (int_parts x) = 0 then spec_layout spec (cut spec ''(nil)'')
     else int_shown (fe_sep env) (int_parts x) (spec\<lparr>fs_flags := HASH_FLAG, fs_type := Some CHR ''x''\<rparr>)))"
  using assms
  by (cases x) (auto simp: finish_directive_def printf_type_def DefaultType_def printf_visit_def printf_visit_cstring_def
      printf_visit_pointer_def visit_cstring_def visit_pointer_def visit_pointer_shown write_null_pointer_def make_arg_def
      write_str_layout unsigned_parts_def unat_eq_zero LAST_INTEGER_TYPE_def Let_def)

lemma directive_end:
  fixes x :: "('d, 'c) cxx" and env :: "('d, 'c) fmt_env"
  assumes "directive_text (fe_sep env) (length_target len) spec type x = Some t"
    and "len \<in> set length_modifiers" and "type_letter type" and "cxx_type x \<noteq> NAMED_ARG"
  shows "fm_bind (parse_length (len @ type # rest) (make_arg x)) (\<lambda>(arg, s). finish_directive env (adjusted spec x) s arg b) =
    Fine (rest, b @ map Some t)"
proof -
  let ?sp = "adjusted spec x" and ?k = "length_target len"
  note shown = assms(1) [unfolded directive_text_def Let_def]
  note k = length_target_cases [OF assms(2)]
  have conv: "fm_bind (parse_length (len @ type # rest) (make_arg x)) (\<lambda>(arg, s). finish_directive env ?sp s arg b) =
      finish_directive env ?sp (type # rest)
        (if cxx_type x \<in> integer_types \<and> \<not> (type = CHR ''s'' \<and> cxx_type x \<in> {BOOL, CHAR_ARG})
         then convert_int ?k type (any_of x) else make_arg x) b"
    by (simp add: parse_length_shown assms(2,3) ArgConverter_make [OF assms(4)])
  show ?thesis
  proof (cases "cxx_type x \<in> integer_types")
    case True
    consider (bool) "type = CHR ''s''" "cxx_type x = BOOL" | (own) "type = CHR ''s''" "cxx_type x = CHAR_ARG"
      | (char) "type = CHR ''c''" | (num) "type \<noteq> CHR ''c''" "\<not> (type = CHR ''s'' \<and> cxx_type x \<in> {BOOL, CHAR_ARG})"
      by auto
    then show ?thesis
    proof cases
      case bool
      then obtain v where x: "x = cxx_bool v" by (cases x) auto
      show ?thesis unfolding conv using True bool shown by (simp add: x finish_bool)
    next
      case own
      show ?thesis
        unfolding conv
        using own True shown finish_char [of "make_arg x" type x env ?sp rest b] CharConverter_make [OF True]
        by (simp add: LAST_INTEGER_TYPE_def)
    next
      case char
      show ?thesis
        unfolding conv
        using char True shown finish_char [of "convert_int ?k type (any_of x)" type x env ?sp rest b]
          CharConverter_converted [OF k char, of x] converted_type [of ?k type x]
        by (auto simp: LAST_INTEGER_TYPE_def)
    next
      case num
      then have it: "int_type_of type \<in> set int_types" using True shown by (auto split: if_splits)
      show ?thesis
        unfolding conv using it num True shown finish_number [OF it k, of env ?sp rest x b] by (auto simp: Let_def)
    qed
  next
    case False
    then show ?thesis
      unfolding conv
      using shown finish_string [of x env ?sp rest b] finish_pointer [of x type env ?sp rest b]
      by (auto split: if_splits)
  qed
qed

subsection \<open>The syntax of directives\<close>

datatype pf_size = No_Num | Num nat | Star

record pf_directive =
  pd_index :: "nat option"
  pd_flags :: string
  pd_width :: pf_size
  pd_precision :: pf_size
  pd_length :: string
  pd_type :: char

datatype pf_piece = Plain string | Directive pf_directive

fun show_num :: "pf_size \<Rightarrow> string" where
  "show_num No_Num = ''''"
| "show_num (Num n) = decimal n"
| "show_num Star = ''*''"

definition show_directive :: "pf_directive \<Rightarrow> string" where
  "show_directive d =
     (case pd_index d of None \<Rightarrow> '''' | Some i \<Rightarrow> decimal i @ ''$'') @ pd_flags d @ show_num (pd_width d) @
     (if pd_precision d = No_Num then '''' else CHR ''.'' # show_num (pd_precision d)) @ pd_length d @ [pd_type d]"

fun show_pf :: "pf_piece \<Rightarrow> string" where
  "show_pf (Plain s) = concat (map (\<lambda>c. if c = CHR ''%'' then [c, c] else [c]) s)"
| "show_pf (Directive d) = CHR ''%'' # show_directive d"

definition show_printf :: "pf_piece list \<Rightarrow> string" where
  "show_printf ps = concat (map show_pf ps)"

text \<open>Indices start at 1, a width is not written as 0, and letters and lengths are known.\<close>

fun wf_num :: "pf_size \<Rightarrow> bool" where
  "wf_num (Num n) = (n \<le> max_int)"
| "wf_num w = True"

fun wf_pf :: "pf_piece \<Rightarrow> bool" where
  "wf_pf (Plain s) = (CHR 0x00 \<notin> set s)"
| "wf_pf (Directive d) =
     ((case pd_index d of None \<Rightarrow> True | Some i \<Rightarrow> 0 < i \<and> i \<le> max_int) \<and> set (pd_flags d) \<subseteq> set ''-+0 #'' \<and>
      wf_num (pd_width d) \<and> pd_width d \<noteq> Num 0 \<and> wf_num (pd_precision d) \<and>
      pd_length d \<in> set length_modifiers \<and> type_letter (pd_type d))"

subsection \<open>The text of a format string\<close>

fun add_flag :: "FormatSpec \<Rightarrow> char \<Rightarrow> FormatSpec" where
  "add_flag spec c =
     (if c = CHR ''-'' then spec\<lparr>fs_align := ALIGN_LEFT\<rparr>
      else if c = CHR ''+'' then spec\<lparr>fs_flags := fs_flags spec OR (SIGN_FLAG OR PLUS_FLAG)\<rparr>
      else if c = CHR ''0'' then spec\<lparr>fs_fill := CHR ''0''\<rparr>
      else if c = CHR '' '' then spec\<lparr>fs_flags := fs_flags spec OR SIGN_FLAG\<rparr>
      else spec\<lparr>fs_flags := fs_flags spec OR HASH_FLAG\<rparr>)"

text \<open>A size from an argument: an integer within the range of an \<open>int\<close>.\<close>

definition star_value :: "('d, 'c) cxx list \<Rightarrow> int \<Rightarrow> (int \<times> int) option" where
  "star_value xs n = do {
     (x, n) \<leftarrow> lookup_ref xs n Next;
     (if cxx_type x \<in> integer_types \<and> \<bar>int_of x\<bar> \<le> int max_int then Some (int_of x, n) else None) }"

fun width_text :: "('d, 'c) cxx list \<Rightarrow> int \<Rightarrow> FormatSpec \<Rightarrow> pf_size \<Rightarrow> (FormatSpec \<times> int) option" where
  "width_text xs n spec No_Num = Some (spec, n)"
| "width_text xs n spec (Num k) = Some (spec\<lparr>fs_width := k\<rparr>, n)"
| "width_text xs n spec Star = do {
     (k, n) \<leftarrow> star_value xs n;
     Some ((if k < 0 then spec\<lparr>fs_align := ALIGN_LEFT\<rparr> else spec)\<lparr>fs_width := nat \<bar>k\<bar>\<rparr>, n) }"

fun precision_text :: "('d, 'c) cxx list \<Rightarrow> int \<Rightarrow> FormatSpec \<Rightarrow> pf_size \<Rightarrow> (FormatSpec \<times> int) option" where
  "precision_text xs n spec No_Num = Some (spec, n)"
| "precision_text xs n spec (Num k) = Some (spec\<lparr>fs_precision := int k\<rparr>, n)"
| "precision_text xs n spec Star = do { (k, n) \<leftarrow> star_value xs n; Some (spec\<lparr>fs_precision := k\<rparr>, n) }"

fun pf_text :: "string \<Rightarrow> ('d, 'c) cxx list \<Rightarrow> int \<Rightarrow> pf_piece \<Rightarrow> (string \<times> int) option" where
  "pf_text sep xs n (Plain s) = Some (s, n)"
| "pf_text sep xs n (Directive d) = do {
     (spec, n) \<leftarrow> width_text xs n (foldl add_flag printf_spec (pd_flags d)) (pd_width d);
     (spec, n) \<leftarrow> precision_text xs n spec (pd_precision d);
     (x, n) \<leftarrow> lookup_ref xs n (case pd_index d of None \<Rightarrow> Next | Some i \<Rightarrow> Index (i - 1));
     t \<leftarrow> directive_text sep (length_target (pd_length d)) spec (pd_type d) x;
     Some (t, n) }"

fun printf_text :: "string \<Rightarrow> ('d, 'c) cxx list \<Rightarrow> int \<Rightarrow> pf_piece list \<Rightarrow> string option" where
  "printf_text sep xs n [] = Some ''''"
| "printf_text sep xs n (p # ps) = do {
     (s, n) \<leftarrow> pf_text sep xs n p;
     t \<leftarrow> printf_text sep xs n ps;
     Some (s @ t) }"

subsection \<open>Parsing directives\<close>

lemma parse_flags_shown:
  assumes "set flags \<subseteq> set ''-+0 #''" and "peek t \<notin> set ''-+0 #''"
  shows "parse_flags spec (flags @ t) = (foldl add_flag spec flags, t)"
  using assms(1)
proof (induction flags arbitrary: spec)
  case Nil
  then show ?case using assms(2) by (cases t) auto
next
  case (Cons c flags)
  then have "parse_flags spec ((c # flags) @ t) = parse_flags (add_flag spec c) (flags @ t)" by auto
  then show ?case using Cons by simp
qed

lemma printf_get_arg_next:
  assumes "stands fr xs n" and "lookup_ref xs n Next = Some (x, n')"
  shows "\<exists>fr'. printf_get_arg s None fr = Fine (make_arg x, fr') \<and> stands fr' xs n'"
  using next_arg_stands [OF assms] by (auto simp: printf_get_arg_def)

lemma printf_get_arg_index:
  assumes "stands fr xs n" and "lookup_ref xs n (Index (i - 1)) = Some (x, n')" and "0 < i" and "i \<le> max_int"
  shows "\<exists>fr'. printf_get_arg s (Some i) fr = Fine (make_arg x, fr') \<and> stands fr' xs n'"
proof -
  have "unat (of_nat i - 1 :: u32) = i - 1"
  proof -
    have i: "unat (of_nat i :: u32) = i" using assms(4) by (simp add: unat_of_nat take_bit_nat_eq_self max_int_def)
    then have "(of_nat i :: u32) \<noteq> 0" using assms(3) by auto
    then show ?thesis using i by (simp add: unat_minus_one)
  qed
  then show ?thesis using get_arg_stands [OF assms(1,2)] by (auto simp: printf_get_arg_def)
qed

lemma integer_not_named: "cxx_type x \<in> integer_types \<Longrightarrow> cxx_type x \<noteq> NAMED_ARG"
  by (auto simp: integer_types_def)

lemma star_argument:
  assumes "stands fr xs n" and "star_value xs n = Some (k, n')"
  shows "\<exists>x fr'. printf_get_arg s None fr = Fine (make_arg x, fr') \<and> stands fr' xs n' \<and>
    cxx_type x \<in> integer_types \<and> k = int_of x \<and> \<bar>k\<bar> \<le> int max_int"
  using assms(2) printf_get_arg_next [OF assms(1)]
  by (fastforce simp: star_value_def split: Option.bind_splits if_splits)

lemma parse_flags_width_shown:
  assumes "set flags \<subseteq> set ''-+0 #''" and "wf_num w" and "w \<noteq> Num 0" and "after_width (peek t)" and "stands fr xs n"
    and "width_text xs n (foldl add_flag spec flags) w = Some (spec', n')"
  shows "\<exists>fr'. parse_flags_width spec (flags @ show_num w @ t) fr = Fine (spec', t, fr') \<and> stands fr' xs n'"
proof -
  let ?s = "show_num w @ t" and ?sp = "foldl add_flag spec flags"
  have t: "\<not> is_digit (peek t)" "peek t \<noteq> CHR ''*''" "peek t \<notin> set ''-+0 #''"
    using after_classes(2) [OF assms(4)] assms(4) letter_classes [of "peek t"]
    by (auto simp: after_width_def after_precision_def is_name_start_def)
  have "peek ?s \<notin> set ''-+0 #''"
  proof (cases w)
    case (Num m)
    then show ?thesis
      using peek_decimal [of m t] peek_decimal_pos [of m t] assms(3) digit_classes(4) [of "peek (decimal m @ t)"] by auto
  qed (use t in auto)
  then have f: "parse_flags spec (flags @ ?s) = (?sp, ?s)" by (rule parse_flags_shown [OF assms(1)])
  show ?thesis
  proof (cases w)
    case No_Num
    then show ?thesis using assms(5,6) t f by (simp add: parse_flags_width_def)
  next
    case (Num m)
    then show ?thesis
      using assms(2,5,6) t f peek_decimal [of m t] parse_int_decimal [of m t] by (simp add: parse_flags_width_def)
  next
    case Star
    then obtain k where k: "star_value xs n = Some (k, n')"
      "spec' = (if k < 0 then ?sp\<lparr>fs_align := ALIGN_LEFT\<rparr> else ?sp)\<lparr>fs_width := nat \<bar>k\<bar>\<rparr>"
      using assms(6) by (auto split: Option.bind_splits)
    obtain x fr' where x: "printf_get_arg t None fr = Fine (make_arg x, fr')" "stands fr' xs n'"
      "cxx_type x \<in> integer_types" "k = int_of x" "\<bar>k\<bar> \<le> int max_int"
      using star_argument [OF assms(5) k(1)] by blast
    have "WidthHandler ?sp (make_arg x) = Fine spec'"
      using x(3-5) by (auto simp: WidthHandler_def visit_ints_make any_of_def k(2) Let_def)
    then show ?thesis using Star x f by (simp add: parse_flags_width_def is_digit_def)
  qed
qed

text \<open>A leading zero is read as part of a number, and is a flag all the same.\<close>

lemma leading_zeros:
  obtains k fs where "flags = replicate k CHR ''0'' @ fs" and "fs = [] \<or> hd fs \<noteq> CHR ''0''"
proof
  let ?k = "length (takeWhile (\<lambda>c. c = CHR ''0'') flags)"
  have "takeWhile (\<lambda>c. c = CHR ''0'') flags = replicate ?k CHR ''0''"
    by (induction flags) auto
  then show "flags = replicate ?k CHR ''0'' @ dropWhile (\<lambda>c. c = CHR ''0'') flags"
    by (metis takeWhile_dropWhile_id)
  show "dropWhile (\<lambda>c. c = CHR ''0'') flags = [] \<or> hd (dropWhile (\<lambda>c. c = CHR ''0'') flags) \<noteq> CHR ''0''"
    by (metis (mono_tags) hd_dropWhile)
qed

lemma read_zeros: "read_decimal (replicate k CHR ''0'') = 0"
  unfolding read_decimal_foldl [symmetric] by (induction k) simp_all

lemma parse_zeros:
  "\<not> is_digit (peek t) \<Longrightarrow> parse_nonnegative_int (replicate k CHR ''0'' @ t) = Fine (0, t)"
  "m \<le> max_int \<Longrightarrow> \<not> is_digit (peek t) \<Longrightarrow> parse_nonnegative_int (replicate k CHR ''0'' @ decimal m @ t) = Fine (m, t)"
proof -
  let ?z = "replicate k CHR ''0''"
  have z: "c \<in> set ?z \<Longrightarrow> is_digit c" for c by (simp split: if_splits)
  show "parse_nonnegative_int (?z @ t) = Fine (0, t)" if t: "\<not> is_digit (peek t)"
    using parse_digits_all [of ?z t 0, OF z t] by (simp add: parse_nonnegative_int_def read_zeros read_decimal_foldl)
  show "parse_nonnegative_int (?z @ decimal m @ t) = Fine (m, t)" if m: "m \<le> max_int" and t: "\<not> is_digit (peek t)"
  proof -
    have d: "c \<in> set (?z @ decimal m) \<Longrightarrow> is_digit c" for c using z is_digit_decimal by auto
    have v: "foldl (\<lambda>v c. v * 10 + (of_char c - 48)) 0 (?z @ decimal m) = m"
      by (simp add: read_zeros read_decimal_foldl read_decimal_decimal)
    show ?thesis
      using parse_digits_all [of "?z @ decimal m" t 0, OF d t] m unfolding v by (simp add: parse_nonnegative_int_def)
  qed
qed

lemma fold_zeros: "0 < k \<Longrightarrow> foldl add_flag spec (replicate k CHR ''0'') = spec\<lparr>fs_fill := CHR ''0''\<rparr>"
proof (induction k arbitrary: spec)
  case (Suc k)
  then show ?case by (cases k) auto
qed simp

lemma parse_header_shown:
  assumes "set flags \<subseteq> set ''-+0 #''" and "wf_num w" and "w \<noteq> Num 0" and "after_width (peek t)" and "stands fr xs n"
    and "width_text xs n (foldl add_flag spec flags) w = Some (spec', n')"
    and "case index of None \<Rightarrow> True | Some i \<Rightarrow> 0 < i \<and> i \<le> max_int"
  shows "\<exists>fr'. parse_header spec ((case index of None \<Rightarrow> '''' | Some i \<Rightarrow> decimal i @ ''$'') @ flags @ show_num w @ t) fr =
    Fine (index, spec', t, fr') \<and> stands fr' xs n'"
proof -
  have t: "\<not> is_digit (peek t)" "peek t \<noteq> CHR ''$''"
    using after_classes(2) [OF assms(4)] assms(4)
    by (auto simp: after_width_def after_precision_def is_name_start_def)
  obtain fr' where parsed: "parse_flags_width spec (flags @ show_num w @ t) fr = Fine (spec', t, fr')" "stands fr' xs n'"
    using parse_flags_width_shown [OF assms(1-6)] by blast
  show ?thesis
  proof (cases index)
    case (Some i)
    have "\<not> is_digit CHR ''$''" by (simp add: is_digit_def)
    then have "parse_nonnegative_int (decimal i @ CHR ''$'' # flags @ show_num w @ t) = Fine (i, CHR ''$'' # flags @ show_num w @ t)"
      using assms(7) Some by (intro parse_int_decimal) simp_all
    then show ?thesis
      using Some parsed peek_decimal [of i "CHR ''$'' # flags @ show_num w @ t"] by (simp add: parse_header_def)
  next
    case None
    obtain k fs where fs: "flags = replicate k CHR ''0'' @ fs" "fs = [] \<or> hd fs \<noteq> CHR ''0''"
      by (rule leading_zeros)
    have special: "\<not> is_digit CHR ''*''" by (simp add: is_digit_def)
    consider (other) f fs' where "fs = f # fs'" | (num) m where "fs = []" "w = Num m" | (rest) "fs = []" "\<nexists>m. w = Num m"
      by (cases fs; cases w) auto
    then show ?thesis
    proof cases
      case other
      then have f: "f \<in> set ''-+ #''" using fs assms(1) by auto
      then have nd: "\<not> is_digit f" "f \<noteq> CHR ''$''" by (auto simp: is_digit_def)
      show ?thesis
      proof (cases k)
        case 0
        then show ?thesis using None parsed fs other nd by (simp add: parse_header_def)
      next
        case (Suc j)
        have "foldl add_flag spec flags = foldl add_flag (spec\<lparr>fs_fill := CHR ''0''\<rparr>) fs"
          using Suc fold_zeros [of k spec] by (simp add: fs(1))
        then obtain fr2 where "parse_flags_width (spec\<lparr>fs_fill := CHR ''0''\<rparr>) (fs @ show_num w @ t) fr = Fine (spec', t, fr2)"
            "stands fr2 xs n'"
          using parse_flags_width_shown [of fs w t fr xs n "spec\<lparr>fs_fill := CHR ''0''\<rparr>" spec' n'] assms fs(1) by auto
        moreover have "parse_nonnegative_int (flags @ show_num w @ t) = Fine (0, fs @ show_num w @ t)"
          using parse_zeros(1) [of "fs @ show_num w @ t" k] nd other by (simp add: fs(1))
        moreover have "peek (flags @ show_num w @ t) = CHR ''0''" using Suc by (simp add: fs(1))
        ultimately show ?thesis using None other nd by (simp add: parse_header_def)
      qed
    next
      case num
      then have m: "0 < m" "m \<le> max_int" using assms(2,3) by auto
      have "parse_nonnegative_int (flags @ show_num w @ t) = Fine (m, t)"
        using parse_zeros(2) [OF m(2) t(1), of k] num by (simp add: fs(1))
      moreover have "is_digit (peek (flags @ show_num w @ t))"
        using peek_decimal [of m t] num by (cases k) (simp_all add: fs(1))
      moreover have "peek (flags @ show_num w @ t) = CHR ''0'' \<longleftrightarrow> 0 < k"
        using peek_decimal_pos [OF m(1), of t] num by (cases k) (simp_all add: fs(1))
      moreover have "spec' = (if 0 < k then spec\<lparr>fs_fill := CHR ''0''\<rparr> else spec)\<lparr>fs_width := m\<rparr>" "n' = n"
        using assms(6) num fold_zeros [of k spec] by (auto simp: fs(1))
      ultimately show ?thesis using None t m assms(5) by (simp add: parse_header_def)
    next
      case rest
      then have nd: "\<not> is_digit (peek (show_num w @ t))" "peek (show_num w @ t) \<noteq> CHR ''$''"
        using t special by (cases w; simp)+
      show ?thesis
      proof (cases k)
        case 0
        then show ?thesis using None parsed fs rest nd by (simp add: parse_header_def)
      next
        case (Suc j)
        have "foldl add_flag spec flags = spec\<lparr>fs_fill := CHR ''0''\<rparr>"
          using Suc fold_zeros [of k spec] rest by (simp add: fs(1))
        then obtain fr2 where "parse_flags_width (spec\<lparr>fs_fill := CHR ''0''\<rparr>) (show_num w @ t) fr = Fine (spec', t, fr2)"
            "stands fr2 xs n'"
          using parse_flags_width_shown [of "[]" w t fr xs n "spec\<lparr>fs_fill := CHR ''0''\<rparr>" spec' n'] assms by auto
        moreover have "parse_nonnegative_int (flags @ show_num w @ t) = Fine (0, show_num w @ t)"
          using parse_zeros(1) [of "show_num w @ t" k] nd rest by (simp add: fs(1))
        moreover have "peek (flags @ show_num w @ t) = CHR ''0''" using Suc by (simp add: fs(1))
        ultimately show ?thesis using None nd by (simp add: parse_header_def)
      qed
    qed
  qed
qed

lemma printf_precision_shown:
  assumes "wf_num p" and "peek t \<noteq> CHR ''.''" and "\<not> is_digit (peek t)" and "stands fr xs n"
    and "precision_text xs n spec p = Some (spec', n')"
  shows "\<exists>fr'. printf_precision spec ((if p = No_Num then '''' else CHR ''.'' # show_num p) @ t) fr = Fine (spec', t, fr') \<and>
    stands fr' xs n'"
proof (cases p)
  case No_Num
  then show ?thesis using assms by (simp add: printf_precision_def)
next
  case (Num m)
  then show ?thesis
    using assms peek_decimal [of m t] parse_int_decimal [of m t] by (simp add: printf_precision_def)
next
  case Star
  then obtain k where k: "star_value xs n = Some (k, n')" "spec' = spec\<lparr>fs_precision := k\<rparr>"
    using assms(5) by (auto split: Option.bind_splits)
  obtain x fr' where x: "printf_get_arg t None fr = Fine (make_arg x, fr')" "stands fr' xs n'"
    "cxx_type x \<in> integer_types" "k = int_of x" "\<bar>k\<bar> \<le> int max_int"
    using star_argument [OF assms(4) k(1)] by blast
  have "PrecisionHandler (make_arg x) = Fine k"
    using x(3-5) by (simp add: PrecisionHandler_def visit_ints_make any_of_def fits_in_int_def max_int_def abs_le_iff)
  then show ?thesis using Star x k(2) by (simp add: printf_precision_def is_digit_def)
qed

subsection \<open>Whole format strings\<close>

lemma lookup_not_named: "lookup_ref xs n r = Some (x, n') \<Longrightarrow> directive_text sep k spec ty x = Some t \<Longrightarrow> cxx_type x \<noteq> NAMED_ARG"
  by (auto simp: directive_text_def integer_types_def Let_def split: if_splits)

lemma printf_directive_shown:
  fixes env :: "('d, 'c) fmt_env"
  assumes "wf_pf (Directive d)" and "stands fr xs n" and "pf_text (fe_sep env) xs n (Directive d) = Some (s, n')"
  shows "\<exists>fr'. printf_directive env (show_directive d @ t) fr b = Fine (t, fr', b @ map Some s) \<and> stands fr' xs n'"
proof -
  obtain sp1 n1 sp2 n2 x where w: "width_text xs n (foldl add_flag printf_spec (pd_flags d)) (pd_width d) = Some (sp1, n1)"
    and p: "precision_text xs n1 sp1 (pd_precision d) = Some (sp2, n2)"
    and x: "lookup_ref xs n2 (case pd_index d of None \<Rightarrow> Next | Some i \<Rightarrow> Index (i - 1)) = Some (x, n')"
    and s: "directive_text (fe_sep env) (length_target (pd_length d)) sp2 (pd_type d) x = Some s"
    using assms(3) by (auto split: Option.bind_splits)
  have len: "pd_length d \<in> set length_modifiers" and letter: "type_letter (pd_type d)" using assms(1) by simp_all
  define t2 where "t2 = pd_length d @ pd_type d # t"
  define t1 where "t1 = (if pd_precision d = No_Num then '''' else CHR ''.'' # show_num (pd_precision d)) @ t2"
  have "is_name_start (peek t2)"
    using len letter by (auto simp: t2_def length_modifiers_def type_letter_def is_name_start_def)
  then have h2: "peek t2 \<noteq> CHR ''.''" "\<not> is_digit (peek t2)" "after_width (peek t2)"
    using letter_classes by (auto simp: after_width_def after_precision_def)
  then have h1: "after_width (peek t1)" by (simp add: t1_def after_width_def)
  have shown: "show_directive d @ t = (case pd_index d of None \<Rightarrow> '''' | Some i \<Rightarrow> decimal i @ ''$'') @ pd_flags d @ show_num (pd_width d) @ t1"
    by (simp add: show_directive_def t1_def t2_def)
  obtain fr1 where 1: "parse_header printf_spec (show_directive d @ t) fr = Fine (pd_index d, sp1, t1, fr1)" "stands fr1 xs n1"
    using parse_header_shown [OF _ _ _ h1 assms(2) w, of "pd_index d"] assms(1) unfolding shown by auto
  obtain fr2 where 2: "printf_precision sp1 t1 fr1 = Fine (sp2, t2, fr2)" "stands fr2 xs n2"
    using printf_precision_shown [OF _ h2(1,2) 1(2) p] assms(1) unfolding t1_def by auto
  obtain fr3 where 3: "printf_get_arg t2 (pd_index d) fr2 = Fine (make_arg x, fr3)" "stands fr3 xs n'"
    using printf_get_arg_next [OF 2(2), of x n' t2] printf_get_arg_index [OF 2(2), of "the (pd_index d)" x n' t2] x assms(1)
    by (cases "pd_index d") auto
  have named: "cxx_type x \<noteq> NAMED_ARG" using lookup_not_named [OF x s] .
  have "fm_bind (parse_length t2 (make_arg x)) (\<lambda>(arg, s). finish_directive env (adjusted sp2 x) s arg b) = Fine (t, b @ map Some s)"
    unfolding t2_def by (rule directive_end [OF s len letter named])
  then obtain a4 s4 sp5 a5 where "parse_length t2 (make_arg x) = Fine (a4, s4)" "printf_type (adjusted sp2 x) s4 a4 = Fine (sp5, a5, t)"
    "printf_visit env sp5 a5 b = Fine (b @ map Some s)"
    by (auto simp: fm_bind_Fine finish_directive_def)
  then have "printf_directive env (show_directive d @ t) fr b = Fine (t, fr3, b @ map Some s)"
    by (simp add: printf_directive_def 1(1) 2(1) 3(1) adjust_spec_make [OF named])
  then show ?thesis using 3(2) by blast
qed

lemma printf_plain:
  "\<exists>lit' b'. b' @ map Some lit' = b @ map Some (lit @ s) \<and>
    printf_from env lit (show_pf (Plain s) @ t) fr b = printf_from env lit' t fr b'"
proof (induction s arbitrary: lit b)
  case (Cons c s)
  show ?case
  proof (cases "c = CHR ''%''")
    case True
    have "printf_from env lit (show_pf (Plain (c # s)) @ t) fr b =
        printf_from env [] (show_pf (Plain s) @ t) fr (b @ map Some (lit @ [c]))"
      using True by (simp add: printf_from.simps(2) [of env lit "CHR ''%''"])
    then show ?thesis using Cons.IH [of "b @ map Some (lit @ [c])" "[]"] by simp
  next
    case False
    have "printf_from env lit (show_pf (Plain (c # s)) @ t) fr b = printf_from env (lit @ [c]) (show_pf (Plain s) @ t) fr b"
      using False by (simp add: printf_from.simps(2) [of env lit c])
    then show ?thesis using Cons.IH [of b "lit @ [c]"] by simp
  qed
qed auto

lemma peek_directive:
  assumes "wf_pf (Directive d)"
  shows "peek (show_directive d @ t) \<noteq> CHR ''%''"
proof -
  have n: "CHR ''%'' \<notin> set (decimal n)" for n using is_digit_decimal [of "CHR ''%''" n] by (auto simp: is_digit_def)
  have w: "CHR ''%'' \<notin> set (show_num w)" for w using n by (cases w) auto
  have "CHR ''%'' \<notin> set (pd_flags d)" using assms by auto
  moreover have "CHR ''%'' \<notin> set (pd_length d)" using assms by (auto simp: length_modifiers_def)
  moreover have "pd_type d \<noteq> CHR ''%''" using assms by (auto simp: type_letter_def is_name_start_def)
  ultimately have "CHR ''%'' \<notin> set (show_directive d)"
    using n w by (simp add: show_directive_def split: option.split)
  moreover have "show_directive d \<noteq> []" by (simp add: show_directive_def)
  ultimately show ?thesis by (cases "show_directive d") auto
qed

lemma printf_pieces:
  assumes "list_all wf_pf ps" and "stands fr xs n" and "printf_text (fe_sep env) xs n ps = Some t"
  shows "printf_from env lit (show_printf ps) fr b = Fine (b @ map Some (lit @ t))"
  using assms
proof (induction ps arbitrary: fr n t lit b)
  case Nil
  then show ?case by (simp add: show_printf_def)
next
  case (Cons p ps)
  obtain s n' t' where s: "pf_text (fe_sep env) xs n p = Some (s, n')" "printf_text (fe_sep env) xs n' ps = Some t'" "t = s @ t'"
    using Cons.prems(3) by (auto split: Option.bind_splits)
  have all: "show_printf (p # ps) = show_pf p @ show_printf ps" by (simp add: show_printf_def)
  show ?case
  proof (cases p)
    case (Plain u)
    then have u: "u = s" "n' = n" using s(1) by simp_all
    obtain lit' b' where "b' @ map Some lit' = b @ map Some (lit @ s)"
      "printf_from env lit (show_pf (Plain s) @ show_printf ps) fr b = printf_from env lit' (show_printf ps) fr b'"
      using printf_plain by blast
    then show ?thesis unfolding all unfolding Plain using Cons.IH [of fr n t' lit' b'] Cons.prems s(2,3) u by simp
  next
    case (Directive d)
    have wf: "wf_pf (Directive d)" using Cons.prems(1) Directive by simp
    obtain fr' where "printf_directive env (show_directive d @ show_printf ps) fr (b @ map Some lit) =
        Fine (show_printf ps, fr', (b @ map Some lit) @ map Some s)" "stands fr' xs n'"
      using printf_directive_shown [OF wf Cons.prems(2), of env s n' "show_printf ps" "b @ map Some lit"] s(1) Directive by auto
    then show ?thesis
      unfolding all unfolding Directive
      using Cons.IH [of fr' n' t' "[]" "(b @ map Some lit) @ map Some s"] Cons.prems(1) s(2,3) peek_directive [OF wf]
      by (simp add: printf_from.simps(2) [of env lit])
  qed
qed

lemma no_nul_pf: "wf_pf p \<Longrightarrow> CHR 0x00 \<notin> set (show_pf p)"
proof (cases p)
  case (Directive d)
  assume wf: "wf_pf p"
  have n: "CHR 0x00 \<notin> set (decimal n)" for n using is_digit_decimal [of "CHR 0x00" n] by (auto simp: is_digit_def)
  have w: "CHR 0x00 \<notin> set (show_num w)" for w using n by (cases w) auto
  have "CHR 0x00 \<notin> set (pd_flags d)" using wf Directive by auto
  moreover have "CHR 0x00 \<notin> set (pd_length d)" using wf Directive by (auto simp: length_modifiers_def)
  moreover have "pd_type d \<noteq> CHR 0x00" using wf Directive by (auto simp: type_letter_def is_name_start_def)
  ultimately show ?thesis using n w Directive by (simp add: show_directive_def split: option.split)
qed auto

text \<open>
  A format string of \<open>printf\<close> means its text. For any list of texts and directives, numbered or
  not, with any flags, sizes (numbers or arguments), length modifier and letter: when the text
  of the list on the arguments is defined, the engine prints exactly it.
\<close>

theorem printf_meaning:
  assumes "list_all wf_pf ps" and "printf_text (fe_sep env) xs 0 ps = Some t"
  shows "printf_write env (show_printf ps) (make_args xs) b = Fine (b @ map Some t)"
proof -
  have "\<forall>c\<in>set (show_printf ps). c \<noteq> CHR 0x00"
    using assms(1) no_nul_pf by (fastforce simp: show_printf_def list_all_iff)
  then have "c_str (show_printf ps) = show_printf ps" by (simp add: c_str_def takeWhile_eq_all_conv)
  moreover have "stands (new_formatter (make_args xs)) xs 0" by (simp add: stands_def new_formatter_def)
  ultimately show ?thesis using printf_pieces [OF assms(1) _ assms(2)] by (simp add: printf_write_def)
qed

subsection \<open>Directives of note\<close>

definition plain_directive :: "char \<Rightarrow> pf_directive" where
  "plain_directive c = \<lparr>pd_index = None, pd_flags = '''', pd_width = No_Num, pd_precision = No_Num, pd_length = '''', pd_type = c\<rparr>"

lemma layout_width_0: "layout 0 fill align prefix ds = prefix @ ds"
  by (cases align) (simp_all add: layout_def)

text \<open>\<open>%d\<close> for an \<open>unsigned long\<close>, among text without a percent sign.\<close>

lemma printf_d_text:
  fixes env :: "('d, 'c) fmt_env"
  assumes "{CHR ''%'', CHR 0x00} \<inter> set (pre @ post) = {}"
  shows "printf_write env (pre @ ''%d'' @ post) (make_args [cxx_unsigned_long v]) b =
    Fine (b @ map Some (pre @ int_text (signed_parts v) @ post))"
proof -
  let ?ps = "[Plain pre, Directive (plain_directive CHR ''d''), Plain post]" and ?x = "cxx_unsigned_long v :: ('d, 'c) cxx"
  have plain: "show_pf (Plain s) = s" if "CHR ''%'' \<notin> set s" for s
    using that by (induction s) auto
  have d: "show_directive (plain_directive CHR ''d'') = ''d''" by (simp add: show_directive_def plain_directive_def)
  have "show_printf ?ps = pre @ ''%d'' @ post"
    using assms plain [of pre] plain [of post] d by (simp add: show_printf_def del: show_pf.simps(1))
  moreover have "list_all wf_pf ?ps"
    using assms by (auto simp: plain_directive_def length_modifiers_def type_letter_def is_name_start_def)
  moreover have "printf_text (fe_sep env) [?x] 0 ?ps = Some (pre @ int_text (signed_parts v) @ post)"
  proof -
    have "shown_value None CHR ''d'' ?x = sint v"
      by (simp add: shown_value_def signed_letter_def any_of_def int_of_unsigned sint_uint Let_def)
    moreover have "int_shown sep (sint v < 0, nat \<bar>sint v\<bar>) (printf_spec\<lparr>fs_type := Some CHR ''d''\<rparr>) = int_text (signed_parts v)" for sep
      by (simp add: int_shown_def precise_layout_def printf_spec_def empty_spec_def pad_spec_def layout_width_0 int_prefix_def
          base_prefix_def int_digits_def int_type_def spec_flag_def int_text_def signed_parts_int)
    moreover have "adjusted printf_spec ?x = printf_spec"
      by (simp add: adjusted_def printf_spec_def empty_spec_def pad_spec_def spec_flag_def)
    ultimately show ?thesis
      by (simp add: plain_directive_def directive_text_def integer_types_def int_type_of_def int_types_def length_target_def Let_def)
  qed
  ultimately show ?thesis using printf_meaning [of ?ps env "[?x]" _ b] by simp
qed

text \<open>
  The minus flag has no effect on a number with the zero flag, and a character printed as a
  number, which the modifier \<open>L\<close> allows, is followed by itself.
\<close>

lemma zero_flag_wins:
  "numeric (cxx_type x) \<Longrightarrow> fs_fill spec = CHR ''0'' \<Longrightarrow> adjusted (spec\<lparr>fs_align := a\<rparr>) x = adjusted spec x"
  by (simp add: adjusted_def spec_flag_def Let_def)

lemma char_printed_twice:
  assumes "fs_type spec = Some t" and "t \<in> set int_types"
  shows "printf_visit_char sep v spec b =
    Fine (b @ map Some (int_shown sep (signed_parts v) spec @ char_shown spec (char_of (unat (ucast v :: byte)))))"
proof -
  have "int_type spec \<in> set int_types" using assms by (simp add: int_type_def)
  moreover have "t \<noteq> CHR ''c''" using assms(2) by (auto simp: int_types_def)
  moreover have "char_shown (spec\<lparr>fs_type := u\<rparr>) c = char_shown spec c" for u c by (simp add: char_shown_def)
  moreover have "printf_visit_char sep v spec b = fm_bind (visit_any_int sep (signed_parts v) spec b)
      (printf_visit_char sep v (spec\<lparr>fs_type := Some CHR ''c''\<rparr>))"
    unfolding printf_visit_char_def [abs_def] using assms(1) \<open>t \<noteq> CHR ''c''\<close> by (simp add: Let_def cong: if_cong)
  ultimately show ?thesis by (simp add: visit_any_int_shown printf_visit_char_shown)
qed

end
