(* ===== verification/Log_Lines.thy ===== *)
theory Log_Lines
  imports Log_Calls Fmt_Printf_Properties
begin

text \<open>
  The log calls of the program. Those that have arguments: level, format string and the types of the
  arguments, named by file and line (\<^verbatim>\<open>raft/raft.cc\<close>, \<^verbatim>\<open>raft/node.cc\<close>, \<^verbatim>\<open>common/epoll.cc\<close>,
  \<^verbatim>\<open>common/kqueue.cc\<close>; \<open>exit\<close> is the macro \<open>exit_if\<close> of the headers). What the format string
  engine does with them follows from the types alone.
\<close>

type_synonym log_line = "level_enum \<times> string \<times> Type list"

subsection \<open>The calls\<close>

definition log_raft_18 :: log_line where
  "log_raft_18 = (warn, ''id: {:d} step dowm from leader to follower in term {:d}'',
     [ULONG_LONG, ULONG_LONG])"

definition log_raft_19 :: log_line where
  "log_raft_19 = (warn, ''id: {:d} step dowm from candidate to follower in term {:d}'',
     [ULONG_LONG, ULONG_LONG])"

definition log_raft_56 :: log_line where
  "log_raft_56 = (err, ''generalStep filed in term {:d}'',
     [ULONG_LONG])"

definition log_raft_77 :: log_line where
  "log_raft_77 = (err, ''generalStep filed in term {:d}'',
     [ULONG_LONG])"

definition log_raft_84 :: log_line where
  "log_raft_84 = (err, ''id: {:d} produce invaild heartbeat in term {:d}.'',
     [ULONG_LONG, ULONG_LONG])"

definition log_raft_98 :: log_line where
  "log_raft_98 = (err, ''generalStep filed in term {:d}'',
     [ULONG_LONG])"

definition log_raft_111 :: log_line where
  "log_raft_111 = (err, ''id: {:d} try to become candidate in term {:d}.'',
     [ULONG_LONG, ULONG_LONG])"

definition log_raft_119 :: log_line where
  "log_raft_119 = (warn, ''id: {:d} from follower change to candidate in term {:d}.'',
     [ULONG_LONG, ULONG_LONG])"

definition log_raft_124 :: log_line where
  "log_raft_124 = (err, ''id: {:d} try to change to candidate from leader in term {:d}.'',
     [ULONG_LONG, ULONG_LONG])"

definition log_raft_133 :: log_line where
  "log_raft_133 = (warn, ''id : {:d} from candidate change to leader in term {:d}.'',
     [ULONG_LONG, ULONG_LONG])"

definition log_raft_186 :: log_line where
  "log_raft_186 = (warn, ''%d stepped empty MsgProp'',
     [ULONG_LONG])"

definition log_raft_219 :: log_line where
  "log_raft_219 = (warn, ''{:d} received msgApp rejection(lastindex: {:d}) from {:d} for index {:d}'',
     [ULONG_LONG, ULONG_LONG, ULONG_LONG, ULONG_LONG])"

definition log_raft_268 :: log_line where
  "log_raft_268 = (warn, ''this->_offset:{:d}'',
     [ULONG_LONG])"

definition log_raft_269 :: log_line where
  "log_raft_269 = (warn, ''this->_entries.size():{:d}'',
     [ULONG_LONG])"

definition log_raft_290 :: log_line where
  "log_raft_290 = (err, ''index:{:d}'',
     [ULONG_LONG])"

definition log_raft_291 :: log_line where
  "log_raft_291 = (err, ''last:{:d}'',
     [ULONG_LONG])"

definition log_raft_292 :: log_line where
  "log_raft_292 = (err, ''this->_entries[index-this->_offset-1].term():{:d}'',
     [ULONG_LONG])"

definition log_raft_306 :: log_line where
  "log_raft_306 = (err, ''_offset:{:d}'',
     [ULONG_LONG])"

definition log_raft_329 :: log_line where
  "log_raft_329 = (info, ''replace the unstable entries from index {:d}'',
     [ULONG_LONG])"

definition log_raft_335 :: log_line where
  "log_raft_335 = (info, ''truncate the unstable entries from index {:d}'',
     [ULONG_LONG])"

definition log_raft_344 :: log_line where
  "log_raft_344 = (warn, ''wtfindex:{:d}'',
     [ULONG_LONG])"

definition log_raft_354 :: log_line where
  "log_raft_354 = (err, ''commit({:d}) is out of range [lastIndex({:d})]. Was the raft log corrupted, truncated, or lost?'',
     [ULONG_LONG, ULONG_LONG])"

definition log_raft_363 :: log_line where
  "log_raft_363 = (info, ''{:d} received {:s} from {:d} at term {:d}'',
     [ULONG_LONG, STRING, ULONG_LONG, ULONG_LONG])"

definition log_raft_366 :: log_line where
  "log_raft_366 = (info, ''{:d} received {:s} rejection from {:d} at term {:d}'',
     [ULONG_LONG, STRING, ULONG_LONG, ULONG_LONG])"

definition log_raft_440 :: log_line where
  "log_raft_440 = (info, ''{:d} rejected msgApp [logterm: {:d}, index: {:d}] from {:d}'',
     [ULONG_LONG, ULONG_LONG, ULONG_LONG, ULONG_LONG])"

definition log_raft_456 :: log_line where
  "log_raft_456 = (info, ''{:d} [quorum: {:d}] has received {:d} {:s} votes and {:d} vote rejections'',
     [ULONG_LONG, UINT, INT_ARG, STRING, ULONG_LONG])"

definition log_raft_479 :: log_line where
  "log_raft_479 = (warn, ''id: {:d} change new leader in term {:d}.'',
     [ULONG_LONG, ULONG_LONG])"

definition log_raft_527 :: log_line where
  "log_raft_527 = (warn, ''mlastIndex: {:d}'',
     [ULONG_LONG])"

definition log_raft_538 :: log_line where
  "log_raft_538 = (info, ''{:d} rejected msgApp [logterm: {:d}, index: {:d}] from {:d}'',
     [ULONG_LONG, ULONG_LONG, ULONG_LONG, ULONG_LONG])"

definition log_raft_560 :: log_line where
  "log_raft_560 = (err, ''id: {:d} can't transferleader because leader is 0 in term {:d}'',
     [ULONG_LONG, ULONG_LONG])"

definition log_raft_632 :: log_line where
  "log_raft_632 = (err, ''term should be set when sending {:s}'',
     [STRING])"

definition log_raft_637 :: log_line where
  "log_raft_637 = (err, ''term should not be set when sending {:s} with msg term {:d}'',
     [STRING, ULONG_LONG])"

definition log_raft_703 :: log_line where
  "log_raft_703 = (warn, ''send empty append log in term %d'',
     [ULONG_LONG])"

definition log_raft_743 :: log_line where
  "log_raft_743 = (err, ''{:d} is sending append in unhandled state {:s}'',
     [ULONG_LONG, STRING])"

definition log_raft_784 :: log_line where
  "log_raft_784 = (err, ''id: {:d} ignore vote request from {:d} [logterm: {:d}, index: {:d}]'',
     [ULONG_LONG, ULONG_LONG, ULONG_LONG, ULONG_LONG])"

definition log_raft_789 :: log_line where
  "log_raft_789 = (err, ''{:d} in term: {:d} receive a {:s} message from {:d} at term: {:d}'',
     [ULONG_LONG, ULONG_LONG, STRING, ULONG_LONG, ULONG_LONG])"

definition log_raft_801 :: log_line where
  "log_raft_801 = (err, ''{:d} in term: {:d} receive a {:s} message from {:d} at term: {:d}'',
     [ULONG_LONG, ULONG_LONG, STRING, ULONG_LONG, ULONG_LONG])"

definition log_raft_811 :: log_line where
  "log_raft_811 = (info, ''{:d} is starting a new election at term {:d}'',
     [ULONG_LONG, ULONG_LONG])"

definition log_raft_835 :: log_line where
  "log_raft_835 = (info, ''{:d} ignoring MsgHup because already leader'',
     [ULONG_LONG])"

definition log_raft_847 :: log_line where
  "log_raft_847 = (info, ''{:d} accept msgApp [logterm: {:d}, index: {:d}] from {:d}'',
     [ULONG_LONG, ULONG_LONG, ULONG_LONG, ULONG_LONG])"

definition log_raft_858 :: log_line where
  "log_raft_858 = (info, ''{:d} rejected msgApp [logterm: {:d}, index: {:d}] from {:d}'',
     [ULONG_LONG, ULONG_LONG, ULONG_LONG, ULONG_LONG])"

definition log_raft_889 :: log_line where
  "log_raft_889 = (err, ''step filed in term {:d}'',
     [ULONG_LONG])"

definition log_raft_992 :: log_line where
  "log_raft_992 = (warn, ''{:d} try to add a Repeated node {:d}'',
     [ULONG_LONG, ULONG_LONG])"

definition log_raft_1001 :: log_line where
  "log_raft_1001 = (warn, ''{:d} try delete {:d}, but it does not exist'',
     [ULONG_LONG, ULONG_LONG])"

definition log_raft_1015 :: log_line where
  "log_raft_1015 = (err, ''{:d}mci:{:d}'',
     [ULONG_LONG, ULONG_LONG])"

definition log_raft_1043 :: log_line where
  "log_raft_1043 = (info, ''{:d} is out of range commitIndex[{:d}]'',
     [ULONG_LONG, ULONG_LONG])"

definition log_raft_1082 :: log_line where
  "log_raft_1082 = (info, ''{:d} is out of range applied[{:d}] commitIndex[{:d}]'',
     [ULONG_LONG, ULONG_LONG, ULONG_LONG])"

definition log_raft_1150 :: log_line where
  "log_raft_1150 = (err, ''_commitIndex:{:d} _lastApplied:{:d} maxi:{:d}'',
     [ULONG_LONG, ULONG_LONG, INT_ARG])"

definition log_raft_1193 :: log_line where
  "log_raft_1193 = (err, ''lastIndex:{:d}'',
     [ULONG_LONG])"

definition log_raft_1194 :: log_line where
  "log_raft_1194 = (err, ''this->_offset:{:d}'',
     [ULONG_LONG])"

definition log_node_230 :: log_line where
  "log_node_230 = (err, ''id: {:d} | fd: {:d}'',
     [ULONG_LONG, INT_ARG])"

definition log_epoll_52 :: log_line where
  "log_epoll_52 = (err, ''accept a connection from {:s} add got fd[{:d}]'',
     [CSTRING, INT_ARG])"

definition log_epoll_69 :: log_line where
  "log_epoll_69 = (warn, ''buf is really fill when read fd[{:d}]'',
     [INT_ARG])"

definition log_epoll_90 :: log_line where
  "log_epoll_90 = (warn, ''fd[{:d}] socket closed!'',
     [INT_ARG])"

definition log_epoll_121 :: log_line where
  "log_epoll_121 = (warn, ''fd[{:d}] socket closed!'',
     [INT_ARG])"

definition log_epoll_126 :: log_line where
  "log_epoll_126 = (err, ''Write fd[{:d}] write error'',
     [INT_ARG])"

definition log_epoll_226 :: log_line where
  "log_epoll_226 = (warn, ''id[{:d}] restart!'',
     [ULONG_LONG])"

definition log_epoll_exit :: log_line where
  "log_epoll_exit = (err, ''error no: {:d} error msg {:s}'',
     [INT_ARG, CSTRING])"

definition log_kqueue_73 :: log_line where
  "log_kqueue_73 = (err, ''accept a connection from {:s} add got fd[{:d}]'',
     [CSTRING, INT_ARG])"

definition log_kqueue_91 :: log_line where
  "log_kqueue_91 = (warn, ''buf is really fill when read fd[{:d}]'',
     [INT_ARG])"

definition log_kqueue_112 :: log_line where
  "log_kqueue_112 = (warn, ''fd[{:d}] socket closed!'',
     [INT_ARG])"

definition log_kqueue_143 :: log_line where
  "log_kqueue_143 = (warn, ''fd[{:d}] socket closed!'',
     [INT_ARG])"

definition log_kqueue_148 :: log_line where
  "log_kqueue_148 = (err, ''Write fd[{:d}] write error'',
     [INT_ARG])"

definition log_kqueue_248 :: log_line where
  "log_kqueue_248 = (warn, ''id[{:d}] restart!'',
     [ULONG_LONG])"

definition log_kqueue_exit :: log_line where
  "log_kqueue_exit = (err, ''error no: {:d} error msg {:s}'',
     [INT_ARG, CSTRING])"

definition raft_lines_1 :: "log_line list" where
  "raft_lines_1 =
    [log_raft_18, log_raft_19, log_raft_56, log_raft_77, log_raft_84, log_raft_98, log_raft_111,
      log_raft_119, log_raft_124, log_raft_133, log_raft_186, log_raft_219, log_raft_268,
      log_raft_269, log_raft_290, log_raft_291]"

definition raft_lines_2 :: "log_line list" where
  "raft_lines_2 =
    [log_raft_292, log_raft_306, log_raft_329, log_raft_335, log_raft_344, log_raft_354,
      log_raft_363, log_raft_366, log_raft_440, log_raft_456, log_raft_479, log_raft_527,
      log_raft_538, log_raft_560, log_raft_632, log_raft_637, log_raft_703]"

definition raft_lines_3 :: "log_line list" where
  "raft_lines_3 =
    [log_raft_743, log_raft_784, log_raft_789, log_raft_801, log_raft_811, log_raft_835,
      log_raft_847, log_raft_858, log_raft_889, log_raft_992, log_raft_1001, log_raft_1015,
      log_raft_1043, log_raft_1082, log_raft_1150, log_raft_1193, log_raft_1194]"

definition loop_lines :: "log_line list" where
  "loop_lines =
    [log_node_230, log_epoll_52, log_epoll_69, log_epoll_90, log_epoll_121, log_epoll_126,
      log_epoll_226, log_epoll_exit, log_kqueue_73, log_kqueue_91, log_kqueue_112,
      log_kqueue_143, log_kqueue_148, log_kqueue_248, log_kqueue_exit]"

definition program_lines :: "log_line list" where
  "program_lines = raft_lines_1 @ raft_lines_2 @ raft_lines_3 @ loop_lines"

text \<open>The two calls that have a directive of \<open>printf\<close> for their argument.\<close>

definition printf_lines :: "log_line list" where
  "printf_lines = [log_raft_186, log_raft_703]"

subsection \<open>Calls without arguments\<close>

text \<open>
  The other log calls give one string, which is logged as it is. Those of the macro \<open>exit_if\<close>
  come before its own line with the error number, and before the end of the process.
\<close>

type_synonym plain_line = "level_enum \<times> string"

definition log_raft_47 :: plain_line where
  "log_raft_47 = (err, ''timeout'')"

definition log_raft_526 :: plain_line where
  "log_raft_526 = (warn, ''entries:'')"

definition log_raft_1091 :: plain_line where
  "log_raft_1091 = (info, ''get last term error'')"

definition log_raft_1132 :: plain_line where
  "log_raft_1132 = (err, ''return term() error'')"

definition log_epoll_5 :: plain_line where
  "log_epoll_5 = (err, ''fcntl failed'')"

definition log_epoll_7 :: plain_line where
  "log_epoll_7 = (err, ''fcntl failed'')"

definition log_epoll_18 :: plain_line where
  "log_epoll_18 = (err, ''epoll_ctl failed'')"

definition log_epoll_31 :: plain_line where
  "log_epoll_31 = (err, ''Do not support broadcast!'')"

definition log_epoll_47 :: plain_line where
  "log_epoll_47 = (err, ''accept failed'')"

definition log_epoll_51 :: plain_line where
  "log_epoll_51 = (err, ''getpeername failed'')"

definition log_epoll_104 :: plain_line where
  "log_epoll_104 = (err, ''read error'')"

definition log_epoll_172 :: plain_line where
  "log_epoll_172 = (err, ''unknown event'')"

definition log_kqueue_5 :: plain_line where
  "log_kqueue_5 = (err, ''fcntl failed'')"

definition log_kqueue_7 :: plain_line where
  "log_kqueue_7 = (err, ''fcntl failed'')"

definition log_kqueue_25 :: plain_line where
  "log_kqueue_25 = (err, ''kevent failed '')"

definition log_kqueue_39 :: plain_line where
  "log_kqueue_39 = (err, ''kevent failed '')"

definition log_kqueue_52 :: plain_line where
  "log_kqueue_52 = (err, ''Do not support broadcast!'')"

definition log_kqueue_68 :: plain_line where
  "log_kqueue_68 = (err, ''accept failed'')"

definition log_kqueue_72 :: plain_line where
  "log_kqueue_72 = (err, ''getpeername failed'')"

definition log_kqueue_126 :: plain_line where
  "log_kqueue_126 = (err, ''read error'')"

definition log_kqueue_197 :: plain_line where
  "log_kqueue_197 = (err, ''unknown event'')"

definition plain_lines :: "plain_line list" where
  "plain_lines =
    [log_raft_47, log_raft_526, log_raft_1091, log_raft_1132, log_epoll_5, log_epoll_7,
      log_epoll_18, log_epoll_31, log_epoll_47, log_epoll_51, log_epoll_104, log_epoll_172,
      log_kqueue_5, log_kqueue_7, log_kqueue_25, log_kqueue_39, log_kqueue_52, log_kqueue_68,
      log_kqueue_72, log_kqueue_126, log_kqueue_197]"

subsection \<open>Checking a call\<close>

text \<open>
  A format string read as texts and the fields \<open>{:d}\<close> and \<open>{:s}\<close>; \<open>lit\<close> is the text before the
  position, backwards.
\<close>

definition typed_field :: "char \<Rightarrow> piece" where
  "typed_field t =
     Field Next (Some \<lparr>y_align = None, y_sign = None, y_hash = False, y_zero = False, y_width = No_Size,
       y_precision = No_Size, y_type = Some t\<rparr>)"

fun read_template :: "string \<Rightarrow> string \<Rightarrow> piece list" where
  "read_template lit [] = [Text (rev lit)]"
| "read_template lit (c # s) =
     (if c = CHR ''{'' \<and> take 3 s = '':d}'' then Text (rev lit) # typed_field CHR ''d'' # read_template [] (drop 3 s)
      else if c = CHR ''{'' \<and> take 3 s = '':s}'' then Text (rev lit) # typed_field CHR ''s'' # read_template [] (drop 3 s)
      else read_template (c # lit) s)"

text \<open>The number of arguments that are printed, when the call is well typed.\<close>

definition line_prints :: "log_line \<Rightarrow> int option" where
  "line_prints line =
     (case line of (lvl, fmt, types) \<Rightarrow>
        let ps = read_template [] fmt
        in if show_template ps = fmt \<and> list_all wf_piece ps \<and> NAMED_ARG \<notin> set types
           then check_template (map (Pair None) types) 0 ps else None)"

definition shows_all :: "log_line \<Rightarrow> bool" where
  "shows_all line = (line_prints line = Some (int (length (snd (snd line)))))"

lemma raft_lines_1_shown: "filter (\<lambda>l. \<not> shows_all l) raft_lines_1 = [log_raft_186]"
  by code_simp

lemma raft_lines_2_shown: "filter (\<lambda>l. \<not> shows_all l) raft_lines_2 = [log_raft_703]"
  by code_simp

lemma raft_lines_3_shown: "filter (\<lambda>l. \<not> shows_all l) raft_lines_3 = []"
  by code_simp

lemma loop_lines_shown: "filter (\<lambda>l. \<not> shows_all l) loop_lines = []"
  by code_simp

lemma printf_lines_shown: "map line_prints printf_lines = [Some 0, Some 0]"
  by code_simp

lemma program_lines_shown: "filter (\<lambda>l. \<not> shows_all l) program_lines = printf_lines"
  by (simp add: program_lines_def printf_lines_def raft_lines_1_shown raft_lines_2_shown raft_lines_3_shown
      loop_lines_shown)

lemma program_line_prints:
  assumes "line \<in> set program_lines"
  shows "line_prints line \<noteq> None" and "line \<notin> set printf_lines \<Longrightarrow> line_prints line = Some (int (length (snd (snd line))))"
proof -
  have s: "line \<notin> set printf_lines \<Longrightarrow> shows_all line"
    using assms arg_cong [OF program_lines_shown, of set] by auto
  then show "line \<notin> set printf_lines \<Longrightarrow> line_prints line = Some (int (length (snd (snd line))))"
    by (simp add: shows_all_def)
  show "line_prints line \<noteq> None"
    using s printf_lines_shown by (cases "line \<in> set printf_lines") (auto simp: shows_all_def printf_lines_def)
qed

subsection \<open>What the calls log\<close>

lemma sig_plain:
  "cxx_type x \<noteq> NAMED_ARG \<Longrightarrow> sig_of x = (None, cxx_type x)"
  "cxx_type x \<noteq> NAMED_ARG \<Longrightarrow> plain x = x"
  by (cases x; simp)+

lemma line_text:
  assumes "line_prints (lvl, fmt, map cxx_type xs) = Some n" and "\<forall>x\<in>set xs. not_null x"
  shows "\<exists>t. template_text (fe_sep env) xs 0 (read_template [] fmt) = Some t \<and>
    format_write env fmt (make_args xs) [] = Fine (map Some t)"
proof -
  let ?ps = "read_template [] fmt"
  have p: "show_template ?ps = fmt" "list_all wf_piece ?ps" and named: "\<forall>x\<in>set xs. cxx_type x \<noteq> NAMED_ARG"
    and c: "check_template (map (Pair None) (map cxx_type xs)) 0 ?ps = Some n"
    using assms(1) by (force simp: line_prints_def Let_def split: if_splits)+
  have "map (Pair None) (map cxx_type xs) = map sig_of xs" using named by (simp add: sig_plain)
  then have "check_template (map sig_of xs) 0 ?ps = Some n" using c by (simp only:)
  moreover have "\<forall>x\<in>set xs. not_null (plain x)" using assms(2) named by (simp add: sig_plain)
  ultimately obtain t where t: "template_text (fe_sep env) xs 0 ?ps = Some t"
    using check_template_sound [of xs 0 ?ps n "fe_sep env"] by auto
  then show ?thesis using template_means [OF p(2) t, of "[]"] p(1) by simp
qed

text \<open>
  The log lines of the program are well typed. Take any log call with arguments in the
  sources of the program, and any arguments of the types it has there, strings not null. The
  call logs one message whose text is that of its format string with the fields filled in, just
  as if the text had been passed; formatting it raises no error and overruns nothing.
\<close>

theorem program_lines_logged:
  assumes "(lvl, fmt, map cxx_type xs) \<in> set program_lines" and "\<forall>x\<in>set xs. not_null x"
  shows "\<exists>t. template_text (fe_sep env) xs 0 (read_template [] fmt) = Some t \<and>
    logger_log_args K os env now thread lvl fmt xs l s = logger_log K os now thread lvl t l s"
proof -
  obtain n where "line_prints (lvl, fmt, map cxx_type xs) = Some n"
    using program_line_prints(1) [OF assms(1)] by blast
  from line_text [OF this assms(2), of env] obtain t
    where "template_text (fe_sep env) xs 0 (read_template [] fmt) = Some t"
      and "format_write env fmt (make_args xs) [] = Fine (map Some t)" by blast
  then show ?thesis using log_args_text [of env fmt xs t] by auto
qed

lemma printf_line_text:
  assumes "(lvl, fmt, types) \<in> set printf_lines"
  shows "read_template [] fmt = [Text fmt]" and "(lvl, fmt, types) \<in> set program_lines" and "types = [ULONG_LONG]"
proof -
  have "map (\<lambda>(lvl, fmt, types). read_template [] fmt) printf_lines = map (\<lambda>(lvl, fmt, types). [Text fmt]) printf_lines"
    by code_simp
  then show "read_template [] fmt = [Text fmt]"
    using assms by (auto simp: printf_lines_def log_raft_186_def log_raft_703_def simp del: read_template.simps)
  show "types = [ULONG_LONG]" using assms by (auto simp: printf_lines_def log_raft_186_def log_raft_703_def)
  show "(lvl, fmt, types) \<in> set program_lines" using assms arg_cong [OF program_lines_shown, of set] by auto
qed

lemma printf_line_directive:
  assumes "(lvl, fmt, types) \<in> set printf_lines"
  obtains pre post where "fmt = pre @ ''%d'' @ post" and "{CHR ''%'', CHR 0x00} \<inter> set (pre @ post) = {}"
proof -
  consider "fmt = '''' @ ''%d'' @ '' stepped empty MsgProp''" | "fmt = ''send empty append log in term '' @ ''%d'' @ ''''"
    using assms by (auto simp: printf_lines_def log_raft_186_def log_raft_703_def)
  then show thesis by cases (erule that, simp)+
qed

text \<open>
  C28: Two log lines lose their argument. The warning about an empty proposal and the one about
  an empty append have the directive \<open>%d\<close> of \<open>printf\<close>, which the loggers' format strings do not
  know: whatever the node's number or term is, the text logged is the format string itself, where
  the \<open>printf\<close> of the same library prints the number, read as signed, in the place of the
  directive. In every other log call of the program each argument is printed.
\<close>

theorem printf_lines_lose_argument:
  fixes env :: "('d, 'c) fmt_env"
  assumes "(lvl, fmt, types) \<in> set printf_lines"
  shows "logger_log_args K os env now thread lvl fmt [cxx_unsigned_long v] l s = logger_log K os now thread lvl fmt l s \<and>
    (\<exists>pre post. fmt = pre @ ''%d'' @ post \<and>
      printf_write env fmt (make_args [cxx_unsigned_long v]) [] = Fine (map Some (pre @ int_text (signed_parts v) @ post))) \<and>
    (\<forall>line\<in>set program_lines - set printf_lines. line_prints line = Some (int (length (snd (snd line)))))"
proof -
  let ?xs = "[cxx_unsigned_long v :: ('d, 'c) cxx]"
  note line = printf_line_text [OF assms]
  have "line_prints (lvl, fmt, map cxx_type ?xs) \<noteq> None" using program_line_prints(1) [OF line(2)] line(3) by simp
  then obtain n where "line_prints (lvl, fmt, map cxx_type ?xs) = Some n" by blast
  from line_text [OF this, of env] have "logger_log_args K os env now thread lvl fmt ?xs l s = logger_log K os now thread lvl fmt l s"
    using line(1) by (auto simp: log_args_text)
  moreover have "\<forall>line\<in>set program_lines - set printf_lines. line_prints line = Some (int (length (snd (snd line))))"
    using program_line_prints(2) by blast
  moreover obtain pre post where "fmt = pre @ ''%d'' @ post" "{CHR ''%'', CHR 0x00} \<inter> set (pre @ post) = {}"
    using printf_line_directive [OF assms] .
  then have "\<exists>pre post. fmt = pre @ ''%d'' @ post \<and>
      printf_write env fmt (make_args ?xs) [] = Fine (map Some (pre @ int_text (signed_parts v) @ post))"
    using printf_d_text [of pre post env v "[]"] by auto
  ultimately show ?thesis by blast
qed

theorem printf_lines_lose_argument_witness:
  "\<forall>(K :: unit sink_ops) l s. logger_log_args K sample_os sample_fmt_env 0 7 warn ''%d stepped empty MsgProp'' [cxx_unsigned_long 5] l s =
    logger_log K sample_os 0 7 warn ''%d stepped empty MsgProp'' l s"
proof -
  have "(warn, ''%d stepped empty MsgProp'', [ULONG_LONG]) \<in> set printf_lines"
    by (simp add: printf_lines_def log_raft_186_def)
  from printf_lines_lose_argument [OF this, THEN conjunct1] show ?thesis by (intro allI)
qed

end
