(* ===== verification/Log_Sinks.thy ===== *)
theory Log_Sinks
  imports Log_Registry Log_Lines
begin

text \<open>
  The sinks that write to streams: \<^verbatim>\<open>spdlog/sinks/ansicolor_sink.h\<close> (the one all loggers of the
  program use), \<^verbatim>\<open>stdout_sinks.h\<close>, \<^verbatim>\<open>ostream_sink.h\<close>, \<^verbatim>\<open>null_sink.h\<close> and \<^verbatim>\<open>dist_sink.h\<close>, the test
  for a color terminal in \<^verbatim>\<open>details/os.h\<close>, and what a log call of the program puts on the
  terminal.
\<close>

subsection \<open>Streams\<close>

text \<open>Characters that were written, and those that were flushed.\<close>

record stream =
  st_pending :: string
  st_shown :: string

definition write_stream :: "string \<Rightarrow> stream \<Rightarrow> stream" where
  "write_stream s st = st\<lparr>st_pending := st_pending st @ s\<rparr>"

definition fflush :: "stream \<Rightarrow> stream" where
  "fflush st = \<lparr>st_pending = '''', st_shown = st_shown st @ st_pending st\<rparr>"

subsection \<open>Colors\<close>

definition ansi_esc :: "string \<Rightarrow> string" where
  "ansi_esc s = CHR 0x1B # CHR ''['' # s"

definition ansi_reset :: string where "ansi_reset = ansi_esc ''m''"
definition ansi_bold :: string where "ansi_bold = ansi_esc ''1m''"
definition ansi_clear_line :: string where "ansi_clear_line = ansi_esc ''K''"
definition ansi_red :: string where "ansi_red = ansi_esc ''31m''"
definition ansi_yellow :: string where "ansi_yellow = ansi_esc ''33m''"
definition ansi_cyan :: string where "ansi_cyan = ansi_esc ''36m''"
definition ansi_on_red :: string where "ansi_on_red = ansi_esc ''41m''"

fun default_colors :: "level_enum \<Rightarrow> string" where
  "default_colors trace = ansi_cyan"
| "default_colors debug = ansi_cyan"
| "default_colors info = ansi_reset"
| "default_colors warn = ansi_yellow @ ansi_bold"
| "default_colors err = ansi_red @ ansi_bold"
| "default_colors critical = ansi_bold @ ansi_on_red"
| "default_colors off = ansi_reset"

text \<open>
  \<open>is_color_terminal\<close>: the environment's \<open>TERM\<close> is looked at by the first call that has one; the
  answer is kept.
\<close>

fun strstr :: "string \<Rightarrow> string \<Rightarrow> bool" where
  "strstr s t = (take (length t) s = t \<or> (case s of [] \<Rightarrow> False | c # s \<Rightarrow> strstr s t))"

declare strstr.simps [simp del]

definition Terms :: "string list" where
  "Terms = [''ansi'', ''color'', ''console'', ''cygwin'', ''gnome'', ''konsole'', ''kterm'', ''linux'', ''msys'',
     ''putty'', ''rxvt'', ''screen'', ''vt100'', ''xterm'']"

definition is_color_terminal :: "string option \<Rightarrow> bool option \<Rightarrow> bool \<times> bool option" where
  "is_color_terminal env_p result =
     (case env_p of
        None \<Rightarrow> (False, result)
      | Some term \<Rightarrow>
          (case result of
             Some r \<Rightarrow> (r, result)
           | None \<Rightarrow> let r = list_ex (strstr term) Terms in (r, Some r)))"

subsection \<open>Sinks\<close>

record ansicolor_sink =
  an_level :: level_enum
  an_stderr :: bool
  an_should_do_colors :: bool
  an_colors :: "level_enum \<Rightarrow> string"

definition new_ansicolor_sink :: "bool \<Rightarrow> bool \<Rightarrow> bool \<Rightarrow> ansicolor_sink" where
  "new_ansicolor_sink stderr in_terminal color_terminal =
     \<lparr>an_level = trace, an_stderr = stderr, an_should_do_colors = (in_terminal \<and> color_terminal),
      an_colors = default_colors\<rparr>"

definition set_color :: "level_enum \<Rightarrow> string \<Rightarrow> ansicolor_sink \<Rightarrow> ansicolor_sink" where
  "set_color color_level color s = s\<lparr>an_colors := (an_colors s)(color_level := color)\<rparr>"

definition ansicolor_sink_it :: "ansicolor_sink \<Rightarrow> log_msg \<Rightarrow> stream \<Rightarrow> stream" where
  "ansicolor_sink_it s msg st =
     (let st = (if an_should_do_colors s
                then write_stream ansi_clear_line (write_stream ansi_reset (write_stream (lm_formatted msg)
                       (write_stream (an_colors s (lm_level msg)) st)))
                else write_stream (lm_formatted msg) st)
      in fflush st)"

definition std_sink_it :: "log_msg \<Rightarrow> stream \<Rightarrow> stream" where
  "std_sink_it msg st = fflush (write_stream (lm_formatted msg) st)"

definition ostream_sink_it :: "bool \<Rightarrow> log_msg \<Rightarrow> stream \<Rightarrow> stream" where
  "ostream_sink_it force_flush msg st =
     (let st = write_stream (lm_formatted msg) st in if force_flush then fflush st else st)"

text \<open>
  The sinks of the process, by number, with the two standard streams. An \<open>ostream\<close> sink has a
  stream of its own here.
\<close>

datatype stream_sink =
    Ansicolor ansicolor_sink
  | Stdout level_enum
  | Stderr level_enum
  | Ostream level_enum bool stream
  | Null level_enum

record sink_world =
  sw_stdout :: stream
  sw_stderr :: stream
  sw_color_result :: "bool option"
  sw_sinks :: "stream_sink list"

fun stream_sink_level :: "stream_sink \<Rightarrow> level_enum" where
  "stream_sink_level (Ansicolor a) = an_level a"
| "stream_sink_level (Stdout lvl) = lvl"
| "stream_sink_level (Stderr lvl) = lvl"
| "stream_sink_level (Ostream lvl f st) = lvl"
| "stream_sink_level (Null lvl) = lvl"

definition on_stream :: "bool \<Rightarrow> (stream \<Rightarrow> stream) \<Rightarrow> sink_world \<Rightarrow> sink_world" where
  "on_stream stderr f w =
     (if stderr then w\<lparr>sw_stderr := f (sw_stderr w)\<rparr> else w\<lparr>sw_stdout := f (sw_stdout w)\<rparr>)"

definition stream_sink_log :: "nat \<Rightarrow> log_msg \<Rightarrow> sink_world \<Rightarrow> sink_world" where
  "stream_sink_log k msg w =
     (case sw_sinks w ! k of
        Ansicolor a \<Rightarrow> on_stream (an_stderr a) (ansicolor_sink_it a msg) w
      | Stdout lvl \<Rightarrow> on_stream False (std_sink_it msg) w
      | Stderr lvl \<Rightarrow> on_stream True (std_sink_it msg) w
      | Ostream lvl f st \<Rightarrow> w\<lparr>sw_sinks := (sw_sinks w)[k := Ostream lvl f (ostream_sink_it f msg st)]\<rparr>
      | Null lvl \<Rightarrow> w)"

definition stream_sink_flush :: "nat \<Rightarrow> sink_world \<Rightarrow> sink_world" where
  "stream_sink_flush k w =
     (case sw_sinks w ! k of
        Ansicolor a \<Rightarrow> on_stream (an_stderr a) fflush w
      | Stdout lvl \<Rightarrow> on_stream False fflush w
      | Stderr lvl \<Rightarrow> on_stream True fflush w
      | Ostream lvl f st \<Rightarrow> w\<lparr>sw_sinks := (sw_sinks w)[k := Ostream lvl f (fflush st)]\<rparr>
      | Null lvl \<Rightarrow> w)"

text \<open>None of these sinks looks at the result of a write, so none throws.\<close>

definition stream_sinks :: "sink_world sink_ops" where
  "stream_sinks =
     \<lparr>k_level = (\<lambda>k w. stream_sink_level (sw_sinks w ! k)),
      k_log = (\<lambda>k msg w. (Returns (), stream_sink_log k msg w)),
      k_flush = (\<lambda>k w. (Returns (), stream_sink_flush k w))\<rparr>"

text \<open>A sink that hands every message to sinks of its own.\<close>

definition dist_sink_it :: "'s sink_ops \<Rightarrow> nat list \<Rightarrow> log_msg \<Rightarrow> 's \<Rightarrow> unit io \<times> 's" where
  "dist_sink_it K sinks msg s = log_sinks K msg sinks s"

definition dist_sink_flush :: "'s sink_ops \<Rightarrow> nat list \<Rightarrow> 's \<Rightarrow> unit io \<times> 's" where
  "dist_sink_flush K sinks s = flush_sinks K sinks s"

definition dist_add_sink :: "nat \<Rightarrow> nat list \<Rightarrow> nat list" where
  "dist_add_sink k sinks = sinks @ [k]"

definition dist_remove_sink :: "nat \<Rightarrow> nat list \<Rightarrow> nat list" where
  "dist_remove_sink k sinks = removeAll k sinks"

subsection \<open>The loggers of the program\<close>

text \<open>
  \<open>tty\<close> is whether the stream is a terminal, \<open>term\<close> the terminal's type. When the registry refuses
  the name the new sink is destroyed, which flushes its stream.
\<close>

definition add_color_sink :: "bool \<Rightarrow> bool \<Rightarrow> string option \<Rightarrow> sink_world \<Rightarrow> nat \<times> sink_world" where
  "add_color_sink stderr tty term w =
     (let (color, result) = (if tty then is_color_terminal term (sw_color_result w) else (False, sw_color_result w));
          a = new_ansicolor_sink stderr tty color
      in (length (sw_sinks w), w\<lparr>sw_color_result := result, sw_sinks := sw_sinks w @ [Ansicolor a]\<rparr>))"

definition color_logger :: "bool \<Rightarrow> bool \<Rightarrow> string option \<Rightarrow> string \<Rightarrow> sink_world \<Rightarrow> registry \<Rightarrow>
    (nat \<times> registry) option \<times> sink_world" where
  "color_logger stderr tty term logger_name w r =
     (let (k, w) = add_color_sink stderr tty term w
      in case create logger_name [k] r of
           Some ar \<Rightarrow> (Some ar, w)
         | None \<Rightarrow> (None, on_stream stderr fflush w))"

definition stdout_color_mt :: "bool \<Rightarrow> string option \<Rightarrow> string \<Rightarrow> sink_world \<Rightarrow> registry \<Rightarrow>
    (nat \<times> registry) option \<times> sink_world" where
  "stdout_color_mt tty term logger_name w r = color_logger False tty term logger_name w r"

definition stderr_color_mt :: "bool \<Rightarrow> string option \<Rightarrow> string \<Rightarrow> sink_world \<Rightarrow> registry \<Rightarrow>
    (nat \<times> registry) option \<times> sink_world" where
  "stderr_color_mt tty term logger_name w r = color_logger True tty term logger_name w r"

text \<open>What is written for one line, with its end of line, on a terminal with colors and elsewhere.\<close>

definition console_line :: "bool \<Rightarrow> level_enum \<Rightarrow> string \<Rightarrow> string" where
  "console_line colors lvl line =
     (if colors then default_colors lvl @ line @ ansi_reset @ ansi_clear_line else line)"

definition color_term :: "string option \<Rightarrow> bool" where
  "color_term term = (case term of Some s \<Rightarrow> list_ex (strstr s) Terms | None \<Rightarrow> False)"

lemma full_format_Some: "\<exists>line. full_format os ((new_log_msg name lvl now thread)\<lparr>lm_raw := s\<rparr>) t = Some line"
  by (simp add: full_format_def new_log_msg_def Let_def)

lemma default_pattern:
  "pattern_format (new_pattern_formatter ''%+'' local eol) os msg =
    map_option (\<lambda>line. msg\<lparr>lm_formatted := lm_formatted msg @ line @ eol\<rparr>)
      (full_format os msg (os_localtime os (lm_time msg sdiv 1000000000)))"
  by (simp add: pattern_format_def new_pattern_formatter_def compile_pattern_def handle_flag_def user_chars_def
      get_time_def split: Option.bind_split)

lemma color_sink_it:
  "an_colors a = default_colors \<Longrightarrow> ansicolor_sink_it a msg st =
    \<lparr>st_pending = '''', st_shown = st_shown st @ st_pending st @
       console_line (an_should_do_colors a) (lm_level msg) (lm_formatted msg)\<rparr>"
  by (simp add: ansicolor_sink_it_def console_line_def write_stream_def fflush_def)

lemma color_logger_log:
  assumes "sw_sinks w ! k = Ansicolor a" and "a = new_ansicolor_sink False tty color"
    and "l = logger_flush_on off (logger_set_level info (new_logger name [k]))" and "info \<le> lvl"
    and "full_format os ((new_log_msg name lvl now thread)\<lparr>lm_raw := s\<rparr>)
      (os_localtime os (now sdiv 1000000000)) = Some line"
  shows "logger_log stream_sinks os now thread lvl s l w =
    (Returns (), l, w\<lparr>sw_stdout := \<lparr>st_pending = '''', st_shown = st_shown (sw_stdout w) @ st_pending (sw_stdout w) @
       console_line (tty \<and> color) lvl (line @ default_eol)\<rparr>\<rparr>)"
proof -
  let ?msg = "(new_log_msg name lvl now thread)\<lparr>lm_raw := s\<rparr>"
  have "\<not> (off \<le> lvl \<and> lvl \<noteq> off)" by (cases lvl) (simp_all add: less_eq_level_enum_def)
  moreover have "trace \<le> lvl" by (simp add: less_eq_level_enum_def)
  moreover have "pattern_format (lg_formatter l) os ?msg = Some (?msg\<lparr>lm_formatted := line @ default_eol\<rparr>)"
    using assms(5) by (simp add: assms(3) logger_flush_on_def logger_set_level_def new_logger_def default_pattern new_log_msg_def)
  ultimately show ?thesis
    using assms(4)
    by (auto simp: logger_log_def should_log_def logger_sink_it_def format_and_log_def should_flush_on_def
        catch_errors_def assms(1-3) logger_flush_on_def logger_set_level_def new_logger_def sink_should_log_def
        stream_sinks_def stream_sink_log_def on_stream_def color_sink_it new_ansicolor_sink_def new_log_msg_def)
qed

text \<open>A process that did not change the defaults of the registry.\<close>

definition registry_defaults :: "registry \<Rightarrow> bool" where
  "registry_defaults r =
     (rg_formatter r = None \<and> rg_level r = info \<and> rg_flush_level r = off \<and> rg_err_handler r = None \<and>
      \<not> rg_async_mode r)"

lemma stdout_color_logger:
  assumes "stdout_color_mt tty term name w0 r = (Some (a, r'), w)" and "registry_defaults r"
    and "sw_color_result w0 \<in> {None, Some (color_term term)}"
  shows "rg_heap r' ! a = Sync (logger_flush_on off (logger_set_level info (new_logger name [length (sw_sinks w0)])))"
    and "sw_sinks w = sw_sinks w0 @ [Ansicolor (new_ansicolor_sink False tty (tty \<and> color_term term))]"
    and "sw_stdout w = sw_stdout w0" and "registry_defaults r'"
    and "sw_color_result w \<in> {None, Some (color_term term)}"
  using assms
  by (auto simp: stdout_color_mt_def color_logger_def add_color_sink_def create_def adopt_def registry_defaults_def Let_def
      is_color_terminal_def color_term_def split: if_splits option.splits prod.splits)

lemma program_levels: "list_all (\<lambda>(lvl, fmt, types). info \<le> lvl) program_lines"
  by code_simp

lemma plain_levels: "list_all (\<lambda>(lvl, s). info \<le> lvl) plain_lines"
  by code_simp

text \<open>
  C16: What a log call of the program shows. A logger made by \<open>stdout_color_mt\<close>, as the
  constructors of the program make theirs, in a process with the library's defaults whose \<open>TERM\<close>
  does not change between the loggers it makes, writes each log line of the sources at once, in
  every later state of the process in which the logger's sink is still there, whatever sinks were
  added and whatever was printed since: before the call returns the standard output shows, after
  all that was written to it before, the text of the call behind the date, the logger's name and
  the level, in the color of the level if the output is a terminal whose type has colors. The text
  is the format string with the fields filled in, for the calls with arguments, none of which is a
  null string, and the string itself for the calls without. No call raises an exception, and the
  logger is as before.
\<close>

theorem program_line_on_console:
  assumes "stdout_color_mt tty term name w0 r = (Some (a, r'), w)" and "registry_defaults r"
    and "sw_color_result w0 \<in> {None, Some (color_term term)}"
    and "take (length (sw_sinks w)) (sw_sinks w') = sw_sinks w"
    and "(lvl, fmt, map cxx_type xs) \<in> set program_lines" and "\<forall>x\<in>set xs. not_null x"
    and "(plvl, ptext) \<in> set plain_lines"
  shows "\<exists>l t line pline. rg_heap r' ! a = Sync l \<and>
    template_text (fe_sep env) xs 0 (read_template [] fmt) = Some t \<and>
    full_format os ((new_log_msg name lvl now thread)\<lparr>lm_raw := t\<rparr>) (os_localtime os (now sdiv 1000000000)) = Some line \<and>
    full_format os ((new_log_msg name plvl now thread)\<lparr>lm_raw := ptext\<rparr>) (os_localtime os (now sdiv 1000000000)) = Some pline \<and>
    logger_log_args stream_sinks os env now thread lvl fmt xs l w' =
      (Returns (), l, w'\<lparr>sw_stdout := \<lparr>st_pending = '''', st_shown = st_shown (sw_stdout w') @ st_pending (sw_stdout w') @
         console_line (tty \<and> color_term term) lvl (line @ default_eol)\<rparr>\<rparr>) \<and>
    logger_log stream_sinks os now thread plvl ptext l w' =
      (Returns (), l, w'\<lparr>sw_stdout := \<lparr>st_pending = '''', st_shown = st_shown (sw_stdout w') @ st_pending (sw_stdout w') @
         console_line (tty \<and> color_term term) plvl (pline @ default_eol)\<rparr>\<rparr>)"
proof -
  note made = stdout_color_logger [OF assms(1-3)]
  obtain n where "line_prints (lvl, fmt, map cxx_type xs) = Some n" using program_line_prints(1) [OF assms(5)] by blast
  from line_text [OF this assms(6), of env] obtain t
    where t: "template_text (fe_sep env) xs 0 (read_template [] fmt) = Some t"
      and f: "format_write env fmt (make_args xs) [] = Fine (map Some t)" by blast
  obtain line where line: "full_format os ((new_log_msg name lvl now thread)\<lparr>lm_raw := t\<rparr>)
      (os_localtime os (now sdiv 1000000000)) = Some line"
    using full_format_Some by blast
  obtain pline where pline: "full_format os ((new_log_msg name plvl now thread)\<lparr>lm_raw := ptext\<rparr>)
      (os_localtime os (now sdiv 1000000000)) = Some pline"
    using full_format_Some by blast
  have lvl: "info \<le> lvl" "info \<le> plvl"
    using program_levels plain_levels assms(5,7) by (auto simp: list_all_iff)
  have "sw_sinks w' ! length (sw_sinks w0) = take (length (sw_sinks w)) (sw_sinks w') ! length (sw_sinks w0)"
    by (simp add: made(2))
  then have k: "sw_sinks w' ! length (sw_sinks w0) = Ansicolor (new_ansicolor_sink False tty (tty \<and> color_term term))"
    unfolding assms(4) by (simp add: made(2))
  note logged = color_logger_log [OF k refl refl lvl(1) line] color_logger_log [OF k refl refl lvl(2) pline]
  show ?thesis
    by (rule exI, rule exI, rule exI, rule exI, intro conjI, rule made(1), rule t, rule line, rule pline)
      (simp_all add: log_args_text [OF f] logged conj_absorb)
qed

definition sample_world :: sink_world where
  "sample_world = \<lparr>sw_stdout = \<lparr>st_pending = ''ready'', st_shown = ''''\<rparr>, sw_stderr = \<lparr>st_pending = '''', st_shown = ''''\<rparr>,
     sw_color_result = None, sw_sinks = []\<rparr>"

definition sample_line :: string where
  "sample_line = ''id: {:d} produce invaild heartbeat in term {:d}.''"

lemma sample_line_text:
  "template_text '','' ([cxx_unsigned_long 3, cxx_unsigned_long 9] :: (unit, unit) cxx list) 0 (read_template [] sample_line) =
    Some ''id: 3 produce invaild heartbeat in term 9.''"
  by code_simp

lemma sample_line_full:
  "full_format sample_os ((new_log_msg ''raft_console'' err 1234567890 7)\<lparr>lm_raw := ''id: 3 produce invaild heartbeat in term 9.''\<rparr>)
      (os_localtime sample_os (1234567890 sdiv 1000000000)) =
    Some ''[2018-01-09 00:07:05.234] [raft_console] [error] id: 3 produce invaild heartbeat in term 9.''"
  by code_simp

lemma sample_plain_full:
  "full_format sample_os ((new_log_msg ''raft_console'' err 1234567890 7)\<lparr>lm_raw := ''timeout''\<rparr>)
      (os_localtime sample_os (1234567890 sdiv 1000000000)) =
    Some ''[2018-01-09 00:07:05.234] [raft_console] [error] timeout''"
  by code_simp

definition later_world :: "sink_world \<Rightarrow> sink_world" where
  "later_world w = w\<lparr>sw_sinks := sw_sinks w @ [Stdout trace], sw_stdout := \<lparr>st_pending = ''ready'', st_shown = ''''\<rparr>\<rparr>"

theorem program_line_on_console_witness:
  "\<exists>a r' w l w1 w2. stdout_color_mt False None ''raft_console'' sample_world new_registry = (Some (a, r'), w) \<and>
    rg_heap r' ! a = Sync l \<and>
    logger_log_args stream_sinks sample_os sample_fmt_env 1234567890 7 err sample_line [cxx_unsigned_long 3, cxx_unsigned_long 9] l
      (later_world w) = (Returns (), l, w1) \<and>
    st_shown (sw_stdout w1) = ''ready[2018-01-09 00:07:05.234] [raft_console] [error] id: 3 produce invaild heartbeat in term 9.'' @ default_eol \<and>
    logger_log stream_sinks sample_os 1234567890 7 err ''timeout'' l (later_world w) = (Returns (), l, w2) \<and>
    st_shown (sw_stdout w2) = ''ready[2018-01-09 00:07:05.234] [raft_console] [error] timeout'' @ default_eol"
proof -
  let ?xs = "[cxx_unsigned_long 3, cxx_unsigned_long 9] :: (unit, unit) cxx list"
  have "fst (stdout_color_mt False None ''raft_console'' sample_world new_registry) \<noteq> None"
    by (simp add: stdout_color_mt_def color_logger_def add_color_sink_def create_def throws_if_exists_def
        new_registry_def umap_has_def)
  then obtain a r' w where made: "stdout_color_mt False None ''raft_console'' sample_world new_registry = (Some (a, r'), w)"
    by (cases "stdout_color_mt False None ''raft_console'' sample_world new_registry") auto
  have reg: "registry_defaults new_registry" by (simp add: registry_defaults_def new_registry_def)
  have color: "sw_color_result sample_world \<in> {None, Some (color_term None)}" by (simp add: sample_world_def)
  have later: "take (length (sw_sinks w)) (sw_sinks (later_world w)) = sw_sinks w" by (simp add: later_world_def)
  have line: "(err, sample_line, map cxx_type ?xs) \<in> set program_lines"
    by (simp add: program_lines_def raft_lines_1_def log_raft_84_def sample_line_def)
  have plain: "(err, ''timeout'') \<in> set plain_lines" by (simp add: plain_lines_def log_raft_47_def)
  obtain l t line pline where l: "rg_heap r' ! a = Sync l"
    and t: "template_text (fe_sep sample_fmt_env) ?xs 0 (read_template [] sample_line) = Some t"
    and f: "full_format sample_os ((new_log_msg ''raft_console'' err 1234567890 7)\<lparr>lm_raw := t\<rparr>)
      (os_localtime sample_os (1234567890 sdiv 1000000000)) = Some line"
    and g: "full_format sample_os ((new_log_msg ''raft_console'' err 1234567890 7)\<lparr>lm_raw := ''timeout''\<rparr>)
      (os_localtime sample_os (1234567890 sdiv 1000000000)) = Some pline"
    and c: "logger_log_args stream_sinks sample_os sample_fmt_env 1234567890 7 err sample_line ?xs l (later_world w) =
      (Returns (), l, later_world w\<lparr>sw_stdout := \<lparr>st_pending = '''', st_shown = st_shown (sw_stdout (later_world w)) @
        st_pending (sw_stdout (later_world w)) @ console_line (False \<and> color_term None) err (line @ default_eol)\<rparr>\<rparr>)"
    and d: "logger_log stream_sinks sample_os 1234567890 7 err ''timeout'' l (later_world w) =
      (Returns (), l, later_world w\<lparr>sw_stdout := \<lparr>st_pending = '''', st_shown = st_shown (sw_stdout (later_world w)) @
        st_pending (sw_stdout (later_world w)) @ console_line (False \<and> color_term None) err (pline @ default_eol)\<rparr>\<rparr>)"
    using program_line_on_console [OF made reg color later line _ plain, of sample_fmt_env sample_os 1234567890 7] by auto
  have "t = ''id: 3 produce invaild heartbeat in term 9.''"
    using t sample_line_text by (simp add: sample_fmt_env_def)
  then have "line = ''[2018-01-09 00:07:05.234] [raft_console] [error] id: 3 produce invaild heartbeat in term 9.''"
    using f sample_line_full by simp
  moreover have "pline = ''[2018-01-09 00:07:05.234] [raft_console] [error] timeout''" using g sample_plain_full by simp
  ultimately show ?thesis
    using made l c d by (intro exI conjI) (assumption+, simp add: later_world_def console_line_def, assumption,
      simp add: later_world_def console_line_def)
qed

end
