(* ===== verification/Fmt_Double.thy ===== *)
theory Fmt_Double
  imports Fmt_Format
begin

text \<open>
  Floating-point output, \<open>write_double\<close> of \<^verbatim>\<open>spdlog/fmt/bundled/format.h\<close>. It lets \<open>snprintf\<close>
  write behind the end of the buffer and arranges the characters there, so the buffer has its
  capacity here: cells behind the size survive until the memory is replaced. The numbers are a
  type \<open>'d\<close> with the operations the code uses.
\<close>

subsection \<open>Buffers with a capacity\<close>

text \<open>\<open>mb_data\<close> is all the memory, \<open>None\<close> where nothing was written.\<close>

record memory_buffer =
  mb_data :: buffer
  mb_size :: nat

definition new_memory_buffer :: memory_buffer where
  "new_memory_buffer = \<lparr>mb_data = replicate 500 None, mb_size = 0\<rparr>"

definition mb_capacity :: "memory_buffer \<Rightarrow> nat" where
  "mb_capacity m = length (mb_data m)"

definition mb_text :: "memory_buffer \<Rightarrow> buffer" where
  "mb_text m = take (mb_size m) (mb_data m)"

definition mb_ok :: "memory_buffer \<Rightarrow> bool" where
  "mb_ok m = (mb_size m \<le> mb_capacity m)"

text \<open>New memory gets the first \<open>mb_size\<close> cells.\<close>

definition mb_grow :: "nat \<Rightarrow> memory_buffer \<Rightarrow> memory_buffer" where
  "mb_grow new_size m =
     (let new_capacity = mb_capacity m + mb_capacity m div 2;
          new_capacity = (if new_size > new_capacity then new_size else new_capacity)
      in m\<lparr>mb_data := mb_text m @ replicate (new_capacity - mb_size m) None\<rparr>)"

definition mb_resize :: "nat \<Rightarrow> memory_buffer \<Rightarrow> memory_buffer" where
  "mb_resize new_size m = (if new_size > mb_capacity m then mb_grow new_size m else m)\<lparr>mb_size := new_size\<rparr>"

definition mb_reserve :: "nat \<Rightarrow> memory_buffer \<Rightarrow> memory_buffer" where
  "mb_reserve capacity m = (if capacity > mb_capacity m then mb_grow capacity m else m)"

definition mb_push_back :: "char \<Rightarrow> memory_buffer \<Rightarrow> memory_buffer" where
  "mb_push_back c m =
     (let m = (if mb_size m = mb_capacity m then mb_grow (mb_size m + 1) m else m)
      in m\<lparr>mb_data := (mb_data m)[mb_size m := Some c], mb_size := mb_size m + 1\<rparr>)"

definition mb_append :: "string \<Rightarrow> memory_buffer \<Rightarrow> memory_buffer" where
  "mb_append s m =
     (let new_size = mb_size m + length s;
          m = (if new_size > mb_capacity m then mb_grow new_size m else m)
      in m\<lparr>mb_data := take (mb_size m) (mb_data m) @ map Some s @ drop new_size (mb_data m), mb_size := new_size\<rparr>)"

text \<open>Cells \<open>xs\<close> put over the memory from \<open>i\<close>; outside of it there is no result.\<close>

definition mb_poke :: "nat \<Rightarrow> buffer \<Rightarrow> memory_buffer \<Rightarrow> memory_buffer option" where
  "mb_poke i xs m =
     (if i + length xs \<le> mb_capacity m
      then Some (m\<lparr>mb_data := take i (mb_data m) @ xs @ drop (i + length xs) (mb_data m)\<rparr>) else None)"

subsection \<open>Numbers and \<open>snprintf\<close>\<close>

text \<open>
  \<open>fo_digits\<close> is what a conversion of the C library writes when the directive has no width: the
  letter, the flag \<open>#\<close>, the precision and the number. \<open>fo_length\<close> is \<open>L\<close> for a \<open>long double\<close>.
\<close>

record 'd float_ops =
  fo_negative :: "'d \<Rightarrow> bool"
  fo_negate :: "'d \<Rightarrow> 'd"
  fo_nan :: "'d \<Rightarrow> bool"
  fo_inf :: "'d \<Rightarrow> bool"
  fo_length :: string
  fo_digits :: "char \<Rightarrow> bool \<Rightarrow> nat option \<Rightarrow> 'd \<Rightarrow> string"

text \<open>A directive and its arguments; \<open>None\<close> when they do not fit together.\<close>

definition skip_char :: "char \<Rightarrow> string \<Rightarrow> bool \<times> string" where
  "skip_char c s = (if peek s = c then (True, tl s) else (False, s))"

definition take_star :: "string \<Rightarrow> int list \<Rightarrow> (int option \<times> string \<times> int list) option" where
  "take_star s args =
     (if peek s \<noteq> CHR ''*'' then Some (None, s, args)
      else case args of a # args \<Rightarrow> Some (Some a, tl s, args) | [] \<Rightarrow> None)"

definition pad_blank :: "nat \<Rightarrow> bool \<Rightarrow> string \<Rightarrow> string" where
  "pad_blank width left s =
     (let blank = replicate (width - length s) CHR '' '' in if left then s @ blank else blank @ s)"

definition c_snprintf :: "'d float_ops \<Rightarrow> string \<Rightarrow> int list \<Rightarrow> 'd \<Rightarrow> string option" where
  "c_snprintf F fmt args x =
     (let (percent, s) = skip_char CHR ''%'' fmt;
          (hash, s) = skip_char CHR ''#'' s;
          (left, s) = skip_char CHR ''-'' s
      in do {
        (width, s, args) \<leftarrow> take_star s args;
        (let (dot, s) = skip_char CHR ''.'' s
         in do {
           (precision, s, args) \<leftarrow> (if dot then take_star s args else Some (None, s, args));
           (case drop (length (fo_length F)) s of
              [type] \<Rightarrow>
                if percent \<and> (dot \<longrightarrow> precision \<noteq> None) \<and> take (length (fo_length F)) s = fo_length F \<and> args = []
                then let w = (case width of Some w \<Rightarrow> w | None \<Rightarrow> 0);
                         p = (case precision of Some p \<Rightarrow> if p < 0 then None else Some (nat p) | None \<Rightarrow> None)
                     in Some (pad_blank (nat \<bar>w\<bar>) (left \<or> w < 0) (fo_digits F type hash p x))
                else None
            | _ \<Rightarrow> None) }) })"

definition format_float :: "'d float_ops \<Rightarrow> string \<Rightarrow> nat \<Rightarrow> int \<Rightarrow> 'd \<Rightarrow> string option" where
  "format_float F format width precision value =
     (if width = 0
      then if precision < 0 then c_snprintf F format [] value else c_snprintf F format [precision] value
      else if precision < 0 then c_snprintf F format [int width] value
      else c_snprintf F format [int width, precision] value)"

definition float_directive :: "'d float_ops \<Rightarrow> FormatSpec \<Rightarrow> nat \<Rightarrow> char \<Rightarrow> string" where
  "float_directive F spec width type =
     ''%'' @ (if spec_flag spec HASH_FLAG then ''#'' else '''') @
     (if fs_align spec = ALIGN_CENTER then ''''
      else (if fs_align spec = ALIGN_LEFT then ''-'' else '''') @ (if width \<noteq> 0 then ''*'' else '''')) @
     (if fs_precision spec \<ge> 0 then ''.*'' else '''') @ fo_length F @ [type]"

text \<open>
  The loop: \<open>snprintf\<close> writes as much of the text as there is room for, and a terminator; when it
  was cut, more memory is taken.
\<close>

definition mb_snprintf :: "string \<Rightarrow> nat \<Rightarrow> memory_buffer \<Rightarrow> memory_buffer option" where
  "mb_snprintf text offset m =
     (let buffer_size = mb_capacity m - offset
      in if buffer_size = 0 then Some m
         else mb_poke offset (map Some (take (buffer_size - 1) text @ [CHR 0x00])) m)"

lemma mb_capacity_poke [simp]: "mb_poke i xs m = Some m' \<Longrightarrow> mb_capacity m' = mb_capacity m"
  by (auto simp: mb_poke_def mb_capacity_def split: if_splits)

lemma mb_capacity_snprintf: "mb_snprintf text offset m = Some m' \<Longrightarrow> mb_capacity m' = mb_capacity m"
  by (auto simp: mb_snprintf_def Let_def split: if_splits)

lemma mb_capacity_reserve: "mb_ok m \<Longrightarrow> c \<le> mb_capacity (mb_reserve c m)"
  by (auto simp: mb_reserve_def mb_grow_def Let_def mb_ok_def mb_text_def mb_capacity_def)

partial_function (option) float_loop :: "string \<Rightarrow> nat \<Rightarrow> memory_buffer \<Rightarrow> memory_buffer option" where
  "float_loop text offset m =
     (case mb_snprintf text offset m of
        None \<Rightarrow> None
      | Some m \<Rightarrow>
          if offset + length text < mb_capacity m then Some m
          else float_loop text offset (mb_reserve (offset + length text + 1) m))"

declare float_loop.simps [code]

subsection \<open>Writing a number\<close>

definition float_sign :: "'d float_ops \<Rightarrow> FormatSpec \<Rightarrow> 'd \<Rightarrow> char option" where
  "float_sign F spec value =
     (if fo_negative F value then Some CHR ''-''
      else if spec_flag spec SIGN_FLAG then Some (if spec_flag spec PLUS_FLAG then CHR ''+'' else CHR '' '')
      else None)"

text \<open>Letter and case; an unknown type throws.\<close>

definition float_type :: "FormatSpec \<Rightarrow> (char \<times> bool) fm" where
  "float_type spec =
     (case fs_type spec of
        None \<Rightarrow> Fine (CHR ''g'', False)
      | Some t \<Rightarrow>
          if t \<in> set ''efga'' then Fine (t, False)
          else if t \<in> set ''FEGA'' then Fine (t, True)
          else report_unknown_type t ''double'')"

text \<open>NaN and infinity are strings, with a place for the sign in front.\<close>

definition write_named_float :: "string \<Rightarrow> char option \<Rightarrow> FormatSpec \<Rightarrow> buffer \<Rightarrow> buffer option" where
  "write_named_float s sign spec b =
     (case sign of
        None \<Rightarrow> do { (out, b) \<leftarrow> write_str_at s spec b; Some b }
      | Some c \<Rightarrow> do { (out, b) \<leftarrow> write_str_at (CHR '' '' # s) spec b; blit out [c] b })"

text \<open>The arrangement of the \<open>n\<close> characters that stand at \<open>offset\<close>.\<close>

definition arrange_float :: "char option \<Rightarrow> FormatSpec \<Rightarrow> nat \<Rightarrow> nat \<Rightarrow> memory_buffer \<Rightarrow> memory_buffer option" where
  "arrange_float sign spec offset n m =
     (if fs_align spec = ALIGN_CENTER \<and> fs_width spec > n
      then let p = mb_size m; width = fs_width spec; m = mb_resize (p + width) m;
               cells = take n (drop p (mb_data m)); left = (width - n) div 2; fill = Some (fs_fill spec)
           in do {
             m \<leftarrow> mb_poke (p + left) cells m;
             m \<leftarrow> mb_poke p (replicate left fill) m;
             mb_poke (p + left + n) (replicate (width - n - left) fill) m }
      else do {
        m \<leftarrow> (if fs_fill spec \<noteq> CHR '' '' \<or> sign \<noteq> None
              then let blanks = length (takeWhile (\<lambda>c. c = Some CHR '' '') (drop offset (mb_data m)))
                   in do {
                     m \<leftarrow> mb_poke offset (replicate blanks (Some (fs_fill spec))) m;
                     (case sign of Some c \<Rightarrow> mb_poke (offset + blanks - 1) [Some c] m | None \<Rightarrow> Some m) }
              else Some m);
        Some (mb_resize (mb_size m + n) m) })"

text \<open>The sign goes in front, or into the last blank when the number is on the right.\<close>

definition put_sign :: "char \<Rightarrow> FormatSpec \<Rightarrow> nat \<Rightarrow> nat \<Rightarrow> memory_buffer \<Rightarrow> memory_buffer option" where
  "put_sign c spec offset n m =
     (if fs_align spec \<notin> {ALIGN_RIGHT, ALIGN_DEFAULT} \<or> mb_data m ! offset \<noteq> Some CHR '' ''
      then do {
        m \<leftarrow> mb_poke (offset - 1) [Some c] m;
        arrange_float None spec offset (n + 1) m }
      else do {
        m \<leftarrow> mb_poke (offset - 1) [Some (fs_fill spec)] m;
        arrange_float (Some c) spec offset (n + 1) m })"

definition write_finite :: "'d float_ops \<Rightarrow> FormatSpec \<Rightarrow> char \<Rightarrow> char option \<Rightarrow> 'd \<Rightarrow> memory_buffer \<Rightarrow>
    memory_buffer option" where
  "write_finite F spec type sign value m =
     (let width = fs_width spec;
          signed = (sign \<noteq> None);
          offset = (if signed then mb_size m + 1 else mb_size m);
          m = (if signed then mb_reserve (mb_size m + (if width > 1 then width else 1)) m else m);
          width = (if signed then width - 1 else width)
      in do {
        text \<leftarrow> format_float F (float_directive F spec width type)
                  (if fs_align spec = ALIGN_CENTER then 0 else width) (fs_precision spec) value;
        m \<leftarrow> float_loop text offset m;
        (case sign of
           None \<Rightarrow> arrange_float None spec offset (length text) m
         | Some c \<Rightarrow> put_sign c spec offset (length text) m) })"

text \<open>A string goes behind the text of the buffer.\<close>

definition mb_with :: "(buffer \<Rightarrow> buffer option) \<Rightarrow> memory_buffer \<Rightarrow> memory_buffer option" where
  "mb_with f m = do {
     b \<leftarrow> f (mb_text m);
     mb_poke (mb_size m) (drop (mb_size m) b) (mb_resize (length b) m) }"

definition write_double :: "'d float_ops \<Rightarrow> 'd \<Rightarrow> FormatSpec \<Rightarrow> memory_buffer \<Rightarrow> memory_buffer fm" where
  "write_double F value spec m =
     fm_bind (float_type spec) (\<lambda>(type, upper).
       let sign = float_sign F spec value;
           value = (if fo_negative F value then fo_negate F value else value)
       in fm_of
            (if fo_nan F value
             then mb_with (write_named_float (if upper then ''NAN'' else ''nan'') sign spec) m
             else if fo_inf F value
             then mb_with (write_named_float (if upper then ''INF'' else ''inf'') sign spec) m
             else write_finite F spec type sign value m))"

end
