(* ===== verification/Fmt_Double_Properties.thy ===== *)
theory Fmt_Double_Properties
  imports Fmt_Double Fmt_Layout
begin

text \<open>
  What \<open>write_double\<close> appends, and when it goes wrong: centered numbers need room for all their
  padding, and left-aligned ones do not use the fill.
\<close>

subsection \<open>The directive\<close>

definition float_digits :: "'d float_ops \<Rightarrow> FormatSpec \<Rightarrow> char \<Rightarrow> 'd \<Rightarrow> string" where
  "float_digits F spec type value =
     fo_digits F type (spec_flag spec HASH_FLAG)
       (if fs_precision spec \<ge> 0 then Some (nat (fs_precision spec)) else None) value"

definition blank_text :: "FormatSpec \<Rightarrow> nat \<Rightarrow> string \<Rightarrow> string" where
  "blank_text spec width digits =
     pad_blank (if fs_align spec = ALIGN_CENTER then 0 else width) (fs_align spec = ALIGN_LEFT) digits"

lemma skip_char_simps: "skip_char c (c # s) = (True, s)" "d \<noteq> c \<Longrightarrow> skip_char c (d # s) = (False, d # s)"
  by (simp_all add: skip_char_def peek_def)

lemma take_star_simps:
  "take_star (CHR ''*'' # s) (a # args) = Some (Some a, s, args)"
  "d \<noteq> CHR ''*'' \<Longrightarrow> take_star (d # s) args = Some (None, d # s, args)"
  by (simp_all add: take_star_def peek_def)

lemma format_float_directive:
  assumes "type \<in> set ''efgaFEGA''" and "fo_length F \<in> {'''', ''L''}"
  shows "format_float F (float_directive F spec width type) (if fs_align spec = ALIGN_CENTER then 0 else width)
      (fs_precision spec) x =
    Some (blank_text spec width (float_digits F spec type x))"
proof -
  define L where L: "L = fo_length F"
  obtain h ts where ht: "L @ [type] = h # ts" and h: "h \<noteq> CHR ''#''" "h \<noteq> CHR ''-''" "h \<noteq> CHR ''*''" "h \<noteq> CHR ''.''"
    using assms unfolding L by (cases "fo_length F") auto
  have tail: "drop (length L) (h # ts) = [type]" "take (length L) (h # ts) = L" by (simp_all flip: ht)
  note defs = format_float_def c_snprintf_def float_directive_def float_digits_def blank_text_def skip_char_simps
    take_star_simps L [symmetric] ht tail h
  consider "fs_align spec = ALIGN_CENTER" | "fs_align spec = ALIGN_LEFT" | "fs_align spec \<notin> {ALIGN_CENTER, ALIGN_LEFT}"
    by auto
  then show ?thesis
  proof cases
    case 1
    show ?thesis
      by (cases "fs_precision spec < 0"; cases "spec_flag spec HASH_FLAG") (simp_all add: defs 1)
  next
    case 2
    show ?thesis
      by (cases "width = 0"; cases "fs_precision spec < 0"; cases "spec_flag spec HASH_FLAG") (simp_all add: defs 2)
  next
    case 3
    then show ?thesis
      by (cases "width = 0"; cases "fs_precision spec < 0"; cases "spec_flag spec HASH_FLAG") (simp_all add: defs)
  qed
qed

subsection \<open>The loop\<close>

lemma mb_poke_at:
  "mb_data m = xs @ ys @ zs \<Longrightarrow> i = length xs \<Longrightarrow> length vs = length ys \<Longrightarrow>
    mb_poke i vs m = Some (m\<lparr>mb_data := xs @ vs @ zs\<rparr>)"
  by (simp add: mb_poke_def mb_capacity_def)

lemma mb_snprintf_fits:
  assumes "offset + length text < mb_capacity m"
  shows "\<exists>R. mb_snprintf text offset m = Some (m\<lparr>mb_data := take offset (mb_data m) @ map Some text @ Some CHR 0x00 # R\<rparr>)"
  using assms by (auto simp: mb_snprintf_def mb_poke_def mb_capacity_def Let_def)

lemma mb_snprintf_keeps:
  assumes "offset \<le> mb_capacity m" and "mb_size m \<le> offset"
  shows "\<exists>m'. mb_snprintf text offset m = Some m' \<and> mb_size m' = mb_size m \<and> mb_text m' = mb_text m \<and>
    mb_capacity m' = mb_capacity m"
proof (cases "mb_capacity m - offset = 0")
  case False
  then show ?thesis
    using assms by (auto simp: mb_snprintf_def mb_poke_def mb_capacity_def mb_text_def Let_def min_def)
qed (simp add: mb_snprintf_def)

lemma mb_reserve_keeps: "mb_size (mb_reserve c m) = mb_size m" "mb_ok m \<Longrightarrow> mb_text (mb_reserve c m) = mb_text m"
  by (auto simp: mb_reserve_def mb_grow_def mb_text_def mb_ok_def mb_capacity_def Let_def min_def)

text \<open>The loop ends: the whole text stands behind the offset.\<close>

lemma float_loop_writes:
  assumes "mb_ok m" and "offset \<le> mb_capacity m" and "mb_size m \<le> offset"
  shows "\<exists>m' g R. float_loop text offset m = Some m' \<and> mb_size m' = mb_size m \<and> mb_capacity m \<le> mb_capacity m' \<and>
    length g = offset - mb_size m \<and> mb_data m' = mb_text m @ g @ map Some text @ R"
proof -
  have split: "take offset (mb_data n) = mb_text n @ take (offset - mb_size n) (drop (mb_size n) (mb_data n))"
    if "mb_size n \<le> offset" for n
    using that by (simp add: mb_text_def flip: take_add)
  have once: "\<exists>m' g R. float_loop text offset n = Some m' \<and> mb_size m' = mb_size n \<and> mb_capacity n \<le> mb_capacity m' \<and>
      length g = offset - mb_size n \<and> mb_data m' = mb_text n @ g @ map Some text @ R"
    if n: "offset + length text < mb_capacity n" "mb_size n \<le> offset" for n
  proof -
    obtain R where R: "mb_snprintf text offset n = Some (n\<lparr>mb_data := take offset (mb_data n) @ map Some text @ Some CHR 0x00 # R\<rparr>)"
      (is "_ = Some ?n") using mb_snprintf_fits [OF n(1)] by blast
    have cap: "mb_capacity ?n = mb_capacity n" using mb_capacity_snprintf [OF R] .
    then have "float_loop text offset n = Some ?n" using R n(1) by (subst float_loop.simps) auto
    then show ?thesis
      using n cap by (intro exI conjI) (assumption, simp, simp, auto simp: split [OF n(2)] mb_capacity_def)
  qed
  show ?thesis
  proof (cases "offset + length text < mb_capacity m")
    case True
    then show ?thesis using once assms(3) by blast
  next
    case False
    obtain m1 where 1: "mb_snprintf text offset m = Some m1" "mb_size m1 = mb_size m" "mb_text m1 = mb_text m"
      "mb_capacity m1 = mb_capacity m"
      using mb_snprintf_keeps [OF assms(2,3)] by blast
    let ?m2 = "mb_reserve (offset + length text + 1) m1"
    have ok: "mb_ok m1" using assms(1) 1(2,4) by (simp add: mb_ok_def)
    have cap: "offset + length text < mb_capacity ?m2" using mb_capacity_reserve [OF ok, of "offset + length text + 1"] by simp
    have "float_loop text offset m = float_loop text offset ?m2"
      using False 1 by (subst float_loop.simps) simp
    moreover have "mb_size ?m2 = mb_size m" "mb_text ?m2 = mb_text m"
      using 1 mb_reserve_keeps(2) [OF ok] by (simp_all add: mb_reserve_keeps(1))
    moreover from this have "mb_size ?m2 \<le> offset" using assms(3) by simp
    ultimately show ?thesis using once [OF cap] False cap by (metis (no_types, lifting) le_trans less_imp_le not_less)
  qed
qed

subsection \<open>Arranging\<close>

lemma leading_blanks:
  assumes "rest \<noteq> []" and "hd rest \<noteq> CHR '' ''"
  shows "length (takeWhile (\<lambda>c. c = Some CHR '' '') (map Some (replicate k CHR '' '' @ rest) @ R)) = k"
  using assms by (induction k) (cases rest; simp)+

text \<open>Characters \<open>c\<close>, blanks and a rest that does not start with one; the blanks become the fill.\<close>

lemma arrange_fills:
  assumes "mb_data m = T @ map Some (c @ replicate k CHR '' '' @ rest) @ R" and "mb_size m = length T"
    and "rest \<noteq> []" and "hd rest \<noteq> CHR '' ''"
    and "n = length c + k + length rest" and "\<not> (fs_align spec = ALIGN_CENTER \<and> fs_width spec > n)"
    and "offset = length T + length c" and "sign \<noteq> None \<Longrightarrow> 0 < k"
  shows "\<exists>m'. arrange_float sign spec offset n m = Some m' \<and> mb_ok m' \<and>
    mb_text m' = T @ map Some (c @ (case sign of None \<Rightarrow> replicate k (fs_fill spec)
      | Some x \<Rightarrow> replicate (k - 1) (fs_fill spec) @ [x]) @ rest)"
proof -
  let ?b = "Some CHR '' ''" and ?f = "Some (fs_fill spec)"
  have d: "mb_data m = (T @ map Some c) @ replicate k ?b @ map Some rest @ R" using assms(1) by simp
  have n: "length (takeWhile (\<lambda>c. c = ?b) (drop offset (mb_data m))) = k"
    using leading_blanks [OF assms(3,4), of k R] by (simp add: assms(1,7))
  have p: "mb_poke offset (replicate k ?f) m = Some (m\<lparr>mb_data := (T @ map Some c) @ replicate k ?f @ map Some rest @ R\<rparr>)"
    by (rule mb_poke_at [OF d]) (simp_all add: assms(7))
  have done_: "mb_ok (mb_resize (mb_size m' + n) m') \<and> mb_text (mb_resize (mb_size m' + n) m') = T @ map Some s"
    if "mb_data m' = T @ map Some s @ R" "mb_size m' = length T" "length s = n" for m' s
    using that by (simp add: mb_resize_def mb_ok_def mb_text_def mb_capacity_def)
  show ?thesis
  proof (cases sign)
    case None
    show ?thesis
    proof (cases "fs_fill spec = CHR '' ''")
      case True
      then show ?thesis
        using done_ [of m "c @ replicate k CHR '' '' @ rest"] assms(1,2,5) None True
        unfolding arrange_float_def if_not_P [OF assms(6)] by simp
    next
      case False
      then show ?thesis
        using done_ [of "m\<lparr>mb_data := (T @ map Some c) @ replicate k ?f @ map Some rest @ R\<rparr>"
            "c @ replicate k (fs_fill spec) @ rest"] assms(2,5) p n None False
        unfolding arrange_float_def if_not_P [OF assms(6)] by (simp add: Let_def)
    qed
  next
    case (Some x)
    then have k: "0 < k" using assms(8) by simp
    then have r: "replicate k ?f = replicate (k - 1) ?f @ [?f]"
      by (metis Suc_pred' replicate_Suc replicate_append_same)
    let ?m = "m\<lparr>mb_data := (T @ map Some c) @ replicate k ?f @ map Some rest @ R\<rparr>"
    have "mb_poke (offset + k - 1) [Some x] ?m =
        Some (?m\<lparr>mb_data := (T @ map Some c @ replicate (k - 1) ?f) @ [Some x] @ map Some rest @ R\<rparr>)"
      by (rule mb_poke_at [where ys = "[?f]"]) (use k in \<open>simp_all add: assms(7) r\<close>)
    then show ?thesis
      using done_ [of "?m\<lparr>mb_data := (T @ map Some c @ replicate (k - 1) ?f) @ [Some x] @ map Some rest @ R\<rparr>"
          "c @ (replicate (k - 1) (fs_fill spec) @ [x]) @ rest"] assms(2,5) k p n Some
      unfolding arrange_float_def if_not_P [OF assms(6)] by (simp add: Let_def)
  qed
qed

lemma arrange_center_cells:
  assumes "mb_data (mb_resize (mb_size m + fs_width spec) m) = T @ B @ R" and "length B = fs_width spec"
    and "mb_size m = length T" and "fs_align spec = ALIGN_CENTER" and "n < fs_width spec"
    and "l = (fs_width spec - n) div 2"
  shows "\<exists>m'. arrange_float sign spec offset n m = Some m' \<and> mb_ok m' \<and> mb_text m' =
    T @ replicate l (Some (fs_fill spec)) @ take n B @ replicate (fs_width spec - n - l) (Some (fs_fill spec))"
proof -
  let ?w = "fs_width spec" and ?m = "mb_resize (mb_size m + fs_width spec) m"
  let ?r = "?w - n - l" and ?f = "Some (fs_fill spec)"
  have l: "l + n + ?r = ?w" using assms(5) by (simp add: assms(6))
  define A Y Z where AYZ: "A = take l B" "Y = take n (drop l B)" "Z = drop (l + n) B"
  have len: "length A = l" "length Y = n" "length Z = ?r" using l assms(2) by (simp_all add: AYZ)
  have B: "B = A @ Y @ Z" by (metis AYZ append_take_drop_id drop_drop add.commute)
  have d: "mb_data ?m = T @ A @ Y @ Z @ R" "mb_size ?m = length T + ?w"
    using assms(1,3) by (simp_all add: B) (simp add: mb_resize_def)
  have n: "length (take n B) = n" using assms(2,5) by simp
  have 1: "mb_poke (length T + l) (take n B) ?m = Some (?m\<lparr>mb_data := (T @ A) @ take n B @ Z @ R\<rparr>)" (is "_ = Some ?m1")
    by (rule mb_poke_at [where ys = Y]) (simp_all only: d len n, simp_all add: len)
  have 2: "mb_poke (length T) (replicate l ?f) ?m1 = Some (?m1\<lparr>mb_data := T @ replicate l ?f @ take n B @ Z @ R\<rparr>)" (is "_ = Some ?m2")
    by (rule mb_poke_at [where ys = A]) (simp_all add: len)
  have 3: "mb_poke (length T + l + n) (replicate ?r ?f) ?m2 =
      Some (?m2\<lparr>mb_data := (T @ replicate l ?f @ take n B) @ replicate ?r ?f @ R\<rparr>)" (is "_ = Some ?m3")
    by (rule mb_poke_at [where ys = Z]) (simp_all add: len n del: length_take)
  have "take n (drop (length T) (mb_data ?m)) = take n B"
    using assms(1,2,5) by simp
  then have "arrange_float sign spec offset n m = Some ?m3"
    using 1 2 3 assms(3-6) by (simp add: arrange_float_def Let_def)
  moreover have "mb_data ?m3 = (T @ replicate l ?f @ take n B @ replicate ?r ?f) @ R"
      "mb_size ?m3 = length (T @ replicate l ?f @ take n B @ replicate ?r ?f)"
    using l n by (simp_all add: d(2) del: length_take)
  then have "mb_ok ?m3" "mb_text ?m3 = T @ replicate l ?f @ take n B @ replicate ?r ?f"
    by (simp_all only: mb_ok_def mb_text_def mb_capacity_def) (simp_all add: n [simplified])
  ultimately show ?thesis by blast
qed

lemma arrange_centers:
  assumes "mb_data m = T @ map Some s @ R" and "mb_size m = length T"
    and "fs_align spec = ALIGN_CENTER" and "fs_width spec > length s" and "length T + fs_width spec \<le> mb_capacity m"
  shows "\<exists>m'. arrange_float sign spec offset (length s) m = Some m' \<and> mb_ok m' \<and>
    mb_text m' = T @ map Some (text_layout (fs_width spec) (fs_fill spec) ALIGN_CENTER s)"
proof -
  define B where "B = take (fs_width spec) (map Some s @ R)"
  have B: "length B = fs_width spec" "take (length s) B = map Some s" using assms(1,4,5) by (simp_all add: B_def mb_capacity_def)
  have "mb_data (mb_resize (mb_size m + fs_width spec) m) = T @ B @ drop (fs_width spec) (map Some s @ R)"
    using assms(1,2,5) by (simp only: B_def append_take_drop_id) (simp add: mb_resize_def)
  from arrange_center_cells [OF this B(1) assms(2-4) refl, of sign offset] show ?thesis
    by (simp add: B(2) text_layout_def Let_def)
qed

subsection \<open>Finite numbers\<close>

text \<open>The layout; a number on the left is followed by blanks, whatever the fill.\<close>

definition float_layout :: "FormatSpec \<Rightarrow> string \<Rightarrow> string \<Rightarrow> string" where
  "float_layout spec sign digits =
     (let body = sign @ digits; pad = fs_width spec - length body; fill = fs_fill spec
      in case fs_align spec of
           ALIGN_LEFT \<Rightarrow> body @ replicate pad CHR '' ''
         | ALIGN_CENTER \<Rightarrow> replicate (pad div 2) fill @ body @ replicate (pad - pad div 2) fill
         | ALIGN_NUMERIC \<Rightarrow> sign @ replicate pad fill @ digits
         | _ \<Rightarrow> replicate pad fill @ body)"

definition sign_text :: "char option \<Rightarrow> string" where
  "sign_text sign = (case sign of Some c \<Rightarrow> [c] | None \<Rightarrow> '''')"

text \<open>What \<open>snprintf\<close> wrote: blanks, then something that does not start with one.\<close>

lemma pad_blank_right: "pad_blank w False d = replicate (w - length d) CHR '' '' @ d"
  by (simp add: pad_blank_def)

lemma pad_blank_left: "pad_blank w True d = replicate 0 CHR '' '' @ (d @ replicate (w - length d) CHR '' '')"
  by (simp add: pad_blank_def)

lemma arrange_unsigned:
  assumes "mb_data m = mb_text m0 @ map Some (blank_text spec (fs_width spec) d) @ R"
    and "mb_size m = mb_size m0" and "mb_ok m0" and "d \<noteq> []" and "hd d \<noteq> CHR '' ''"
    and "fs_align spec = ALIGN_CENTER \<Longrightarrow> length d < fs_width spec \<Longrightarrow> mb_size m0 + fs_width spec \<le> mb_capacity m"
  shows "\<exists>m'. arrange_float None spec (mb_size m0) (length (blank_text spec (fs_width spec) d)) m = Some m' \<and> mb_ok m' \<and>
    mb_text m' = mb_text m0 @ map Some (float_layout spec '''' d)"
proof -
  have T: "length (mb_text m0) = mb_size m0" using assms(3) by (simp add: mb_text_def mb_ok_def mb_capacity_def)
  note fills = arrange_fills [where c = "[]" and T = "mb_text m0" and sign = None and R = R and m = m and spec = spec]
  consider "fs_align spec = ALIGN_LEFT" | "fs_align spec = ALIGN_CENTER" "length d < fs_width spec"
    | "fs_align spec = ALIGN_CENTER" "\<not> length d < fs_width spec" | "fs_align spec \<notin> {ALIGN_LEFT, ALIGN_CENTER}"
    by auto
  then show ?thesis
  proof cases
    case 1
    then show ?thesis
      using fills [of 0 "d @ replicate (fs_width spec - length d) CHR '' ''"] assms T
      by (simp add: pad_blank_left blank_text_def float_layout_def Let_def)
  next
    case 2
    then show ?thesis
      using arrange_centers [of m "mb_text m0" d R spec None] assms T
      by (simp add: pad_blank_right blank_text_def float_layout_def text_layout_def Let_def)
  next
    case 3
    then show ?thesis
      using fills [of 0 d] assms T by (simp add: pad_blank_right blank_text_def float_layout_def Let_def)
  next
    case 4
    then show ?thesis
      using fills [of "fs_width spec - length d" d] assms T
      by (cases "fs_align spec") (simp_all add: pad_blank_right blank_text_def float_layout_def Let_def)
  qed
qed

text \<open>With a sign, whose place is the cell in front of the text.\<close>

lemma arrange_signed:
  assumes "mb_data m = mb_text m0 @ [x] @ map Some (blank_text spec (fs_width spec - 1) d) @ R"
    and "mb_size m = mb_size m0" and "mb_ok m0" and "d \<noteq> []" and "hd d \<noteq> CHR '' ''"
    and "fs_align spec = ALIGN_CENTER \<Longrightarrow> mb_size m0 + fs_width spec \<le> mb_capacity m"
  shows "\<exists>m'. put_sign c spec (mb_size m0 + 1) (length (blank_text spec (fs_width spec - 1) d)) m = Some m' \<and>
    mb_ok m' \<and> mb_text m' = mb_text m0 @ map Some (float_layout spec [c] d)"
proof -
  let ?T = "mb_text m0" and ?t = "blank_text spec (fs_width spec - 1) d" and ?k = "fs_width spec - 1 - length d"
  have T: "length ?T = mb_size m0" using assms(3) by (simp add: mb_text_def mb_ok_def mb_capacity_def)
  have poke: "mb_poke (mb_size m0) [Some y] m = Some (m\<lparr>mb_data := ?T @ [Some y] @ map Some ?t @ R\<rparr>)" for y
    by (rule mb_poke_at [OF assms(1)]) (simp_all add: T)
  obtain h ts where t: "?t = h # ts" using assms(4) by (cases ?t) (auto simp: blank_text_def pad_blank_def Let_def split: if_splits)
  have hd: "mb_data m ! (mb_size m0 + 1) = Some (hd ?t)"
    unfolding assms(1) t by (simp add: nth_append T)
  have fills: "\<exists>m'. arrange_float sign spec (mb_size m0 + 1) n (m\<lparr>mb_data := ?T @ [Some y] @ map Some ?t @ R\<rparr>) = Some m' \<and>
      mb_ok m' \<and> mb_text m' = ?T @ map Some ([y] @ (case sign of None \<Rightarrow> replicate k (fs_fill spec)
      | Some x \<Rightarrow> replicate (k - 1) (fs_fill spec) @ [x]) @ rest)"
    if "?t = replicate k CHR '' '' @ rest" "rest \<noteq> []" "hd rest \<noteq> CHR '' ''" "n = 1 + k + length rest"
      "\<not> (fs_align spec = ALIGN_CENTER \<and> fs_width spec > n)" "sign \<noteq> None \<Longrightarrow> 0 < k" for sign y k rest n
    using that by (intro arrange_fills [where R = R]) (simp_all add: T assms(2))
  consider (left) "fs_align spec = ALIGN_LEFT" | (center) "fs_align spec = ALIGN_CENTER" "length d + 1 < fs_width spec"
    | (wide) "fs_align spec = ALIGN_CENTER" "\<not> length d + 1 < fs_width spec" | (num) "fs_align spec = ALIGN_NUMERIC"
    | (none) "fs_align spec \<in> {ALIGN_RIGHT, ALIGN_DEFAULT}" "?k = 0"
    | (right) "fs_align spec \<in> {ALIGN_RIGHT, ALIGN_DEFAULT}" "0 < ?k"
    by (cases "fs_align spec"; cases "?k = 0"; cases "length d + 1 < fs_width spec") auto
  then show ?thesis
  proof cases
    case left
    then show ?thesis
      using fills [of 0 "d @ replicate ?k CHR '' ''" _ None c] assms poke
      by (simp add: put_sign_def blank_text_def pad_blank_left float_layout_def Let_def)
  next
    case center
    then have t: "?t = d" by (simp add: blank_text_def pad_blank_right)
    have "\<exists>m'. arrange_float None spec (mb_size m0 + 1) (length (c # d)) (m\<lparr>mb_data := ?T @ [Some c] @ map Some ?t @ R\<rparr>) = Some m' \<and>
        mb_ok m' \<and> mb_text m' = ?T @ map Some (text_layout (fs_width spec) (fs_fill spec) ALIGN_CENTER (c # d))"
      using arrange_centers [of "m\<lparr>mb_data := ?T @ [Some c] @ map Some ?t @ R\<rparr>" ?T "c # d" R spec None "mb_size m0 + 1"]
        assms center t T by (simp add: mb_capacity_def)
    then show ?thesis
      using center t poke by (simp add: put_sign_def float_layout_def text_layout_def Let_def)
  next
    case wide
    then show ?thesis
      using fills [of 0 d _ None c] assms poke
      by (simp add: put_sign_def blank_text_def pad_blank_right float_layout_def Let_def)
  next
    case num
    then show ?thesis
      using fills [of ?k d _ None c] assms poke
      by (simp add: put_sign_def blank_text_def pad_blank_right float_layout_def Let_def)
  next
    case none
    then have "?t = d" by (auto simp: blank_text_def pad_blank_right)
    then show ?thesis
      using none fills [of 0 d _ None c] assms poke hd
      by (auto simp: put_sign_def float_layout_def Let_def)
  next
    case right
    then have t: "?t = replicate ?k CHR '' '' @ d" by (auto simp: blank_text_def pad_blank_right)
    then have "hd ?t = CHR '' ''" using right(2) by (cases ?k) auto
    moreover have "replicate ?k (fs_fill spec) = fs_fill spec # replicate (?k - 1) (fs_fill spec)"
      using right(2) by (cases ?k) auto
    ultimately show ?thesis
      using right fills [of ?k d _ "Some c" "fs_fill spec"] assms poke hd t
      by (auto simp: put_sign_def float_layout_def Let_def)
  qed
qed

lemma write_finite_layout:
  assumes "mb_ok m" and "type \<in> set ''efgaFEGA''" and "fo_length F \<in> {'''', ''L''}"
    and "float_digits F spec type v = d" and "d \<noteq> []" and "hd d \<noteq> CHR '' ''"
    and "fs_align spec = ALIGN_CENTER \<Longrightarrow> sign = None \<Longrightarrow> mb_size m + fs_width spec \<le> mb_capacity m"
  shows "\<exists>m'. write_finite F spec type sign v m = Some m' \<and> mb_ok m' \<and>
    mb_text m' = mb_text m @ map Some (float_layout spec (sign_text sign) d)"
proof (cases sign)
  case None
  have "mb_size m \<le> mb_capacity m" using assms(1) by (simp add: mb_ok_def)
  from float_loop_writes [OF assms(1) this, of "blank_text spec (fs_width spec) d"] obtain m1 R
    where 1: "float_loop (blank_text spec (fs_width spec) d) (mb_size m) m = Some m1" "mb_size m1 = mb_size m"
      "mb_capacity m \<le> mb_capacity m1" "mb_data m1 = mb_text m @ map Some (blank_text spec (fs_width spec) d) @ R"
    by auto
  have "fs_align spec = ALIGN_CENTER \<Longrightarrow> mb_size m + fs_width spec \<le> mb_capacity m1"
    using assms(7) None 1(3) by fastforce
  then show ?thesis
    using arrange_unsigned [OF 1(4,2) assms(1,5,6)] format_float_directive [OF assms(2,3), of spec "fs_width spec" v] 1(1)
    by (auto simp: write_finite_def None sign_text_def assms(4) Let_def)
next
  case (Some c)
  let ?w = "fs_width spec - 1" and ?c = "mb_size m + (if fs_width spec > 1 then fs_width spec else 1)"
  define M where M: "M = mb_reserve ?c m"
  have m: "mb_size M = mb_size m" "mb_text M = mb_text m" "mb_size m + fs_width spec \<le> mb_capacity M"
      "mb_size m + 1 \<le> mb_capacity M"
    using mb_reserve_keeps(2) [OF assms(1)] mb_capacity_reserve [OF assms(1), of ?c]
    by (auto simp: M mb_reserve_keeps(1) split: if_splits)
  have "mb_ok M" using m by (simp add: mb_ok_def)
  from float_loop_writes [OF this m(4), of "blank_text spec ?w d"] obtain m1 g R
    where 1: "float_loop (blank_text spec ?w d) (mb_size m + 1) M = Some m1" "mb_size m1 = mb_size m"
      "mb_capacity M \<le> mb_capacity m1" "length g = 1" "mb_data m1 = mb_text m @ g @ map Some (blank_text spec ?w d) @ R"
    by (auto simp: m(1,2))
  then obtain x where g: "g = [x]" by (cases g) auto
  have "mb_size m + fs_width spec \<le> mb_capacity m1" using m(3) 1(3) by simp
  have "write_finite F spec type sign v m = put_sign c spec (mb_size m + 1) (length (blank_text spec ?w d)) m1"
    using 1(1) by (cases "1 < fs_width spec")
      (simp_all add: write_finite_def Some Let_def M format_float_directive [OF assms(2,3)] assms(4))
  then show ?thesis
    using arrange_signed [OF 1(5) [unfolded g] 1(2) assms(1,5,6), of c] \<open>mb_size m + fs_width spec \<le> mb_capacity m1\<close>
    by (simp add: Some sign_text_def)
qed

subsection \<open>NaN and infinity\<close>

lemma write_named_float_layout:
  "write_named_float s sign spec b = Some (b @ map Some (spec_layout spec (sign_text sign @ s)))"
proof (cases sign)
  case None
  then show ?thesis using write_str_at_layout [of s spec b] by (auto simp: write_named_float_def sign_text_def)
next
  case (Some c)
  let ?s = "CHR '' '' # s"
  show ?thesis
  proof (cases "fs_width spec > length ?s")
    case True
    define pad where "pad = fs_width spec - length ?s"
    then have w: "fs_width spec = length ?s + pad" using True by simp
    note defs = write_named_float_def write_str_at_def spec_layout_def text_layout_def grow_buffer_def fill_padding_def
      blit_def w Let_def sign_text_def
    have half: "pad div 2 \<le> Suc (length s + pad)" using div_le_dividend [of pad 2] by linarith
    show ?thesis
      using True Some half by (cases "fs_align spec") (simp_all add: defs min_def add.assoc trans_le_add2 flip: replicate_add)
  next
    case False
    then show ?thesis
      using Some by (cases "fs_align spec")
        (simp_all add: write_named_float_def write_str_at_def spec_layout_def text_layout_def grow_buffer_def blit_def
          sign_text_def Let_def)
  qed
qed

text \<open>
  Without room for the whole width the characters of a centered number are lost: the buffer moves
  to new memory and only the cells below its size go along.
\<close>

lemma centered_number_lost:
  assumes "mb_ok m" and "type \<in> set ''efgaFEGA''" and "fo_length F \<in> {'''', ''L''}"
    and "float_digits F spec type v = d" and "fs_align spec = ALIGN_CENTER"
    and "mb_size m + length d < mb_capacity m" and "mb_capacity m < mb_size m + fs_width spec"
    and "l = (fs_width spec - length d) div 2" and "f = Some (fs_fill spec)"
  shows "\<exists>m'. write_finite F spec type None v m = Some m' \<and> mb_ok m' \<and>
    mb_text m' = mb_text m @ replicate l f @ replicate (length d) None @ replicate (fs_width spec - length d - l) f"
proof -
  let ?w = "fs_width spec"
  have shown: "format_float F (float_directive F spec ?w type) 0 (fs_precision spec) v = Some d"
    using format_float_directive [OF assms(2,3), of spec ?w v] assms(4,5) by (simp add: blank_text_def pad_blank_right)
  obtain R where R: "mb_snprintf d (mb_size m) m =
      Some (m\<lparr>mb_data := take (mb_size m) (mb_data m) @ map Some d @ Some CHR 0x00 # R\<rparr>)" (is "_ = Some ?m1")
    using mb_snprintf_fits [OF assms(6)] by blast
  have cap: "mb_capacity ?m1 = mb_capacity m" using mb_capacity_snprintf [OF R] .
  then have loop: "float_loop d (mb_size m) m = Some ?m1" using R assms(6) by (subst float_loop.simps) auto
  have T: "mb_size ?m1 = length (mb_text m)" "mb_text ?m1 = mb_text m"
    using assms(1) by (simp_all add: mb_text_def mb_ok_def mb_capacity_def)
  have "\<exists>K. mb_data (mb_resize (mb_size ?m1 + ?w) ?m1) = mb_text m @ replicate ?w None @ replicate K None"
    using assms(7) cap T by (auto simp: mb_resize_def mb_grow_def Let_def simp flip: replicate_add intro!: le_Suc_ex)
  then obtain K where "mb_data (mb_resize (mb_size ?m1 + ?w) ?m1) = mb_text m @ replicate ?w None @ replicate K None" ..
  from arrange_center_cells [OF this _ T(1) assms(5) _ assms(8), of None "mb_size m"] show ?thesis
    using assms(5-7,9) shown loop by (simp add: write_finite_def Let_def min_def)
qed

lemma mb_with_append:
  assumes "mb_ok m" and "f (mb_text m) = Some (mb_text m @ s)"
  shows "\<exists>m'. mb_with f m = Some m' \<and> mb_ok m' \<and> mb_text m' = mb_text m @ s"
proof -
  let ?T = "mb_text m" and ?m = "mb_resize (length (mb_text m @ s)) m"
  have T: "length ?T = mb_size m" using assms(1) by (simp add: mb_text_def mb_ok_def mb_capacity_def)
  have "\<exists>Y R. mb_data ?m = ?T @ Y @ R \<and> length Y = length s"
  proof (cases "length (?T @ s) > mb_capacity m")
    case True
    then have "\<exists>K. mb_data ?m = ?T @ replicate (length s) None @ replicate K None"
      by (auto simp: mb_resize_def mb_grow_def Let_def simp flip: replicate_add intro!: le_Suc_ex) (auto simp: T)
    then show ?thesis by (metis length_replicate)
  next
    case False
    then have "mb_data ?m = ?T @ take (length s) (drop (mb_size m) (mb_data m)) @ drop (mb_size m + length s) (mb_data m)"
      by (simp add: mb_resize_def mb_text_def) (metis append_take_drop_id drop_drop add.commute)
    then show ?thesis using False T by (intro exI conjI) (assumption, simp add: mb_capacity_def)
  qed
  then obtain Y R where Y: "mb_data ?m = ?T @ Y @ R" "length Y = length s" by blast
  have "mb_poke (mb_size m) s ?m = Some (?m\<lparr>mb_data := ?T @ s @ R\<rparr>)"
    by (rule mb_poke_at [OF Y(1)]) (simp_all add: T Y(2))
  moreover have "drop (mb_size m) (?T @ s) = s" using T by simp
  ultimately have "mb_with f m = Some (?m\<lparr>mb_data := ?T @ s @ R\<rparr>)" (is "_ = Some ?n") by (simp add: mb_with_def assms(2))
  moreover have "mb_data ?n = (?T @ s) @ R" "mb_size ?n = length (?T @ s)" by (simp_all add: mb_resize_def)
  then have "mb_ok ?n" "mb_text ?n = ?T @ s" by (simp_all only: mb_ok_def mb_text_def [of ?n] mb_capacity_def) simp_all
  ultimately show ?thesis by blast
qed

subsection \<open>Numbers\<close>

text \<open>What \<open>write_double\<close> stands for, given the letter and case of the type.\<close>

definition double_layout :: "'d float_ops \<Rightarrow> FormatSpec \<Rightarrow> char \<Rightarrow> bool \<Rightarrow> 'd \<Rightarrow> string" where
  "double_layout F spec type upper value =
     (let sign = sign_text (float_sign F spec value);
          v = (if fo_negative F value then fo_negate F value else value)
      in if fo_nan F v then spec_layout spec (sign @ (if upper then ''NAN'' else ''nan''))
         else if fo_inf F v then spec_layout spec (sign @ (if upper then ''INF'' else ''inf''))
         else float_layout spec sign (float_digits F spec type v))"

lemma float_type_letter: "float_type spec = Fine (type, upper) \<Longrightarrow> type \<in> set ''efgaFEGA''"
  by (auto simp: float_type_def report_unknown_type_def split: option.splits if_splits fmt_result.splits)

theorem write_double_layout:
  assumes "mb_ok m" and "float_type spec = Fine (type, upper)" and "fo_length F \<in> {'''', ''L''}"
    and "\<And>t h p v. fo_digits F t h p v \<noteq> [] \<and> hd (fo_digits F t h p v) \<noteq> CHR '' ''"
    and "fs_align spec = ALIGN_CENTER \<Longrightarrow> float_sign F spec value = None \<Longrightarrow> mb_size m + fs_width spec \<le> mb_capacity m"
  shows "\<exists>m'. write_double F value spec m = Fine m' \<and> mb_ok m' \<and>
    mb_text m' = mb_text m @ map Some (double_layout F spec type upper value)"
proof -
  let ?v = "if fo_negative F value then fo_negate F value else value" and ?sign = "float_sign F spec value"
  have named: "\<exists>m'. mb_with (write_named_float s ?sign spec) m = Some m' \<and> mb_ok m' \<and>
      mb_text m' = mb_text m @ map Some (spec_layout spec (sign_text ?sign @ s))" for s
    by (rule mb_with_append [OF assms(1)]) (rule write_named_float_layout)
  have digits: "float_digits F spec type v \<noteq> []" "hd (float_digits F spec type v) \<noteq> CHR '' ''" for v
    using assms(4) by (simp_all add: float_digits_def)
  have finite: "\<exists>m'. write_finite F spec type ?sign ?v m = Some m' \<and> mb_ok m' \<and>
      mb_text m' = mb_text m @ map Some (float_layout spec (sign_text ?sign) (float_digits F spec type ?v))"
    by (rule write_finite_layout [OF assms(1) float_type_letter [OF assms(2)] assms(3) refl digits assms(5)])
  show ?thesis
  proof (cases "fo_nan F ?v")
    case True
    then show ?thesis
      using named [of "if upper then ''NAN'' else ''nan''"] by (auto simp: write_double_def double_layout_def assms(2) Let_def)
  next
    case nan: False
    show ?thesis
    proof (cases "fo_inf F ?v")
      case True
      then show ?thesis
        using nan named [of "if upper then ''INF'' else ''inf''"]
        by (auto simp: write_double_def double_layout_def assms(2) Let_def)
    next
      case False
      then show ?thesis using nan finite by (auto simp: write_double_def double_layout_def assms(2) Let_def)
    qed
  qed
qed

end
