(* ===== verification/Log_Factories.thy ===== *)
theory Log_Factories
  imports Log_Sinks Log_Files_Properties
begin

text \<open>
  The functions of \<^verbatim>\<open>spdlog/details/spdlog_impl.h\<close> that make loggers with files and standard
  streams: each makes a sink and gives it to the registry. The world of the file sinks, and what
  a whole sequence of log calls leaves in the files.
\<close>

subsection \<open>The file sinks of a process\<close>

text \<open>
  The sinks by number, each with its level, on one disk. Flushing a file moves text that the
  contents include already.
\<close>

datatype file_sink = Simple simple_file_sink | Rotating rotating_file_sink | Daily daily_file_sink

record file_world =
  fw_disk :: disk
  fw_clock :: day_clock
  fw_sinks :: "(level_enum \<times> file_sink) list"

definition file_sink_it :: "day_clock \<Rightarrow> string \<Rightarrow> file_sink \<Rightarrow> disk \<Rightarrow> unit io \<times> file_sink \<times> disk" where
  "file_sink_it c formatted f d =
     (case f of
        Simple s \<Rightarrow> (let (x, d) = simple_sink_it formatted s d in (x, Simple s, d))
      | Rotating s \<Rightarrow> (let (x, s, d) = rotating_sink_it formatted s d in (x, Rotating s, d))
      | Daily s \<Rightarrow> (let (x, s, d) = daily_sink_it default_daily_file_name c formatted s d in (x, Daily s, d)))"

definition file_sink_log :: "nat \<Rightarrow> log_msg \<Rightarrow> file_world \<Rightarrow> unit io \<times> file_world" where
  "file_sink_log k msg w =
     (case fw_sinks w ! k of (lvl, f) \<Rightarrow>
        let (x, f, d) = file_sink_it (fw_clock w) (lm_formatted msg) f (fw_disk w)
        in (x, w\<lparr>fw_disk := d, fw_sinks := (fw_sinks w)[k := (lvl, f)]\<rparr>))"

definition file_sinks :: "file_world sink_ops" where
  "file_sinks =
     \<lparr>k_level = (\<lambda>k w. fst (fw_sinks w ! k)), k_log = file_sink_log, k_flush = (\<lambda>k w. (Returns (), w))\<rparr>"

subsection \<open>Making a logger\<close>

text \<open>
  The template \<open>create\<close>: the sink is made first, and destroyed when the registry refuses the
  name, which closes its file.
\<close>

datatype made = Made nat registry | Sink_throws spdlog_ex | Registry_throws | Sink_crashes

definition create_with :: "(disk \<Rightarrow> unit io \<times> file_sink \<times> disk) \<Rightarrow> string \<Rightarrow> file_world \<Rightarrow> registry \<Rightarrow> made \<times> file_world" where
  "create_with new_sink logger_name w r =
     (let (x, f, d) = new_sink (fw_disk w); w = w\<lparr>fw_disk := d\<rparr>
      in case x of
           Returns _ \<Rightarrow>
             (case create logger_name [length (fw_sinks w)] r of
                Some (a, r) \<Rightarrow> (Made a r, w\<lparr>fw_sinks := fw_sinks w @ [(trace, f)]\<rparr>)
              | None \<Rightarrow> (Registry_throws, w))
         | Throws e \<Rightarrow> (Sink_throws e, w)
         | Crashes \<Rightarrow> (Sink_crashes, w))"

definition basic_logger :: "string \<Rightarrow> string \<Rightarrow> bool \<Rightarrow> file_world \<Rightarrow> registry \<Rightarrow> made \<times> file_world" where
  "basic_logger logger_name fname trunc =
     create_with (\<lambda>d. let (x, s, d) = new_simple_file_sink fname trunc d in (x, Simple s, d)) logger_name"

definition rotating_logger :: "string \<Rightarrow> string \<Rightarrow> u64 \<Rightarrow> u64 \<Rightarrow> file_world \<Rightarrow> registry \<Rightarrow> made \<times> file_world" where
  "rotating_logger logger_name fname max_file_size max_files =
     create_with (\<lambda>d. let (x, s, d) = new_rotating_file_sink fname max_file_size max_files d in (x, Rotating s, d)) logger_name"

definition daily_logger :: "string \<Rightarrow> string \<Rightarrow> i32 \<Rightarrow> i32 \<Rightarrow> file_world \<Rightarrow> registry \<Rightarrow> made \<times> file_world" where
  "daily_logger logger_name fname hour minute w =
     create_with (\<lambda>d. let (x, s, d) = new_daily_file_sink default_daily_file_name (fw_clock w) fname hour minute d
                      in (x, Daily s, d)) logger_name w"

text \<open>The sinks on the standard streams are one object each, made when they are first asked for.\<close>

fun sink_index :: "(stream_sink \<Rightarrow> bool) \<Rightarrow> stream_sink list \<Rightarrow> nat" where
  "sink_index P [] = 0"
| "sink_index P (s # ss) = (if P s then 0 else Suc (sink_index P ss))"

fun is_std :: "bool \<Rightarrow> stream_sink \<Rightarrow> bool" where
  "is_std stderr (Stdout lvl) = (\<not> stderr)"
| "is_std stderr (Stderr lvl) = stderr"
| "is_std stderr s = False"

definition std_instance :: "bool \<Rightarrow> sink_world \<Rightarrow> nat \<times> sink_world" where
  "std_instance stderr w =
     (let k = sink_index (is_std stderr) (sw_sinks w)
      in (k, if k < length (sw_sinks w) then w
             else w\<lparr>sw_sinks := sw_sinks w @ [if stderr then Stderr trace else Stdout trace]\<rparr>))"

definition std_logger :: "bool \<Rightarrow> string \<Rightarrow> sink_world \<Rightarrow> registry \<Rightarrow> (nat \<times> registry) option \<times> sink_world" where
  "std_logger stderr logger_name w r =
     (let (k, w) = std_instance stderr w in (create logger_name [k] r, w))"

definition stdout_logger :: "string \<Rightarrow> sink_world \<Rightarrow> registry \<Rightarrow> (nat \<times> registry) option \<times> sink_world" where
  "stdout_logger = std_logger False"

definition stderr_logger :: "string \<Rightarrow> sink_world \<Rightarrow> registry \<Rightarrow> (nat \<times> registry) option \<times> sink_world" where
  "stderr_logger = std_logger True"

subsection \<open>Log calls on a rotating logger\<close>

text \<open>A call: level, text, time and thread. A line is what the default pattern makes of it.\<close>

type_synonym log_call = "level_enum \<times> string \<times> int \<times> u64"

definition line_of :: "log_os \<Rightarrow> string \<Rightarrow> log_call \<Rightarrow> string" where
  "line_of os name call =
     (case call of (lvl, s, now, thread) \<Rightarrow>
        case full_format os ((new_log_msg name lvl now thread)\<lparr>lm_raw := s\<rparr>) (os_localtime os (now sdiv 1000000000)) of
          Some line \<Rightarrow> line @ default_eol | None \<Rightarrow> '''')"

definition log_call :: "log_os \<Rightarrow> log_call \<Rightarrow> logger \<times> file_world \<Rightarrow> logger \<times> file_world" where
  "log_call os call lw =
     (case call of (lvl, s, now, thread) \<Rightarrow> snd (logger_log file_sinks os now thread lvl s (fst lw) (snd lw)))"

definition wanted :: "log_call list \<Rightarrow> log_call list" where
  "wanted calls = filter (\<lambda>c. info \<le> fst c) calls"

text \<open>The logger up to the errors it met.\<close>

definition default_logger :: "string \<Rightarrow> nat \<Rightarrow> spdlog_ex list \<Rightarrow> logger" where
  "default_logger name k es =
     (logger_flush_on off (logger_set_level info (new_logger name [k])))\<lparr>lg_errors := es\<rparr>"

lemma log_call_rotating:
  assumes "k < length (fw_sinks w)" and "fw_sinks w ! k = (trace, Rotating s)"
    and "rotating_sink_it (line_of os name c) s (fw_disk w) = (Returns (), s', d')" and "info \<le> fst c"
  shows "log_call os c (default_logger name k es, w) =
    (default_logger name k es, w\<lparr>fw_disk := d', fw_sinks := (fw_sinks w)[k := (trace, Rotating s')]\<rparr>)"
proof -
  obtain lvl t now thread where c: "c = (lvl, t, now, thread)" by (cases c)
  let ?msg = "(new_log_msg name lvl now thread)\<lparr>lm_raw := t\<rparr>" and ?l = "default_logger name k es"
  obtain line where line: "full_format os ?msg (os_localtime os (now sdiv 1000000000)) = Some line"
    using full_format_Some by blast
  have "\<not> (off \<le> lvl \<and> lvl \<noteq> off)" by (cases lvl) (simp_all add: less_eq_level_enum_def)
  moreover have "trace \<le> lvl" by (simp add: less_eq_level_enum_def)
  moreover have "pattern_format (lg_formatter ?l) os ?msg = Some (?msg\<lparr>lm_formatted := line_of os name c\<rparr>)"
    using line
    by (simp add: default_logger_def logger_flush_on_def logger_set_level_def new_logger_def default_pattern new_log_msg_def
        c line_of_def)
  ultimately show ?thesis
    using assms
    by (auto simp: log_call_def c logger_log_def should_log_def logger_sink_it_def format_and_log_def
        should_flush_on_def catch_errors_def default_logger_def logger_flush_on_def logger_set_level_def new_logger_def
        sink_should_log_def file_sinks_def file_sink_log_def file_sink_it_def new_log_msg_def)
qed

lemma log_call_unwanted: "\<not> info \<le> fst c \<Longrightarrow> log_call os c (default_logger name k es, w) = (default_logger name k es, w)"
  by (auto simp: log_call_def logger_log_def should_log_def default_logger_def logger_flush_on_def logger_set_level_def
      split: prod.split)

lemma log_calls_rotating:
  assumes "k < length (fw_sinks w)" and "fw_sinks w ! k = (trace, Rotating s)"
    and "log_all (map (line_of os name) (wanted calls)) s (fw_disk w) = Some (s', d')"
  shows "fold (log_call os) calls (default_logger name k es, w) =
    (default_logger name k es, w\<lparr>fw_disk := d', fw_sinks := (fw_sinks w)[k := (trace, Rotating s')]\<rparr>)"
  using assms
proof (induction calls arbitrary: s w)
  case Nil
  then have "(fw_sinks w)[k := (trace, Rotating s)] = fw_sinks w" by (metis list_update_id)
  then show ?case using Nil by (simp add: wanted_def)
next
  case (Cons c calls)
  show ?case
  proof (cases "info \<le> fst c")
    case True
    then obtain s1 d1 where 1: "rotating_sink_it (line_of os name c) s (fw_disk w) = (Returns (), s1, d1)"
      "log_all (map (line_of os name) (wanted calls)) s1 d1 = Some (s', d')"
      using Cons.prems(3) by (auto simp: wanted_def split: prod.splits io.splits)
    let ?w = "w\<lparr>fw_disk := d1, fw_sinks := (fw_sinks w)[k := (trace, Rotating s1)]\<rparr>"
    have "fold (log_call os) calls (default_logger name k es, ?w) = (default_logger name k es,
        ?w\<lparr>fw_disk := d', fw_sinks := (fw_sinks ?w)[k := (trace, Rotating s')]\<rparr>)"
      by (rule Cons.IH) (use Cons.prems(1) 1(2) in simp_all)
    then show ?thesis using log_call_rotating [OF Cons.prems(1,2) 1(1) True] by simp
  next
    case False
    then have "wanted (c # calls) = wanted calls" by (simp add: wanted_def)
    then show ?thesis using Cons.IH [OF Cons.prems(1,2)] Cons.prems(3) by (simp add: log_call_unwanted [OF False])
  qed
qed

lemma create_default:
  "create name ks r = Some (a, r') \<Longrightarrow> registry_defaults r \<Longrightarrow>
    rg_heap r' ! a = Sync (logger_flush_on off (logger_set_level info (new_logger name ks)))"
  by (auto simp: create_def adopt_def registry_defaults_def Let_def split: if_splits)

text \<open>
  C9: A rotating logger keeps the end of the log and loses no more than it must. In a process with
  the library's defaults, on a disk without failures, with a base name that is not empty and fewer
  than 2^64 bytes in all, whatever calls are made on a logger from \<open>rotating_logger_mt\<close>: no call
  reports an error, and the log file and its backups are exactly what the rule \<open>roll\<close> makes of the
  files there were and of the formatted lines of the calls of level info and above, in order. The
  rule: a line that fits within the limit is added to the file in use; one that does not begins a
  new file, every file moves one place, and only the oldest of the backups is lost. So the files
  read from the oldest to the newest are the old contents and all lines, less the oldest files
  dropped for the lines that did not fit. No file outgrows the limit when none did before and no
  line does by itself, and no other file is touched.
\<close>

theorem rotating_logger_keeps_tail:
  assumes "rotating_logger name base max_size max_files w r = (Made a r', w1)" and "registry_defaults r"
    and "sound (fw_disk w)" and "base \<noteq> ''''" and "lines = map (line_of os name) (wanted calls)"
    and "length (old_text base (fw_disk w)) + length (concat lines) < 2 ^ 64" and "n = unat max_files"
    and "old = chain base n (fw_disk w)" and "m = unat max_size"
  shows "\<exists>l w2. rg_heap r' ! a = Sync l \<and> fold (log_call os) calls (l, w1) = (l, w2) \<and>
    chain base n (fw_disk w2) = fold (roll m) lines (opened old) \<and>
    chain_text old @ concat lines = dropped m lines (opened old) @ chain_text (chain base n (fw_disk w2)) \<and>
    (files_within m old \<longrightarrow> list_all (\<lambda>line. length line \<le> m) lines \<longrightarrow>
     files_within m (chain base n (fw_disk w2))) \<and>
    (\<forall>f. f \<notin> backup base ` {0..n} \<longrightarrow> dk_files (fw_disk w2) f = dk_files (fw_disk w) f)"
proof -
  let ?k = "length (fw_sinks w)"
  obtain x s d where new: "new_rotating_file_sink base max_size max_files (fw_disk w) = (x, s, d)" by (metis prod_cases3)
  have made: "create name [?k] r = Some (a, r')" "w1 = w\<lparr>fw_disk := d, fw_sinks := fw_sinks w @ [(trace, Rotating s)]\<rparr>"
    using assms(1) by (auto simp: rotating_logger_def create_with_def new Let_def split: io.splits option.splits)
  obtain s' d' where run: "log_all lines s d = Some (s', d')"
    and chain: "chain base n d' = fold (roll m) lines (opened old)"
      "\<forall>f. f \<notin> backup base ` {0..n} \<longrightarrow> dk_files d' f = dk_files (fw_disk w) f"
    using rotating_sink_rolls [OF assms(3) new assms(4,6,7)] unfolding assms(8,9) by blast
  have "rg_heap r' ! a = Sync (default_logger name ?k [])"
    using create_default [OF made(1) assms(2)]
    by (simp add: default_logger_def logger_flush_on_def logger_set_level_def new_logger_def)
  moreover define w2 where "w2 = w1\<lparr>fw_disk := d', fw_sinks := (fw_sinks w1)[?k := (trace, Rotating s')]\<rparr>"
  have "fold (log_call os) calls (default_logger name ?k [], w1) = (default_logger name ?k [], w2)"
    unfolding w2_def by (rule log_calls_rotating) (use run made(2) assms(5) in simp_all)
  moreover have "fw_disk w2 = d'" by (simp add: w2_def)
  moreover have o: "old \<noteq> []" "opened old \<noteq> []" by (simp_all add: assms(8) opened_def)
  moreover have "chain_text old @ concat lines = dropped m lines (opened old) @ chain_text (chain base n d')"
    unfolding chain(1) using rolls_text [OF o(2)] opened_text [OF o(1)] by metis
  moreover have "files_within m old \<longrightarrow> list_all (\<lambda>line. length line \<le> m) lines \<longrightarrow> files_within m (chain base n d')"
    unfolding chain(1) using rolls_within [OF o(2)] opened_within [OF o(1)] by blast
  ultimately show ?thesis using chain by blast
qed

definition sample_files :: file_world where
  "sample_files =
     \<lparr>fw_disk = \<lparr>dk_files = (\<lambda>_. None), dk_fault = (\<lambda>_. None), dk_count = 0\<rparr>,
      fw_clock = \<lparr>dc_now = 0, dc_local = os_localtime sample_os 0, dc_mktime = (\<lambda>_. 0)\<rparr>, fw_sinks = []\<rparr>"

definition sample_calls :: "log_call list" where
  "sample_calls = [(info, ''started'', 0, 7), (debug, ''not shown'', 1, 7), (err, ''stopped'', 2, 7)]"

lemma sample_lines:
  "map (line_of sample_os ''app'') (wanted sample_calls) =
    [''[2018-01-09 00:07:05.000] [app] [info] started'' @ default_eol,
     ''[2018-01-09 00:07:05.000] [app] [error] stopped'' @ default_eol]"
  by code_simp

theorem rotating_logger_keeps_tail_witness:
  "\<exists>a r' w1 l w2. rotating_logger ''app'' ''a.txt'' 60 1 sample_files new_registry = (Made a r', w1) \<and>
    rg_heap r' ! a = Sync l \<and> fold (log_call sample_os) sample_calls (l, w1) = (l, w2) \<and>
    chain ''a.txt'' 1 (fw_disk w2) =
      [Some (''[2018-01-09 00:07:05.000] [app] [error] stopped'' @ default_eol),
       Some (''[2018-01-09 00:07:05.000] [app] [info] started'' @ default_eol)]"
proof -
  have sd: "sound (fw_disk sample_files)" by (simp add: sound_def sample_files_def)
  have c: "chain ''a.txt'' 1 (fw_disk sample_files) = [None, None]" by (simp add: chain_def sample_files_def)
  have fs: "fw_sinks sample_files = []" by (simp add: sample_files_def)
  have "create ''app'' [0] new_registry \<noteq> None"
    by (simp add: create_def throws_if_exists_def umap_has_def new_registry_def)
  then obtain a r' where "create ''app'' [0] new_registry = Some (a, r')" by auto
  moreover obtain x s d where n: "new_rotating_file_sink ''a.txt'' 60 1 (fw_disk sample_files) = (x, s, d)" by (metis prod_cases3)
  moreover have old: "old_text ''a.txt'' (fw_disk sample_files) = []" by (simp add: old_text_def sample_files_def)
  then have "x = Returns ()" using new_rotating_writing [OF sd n] by simp
  ultimately obtain w1 where made: "rotating_logger ''app'' ''a.txt'' 60 1 sample_files new_registry = (Made a r', w1)"
    by (simp add: rotating_logger_def create_with_def fs)
  have reg: "registry_defaults new_registry" by (simp add: registry_defaults_def new_registry_def)
  have len: "length (old_text ''a.txt'' (fw_disk sample_files)) +
      length (concat (map (line_of sample_os ''app'') (wanted sample_calls))) < 2 ^ 64"
    by (simp add: sample_lines old default_eol_def)
  show ?thesis
    using rotating_logger_keeps_tail [OF made reg sd _ refl len refl refl refl] made c unfolding sample_lines
    by (auto simp: opened_def roll_def rolls_def file_text_def default_eol_def)
qed

subsection \<open>A name that is taken\<close>

text \<open>
  The sink is made before the name is looked up: a second \<open>basic_logger_mt\<close> with \<open>truncate\<close> throws,
  and has emptied the file, be it the one the first logger writes to.
\<close>

lemma refused_logger_truncates:
  assumes "get_logger name r \<noteq> None" and "sound (fw_disk w)"
  shows "\<exists>w'. basic_logger name fname True w r = (Registry_throws, w') \<and>
    dk_files (fw_disk w') = (dk_files (fw_disk w))(fname \<mapsto> '''')"
proof -
  have "create name ks r = None" for ks
    using assms(1) by (simp add: create_def throws_if_exists_def get_logger_def umap_has_def)
  then show ?thesis
    using sound_open [OF assms(2), of fname True new_file_helper]
    by (auto simp: basic_logger_def create_with_def new_simple_file_sink_def becomes_def)
qed

text \<open>All loggers on one standard stream share a sink.\<close>

lemma sink_index_sound: "k = sink_index P ss \<Longrightarrow> k < length ss \<Longrightarrow> P (ss ! k)"
  by (induction ss arbitrary: k) (auto split: if_splits)

lemma sink_index_append: "sink_index P ss = length ss \<Longrightarrow> P s \<Longrightarrow> sink_index P (ss @ [s]) = length ss"
  by (induction ss) (auto split: if_splits)

lemma sink_index_le: "sink_index P ss \<le> length ss"
  by (induction ss) auto

lemma std_instance_again:
  assumes "std_instance stderr w = (k, w')"
  shows "std_instance stderr w' = (k, w') \<and> k < length (sw_sinks w') \<and> is_std stderr (sw_sinks w' ! k)"
proof (cases "sink_index (is_std stderr) (sw_sinks w) < length (sw_sinks w)")
  case True
  then show ?thesis using assms sink_index_sound by (auto simp: std_instance_def Let_def)
next
  case False
  then have e: "sink_index (is_std stderr) (sw_sinks w) = length (sw_sinks w)"
    using sink_index_le [of "is_std stderr" "sw_sinks w"] by simp
  let ?s = "if stderr then Stderr trace else Stdout trace"
  have "sink_index (is_std stderr) (sw_sinks w @ [?s]) = length (sw_sinks w)"
    by (rule sink_index_append [OF e]) simp
  moreover have "k = length (sw_sinks w)" "w' = w\<lparr>sw_sinks := sw_sinks w @ [?s]\<rparr>"
    using assms e by (simp_all add: std_instance_def Let_def)
  ultimately show ?thesis by (simp add: std_instance_def Let_def)
qed

end
