(* ===== verification/Spec2Isabelle.thy ===== *)
theory Spec2Isabelle
  imports Storage_Properties Node_Delivery Thread_Pool Unique_Id Fmt_Int_Properties Log_Pattern
    Log_Queue_Properties Log_Files_Properties Log_Logger_Properties Log_Sinks Fmt_Args_Properties
    Fmt_Double_Properties Log_Factories
begin

text \<open>
  SapphireDB, a replicated log in C++ (\<^verbatim>\<open>src/sapphiredb\<close>): a verification library of its
  consensus, storage, network and logging code. This theory only collects the others.

  The program. A \<open>Node\<close> (\<^verbatim>\<open>raft/node.cc\<close>) owns a \<open>Raft\<close> object (\<^verbatim>\<open>raft/raft.cc\<close>), which
  keeps a \<open>Progress\<close> of every follower (\<^verbatim>\<open>raft/progress.cc\<close>) and writes its log to a
  \<open>Storage\<close> (\<^verbatim>\<open>raft/storage.cc\<close>), and an event loop (\<^verbatim>\<open>common/epoll.cc\<close> or
  \<^verbatim>\<open>common/kqueue.cc\<close>, both over \<^verbatim>\<open>common/net.cc\<close>). The threads of the node run on thread
  pools (\<^verbatim>\<open>common/thread_pool.h\<close>): they move serialised messages (\<^verbatim>\<open>raft/raftpb\<close>) between the
  queues of the \<open>Raft\<close> object and the buffers of the event loop, bind connections to node
  ids, let the \<open>Raft\<close> object step and tick, and persist its log. Everything logs through
  the copy of spdlog under \<^verbatim>\<open>common/spdlog\<close>.

  Theories and the code they model.
  \<^item> Consensus. \<open>Progress_Tracker\<close> is \<open>Progress\<close>; \<open>Raft_State\<close> the class \<open>Raft\<close> as a record
    with the changes of role; \<open>Raft_Log\<close> its log; \<open>Raft_Step\<close> sending, \<open>stepLeader\<close>,
    \<open>stepCandidate\<close>, \<open>stepFollower\<close>, \<open>generalStep\<close>, the timers and the queues;
    \<open>Storage_File\<close> the class \<open>Storage\<close> over the bytes of its file.
  \<^item> Messages. \<open>Raftpb\<close> has the seven generated classes as records, \<open>Raftpb_Codec\<close> their
    parsers, sizes and serialisers, \<open>Raftpb_Operations\<close> copying, merging and swapping. They
    call the protobuf runtime, which is the parameter \<open>W\<close> of \<open>Wire_Format\<close>.
  \<^item> Network and threads. \<open>Net_Buffer\<close> is \<open>Netcon\<close>; \<open>Net_System\<close> what both event loops
    share; \<open>Epoll_Loop\<close> and \<open>Kqueue_Loop\<close> the two classes; \<open>Thread_Pool\<close> the pool;
    \<open>Node_Threads\<close> the node, its constructors and one turn of each of its tasks;
    \<open>Unique_Id\<close> the ids of \<^verbatim>\<open>common/uniqueid.cc\<close>.
  \<^item> Formatting, \<^verbatim>\<open>fmt/bundled/format.h\<close>. \<open>Fmt_Int\<close> prints integers; \<open>Fmt_Args\<close> is how
    arguments travel, packed with their types; \<open>Fmt_Format\<close> the parser of format strings and
    the output of every kind of argument; \<open>Fmt_Double\<close> prints floating-point numbers, into a
    buffer with its capacity, which this code writes beyond the text; \<open>Fmt_Printf\<close> is the library's
    own \<open>printf\<close>, \<^verbatim>\<open>fmt/bundled/printf.h\<close>.
  \<^item> Logging. \<open>Log_Message\<close> has levels and messages; \<open>Log_Pattern\<close> the pattern formatter; \<open>Log_Queue\<close> the lock-free
    queue; \<open>Log_Files\<close> the file helper and the file sinks; \<open>Log_Logger\<close> loggers, the helper
    and worker of asynchronous ones; \<open>Log_Registry\<close> the table of loggers; \<open>Log_Calls\<close> log
    calls with arguments and the default error handler; \<open>Log_Sinks\<close> the sinks on streams and
    the colored loggers; \<open>Log_Factories\<close> the loggers on files and standard
    streams; \<open>Log_Lines\<close> every log call of the program, named by its file and line.

  A state is a record whose fields stand for the class's members (\<open>r_currentTerm\<close> is
  \<open>_currentTerm\<close>, \<open>e_peersfd\<close> is \<open>peersfd\<close>); an operation keeps its source's name, with the
  class in front where two classes share it, and answers the new state. Integers have the
  width they have in the code and wrap; a call without defined meaning (a vector read out
  of range, a null pointer) has no result. Inputs from outside are arguments: \<open>env\<close> holds
  the codec and the stale bytes of a stack array, \<open>r_rand\<close> what the random engine and its
  distribution answer (the static objects of \<open>rand\<close> are the field \<open>r_static\<close>),
  \<open>sys\<close> the kernel's calls over a state of the world, \<open>log_os\<close> and \<open>day_clock\<close> the clock.

  What the lemmas show.
  \<^item> \<open>Raft_Moves\<close> is the abstract specification of a node, the moves it may make for a
    message, each with the condition under which it is allowed and the messages it may send; \<open>Raft_Invariants\<close> what every move keeps; \<open>Raft_Log_Facts\<close> and
    \<open>Raft_Step_Facts\<close> the outcome of the operations, branch by branch; \<open>Raft_Replication\<close>
    a leader and a follower together; \<open>Raft_Node\<close> the states a node can reach.
    \<open>Raft_Properties\<close> and \<open>Raft_Log_Properties\<close> hold the properties: the invariant of the
    reachable states, committed entries never change, replication and commitment, elections
    and votes, and where the code departs from the protocol it implements.
  \<^item> \<open>Raftpb_Roundtrip\<close>, \<open>Codec_Properties\<close>: parsers read back what serialisers write and
    end on any input, sizes are exact, both serialisers agree; \<open>Wire_Varint\<close> is a runtime
    that meets the laws. \<open>Storage_Properties\<close>: what a log file gives back, and what a
    restart forgets.
  \<^item> \<open>Net_Properties\<close>, \<open>Node_Properties\<close>, \<open>Node_Delivery\<close>: the reading loop ends, a partial
    write repeats a prefix, any interleaving of the threads whose calls do not overlap is a run of
    the \<open>Raft\<close> object,
    connections are bound in order, a message crosses two event loops unchanged, and one
    longer than the buffer blocks its sender. \<open>Thread_Pool\<close>: tasks start in order and none
    is lost.
  \<^item> \<open>Fmt_Int_Properties\<close>, \<open>Fmt_Layout\<close>: digits are counted and printed as in the
    schoolbook, in every base and alignment. \<open>Fmt_Args_Properties\<close>: an argument list gives back
    the arguments. \<open>Fmt_Template\<close> is the specification of format strings, an abstract syntax with
    a printer and a meaning; \<open>Fmt_Format_Properties\<close> shows that the parser and the output routines
    implement it, \<open>Fmt_Types\<close> that a check of the types of the arguments is enough for a call to
    succeed. \<open>Fmt_Double_Properties\<close>: where a number stands in its field, and when a centered one
    is lost. \<open>Fmt_Printf_Properties\<close>: the meaning of \<open>printf\<close>'s format strings.
  \<^item> \<open>Log_Pattern\<close>: a table of what every flag prints, and the formatter prints a pattern as the
    table says, unknown flags unchanged. \<open>Log_Queue_Properties\<close>: the queue is first-in
    first-out under any interleaving. \<open>Log_Files_Properties\<close>, \<open>Log_Factories\<close>: a rule on
    lists of files that the rotating logger follows line by line, losing only its oldest file and only
    when a line does not fit; a failed rotation is tried again. \<open>Log_Logger_Properties\<close>: an
    asynchronous logger writes what a synchronous one would. \<open>Log_Registry\<close>: names are
    unique, and so a second node in one process cannot be made. \<open>Log_Calls\<close>: errors are
    reported at most once a minute. \<open>Log_Lines\<close>, \<open>Log_Sinks\<close>: every log call of the program is
    well typed, all but two print all their arguments, and what each shows on the terminal, those
    without arguments too.

  Interfaces (\<open>Interfaces\<close>, and the locales beside their clients): FIFO queues, with one
  interpretation for each queue of the program; invariants and monotone values of step
  relations; byte codecs; the laws of the protobuf runtime; event loops that keep the size
  of their buffers; tables of unique names.

  Bounds. The loops of \<open>handleRead\<close> and \<open>handleWrite\<close> and of the worker of an asynchronous
  logger get a number of turns; the properties give a number that is enough for what the
  kernel, or the queue, holds. Parsers recurse on the input that is left. Positions of the
  lock-free queue are 64 bits wide, and its property holds for fewer than \<open>2 ^ 62\<close> values.

  Not modelled. Condition variables are the guards of steps. A step of a node is one call on the
  shared objects, with storing the log and clearing \<open>Ready\<close> as two; steps do not overlap. The
  code does not ensure that for its \<open>Raft\<close> object, on which the ticking thread works without a
  lock and the stepping and persisting threads under different ones: what a data race does is not
  modelled. The sink, queue and buffer locks are the atomicity of their steps; log lines have no effect on the other components, so the models of the components
  leave them out and \<open>Log_Lines\<close> has them apart; the arguments of a log call are evaluated only
  where that can fault. In \<open>Fmt_Format\<close>, whose buffers have no
  capacity, the output of floating-point numbers and of user-defined types is a parameter; in
  \<open>Fmt_Double\<close> the digits that the C library prints for a number are. Opening the log file of \<open>Storage\<close>
  succeeds. The lock-free queue is sequentially consistent. Descriptors, reflection and
  arenas of the generated classes, wide characters, system errors and the \<^verbatim>\<open>posix\<close>
  part of fmt, sinks that write to system services, the headers of protobuf and the test programs are left out:
  they are library or platform code that the program's logic does not depend on.
\<close>

end
